(* ===== verification/Prelude.thy ===== *)
theory Prelude
  imports Complex_Main "HOL-Library.Word"
begin

text \<open>
  Shared vocabulary of the development: machine integers and byte strings, the slicing
  operations of Rust's \<^verbatim>\<open>&[u8]\<close>, big-endian integer codecs, the collections that carry
  the proofs, and two interfaces that several components implement: \<open>codec\<close> (a decoder
  inverts an encoder) and \<open>machine\<close> (operations keep an invariant, so every run does).

  Conventions. A \<^verbatim>\<open>usize\<close> is a \<open>nat\<close>, since the values modelled are lengths and indices of
  buffers that exist in memory; \<^verbatim>\<open>u8\<close>, \<^verbatim>\<open>u16\<close>, \<^verbatim>\<open>u32\<close> and \<^verbatim>\<open>u64\<close> are words. An \<^verbatim>\<open>f64\<close> is a
  \<open>real\<close>: rounding and NaN are not modelled. A \<^verbatim>\<open>HashMap\<close> is a partial function, a
  \<^verbatim>\<open>HashSet\<close> a set, a \<^verbatim>\<open>VecDeque\<close> or \<^verbatim>\<open>Vec\<close> a list.
\<close>

unbundle bit_operations_syntax

type_synonym u8 = "8 word"
type_synonym u16 = "16 word"
type_synonym u32 = "32 word"
type_synonym u64 = "64 word"
type_synonym bytes = "u8 list"

named_theorems wire_simps "equations of the wire formats"
named_theorems op_defs "definitions of the operations of a component"

section \<open>Byte strings\<close>

text \<open>\<open>byte_range a b xs\<close> is \<^verbatim>\<open>&xs[a..b]\<close> where the source has checked \<open>a \<le> b \<le> length xs\<close>;
  \<open>get_range a b xs\<close> is \<^verbatim>\<open>xs.get(a..b)\<close>, \<open>get_byte i xs\<close> is \<^verbatim>\<open>xs.get(i)\<close>.\<close>

definition byte_range :: "nat \<Rightarrow> nat \<Rightarrow> 'a list \<Rightarrow> 'a list" where
  "byte_range a b xs = take (b - a) (drop a xs)"

definition get_range :: "nat \<Rightarrow> nat \<Rightarrow> 'a list \<Rightarrow> 'a list option" where
  "get_range a b xs = (if a \<le> b \<and> b \<le> length xs then Some (byte_range a b xs) else None)"

definition get_byte :: "nat \<Rightarrow> 'a list \<Rightarrow> 'a option" where
  "get_byte i xs = (if i < length xs then Some (xs ! i) else None)"

lemma length_byte_range [simp]: "length (byte_range a b xs) = min (b - a) (length xs - a)"
  by (simp add: byte_range_def)

lemma byte_range_append_left: "b \<le> length xs \<Longrightarrow> byte_range a b (xs @ ys) = byte_range a b xs"
  by (simp add: byte_range_def)

lemma byte_range_append_right:
  "length xs \<le> a \<Longrightarrow> byte_range a b (xs @ ys) = byte_range (a - length xs) (b - length xs) ys"
  by (simp add: byte_range_def)

lemma byte_range_all: "length xs \<le> b \<Longrightarrow> byte_range 0 b xs = xs"
  by (simp add: byte_range_def)

lemma byte_range_exact: "length xs = a \<Longrightarrow> length ys = b - a \<Longrightarrow> byte_range a b (xs @ ys @ zs) = ys"
  by (simp add: byte_range_def)

lemma take_byte_range_drop: "a \<le> b \<Longrightarrow> take a xs @ byte_range a b xs @ drop b xs = xs"
  by (simp add: byte_range_def) (metis append_take_drop_id drop_drop le_add_diff_inverse2)

lemma split_byte_range:
  assumes "a \<le> b" and "b < length xs"
  shows "xs = take a xs @ byte_range a b xs @ [xs ! b] @ drop (Suc b) xs"
proof -
  have "drop b xs = [xs ! b] @ drop (Suc b) xs"
    using assms(2) by (simp add: Cons_nth_drop_Suc)
  then show ?thesis using take_byte_range_drop [OF assms(1), of xs] by simp
qed

lemma get_byte_Some: "i < length xs \<Longrightarrow> get_byte i xs = Some (xs ! i)"
  by (simp add: get_byte_def)

lemma get_byte_None: "length xs \<le> i \<Longrightarrow> get_byte i xs = None"
  by (simp add: get_byte_def)

section \<open>Big-endian integers\<close>

text \<open>\<^verbatim>\<open>u16::to_be_bytes\<close> and \<^verbatim>\<open>u16::from_be_bytes\<close>.\<close>

definition u16_to_be_bytes :: "u16 \<Rightarrow> bytes" where
  "u16_to_be_bytes w = [ucast (drop_bit 8 w), ucast w]"

definition u16_from_be_bytes :: "u8 \<Rightarrow> u8 \<Rightarrow> u16" where
  "u16_from_be_bytes a b = push_bit 8 (ucast a) OR ucast b"

lemma length_u16_to_be_bytes [simp]: "length (u16_to_be_bytes w) = 2"
  by (simp add: u16_to_be_bytes_def)

lemma u16_be_roundtrip [simp]: "u16_from_be_bytes (ucast (drop_bit 8 w)) (ucast w) = w"
  unfolding u16_from_be_bytes_def
  by (rule bit_word_eqI) (auto simp: bit_simps)

text \<open>A fold over bytes as in \<^verbatim>\<open>iter().fold(0u64, |acc, b| (acc << 8) | *b as u64)\<close>.\<close>

definition be_fold_u64 :: "bytes \<Rightarrow> u64" where
  "be_fold_u64 bs = foldl (\<lambda>acc b. push_bit 8 acc OR ucast b) 0 bs"

section \<open>Lists and maps\<close>

lemma length_filter_le' [intro]: "length xs \<le> n \<Longrightarrow> length (filter P xs) \<le> n"
  by (meson le_trans length_filter_le)

lemma find_Some_set: "find P xs = Some x \<Longrightarrow> x \<in> set xs \<and> P x"
  by (auto simp: find_Some_iff)

text \<open>Replacing the first element that satisfies a predicate: \<^verbatim>\<open>iter_mut().find(..)\<close>
  followed by an assignment through the reference.\<close>

fun update_first :: "('a \<Rightarrow> bool) \<Rightarrow> ('a \<Rightarrow> 'a) \<Rightarrow> 'a list \<Rightarrow> 'a list" where
  "update_first P f [] = []"
| "update_first P f (x # xs) = (if P x then f x # xs else x # update_first P f xs)"

lemma length_update_first [simp]: "length (update_first P f xs) = length xs"
  by (induction xs) auto

lemma map_update_first:
  "(\<And>x. P x \<Longrightarrow> g (f x) = g x) \<Longrightarrow> map g (update_first P f xs) = map g xs"
  by (induction xs) auto

lemma set_update_first: "set (update_first P f xs) \<subseteq> set xs \<union> f ` set xs"
  by (induction xs) auto

lemma update_first_noop: "\<not> (\<exists>x\<in>set xs. P x) \<Longrightarrow> update_first P f xs = xs"
  by (induction xs) auto

section \<open>Codecs\<close>

text \<open>
  The contract between an encoder and its decoder on the well-formed values: what every
  wire format of the program promises its peer.
\<close>

locale codec =
  fixes encode :: "'a \<Rightarrow> bytes"
    and decode :: "bytes \<Rightarrow> 'a option"
    and wf :: "'a \<Rightarrow> bool"
  assumes decode_encode: "wf x \<Longrightarrow> decode (encode x) = Some x"
begin

lemma encode_inj:
  assumes "wf x" and "wf y" and "encode x = encode y"
  shows "x = y"
proof -
  have "Some x = Some y"
    by (simp only: decode_encode [OF assms(1), symmetric] decode_encode [OF assms(2), symmetric] assms(3))
  then show ?thesis by simp
qed

lemma decode_surj: "wf x \<Longrightarrow> \<exists>bs. decode bs = Some x"
  using decode_encode by blast

end

text \<open>A codec whose decoder also ignores what follows the encoding.\<close>

locale prefix_codec = codec +
  assumes decode_trailing: "wf x \<Longrightarrow> decode (encode x @ rest) = Some x"
begin

lemma encode_prefix_free:
  assumes "wf x" and "wf y" and "encode x @ r = encode y @ s"
  shows "x = y"
proof -
  have "decode (encode x @ r) = Some x" by (rule decode_trailing [OF assms(1)])
  moreover have "decode (encode y @ s) = Some y" by (rule decode_trailing [OF assms(2)])
  ultimately show ?thesis by (simp only: assms(3) option.inject)
qed

end

section \<open>Machines\<close>

text \<open>
  A component as a deterministic machine: a start state and an operation per event. What
  every operation keeps holds after every run.
\<close>

definition run :: "('e \<Rightarrow> 's \<Rightarrow> 's) \<Rightarrow> 'e list \<Rightarrow> 's \<Rightarrow> 's" where
  "run step es s = fold step es s"

lemma run_Nil [simp]: "run step [] s = s"
  by (simp add: run_def)

lemma run_Cons [simp]: "run step (e # es) s = run step es (step e s)"
  by (simp add: run_def)

lemma run_append: "run step (es @ fs) s = run step fs (run step es s)"
  by (simp add: run_def)

locale machine =
  fixes step :: "'e \<Rightarrow> 's \<Rightarrow> 's"
    and start :: "'s"
    and inv :: "'s \<Rightarrow> bool"
  assumes inv_start: "inv start"
    and inv_step: "inv s \<Longrightarrow> inv (step e s)"
begin

lemma inv_run: "inv s \<Longrightarrow> inv (run step es s)"
  by (induction es arbitrary: s) (auto intro: inv_step)

lemma inv_reachable: "inv (run step es start)"
  by (rule inv_run [OF inv_start])

end

end
