(* ===== verification/Identity.thy ===== *)
theory Identity
  imports Prelude
begin

text \<open>
  Identities, \<^verbatim>\<open>src/identity.rs\<close> and \<^verbatim>\<open>src/known_destinations.rs\<close>: hashes, the authenticated
  token, key loading, encryption to an identity with and without a ratchet, signature
  validation, the memory of peers' ratchets and of known destinations.

  The primitives (SHA-256, HMAC-SHA-256, AES-256-CBC with PKCS7 padding, HKDF, X25519, Ed25519)
  are code of other crates: the fields of a record \<open>crypto\<close> that the operations take as an
  argument. What the round trips rely on is stated as \<open>crypto_ok\<close>: decryption inverts
  encryption under the same key and IV, a Diffie-Hellman exchange agrees on both sides, and the
  fixed output lengths. Random bytes (IV, ephemeral key) are arguments.
\<close>

record crypto =
  c_sha :: "bytes \<Rightarrow> bytes"
  c_hmac :: "bytes \<Rightarrow> bytes \<Rightarrow> bytes"
  c_aes_enc :: "bytes \<Rightarrow> bytes \<Rightarrow> bytes \<Rightarrow> bytes"
  c_aes_dec :: "bytes \<Rightarrow> bytes \<Rightarrow> bytes \<Rightarrow> bytes option"
  c_hkdf :: "bytes \<Rightarrow> bytes \<Rightarrow> bytes"
  c_dh :: "bytes \<Rightarrow> bytes \<Rightarrow> bytes"
  c_x_pub :: "bytes \<Rightarrow> bytes"
  c_ed_pub :: "bytes \<Rightarrow> bytes"
  c_ed_key_ok :: "bytes \<Rightarrow> bool"
  c_ed_verify :: "bytes \<Rightarrow> bytes \<Rightarrow> bytes \<Rightarrow> bool"

definition crypto_ok :: "crypto \<Rightarrow> bool" where
  "crypto_ok c \<longleftrightarrow>
     (\<forall>k iv m. c_aes_dec c k iv (c_aes_enc c k iv m) = Some m)
     \<and> (\<forall>k m. length (c_hmac c k m) = 32)
     \<and> (\<forall>s z. length (c_hkdf c s z) = 64)
     \<and> (\<forall>a b. c_dh c a (c_x_pub c b) = c_dh c b (c_x_pub c a))
     \<and> (\<forall>a. length (c_x_pub c a) = 32)"

text \<open>An error the code returns, and a panic (an index or slice out of range, an \<^verbatim>\<open>unwrap\<close>).\<close>

datatype error = Err string | Panic

abbreviation (input) KEY_LEN :: nat where "KEY_LEN \<equiv> 64"
abbreviation (input) NAME_HASH_LEN :: nat where "NAME_HASH_LEN \<equiv> 10"
abbreviation (input) RATCHET_LEN :: nat where "RATCHET_LEN \<equiv> 32"
abbreviation (input) RATCHET_EXPIRY :: nat where "RATCHET_EXPIRY \<equiv> 2592000"
abbreviation (input) RATCHET_COUNT :: nat where "RATCHET_COUNT \<equiv> 512"
abbreviation (input) RATCHET_INTERVAL :: nat where "RATCHET_INTERVAL \<equiv> 1800"
abbreviation (input) LAST_SEEN_REFRESH_SECS :: nat where "LAST_SEEN_REFRESH_SECS \<equiv> 3600"

section \<open>Hashes\<close>

definition full_hash :: "(bytes \<Rightarrow> bytes) \<Rightarrow> bytes \<Rightarrow> bytes" where
  "full_hash sha d = sha d"

definition truncated_hash :: "(bytes \<Rightarrow> bytes) \<Rightarrow> bytes \<Rightarrow> bytes" where
  "truncated_hash sha d = take 16 (full_hash sha d)"

section \<open>Token\<close>

record token =
  t_signing_key :: bytes
  t_encryption_key :: bytes

definition Token_new :: "bytes \<Rightarrow> error + token" where
  "Token_new key =
     (if length key = 32 then
        Inr \<lparr> t_signing_key = byte_range 0 16 key, t_encryption_key = byte_range 16 32 key \<rparr>
      else if length key = 64 then
        Inr \<lparr> t_signing_key = byte_range 0 32 key, t_encryption_key = byte_range 32 64 key \<rparr>
      else Inl (Err ''Token key must be 32 or 64 bytes''))"

text \<open>\<^verbatim>\<open>new_from_slices\<close> of AES-256-CBC wants a key of 32 bytes and an IV of 16.\<close>

definition aes256_lengths :: "bytes \<Rightarrow> bytes \<Rightarrow> bool" where
  "aes256_lengths key iv \<longleftrightarrow> length key = 32 \<and> length iv = 16"

definition Token_encrypt :: "crypto \<Rightarrow> bytes \<Rightarrow> token \<Rightarrow> bytes \<Rightarrow> error + bytes" where
  "Token_encrypt c iv t plaintext =
     (if \<not> aes256_lengths (t_encryption_key t) iv then Inl (Err ''Failed to create cipher'')
      else
        let signed_parts = iv @ c_aes_enc c (t_encryption_key t) iv plaintext
        in Inr (signed_parts @ c_hmac c (t_signing_key t) signed_parts))"

text \<open>
  The slice \<^verbatim>\<open>&token[16..token.len() - 32]\<close> panics when the token is shorter than 48 bytes.
\<close>

definition Token_decrypt :: "crypto \<Rightarrow> token \<Rightarrow> bytes \<Rightarrow> error + bytes" where
  "Token_decrypt c t tok =
     (if length tok \<le> 32 then Inl (Err ''Cannot verify HMAC on token'')
      else
        let n = length tok - 32; received_hmac = drop n tok; signed_parts = take n tok in
        if c_hmac c (t_signing_key t) signed_parts \<noteq> received_hmac
        then Inl (Err ''Token HMAC was invalid'')
        else if n < 16 then Inl Panic
        else
          let iv = take 16 tok; ciphertext = byte_range 16 n tok in
          if \<not> aes256_lengths (t_encryption_key t) iv then Inl (Err ''Failed to create cipher'')
          else case c_aes_dec c (t_encryption_key t) iv ciphertext of
                 None \<Rightarrow> Inl (Err ''Decryption failed'')
               | Some p \<Rightarrow> Inr p)"

section \<open>Identity\<close>

text \<open>
  \<^verbatim>\<open>ratchets\<close> is a hash map whose iteration order is arbitrary: an association list in
  whichever order the map yields. The storage path is not modelled.
\<close>

record identity =
  encryption_prv_key :: "bytes option"
  encryption_pub_key :: "bytes option"
  signing_prv_key :: "bytes option"
  signing_pub_key :: "bytes option"
  id_hash :: "bytes option"
  id_ratchets :: "(bytes \<times> bytes) list"

definition get_public_key :: "identity \<Rightarrow> error + bytes" where
  "get_public_key i =
     (case encryption_pub_key i of
        None \<Rightarrow> Inl (Err ''Identity has no public key'')
      | Some e \<Rightarrow>
        (case signing_pub_key i of
           None \<Rightarrow> Inl (Err ''Identity has no public key'')
         | Some s \<Rightarrow> Inr (e @ s)))"

definition get_private_key :: "identity \<Rightarrow> error + bytes" where
  "get_private_key i =
     (case encryption_prv_key i of
        None \<Rightarrow> Inl (Err ''Identity has no private key'')
      | Some e \<Rightarrow>
        (case signing_prv_key i of
           None \<Rightarrow> Inl (Err ''Identity has no private key'')
         | Some s \<Rightarrow> Inr (e @ s)))"

definition update_hashes :: "crypto \<Rightarrow> identity \<Rightarrow> identity" where
  "update_hashes c i =
     i\<lparr>id_hash := (case get_public_key i of Inr k \<Rightarrow> Some (truncated_hash (c_sha c) k)
                    | Inl _ \<Rightarrow> None)\<rparr>"

text \<open>\<^verbatim>\<open>Identity::new(false)\<close>, and \<^verbatim>\<open>Identity::new(true)\<close> on the 64 random bytes it draws.\<close>

definition empty_identity :: identity where
  "empty_identity = \<lparr> encryption_prv_key = None, encryption_pub_key = None,
     signing_prv_key = None, signing_pub_key = None, id_hash = None, id_ratchets = [] \<rparr>"

definition create_keys :: "crypto \<Rightarrow> bytes \<Rightarrow> bytes \<Rightarrow> identity \<Rightarrow> identity" where
  "create_keys c enc_key sign_key i =
     update_hashes c (i\<lparr>encryption_prv_key := Some enc_key,
       encryption_pub_key := Some (c_x_pub c enc_key),
       signing_prv_key := Some sign_key, signing_pub_key := Some (c_ed_pub c sign_key)\<rparr>)"

definition new_identity :: "crypto \<Rightarrow> (bytes \<times> bytes) option \<Rightarrow> identity" where
  "new_identity c keys =
     (case keys of None \<Rightarrow> empty_identity
      | Some (e, s) \<Rightarrow> create_keys c e s empty_identity)"

text \<open>
  Loading a private key. Every 32-byte string is an Ed25519 secret key, so that
  \<^verbatim>\<open>from_bytes\<close> does not fail once the length is right.
\<close>

definition load_private_key :: "crypto \<Rightarrow> bytes \<Rightarrow> identity \<Rightarrow> error + identity" where
  "load_private_key c prv i =
     (if length prv \<noteq> KEY_LEN then Inl (Err ''Private key must be 64 bytes'')
      else Inr (create_keys c (take 32 prv) (byte_range 32 64 prv) i))"

definition load_public_key :: "crypto \<Rightarrow> bytes \<Rightarrow> identity \<Rightarrow> error + identity" where
  "load_public_key c pub i =
     (if length pub \<noteq> KEY_LEN then Inl (Err ''Public key must be 64 bytes'')
      else if \<not> c_ed_key_ok c (byte_range 32 64 pub) then Inl (Err ''Invalid Ed25519 public key'')
      else Inr (update_hashes c (i\<lparr>encryption_prv_key := None,
             encryption_pub_key := Some (take 32 pub), signing_prv_key := None,
             signing_pub_key := Some (byte_range 32 64 pub)\<rparr>)))"

definition from_bytes :: "crypto \<Rightarrow> bytes \<Rightarrow> error + identity" where
  "from_bytes c prv = load_private_key c prv empty_identity"

definition from_public_key :: "crypto \<Rightarrow> bytes \<Rightarrow> error + identity" where
  "from_public_key c pub = load_public_key c pub empty_identity"

definition validate :: "crypto \<Rightarrow> identity \<Rightarrow> bytes \<Rightarrow> bytes \<Rightarrow> bool" where
  "validate c i signature data \<longleftrightarrow>
     length signature = 64
     \<and> (case signing_pub_key i of None \<Rightarrow> False | Some k \<Rightarrow> c_ed_verify c k data signature)"

section \<open>Encryption to an identity\<close>

definition encrypt_with_ratchet ::
  "crypto \<Rightarrow> bytes \<Rightarrow> bytes \<Rightarrow> identity \<Rightarrow> bytes \<Rightarrow> bytes option \<Rightarrow> error + bytes"
where
  "encrypt_with_ratchet c eph_prv iv i plaintext ratchet =
     (case id_hash i of
        None \<Rightarrow> Inl (Err ''Identity hash not available'')
      | Some salt \<Rightarrow>
        (case (case ratchet of
                 Some r \<Rightarrow> if length r = 32 then Inr r
                           else Inl (Err ''Invalid ratchet public key length'')
               | None \<Rightarrow> (case encryption_pub_key i of
                           None \<Rightarrow> Inl (Err ''Identity has no public key'')
                         | Some k \<Rightarrow> Inr k)) of
           Inl e \<Rightarrow> Inl e
         | Inr target_pub \<Rightarrow>
           (case Token_new (c_hkdf c salt (c_dh c eph_prv target_pub)) of
              Inl e \<Rightarrow> Inl e
            | Inr t \<Rightarrow>
              (case Token_encrypt c iv t plaintext of
                 Inl e \<Rightarrow> Inl e
               | Inr ct \<Rightarrow> Inr (c_x_pub c eph_prv @ ct)))))"

definition decrypt_with_key ::
  "crypto \<Rightarrow> identity \<Rightarrow> bytes \<Rightarrow> bytes \<Rightarrow> bytes \<Rightarrow> error + bytes"
where
  "decrypt_with_key c i prv ephemeral_pub token_data =
     (case id_hash i of
        None \<Rightarrow> Inl (Err ''Identity hash not available'')
      | Some salt \<Rightarrow>
        (case Token_new (c_hkdf c salt (c_dh c prv ephemeral_pub)) of
           Inl e \<Rightarrow> Inl e
         | Inr t \<Rightarrow> Token_decrypt c t token_data))"

text \<open>
  The loop over the destination's ratchets: keys of another length are skipped, an error goes
  on to the next key, a panic ends the call.
\<close>

fun try_dest_ratchets ::
  "crypto \<Rightarrow> identity \<Rightarrow> bytes \<Rightarrow> bytes \<Rightarrow> bytes list \<Rightarrow> (error + bytes) option"
where
  "try_dest_ratchets c i eph tok [] = None"
| "try_dest_ratchets c i eph tok (r # rs) =
     (if length r \<noteq> 32 then try_dest_ratchets c i eph tok rs
      else case decrypt_with_key c i r eph tok of
             Inr p \<Rightarrow> Some (Inr p)
           | Inl Panic \<Rightarrow> Some (Inl Panic)
           | Inl (Err e) \<Rightarrow> try_dest_ratchets c i eph tok rs)"

text \<open>The loop over the identity's own ratchets: there a key of another length panics.\<close>

fun try_own_ratchets ::
  "crypto \<Rightarrow> identity \<Rightarrow> bytes \<Rightarrow> bytes \<Rightarrow> (bytes \<times> bytes) list \<Rightarrow> (error + bytes) option"
where
  "try_own_ratchets c i eph tok [] = None"
| "try_own_ratchets c i eph tok ((_, r) # rs) =
     (if length r \<noteq> 32 then Some (Inl Panic)
      else case decrypt_with_key c i r eph tok of
             Inr p \<Rightarrow> Some (Inr p)
           | Inl Panic \<Rightarrow> Some (Inl Panic)
           | Inl (Err e) \<Rightarrow> try_own_ratchets c i eph tok rs)"

definition decrypt_with_ratchets ::
  "crypto \<Rightarrow> identity \<Rightarrow> bytes \<Rightarrow> bytes list option \<Rightarrow> error + bytes"
where
  "decrypt_with_ratchets c i ciphertext dest_ratchets =
     (if length ciphertext \<le> 32 then Inl (Err ''Ciphertext too short'')
      else
        let eph = take 32 ciphertext; tok = drop 32 ciphertext in
        case try_dest_ratchets c i eph tok (case dest_ratchets of None \<Rightarrow> [] | Some rs \<Rightarrow> rs) of
          Some r \<Rightarrow> r
        | None \<Rightarrow>
          (case try_own_ratchets c i eph tok (id_ratchets i) of
             Some r \<Rightarrow> r
           | None \<Rightarrow>
             (case encryption_prv_key i of
                None \<Rightarrow> Inl (Err ''Identity has no private key'')
              | Some k \<Rightarrow> decrypt_with_key c i k eph tok)))"

section \<open>Ratchets of peers\<close>

record ratchet_entry =
  re_public_key :: bytes
  re_timestamp :: nat

definition known_ratchet_max_age :: nat where
  "known_ratchet_max_age = min ((RATCHET_COUNT - 1) * RATCHET_INTERVAL) RATCHET_EXPIRY"

definition ratchet_entry_fresh :: "ratchet_entry \<Rightarrow> nat \<Rightarrow> bool" where
  "ratchet_entry_fresh e now \<longleftrightarrow> now \<le> re_timestamp e + known_ratchet_max_age"

text \<open>
  The map \<^verbatim>\<open>KNOWN_RATCHETS\<close>. The entry handed to the thread that writes the ratchet file, when
  one is started, is the last component. Times are seconds, far below the saturation bound.
\<close>

type_synonym known_ratchets = "bytes \<rightharpoonup> ratchet_entry"

definition remember_ratchet ::
  "bool \<Rightarrow> nat \<Rightarrow> bytes \<Rightarrow> bytes \<Rightarrow> known_ratchets
   \<Rightarrow> (error + unit) \<times> known_ratchets \<times> ratchet_entry option"
where
  "remember_ratchet shared_instance now dest ratchet_pub known =
     (if length ratchet_pub \<noteq> 32 then (Inl (Err ''Invalid ratchet public key length''), known, None)
      else
        let entry = \<lparr> re_public_key = ratchet_pub, re_timestamp = now \<rparr> in
        if (case known dest of None \<Rightarrow> False
            | Some e \<Rightarrow> re_public_key e = ratchet_pub \<and> ratchet_entry_fresh e now)
        then (Inr (), known, None)
        else (Inr (), known(dest \<mapsto> entry), if shared_instance then None else Some entry))"

text \<open>
  \<^verbatim>\<open>get_ratchet\<close>. \<open>disk\<close> is what the ratchet file of a destination decodes to, if it exists and
  does; the last component says whether the stale file is removed.
\<close>

definition get_ratchet ::
  "(bytes \<rightharpoonup> ratchet_entry) \<Rightarrow> nat \<Rightarrow> bytes \<Rightarrow> known_ratchets
   \<Rightarrow> bytes option \<times> known_ratchets \<times> bool"
where
  "get_ratchet disk now dest known =
     (case known dest of
        Some e \<Rightarrow>
          if ratchet_entry_fresh e now then (Some (re_public_key e), known, False)
          else
            let known = known(dest := None) in
            (case disk dest of
               None \<Rightarrow> (None, known, False)
             | Some d \<Rightarrow> if \<not> ratchet_entry_fresh d now then (None, known, True)
                          else (Some (re_public_key d), known(dest \<mapsto> d), False))
      | None \<Rightarrow>
          (case disk dest of
             None \<Rightarrow> (None, known, False)
           | Some d \<Rightarrow> if \<not> ratchet_entry_fresh d now then (None, known, True)
                        else (Some (re_public_key d), known(dest \<mapsto> d), False)))"

section \<open>Known destinations\<close>

record known_destination =
  kd_public_key :: bytes
  kd_app_data :: "bytes option"
  kd_last_seen :: nat

type_synonym known_map = "bytes \<rightharpoonup> known_destination"

definition merge ::
  "known_destination option \<Rightarrow> bytes \<Rightarrow> bytes option \<Rightarrow> nat \<Rightarrow> known_destination option"
where
  "merge existing public_key app_data now =
     (case existing of
        None \<Rightarrow> Some \<lparr> kd_public_key = public_key, kd_app_data = app_data, kd_last_seen = now \<rparr>
      | Some e \<Rightarrow>
        (let key_changed = (kd_public_key e \<noteq> public_key);
             app_data_changed = (app_data \<noteq> None \<and> kd_app_data e \<noteq> app_data);
             stale = (now - kd_last_seen e \<ge> LAST_SEEN_REFRESH_SECS)
         in if \<not> (key_changed \<or> app_data_changed \<or> stale) then None
            else Some \<lparr> kd_public_key = public_key,
                        kd_app_data = (if app_data \<noteq> None then app_data else kd_app_data e),
                        kd_last_seen = now \<rparr>))"

text \<open>
  \<^verbatim>\<open>remember_destination\<close> on the loaded map: the new map and the row written to the store.
\<close>

definition remember_destination ::
  "nat \<Rightarrow> bytes \<Rightarrow> bytes \<Rightarrow> bytes option \<Rightarrow> known_map \<Rightarrow> known_map \<times> known_destination option"
where
  "remember_destination now dest public_key app_data known =
     (case merge (known dest) public_key app_data now of
        None \<Rightarrow> (known, None)
      | Some e \<Rightarrow> (known(dest \<mapsto> e), Some e))"

definition recall :: "crypto \<Rightarrow> known_map \<Rightarrow> bytes \<Rightarrow> identity option" where
  "recall c known dest =
     (case known dest of
        None \<Rightarrow> None
      | Some e \<Rightarrow> (case from_public_key c (kd_public_key e) of Inl _ \<Rightarrow> None | Inr i \<Rightarrow> Some i))"

definition recall_app_data :: "known_map \<Rightarrow> bytes \<Rightarrow> bytes option" where
  "recall_app_data known dest = Option.bind (known dest) kd_app_data"

definition recall_public_key :: "known_map \<Rightarrow> bytes \<Rightarrow> bytes option" where
  "recall_public_key known dest = map_option kd_public_key (known dest)"

section \<open>Lemmas\<close>

lemmas crypto_okD =
  crypto_ok_def [THEN iffD1, THEN conjunct1, rule_format]
  crypto_ok_def [THEN iffD1, THEN conjunct2, THEN conjunct1, rule_format]
  crypto_ok_def [THEN iffD1, THEN conjunct2, THEN conjunct2, THEN conjunct1, rule_format]
  crypto_ok_def [THEN iffD1, THEN conjunct2, THEN conjunct2, THEN conjunct2, THEN conjunct1, rule_format]
  crypto_ok_def [THEN iffD1, THEN conjunct2, THEN conjunct2, THEN conjunct2, THEN conjunct2, rule_format]

lemma Token_new_hkdf:
  assumes "crypto_ok c"
  shows "\<exists>t. Token_new (c_hkdf c s z) = Inr t \<and> length (t_encryption_key t) = 32"
  by (simp add: Token_new_def crypto_okD(3) [OF assms])

text \<open>What a key holder encrypts, it decrypts.\<close>

lemma Token_roundtrip:
  assumes c: "crypto_ok c" and k: "length (t_encryption_key t) = 32" and iv: "length iv = 16"
  shows "\<exists>ct. Token_encrypt c iv t m = Inr ct \<and> Token_decrypt c t ct = Inr m"
proof -
  let ?s = "iv @ c_aes_enc c (t_encryption_key t) iv m"
  let ?ct = "?s @ c_hmac c (t_signing_key t) ?s"
  have "Token_encrypt c iv t m = Inr ?ct"
    using k iv by (simp add: Token_encrypt_def aes256_lengths_def Let_def)
  moreover have "Token_decrypt c t ?ct = Inr m"
    using k iv crypto_okD(1) [OF c] crypto_okD(2) [OF c]
    by (simp add: Token_decrypt_def aes256_lengths_def Let_def byte_range_def)
  ultimately show ?thesis by blast
qed

text \<open>A token of a 32-byte key never encrypts: the cipher is AES-256 whatever the key length.\<close>

lemma Token_32_byte_key_unusable:
  assumes "Token_new key = Inr t" and "length key = 32"
  shows "Token_encrypt c iv t m = Inl (Err ''Failed to create cipher'')"
  using assms by (auto simp: Token_new_def Token_encrypt_def aes256_lengths_def)

text \<open>Only tokens with a correct HMAC over everything before it decrypt.\<close>

lemma Token_decrypt_InrD:
  assumes "Token_decrypt c t tok = Inr m"
  shows "\<exists>s h. tok = s @ h \<and> length h = 32 \<and> 16 \<le> length s \<and> h = c_hmac c (t_signing_key t) s"
proof -
  let ?n = "length tok - 32"
  have "32 < length tok" "c_hmac c (t_signing_key t) (take ?n tok) = drop ?n tok" "16 \<le> ?n"
    using assms by (auto simp: Token_decrypt_def Let_def split: if_splits)
  then show ?thesis
    by (intro exI [of _ "take ?n tok"] exI [of _ "drop ?n tok"]) auto
qed

text \<open>The slice that panics: a correct HMAC over 1 to 15 bytes.\<close>

lemma Token_decrypt_panic:
  assumes "crypto_ok c" and "0 < length s" and "length s < 16"
  shows "Token_decrypt c t (s @ c_hmac c (t_signing_key t) s) = Inl Panic"
  using assms(2,3) crypto_okD(2) [OF assms(1)] by (auto simp: Token_decrypt_def Let_def)

lemma from_public_key_hash:
  assumes "from_public_key c pub = Inr i"
  shows "get_public_key i = Inr pub" and "id_hash i = Some (truncated_hash (c_sha c) pub)"
proof -
  have l: "length pub = 64" and i: "i = update_hashes c (empty_identity\<lparr>encryption_prv_key := None,
             encryption_pub_key := Some (take 32 pub), signing_prv_key := None,
             signing_pub_key := Some (byte_range 32 64 pub)\<rparr>)"
    using assms by (auto simp: from_public_key_def load_public_key_def split: if_splits)
  have "take 32 pub @ byte_range 32 64 pub = pub"
    using l by (simp add: byte_range_def)
  then show "get_public_key i = Inr pub" "id_hash i = Some (truncated_hash (c_sha c) pub)"
    by (simp_all add: i update_hashes_def get_public_key_def)
qed

lemma remember_destination_lookup:
  "recall_public_key (fst (remember_destination now dest pk ad known)) dest = Some pk"
  by (auto simp: remember_destination_def recall_public_key_def merge_def Let_def
      split: option.splits if_splits)

lemma remember_destination_other:
  "d \<noteq> dest \<Longrightarrow> fst (remember_destination now dest pk ad known) d = known d"
  by (auto simp: remember_destination_def split: option.splits)

lemma remember_destination_app_data:
  "recall_app_data (fst (remember_destination now dest pk ad known)) dest =
     (case ad of None \<Rightarrow> recall_app_data known dest | Some _ \<Rightarrow> ad)"
  by (auto simp: remember_destination_def recall_app_data_def merge_def Let_def
      split: option.splits if_splits)

section \<open>Properties\<close>

text \<open>A concrete instance of the primitives, for the witnesses.\<close>

definition toy_crypto :: crypto where
  "toy_crypto = \<lparr> c_sha = (\<lambda>x. take 32 (x @ replicate 32 0)), c_hmac = (\<lambda>k m. replicate 32 (of_nat (length m))),
     c_aes_enc = (\<lambda>k iv m. m), c_aes_dec = (\<lambda>k iv m. Some m), c_hkdf = (\<lambda>s z. replicate 64 1),
     c_dh = (\<lambda>a b. [0]), c_x_pub = (\<lambda>a. replicate 32 2), c_ed_pub = (\<lambda>a. a),
     c_ed_key_ok = (\<lambda>k. True), c_ed_verify = (\<lambda>k m s. True) \<rparr>"

lemma toy_crypto_ok: "crypto_ok toy_crypto"
  by (simp add: crypto_ok_def toy_crypto_def)

lemma decrypt_skips_ratchets:
  assumes "\<forall>b\<in>set before. length b = 32 \<longrightarrow> (\<exists>s. decrypt_with_key c own b eph tok = Inl (Err s))"
  shows "try_dest_ratchets c own eph tok (before @ rs) = try_dest_ratchets c own eph tok rs"
  using assms by (induction before) auto

text \<open>
  Encryption to an identity is inverted by its owner. The owner holds the private key of the target public key: its
  main key, or the ratchet key at any position of its list, provided that the keys tried before it refuse this ciphertext. The
  plaintext comes back whatever the ephemeral key and the initialisation vector.
\<close>

theorem identity_encryption_roundtrip:
  assumes c: "crypto_ok c" and h: "id_hash i = Some salt" and h': "id_hash own = Some salt"
    and iv: "length iv = 16"
    and target: "(case ratchet of None \<Rightarrow> encryption_pub_key i | Some r \<Rightarrow> Some r) = Some (c_x_pub c k)"
    and keys: "(case ratchet of
        None \<Rightarrow> dest_ratchets = None \<and> id_ratchets own = [] \<and> encryption_prv_key own = Some k
      | Some r \<Rightarrow> dest_ratchets = Some (before @ [k] @ after) \<and> length k = 32)"
  shows "\<exists>ct. encrypt_with_ratchet c eph iv i m ratchet = Inr ct
     \<and> ((\<forall>b\<in>set before. length b = 32 \<longrightarrow> (\<exists>s. decrypt_with_key c own b (take 32 ct) (drop 32 ct) = Inl (Err s)))
          \<longrightarrow> decrypt_with_ratchets c own ct dest_ratchets = Inr m)"
proof -
  let ?key = "c_hkdf c salt (c_dh c eph (c_x_pub c k))"
  have dh: "c_dh c k (c_x_pub c eph) = c_dh c eph (c_x_pub c k)"
    by (rule crypto_okD(4) [OF c])
  have xl: "length (c_x_pub c k) = 32" "length (c_x_pub c eph) = 32"
    using crypto_okD(5) [OF c] by auto
  obtain t where t: "Token_new ?key = Inr t" "length (t_encryption_key t) = 32"
    using Token_new_hkdf [OF c] by blast
  obtain ct where ct: "Token_encrypt c iv t m = Inr ct" "Token_decrypt c t ct = Inr m"
    using Token_roundtrip [OF c t(2) iv] by blast
  have ne: "ct \<noteq> []" using ct(2) by (auto simp: Token_decrypt_def)
  have enc: "encrypt_with_ratchet c eph iv i m ratchet = Inr (c_x_pub c eph @ ct)"
    using target h xl t ct(1) by (auto simp: encrypt_with_ratchet_def split: option.splits)
  have key: "decrypt_with_key c own k (c_x_pub c eph) ct = Inr m"
    using h' t(1) ct(2) by (simp add: decrypt_with_key_def dh)
  have "decrypt_with_ratchets c own (c_x_pub c eph @ ct) dest_ratchets = Inr m"
    if "\<forall>b\<in>set before. length b = 32 \<longrightarrow> (\<exists>s. decrypt_with_key c own b (c_x_pub c eph) ct = Inl (Err s))"
    using keys key ne decrypt_skips_ratchets [OF that, of "[k] @ after"]
    by (auto simp: decrypt_with_ratchets_def Let_def xl split: option.splits)
  with enc xl(2) show ?thesis by (intro exI [of _ "c_x_pub c eph @ ct"]) simp
qed

text \<open>An instance in which different keys give different tokens: the first byte of a key stands for it.\<close>

definition keyed_crypto :: crypto where
  "keyed_crypto = toy_crypto\<lparr>c_x_pub := (\<lambda>a. take 32 (a @ replicate 32 0)), c_dh := (\<lambda>a b. [hd (a @ [0]) + hd (b @ [0])]),
     c_hkdf := (\<lambda>s z. replicate 64 (hd (z @ [0]))), c_hmac := (\<lambda>k m. replicate 32 (hd (k @ [0])))\<rparr>"

lemma keyed_crypto_ok: "crypto_ok keyed_crypto"
proof -
  have "hd (take 32 (a @ replicate 32 0) @ [0]) = hd (a @ [0])" for a :: bytes by (cases a) auto
  then show ?thesis by (auto simp: crypto_ok_def keyed_crypto_def toy_crypto_def add.commute min_def simp del: take_append)
qed

theorem identity_encryption_roundtrip_witness:
  "\<exists>ct. encrypt_with_ratchet keyed_crypto [9] (replicate 16 3)
      (new_identity keyed_crypto (Some (replicate 32 5, replicate 32 6))) [1, 2] (Some (replicate 32 8)) = Inr ct
     \<and> decrypt_with_ratchets keyed_crypto (new_identity keyed_crypto (Some (replicate 32 5, replicate 32 6))) ct
         (Some [replicate 32 7, replicate 32 8]) = Inr [1, 2]"
proof -
  let ?i = "new_identity keyed_crypto (Some (replicate 32 5, replicate 32 6))"
  obtain ih where h: "id_hash ?i = Some ih" by (simp add: new_identity_def create_keys_def update_hashes_def get_public_key_def)
  have pub: "(case Some (replicate 32 8) of None \<Rightarrow> encryption_pub_key ?i | Some r \<Rightarrow> Some r) = Some (c_x_pub keyed_crypto (replicate 32 8))"
    by (simp add: keyed_crypto_def)
  have keys: "case Some (replicate 32 (8::u8)) of
        None \<Rightarrow> Some [replicate 32 7, replicate 32 8] = None \<and> id_ratchets ?i = [] \<and> encryption_prv_key ?i = Some (replicate 32 8)
      | Some r \<Rightarrow> Some [replicate 32 7, replicate 32 8] = Some ([replicate 32 7] @ [replicate 32 8] @ []) \<and> length (replicate 32 (8::u8)) = 32"
    by simp
  obtain ct where ct: "encrypt_with_ratchet keyed_crypto [9] (replicate 16 3) ?i [1, 2] (Some (replicate 32 8)) = Inr ct"
    and dec: "(\<forall>b\<in>set [replicate 32 7]. length b = 32 \<longrightarrow> (\<exists>s. decrypt_with_key keyed_crypto ?i b (take 32 ct) (drop 32 ct) = Inl (Err s)))
       \<Longrightarrow> decrypt_with_ratchets keyed_crypto ?i ct (Some [replicate 32 7, replicate 32 8]) = Inr [1, 2]"
    using identity_encryption_roundtrip [OF keyed_crypto_ok h h _ pub keys, of "replicate 16 3" "[9]" "[1, 2]"] by auto
  have "ct = (9 # replicate 31 0) @ (replicate 16 3 @ [1, 2]) @ replicate 32 17"
    using ct h by (simp add: encrypt_with_ratchet_def keyed_crypto_def toy_crypto_def Token_new_def Token_encrypt_def aes256_lengths_def Let_def
        byte_range_def take_Cons')
  then have "\<exists>s. decrypt_with_key keyed_crypto ?i (replicate 32 7) (take 32 ct) (drop 32 ct) = Inl (Err s)"
    using h by (simp add: decrypt_with_key_def keyed_crypto_def toy_crypto_def Token_new_def Token_decrypt_def Let_def byte_range_def)
  then show ?thesis using ct dec by auto
qed

text \<open>
  Anyone who knows an identity's public key can make its owner panic. A ciphertext made of an
  ephemeral public key and a correct HMAC over 1 to 15 bytes reaches the slice
  \<^verbatim>\<open>&token[16..token.len() - 32]\<close> with its end before its start.
\<close>

theorem short_token_panics:
  assumes c: "crypto_ok c" and h: "id_hash own = Some salt"
    and k: "encryption_prv_key own = Some k" and r: "id_ratchets own = []"
    and s: "0 < length s" "length s < 16"
    and t: "Token_new (c_hkdf c salt (c_dh c eph (c_x_pub c k))) = Inr t"
  shows "decrypt_with_ratchets c own (c_x_pub c eph @ s @ c_hmac c (t_signing_key t) s) None
     = Inl Panic"
  using h k r s t crypto_okD(4) [OF c, of k eph] crypto_okD(5) [OF c] crypto_okD(2) [OF c]
    Token_decrypt_panic [OF c s]
  by (simp add: decrypt_with_ratchets_def Let_def decrypt_with_key_def)

theorem short_token_panics_witness:
  "decrypt_with_ratchets toy_crypto (new_identity toy_crypto (Some (replicate 32 5, replicate 32 6)))
     (replicate 32 2 @ [7] @ replicate 32 1) None = Inl Panic"
  using short_token_panics [OF toy_crypto_ok, where s = "[7]" and eph = "[9]" and k = "replicate 32 5"
      and own = "new_identity toy_crypto (Some (replicate 32 5, replicate 32 6))"]
  by (simp add: new_identity_def create_keys_def update_hashes_def get_public_key_def
      empty_identity_def toy_crypto_def Token_new_def)

text \<open>
  The ratchet a peer announced is the one used until it expires. After \<^verbatim>\<open>remember_ratchet\<close> of a
  key that was not already held fresh, \<^verbatim>\<open>get_ratchet\<close> returns it at every later time within the
  receiver's window, whatever the file on disk holds; and whatever \<^verbatim>\<open>get_ratchet\<close> returns, at any
  time, is a key whose entry (in memory or on disk) is within the window.
\<close>

theorem ratchet_memory:
  assumes "length r = 32" and "t \<le> now"
    and "\<forall>e. known dest = Some e \<longrightarrow> re_public_key e \<noteq> r \<or> \<not> ratchet_entry_fresh e t"
  shows "(now \<le> t + known_ratchet_max_age \<longrightarrow>
         fst (get_ratchet disk now dest (fst (snd (remember_ratchet sh t dest r known)))) = Some r)
    \<and> (\<forall>k. fst (get_ratchet disk now dest known) = Some k \<longrightarrow>
         (\<exists>e. (known dest = Some e \<or> disk dest = Some e) \<and> re_public_key e = k
            \<and> ratchet_entry_fresh e now))"
  using assms
  by (auto simp: get_ratchet_def remember_ratchet_def Let_def ratchet_entry_fresh_def
      split: option.splits if_splits)

theorem ratchet_memory_witness:
  "fst (get_ratchet (\<lambda>_. None) 919900 [1]
      (fst (snd (remember_ratchet True 100 [1] (replicate 32 8) (\<lambda>_. None))))) = Some (replicate 32 8)"
  using ratchet_memory [of "replicate 32 8" 100 919900 "\<lambda>_. None" "[1]" "\<lambda>_. None" True]
  by (simp add: known_ratchet_max_age_def)

text \<open>
  Known destinations. After \<^verbatim>\<open>remember_destination\<close> the key on record for the destination is
  the announced one, its app data is the announced one or, when the announce carried none, what
  was known before; every other destination keeps its entry; and nothing is written to the
  store exactly when the map did not change.
\<close>

theorem known_destination_memory:
  "recall_public_key (fst (remember_destination now dest pk ad known)) dest = Some pk
   \<and> recall_app_data (fst (remember_destination now dest pk ad known)) dest =
       (case ad of None \<Rightarrow> recall_app_data known dest | Some _ \<Rightarrow> ad)
   \<and> (d \<noteq> dest \<longrightarrow> fst (remember_destination now dest pk ad known) d = known d)
   \<and> (case snd (remember_destination now dest pk ad known) of
        None \<Rightarrow> fst (remember_destination now dest pk ad known) = known
      | Some e \<Rightarrow> fst (remember_destination now dest pk ad known) = known(dest \<mapsto> e))"
  using remember_destination_lookup remember_destination_app_data remember_destination_other
  by (auto simp: remember_destination_def split: option.splits)

theorem known_destination_memory_witness:
  "recall_public_key (fst (remember_destination 5 [1] [2] None (\<lambda>_. None))) [1] = Some [2]
   \<and> fst (remember_destination 5 [1] [2] None (\<lambda>_. None)) [3] = None"
  using known_destination_memory [of 5 "[1]" "[2]" None "\<lambda>_. None" "[3]"] by simp

end
