(* ===== verification/Packet.thy ===== *)
theory Packet
  imports Identity
begin

text \<open>
  The packet of \<^verbatim>\<open>src/packet.rs\<close>: its data, the flag byte, \<^verbatim>\<open>pack\<close>, \<^verbatim>\<open>unpack\<close>, the
  hashable part, \<^verbatim>\<open>send\<close>, \<^verbatim>\<open>resend\<close> and \<^verbatim>\<open>prove\<close>. A method that takes \<^verbatim>\<open>&mut self\<close> returns
  the packet it leaves behind, on its error paths too.

  SHA-256 (crate \<^verbatim>\<open>sha2\<close>) is the parameter \<open>sha\<close>; encryption by the destination, Ed25519
  signing and \<^verbatim>\<open>Transport::outbound\<close> are parameters of the operations that call them.
  Log lines are not modelled.
\<close>

section \<open>Constants\<close>

abbreviation (input) DATA :: u8 where "DATA \<equiv> 0x00"
abbreviation (input) ANNOUNCE :: u8 where "ANNOUNCE \<equiv> 0x01"
abbreviation (input) LINKREQUEST :: u8 where "LINKREQUEST \<equiv> 0x02"
abbreviation (input) PROOF :: u8 where "PROOF \<equiv> 0x03"
abbreviation (input) HEADER_1 :: u8 where "HEADER_1 \<equiv> 0x00"
abbreviation (input) HEADER_2 :: u8 where "HEADER_2 \<equiv> 0x01"
abbreviation (input) CTX_NONE :: u8 where "CTX_NONE \<equiv> 0x00"
abbreviation (input) RESOURCE :: u8 where "RESOURCE \<equiv> 0x01"
abbreviation (input) RESOURCE_REQ :: u8 where "RESOURCE_REQ \<equiv> 0x03"
abbreviation (input) RESOURCE_PRF :: u8 where "RESOURCE_PRF \<equiv> 0x05"
abbreviation (input) RESOURCE_RCL :: u8 where "RESOURCE_RCL \<equiv> 0x07"
abbreviation (input) CACHE_REQUEST :: u8 where "CACHE_REQUEST \<equiv> 0x08"
abbreviation (input) PATH_RESPONSE :: u8 where "PATH_RESPONSE \<equiv> 0x0B"
abbreviation (input) CHANNEL :: u8 where "CHANNEL \<equiv> 0x0E"
abbreviation (input) KEEPALIVE :: u8 where "KEEPALIVE \<equiv> 0xFA"
abbreviation (input) LINKIDENTIFY :: u8 where "LINKIDENTIFY \<equiv> 0xFB"
abbreviation (input) LRPROOF :: u8 where "LRPROOF \<equiv> 0xFF"
abbreviation (input) FLAG_SET :: u8 where "FLAG_SET \<equiv> 0x01"
abbreviation (input) FLAG_UNSET :: u8 where "FLAG_UNSET \<equiv> 0x00"
abbreviation (input) BROADCAST :: u8 where "BROADCAST \<equiv> 0x00"
abbreviation (input) MODE_TRANSPORT :: u8 where "MODE_TRANSPORT \<equiv> 0x01"
abbreviation (input) PATHFINDER_M :: u8 where "PATHFINDER_M \<equiv> 128"

text \<open>\<^verbatim>\<open>reticulum::MTU\<close>, \<^verbatim>\<open>TRUNCATED_HASHLENGTH / 8\<close>, \<^verbatim>\<open>HASHLENGTH / 8\<close>, \<^verbatim>\<open>SIGLENGTH / 8\<close>.\<close>

abbreviation (input) MTU :: nat where "MTU \<equiv> 500"
abbreviation (input) DST_LEN :: nat where "DST_LEN \<equiv> 16"
abbreviation (input) HASH_LEN :: nat where "HASH_LEN \<equiv> 32"
abbreviation (input) SIG_LEN :: nat where "SIG_LEN \<equiv> 64"

section \<open>Data\<close>

datatype destination_type = Single | Group | Plain | Link

fun dest_type_u8 :: "destination_type \<Rightarrow> u8" where
  "dest_type_u8 Single = 0x00"
| "dest_type_u8 Group = 0x01"
| "dest_type_u8 Plain = 0x02"
| "dest_type_u8 Link = 0x03"

text \<open>The match on the two destination-type bits in \<^verbatim>\<open>unpack\<close>.\<close>

definition dest_type_of_u8 :: "u8 \<Rightarrow> destination_type option" where
  "dest_type_of_u8 t =
     (if t = 0x00 then Some Single else if t = 0x01 then Some Group
      else if t = 0x02 then Some Plain else if t = 0x03 then Some Link else None)"

record link_info =
  li_rtt :: "real option"
  li_traffic_timeout_factor :: real
  li_status_closed :: bool
  li_mtu :: "nat option"
  li_attached_interface :: "string option"

record destination =
  d_hash :: bytes
  d_dest_type :: destination_type
  d_identity :: "identity option"
  d_latest_ratchet_id :: "bytes option"
  d_link :: "link_info option"
  d_app_name :: string
  d_aspects :: "string list"
  d_proof_strategy :: u8

text \<open>\<^verbatim>\<open>Destination::default()\<close>.\<close>

definition default_destination :: destination where
  "default_destination =
     \<lparr> d_hash = [], d_dest_type = Plain, d_identity = None, d_latest_ratchet_id = None,
       d_link = None, d_app_name = [], d_aspects = [], d_proof_strategy = 0x21 \<rparr>"

text \<open>
  \<^verbatim>\<open>PacketReceipt\<close> with its shared \<^verbatim>\<open>PacketReceiptInner\<close>. Clones of a receipt share the inner
  state; \<open>r_id\<close> names that shared state (\<^verbatim>\<open>Arc::ptr_eq\<close> compares it). A callback is named by
  a number.
\<close>

record receipt =
  r_id :: nat
  r_hash :: bytes
  r_truncated_hash :: bytes
  r_destination :: destination
  r_sent :: bool
  r_sent_at :: real
  r_proved :: bool
  r_status :: u8
  r_concluded_at :: "real option"
  r_timeout :: real
  r_delivery_callback :: "nat option"
  r_timeout_callback :: "nat option"
  r_delivery_notified :: bool
  r_timeout_notified :: bool

record packet =
  p_hops :: u8
  p_header_type :: u8
  p_packet_type :: u8
  p_transport_type :: u8
  p_context :: u8
  p_context_flag :: u8
  p_destination :: "destination option"
  p_transport_id :: "bytes option"
  p_data :: bytes
  p_flags :: u8
  p_raw :: bytes
  p_packed :: bool
  p_sent :: bool
  p_create_receipt :: bool
  p_receipt :: "receipt option"
  p_from_packed :: bool
  p_mtu :: nat
  p_sent_at :: "real option"
  p_packet_hash :: "bytes option"
  p_ratchet_id :: "bytes option"
  p_attached_interface :: "string option"
  p_receiving_interface :: "string option"
  p_ciphertext :: "bytes option"
  p_destination_hash :: "bytes option"
  p_destination_type :: "destination_type option"

section \<open>Flags\<close>

definition flag_byte :: "u8 \<Rightarrow> u8 \<Rightarrow> u8 \<Rightarrow> u8 \<Rightarrow> u8 \<Rightarrow> u8" where
  "flag_byte header context_flag transport dtype ptype =
     (push_bit 6 header OR push_bit 5 context_flag OR push_bit 4 transport
      OR push_bit 2 dtype OR ptype)"

definition get_packed_flags :: "packet \<Rightarrow> u8" where
  "get_packed_flags p =
     (if p_context p = LRPROOF then
        flag_byte (p_header_type p) (p_context_flag p) (p_transport_type p)
          (dest_type_u8 Link) (p_packet_type p)
      else
        flag_byte (p_header_type p) (p_context_flag p) (p_transport_type p)
          (dest_type_u8 (case p_destination p of None \<Rightarrow> Plain | Some d \<Rightarrow> d_dest_type d))
          (p_packet_type p))"

section \<open>Construction\<close>

definition new_packet ::
  "destination option \<Rightarrow> bytes \<Rightarrow> u8 \<Rightarrow> u8 \<Rightarrow> u8 \<Rightarrow> u8 \<Rightarrow> bytes option \<Rightarrow> string option \<Rightarrow> bool \<Rightarrow> u8 \<Rightarrow> packet"
where
  "new_packet dest data packet_type context transport_type header_type transport_id
     attached_interface create_receipt context_flag =
   (case dest of
      Some d \<Rightarrow>
        (let p = \<lparr> p_hops = 0, p_header_type = header_type, p_packet_type = packet_type,
             p_transport_type = transport_type, p_context = context,
             p_context_flag = context_flag, p_destination = Some d,
             p_transport_id = transport_id, p_data = data, p_flags = 0, p_raw = [],
             p_packed = False, p_sent = False, p_create_receipt = create_receipt,
             p_receipt = None, p_from_packed = False,
             p_mtu = (if d_dest_type d = Link
                      then (case Option.bind (d_link d) li_mtu of None \<Rightarrow> MTU | Some m \<Rightarrow> m)
                      else MTU),
             p_sent_at = None, p_packet_hash = None, p_ratchet_id = None,
             p_attached_interface = attached_interface, p_receiving_interface = None,
             p_ciphertext = None, p_destination_hash = None,
             p_destination_type = Some (d_dest_type d) \<rparr>
         in p\<lparr>p_flags := get_packed_flags p\<rparr>)
    | None \<Rightarrow>
        \<lparr> p_hops = 0, p_header_type = header_type, p_packet_type = packet_type,
          p_transport_type = transport_type, p_context = context,
          p_context_flag = context_flag, p_destination = None,
          p_transport_id = transport_id, p_data = data, p_flags = 0, p_raw = data,
          p_packed = True, p_sent = False, p_create_receipt = False,
          p_receipt = None, p_from_packed = True, p_mtu = MTU,
          p_sent_at = None, p_packet_hash = None, p_ratchet_id = None,
          p_attached_interface = attached_interface, p_receiving_interface = None,
          p_ciphertext = None, p_destination_hash = None, p_destination_type = None \<rparr>)"

section \<open>Hashes\<close>

definition get_hashable_part :: "packet \<Rightarrow> bytes" where
  "get_hashable_part p =
     (case p_raw p of
        [] \<Rightarrow> []
      | b # _ \<Rightarrow>
        [b AND 0b00001111] @
        (if p_header_type p = HEADER_2
         then (if length (p_raw p) > DST_LEN + 2 then drop (DST_LEN + 2) (p_raw p) else [])
         else if length (p_raw p) > 2 then drop 2 (p_raw p) else []))"

definition get_hash :: "(bytes \<Rightarrow> bytes) \<Rightarrow> packet \<Rightarrow> bytes" where
  "get_hash sha p = full_hash sha (get_hashable_part p)"

definition get_truncated_hash :: "(bytes \<Rightarrow> bytes) \<Rightarrow> packet \<Rightarrow> bytes" where
  "get_truncated_hash sha p = truncated_hash sha (get_hashable_part p)"

definition update_hash :: "(bytes \<Rightarrow> bytes) \<Rightarrow> packet \<Rightarrow> packet" where
  "update_hash sha p = p\<lparr>p_packet_hash := Some (get_hash sha p)\<rparr>"

section \<open>pack\<close>

text \<open>The packets whose payload goes out as it is under a HEADER\_1 header.\<close>

definition sent_in_clear :: "packet \<Rightarrow> bool" where
  "sent_in_clear p \<longleftrightarrow>
     p_packet_type p = ANNOUNCE \<or> p_packet_type p = LINKREQUEST \<or> p_packet_type p = PROOF
     \<or> p_context p = RESOURCE \<or> p_context p = KEEPALIVE \<or> p_context p = LINKIDENTIFY
     \<or> p_context p = CACHE_REQUEST"

text \<open>
  The three header cases of \<^verbatim>\<open>pack\<close>: the bytes after flags and hops, and the packet with its
  ciphertext set. \<open>enc\<close> is \<^verbatim>\<open>Destination::encrypt\<close>: the ciphertext and the ratchet id it leaves
  in the (cloned) destination. A header type other than 1 and 2 adds nothing, as in the source.
\<close>

definition pack_header ::
  "(destination \<Rightarrow> bytes \<Rightarrow> string + bytes \<times> bytes option) \<Rightarrow> destination \<Rightarrow> packet
   \<Rightarrow> (string + bytes) \<times> packet"
where
  "pack_header enc d p =
     (if p_context p = LRPROOF then (Inr (d_hash d), p\<lparr>p_ciphertext := Some (p_data p)\<rparr>)
      else if p_header_type p = HEADER_1 then
        (if sent_in_clear p then (Inr (d_hash d), p\<lparr>p_ciphertext := Some (p_data p)\<rparr>)
         else (case enc d (p_data p) of
            Inl e \<Rightarrow> (Inl e, p)
          | Inr (c, ratchet) \<Rightarrow>
              (Inr (d_hash d),
               (case ratchet of None \<Rightarrow> p | Some r \<Rightarrow> p\<lparr>p_ratchet_id := Some r\<rparr>)
                 \<lparr>p_ciphertext := Some c\<rparr>)))
      else if p_header_type p = HEADER_2 then
        (case p_transport_id p of
           None \<Rightarrow> (Inl ''Packet with header type 2 must have a transport ID'', p)
         | Some t \<Rightarrow> (Inr (t @ d_hash d), p\<lparr>p_ciphertext := Some (p_data p)\<rparr>))
      else (Inr [], p))"

definition pack ::
  "(bytes \<Rightarrow> bytes) \<Rightarrow> (destination \<Rightarrow> bytes \<Rightarrow> string + bytes \<times> bytes option) \<Rightarrow> packet
   \<Rightarrow> (string + unit) \<times> packet"
where
  "pack sha enc p =
     (case p_destination p of
        None \<Rightarrow> (Inl ''Packet has no destination'', p)
      | Some d \<Rightarrow>
        (let p = p\<lparr>p_destination_hash := Some (d_hash d)\<rparr> in
         case pack_header enc d p of
           (Inl e, p) \<Rightarrow> (Inl e, p)
         | (Inr addr, p) \<Rightarrow>
           (let raw = [p_flags p, p_hops p] @ addr @ [p_context p]
                      @ (case p_ciphertext p of None \<Rightarrow> [] | Some c \<Rightarrow> c)
            in if length raw > p_mtu p then (Inl ''Packet size exceeds MTU'', p)
               else (Inr (), update_hash sha (p\<lparr>p_raw := raw, p_packed := True\<rparr>)))))"

section \<open>unpack\<close>

definition unpack_flags :: "packet \<Rightarrow> packet" where
  "unpack_flags p =
     (let f = p_flags p in
      p\<lparr>p_header_type := drop_bit 6 (f AND 0b01000000),
        p_context_flag := drop_bit 5 (f AND 0b00100000),
        p_transport_type := drop_bit 4 (f AND 0b00010000),
        p_packet_type := f AND 0b00000011,
        p_destination_type := dest_type_of_u8 (drop_bit 2 (f AND 0b00001100))\<rparr>)"

text \<open>
  \<^verbatim>\<open>unpack\<close> returns whether the frame is well formed, and the packet as far as it was read:
  the rejected packet keeps the fields assigned before the check that dropped it.
\<close>

definition unpack_addresses :: "packet \<Rightarrow> bool \<times> packet" where
  "unpack_addresses p =
     (let raw = p_raw p in
      if p_header_type p = HEADER_2 then
        (if length raw < 2 + DST_LEN * 2 + 1 then (False, p)
         else (True, p\<lparr>p_transport_id := Some (byte_range 2 (2 + DST_LEN) raw),
                 p_destination_hash := Some (byte_range (2 + DST_LEN) (2 + DST_LEN * 2) raw),
                 p_context := raw ! (2 + DST_LEN * 2),
                 p_data := drop (2 + DST_LEN * 2 + 1) raw\<rparr>))
      else
        (if length raw < 2 + DST_LEN + 1 then (False, p)
         else (True, p\<lparr>p_transport_id := None,
                 p_destination_hash := Some (byte_range 2 (2 + DST_LEN) raw),
                 p_context := raw ! (2 + DST_LEN),
                 p_data := drop (2 + DST_LEN + 1) raw\<rparr>)))"

definition unpack :: "(bytes \<Rightarrow> bytes) \<Rightarrow> packet \<Rightarrow> bool \<times> packet" where
  "unpack sha p =
     (if length (p_raw p) < 2 then (False, p)
      else
        let p = p\<lparr>p_flags := p_raw p ! 0, p_hops := p_raw p ! 1\<rparr> in
        if p_hops p \<ge> PATHFINDER_M then (False, p)
        else
          (case unpack_addresses (unpack_flags p) of
             (False, p) \<Rightarrow> (False, p)
           | (True, p) \<Rightarrow>
             if p_data p = [] then (False, p)
             else (True, update_hash sha (p\<lparr>p_packed := False\<rparr>))))"

section \<open>send, resend, prove\<close>

text \<open>
  \<open>outbound\<close> is \<^verbatim>\<open>Transport::outbound\<close>: whether some interface took the packet, and the packet
  it leaves (a receipt attached).
\<close>

definition send ::
  "(bytes \<Rightarrow> bytes) \<Rightarrow> (destination \<Rightarrow> bytes \<Rightarrow> string + bytes \<times> bytes option)
   \<Rightarrow> (packet \<Rightarrow> bool \<times> packet) \<Rightarrow> real \<Rightarrow> packet \<Rightarrow> (string + receipt option) \<times> packet"
where
  "send sha enc outbound now p =
     (if p_sent p then (Inl ''Packet was already sent'', p)
      else if p_destination p = None then (Inl ''Packet has no destination'', p)
      else if p_hops p \<ge> PATHFINDER_M then (Inr None, p)
      else
        (case (if p_packed p then (Inr (), p) else pack sha enc p) of
           (Inl e, p) \<Rightarrow> (Inl e, p)
         | (Inr _, p) \<Rightarrow>
           (case outbound p of
              (True, p) \<Rightarrow> (Inr (p_receipt p), p\<lparr>p_sent := True, p_sent_at := Some now\<rparr>)
            | (False, p) \<Rightarrow> (Inr None, p\<lparr>p_sent := False, p_receipt := None\<rparr>))))"

definition resend ::
  "(bytes \<Rightarrow> bytes) \<Rightarrow> (destination \<Rightarrow> bytes \<Rightarrow> string + bytes \<times> bytes option)
   \<Rightarrow> (packet \<Rightarrow> bool \<times> packet) \<Rightarrow> packet \<Rightarrow> (string + receipt option) \<times> packet"
where
  "resend sha enc outbound p =
     (if \<not> p_sent p then (Inl ''Packet was not sent yet'', p)
      else
        (case pack sha enc p of
           (Inl e, p) \<Rightarrow> (Inl e, p)
         | (Inr _, p) \<Rightarrow>
           (case outbound p of
              (True, p) \<Rightarrow> (Inr (p_receipt p), p)
            | (False, p) \<Rightarrow> (Inr None, p\<lparr>p_sent := False, p_receipt := None\<rparr>))))"

definition should_generate_receipt :: "packet \<Rightarrow> bool" where
  "should_generate_receipt p \<longleftrightarrow>
     p_create_receipt p \<and> p_packet_type p = DATA
     \<and> (case p_destination p of None \<Rightarrow> Plain | Some d \<Rightarrow> d_dest_type d) \<noteq> Plain
     \<and> \<not> p_context p \<ge> KEEPALIVE
     \<and> \<not> (p_context p \<ge> RESOURCE \<and> p_context p \<le> RESOURCE_RCL)"

text \<open>
  The proof packet that \<^verbatim>\<open>prove\<close> builds. \<open>sign\<close> is \<^verbatim>\<open>Identity::sign\<close>, \<open>implicit\<close> is
  \<^verbatim>\<open>should_use_implicit_proof()\<close>. The proof's destination has the defaults of
  \<^verbatim>\<open>Destination::default()\<close> except its hash and type.
\<close>

definition proof_destination :: "bytes \<Rightarrow> destination" where
  "proof_destination h = default_destination\<lparr>d_hash := h, d_dest_type := Single\<rparr>"

definition proof_packet ::
  "(bytes \<Rightarrow> bytes) \<Rightarrow> (identity \<Rightarrow> bytes \<Rightarrow> bytes) \<Rightarrow> bool \<Rightarrow> packet \<Rightarrow> destination option
   \<Rightarrow> string + packet"
where
  "proof_packet sha sign implicit p proving_destination =
     (if \<not> p_from_packed p then Inl ''Can only prove packets constructed from raw data''
      else case p_packet_hash p of
        None \<Rightarrow> Inl ''Packet has no hash for proving''
      | Some h \<Rightarrow>
        (case (case proving_destination of
                 Some d \<Rightarrow> d_identity d
               | None \<Rightarrow> Option.bind (p_destination p) d_identity) of
           None \<Rightarrow> Inl ''No identity available for proving packet''
         | Some i \<Rightarrow>
           (let proof_data = (if implicit then sign i h else h @ sign i h) in
            Inr (new_packet (Some (proof_destination (get_truncated_hash sha p))) proof_data
                   PROOF CTX_NONE BROADCAST HEADER_1 None (p_receiving_interface p)
                   False FLAG_UNSET))))"

text \<open>\<^verbatim>\<open>prove\<close>: the result, and the proof packet as \<^verbatim>\<open>send\<close> left it.\<close>

definition prove ::
  "(bytes \<Rightarrow> bytes) \<Rightarrow> (identity \<Rightarrow> bytes \<Rightarrow> bytes)
   \<Rightarrow> (destination \<Rightarrow> bytes \<Rightarrow> string + bytes \<times> bytes option) \<Rightarrow> (packet \<Rightarrow> bool \<times> packet)
   \<Rightarrow> bool \<Rightarrow> real \<Rightarrow> packet \<Rightarrow> destination option \<Rightarrow> (string + unit) \<times> packet option"
where
  "prove sha sign enc outbound implicit now p proving_destination =
     (case proof_packet sha sign implicit p proving_destination of
        Inl e \<Rightarrow> (Inl e, None)
      | Inr q \<Rightarrow>
        (case send sha enc outbound now q of
           (Inl e, q') \<Rightarrow> (Inl (''Failed to send proof: '' @ e), Some q')
         | (Inr _, q') \<Rightarrow> (Inr (), Some q')))"

section \<open>The flag byte\<close>

lemma le_1_cases: "(w::u8) \<le> 1 \<Longrightarrow> w = 0 \<or> w = 1"
  by unat_arith
lemma le_3_cases: "(w::u8) \<le> 3 \<Longrightarrow> w = 0 \<or> w = 1 \<or> w = 2 \<or> w = 3"
  by unat_arith

lemma flag_byte_fields:
  assumes "h \<le> 1" "cf \<le> 1" "tt \<le> 1" "dt \<le> 3" "pt \<le> 3"
  shows "drop_bit 6 (flag_byte h cf tt dt pt AND 0b01000000) = h"
    and "drop_bit 5 (flag_byte h cf tt dt pt AND 0b00100000) = cf"
    and "drop_bit 4 (flag_byte h cf tt dt pt AND 0b00010000) = tt"
    and "drop_bit 2 (flag_byte h cf tt dt pt AND 0b00001100) = dt"
    and "flag_byte h cf tt dt pt AND 0b00000011 = pt"
  using le_1_cases [OF assms(1)] le_1_cases [OF assms(2)] le_1_cases [OF assms(3)]
    le_3_cases [OF assms(4)] le_3_cases [OF assms(5)]
  by (elim disjE; simp add: flag_byte_def)+

lemma dest_type_u8_le_3: "dest_type_u8 t \<le> 3"
  by (cases t) simp_all

lemma dest_type_of_u8_inverse [simp]: "dest_type_of_u8 (dest_type_u8 t) = Some t"
  by (cases t) (simp_all add: dest_type_of_u8_def)

text \<open>Field values that fit their bits in the flag byte.\<close>

definition wf_header :: "packet \<Rightarrow> bool" where
  "wf_header p \<longleftrightarrow> p_header_type p \<le> 1 \<and> p_context_flag p \<le> 1 \<and> p_transport_type p \<le> 1
     \<and> p_packet_type p \<le> 3"

definition packed_dest_type :: "packet \<Rightarrow> destination_type" where
  "packed_dest_type p =
     (if p_context p = LRPROOF then Link
      else case p_destination p of None \<Rightarrow> Plain | Some d \<Rightarrow> d_dest_type d)"

lemma get_packed_flags_eq:
  "get_packed_flags p = flag_byte (p_header_type p) (p_context_flag p) (p_transport_type p)
     (dest_type_u8 (packed_dest_type p)) (p_packet_type p)"
  by (simp add: get_packed_flags_def packed_dest_type_def)

lemma unpack_flags_packed:
  assumes "wf_header p"
  shows "unpack_flags (q\<lparr>p_flags := get_packed_flags p\<rparr>) =
     q\<lparr>p_flags := get_packed_flags p, p_header_type := p_header_type p,
       p_context_flag := p_context_flag p, p_transport_type := p_transport_type p,
       p_packet_type := p_packet_type p, p_destination_type := Some (packed_dest_type p)\<rparr>"
  using assms flag_byte_fields [of "p_header_type p" "p_context_flag p" "p_transport_type p"
      "dest_type_u8 (packed_dest_type p)" "p_packet_type p"] dest_type_u8_le_3
  by (simp add: unpack_flags_def get_packed_flags_eq wf_header_def)

text \<open>What a well-formed frame looks like.\<close>

definition frame :: "u8 \<Rightarrow> u8 \<Rightarrow> bytes option \<Rightarrow> bytes \<Rightarrow> u8 \<Rightarrow> bytes \<Rightarrow> bytes" where
  "frame flags hops tid dst ctx data =
     [flags, hops] @ (case tid of None \<Rightarrow> [] | Some t \<Rightarrow> t) @ dst @ [ctx] @ data"

lemma unpack_addresses_frame:
  assumes "p_raw p = frame f h tid dst ctx data"
    and "length dst = DST_LEN"
    and "p_header_type p = (case tid of None \<Rightarrow> HEADER_1 | Some _ \<Rightarrow> HEADER_2)"
    and "case tid of None \<Rightarrow> True | Some t \<Rightarrow> length t = DST_LEN"
  shows "unpack_addresses p = (True, p\<lparr>p_transport_id := tid, p_destination_hash := Some dst,
     p_context := ctx, p_data := data\<rparr>)"
  using assms
  by (cases tid) (simp_all add: unpack_addresses_def frame_def Let_def byte_range_def nth_append)

lemma unpack_addresses_shape:
  assumes "unpack_addresses p = (True, q)" and "2 \<le> length (p_raw p)"
  shows "\<exists>tid dst ctx data. p_raw p = frame (p_raw p ! 0) (p_raw p ! 1) tid dst ctx data
     \<and> length dst = DST_LEN
     \<and> (case tid of None \<Rightarrow> p_header_type p \<noteq> HEADER_2
         | Some t \<Rightarrow> length t = DST_LEN \<and> p_header_type p = HEADER_2)
     \<and> q = p\<lparr>p_transport_id := tid, p_destination_hash := Some dst, p_context := ctx, p_data := data\<rparr>"
proof -
  let ?raw = "p_raw p"
  have two: "take 2 ?raw = [?raw ! 0, ?raw ! 1]"
    using assms(2) by (cases ?raw; cases "tl ?raw") auto
  show ?thesis
  proof (cases "p_header_type p = HEADER_2")
    case True
    with assms(1) have len: "34 < length ?raw"
      and q: "q = p\<lparr>p_transport_id := Some (byte_range 2 18 ?raw),
        p_destination_hash := Some (byte_range 18 34 ?raw), p_context := ?raw ! 34,
        p_data := drop 35 ?raw\<rparr>"
      by (auto simp: unpack_addresses_def Let_def split: if_splits)
    have "?raw = take 2 ?raw @ byte_range 2 18 ?raw @ drop 18 ?raw"
      by (simp add: take_byte_range_drop)
    moreover have "drop 18 ?raw = byte_range 18 34 ?raw @ [?raw ! 34] @ drop 35 ?raw"
      using len split_byte_range [of 0 16 "drop 18 ?raw"] by (simp add: byte_range_def)
    ultimately have "?raw = frame (?raw ! 0) (?raw ! 1) (Some (byte_range 2 18 ?raw))
        (byte_range 18 34 ?raw) (?raw ! 34) (drop 35 ?raw)"
      by (simp add: frame_def two)
    moreover have "length (byte_range 2 18 ?raw) = 16" "length (byte_range 18 34 ?raw) = 16"
      using len by (simp_all del: length_byte_range add: byte_range_def)
    ultimately show ?thesis using True q by (fastforce simp del: length_byte_range)
  next
    case False
    with assms(1) have len: "18 < length ?raw"
      and q: "q = p\<lparr>p_transport_id := None, p_destination_hash := Some (byte_range 2 18 ?raw),
        p_context := ?raw ! 18, p_data := drop 19 ?raw\<rparr>"
      by (auto simp: unpack_addresses_def Let_def split: if_splits)
    have "?raw = frame (?raw ! 0) (?raw ! 1) None (byte_range 2 18 ?raw) (?raw ! 18) (drop 19 ?raw)"
      using len split_byte_range [of 2 18 ?raw] by (simp add: frame_def two)
    moreover have "length (byte_range 2 18 ?raw) = 16"
      using len by simp
    ultimately show ?thesis using False q by (fastforce simp del: length_byte_range)
  qed
qed

lemma header_bit_cases: "drop_bit 6 ((f::u8) AND 64) = 0 \<or> drop_bit 6 (f AND 64) = 1"
proof -
  have "unat (f AND 64) \<le> 64" using word_and_le1 [of f 64] by (simp add: word_le_nat_alt)
  then have "unat (drop_bit 6 (f AND 64)) \<le> 1" by (simp add: unat_drop_bit_eq drop_bit_eq_div unat_div)
  then have "drop_bit 6 (f AND 64) \<le> 1" by (simp add: word_le_nat_alt)
  then show ?thesis by (rule le_1_cases)
qed

lemma dest_type_bits: "\<exists>t. dest_type_of_u8 (drop_bit 2 ((f::u8) AND 12)) = Some t"
proof -
  have "unat (f AND 12) \<le> 12" using word_and_le1 [of f 12] by (simp add: word_le_nat_alt)
  then have "unat (drop_bit 2 (f AND 12)) \<le> 3" by (simp add: unat_drop_bit_eq drop_bit_eq_div unat_div)
  then have "drop_bit 2 (f AND 12) \<le> 3" by (simp add: word_le_nat_alt)
  then show ?thesis using le_3_cases by (fastforce simp: dest_type_of_u8_def)
qed

lemma get_hashable_part_updates [simp]:
  "get_hashable_part (p\<lparr>p_packet_hash := h\<rparr>) = get_hashable_part p"
  "get_hashable_part (p\<lparr>p_packed := b\<rparr>) = get_hashable_part p"
  "get_hashable_part (p\<lparr>p_hops := n\<rparr>) = get_hashable_part p"
  by (simp_all add: get_hashable_part_def split: list.split)

section \<open>Exactness of the parser\<close>

text \<open>Exactness of the parser.\<close>

lemma unpack_TrueD:
  assumes "unpack sha p = (True, q)"
  shows "p_raw q = p_raw p"
    and "\<exists>dst. p_destination_hash q = Some dst \<and> length dst = DST_LEN
       \<and> p_raw p = frame (p_flags q) (p_hops q) (p_transport_id q) dst (p_context q) (p_data q)
       \<and> (case p_transport_id q of None \<Rightarrow> p_header_type q = HEADER_1
           | Some t \<Rightarrow> length t = DST_LEN \<and> p_header_type q = HEADER_2)"
    and "p_data q \<noteq> []" and "p_hops q < PATHFINDER_M"
    and "p_packet_hash q = Some (get_hash sha q)"
    and "p_receiving_interface q = p_receiving_interface p"
    and "\<exists>t. p_destination_type q = Some t"
proof -
  let ?p0 = "p\<lparr>p_flags := p_raw p ! 0, p_hops := p_raw p ! 1\<rparr>"
  obtain r where r: "unpack_addresses (unpack_flags ?p0) = (True, r)"
    and len: "2 \<le> length (p_raw p)" and hops: "p_raw p ! 1 < PATHFINDER_M"
    and data: "p_data r \<noteq> []" and q: "q = update_hash sha (r\<lparr>p_packed := False\<rparr>)"
    using assms by (auto simp: unpack_def Let_def split: if_splits prod.splits bool.splits)
  let ?f = "unpack_flags ?p0"
  have f: "p_raw ?f = p_raw p" "p_flags ?f = p_raw p ! 0" "p_hops ?f = p_raw p ! 1"
    "p_receiving_interface ?f = p_receiving_interface p"
    by (simp_all add: unpack_flags_def Let_def)
  obtain tid dst ctx dat where sh: "p_raw p = frame (p_raw p ! 0) (p_raw p ! 1) tid dst ctx dat"
    "length dst = DST_LEN"
    "case tid of None \<Rightarrow> p_header_type ?f \<noteq> HEADER_2
       | Some t \<Rightarrow> length t = DST_LEN \<and> p_header_type ?f = HEADER_2"
    "r = ?f\<lparr>p_transport_id := tid, p_destination_hash := Some dst, p_context := ctx, p_data := dat\<rparr>"
    using unpack_addresses_shape [OF r] len f by auto
  have h: "p_header_type ?f = HEADER_1 \<or> p_header_type ?f = HEADER_2"
    using header_bit_cases by (simp add: unpack_flags_def Let_def)
  show "p_raw q = p_raw p" "p_data q \<noteq> []" "p_hops q < PATHFINDER_M"
    "p_receiving_interface q = p_receiving_interface p"
    using data hops by (simp_all add: q sh(4) unpack_flags_def Let_def update_hash_def)
  show "p_packet_hash q = Some (get_hash sha q)"
    by (simp add: q update_hash_def get_hash_def)
  show "\<exists>dst. p_destination_hash q = Some dst \<and> length dst = DST_LEN
       \<and> p_raw p = frame (p_flags q) (p_hops q) (p_transport_id q) dst (p_context q) (p_data q)
       \<and> (case p_transport_id q of None \<Rightarrow> p_header_type q = HEADER_1
           | Some t \<Rightarrow> length t = DST_LEN \<and> p_header_type q = HEADER_2)"
    using sh h by (auto simp: q update_hash_def unpack_flags_def Let_def split: option.splits)
  show "\<exists>t. p_destination_type q = Some t"
    using dest_type_bits by (auto simp: q sh(4) update_hash_def unpack_flags_def Let_def)
qed


section \<open>Round trip\<close>

text \<open>
  A packet whose fields fit the wire format: the values \<^verbatim>\<open>Packet::new\<close> is called with in the
  program. A link-request proof has a HEADER\_1 header.
\<close>

definition canonical :: "packet \<Rightarrow> bool" where
  "canonical p \<longleftrightarrow> wf_header p \<and> p_flags p = get_packed_flags p \<and> p_hops p < PATHFINDER_M
     \<and> (p_context p = LRPROOF \<longrightarrow> p_header_type p = HEADER_1)
     \<and> (\<forall>d. p_destination p = Some d \<longrightarrow> length (d_hash d) = DST_LEN)
     \<and> (\<forall>t. p_transport_id p = Some t \<longrightarrow> length t = DST_LEN)"

definition wire_transport_id :: "packet \<Rightarrow> bytes option" where
  "wire_transport_id p = (if p_header_type p = HEADER_2 then p_transport_id p else None)"

lemma pack_InrD:
  assumes "pack sha enc p = (Inr (), q)" and "canonical p"
  shows "\<exists>d c. p_destination p = Some d \<and> p_ciphertext q = Some c
     \<and> p_raw q = frame (p_flags p) (p_hops p) (wire_transport_id p) (d_hash d) (p_context p) c
     \<and> (p_header_type p = HEADER_2 \<longrightarrow> p_transport_id p \<noteq> None)
     \<and> length (p_raw q) \<le> p_mtu p \<and> p_packet_hash q = Some (get_hash sha q)
     \<and> p_header_type q = p_header_type p"
proof -
  have h: "p_header_type p = 0 \<or> p_header_type p = 1"
    using assms(2) le_1_cases by (auto simp: canonical_def wf_header_def)
  show ?thesis
    using assms h
    by (auto simp: pack_def pack_header_def canonical_def wf_header_def frame_def wire_transport_id_def Let_def update_hash_def
          get_hash_def split: option.splits sum.splits prod.splits if_splits)
qed

lemma hashable_frame:
  assumes "p_raw p = frame f h tid dst ctx data"
    and "p_header_type p = (case tid of None \<Rightarrow> HEADER_1 | Some _ \<Rightarrow> HEADER_2)"
    and "case tid of None \<Rightarrow> True | Some t \<Rightarrow> length t = DST_LEN"
  shows "get_hashable_part p = (f AND 15) # dst @ [ctx] @ data"
  using assms by (cases tid) (auto simp: get_hashable_part_def frame_def)

lemma pack_unpack:
  assumes "pack sha enc p = (Inr (), q)" and "canonical p" and "p_ciphertext q \<noteq> Some []"
  shows "\<exists>r. unpack sha (new_packet None (p_raw q) pt cx tt ht tid ai cr cf) = (True, r)
     \<and> p_packet_type r = p_packet_type p \<and> p_header_type r = p_header_type p
     \<and> p_transport_type r = p_transport_type p \<and> p_context_flag r = p_context_flag p
     \<and> p_context r = p_context p \<and> p_hops r = p_hops p
     \<and> p_destination_type r = Some (packed_dest_type p)
     \<and> p_destination_hash r = map_option d_hash (p_destination p)
     \<and> p_transport_id r = wire_transport_id p
     \<and> Some (p_data r) = p_ciphertext q \<and> p_packet_hash r = p_packet_hash q"
proof -
  obtain d c where d: "p_destination p = Some d" and c: "p_ciphertext q = Some c"
    and raw: "p_raw q = frame (p_flags p) (p_hops p) (wire_transport_id p) (d_hash d) (p_context p) c"
    and tid: "p_header_type p = HEADER_2 \<longrightarrow> p_transport_id p \<noteq> None"
    and hash: "p_packet_hash q = Some (get_hash sha q)" and ht: "p_header_type q = p_header_type p"
    using pack_InrD [OF assms(1,2)] by blast
  have wf: "wf_header p" and fl: "p_flags p = get_packed_flags p" and hops: "p_hops p < PATHFINDER_M"
    and dl: "length (d_hash d) = DST_LEN"
    and tl: "\<forall>t. p_transport_id p = Some t \<longrightarrow> length t = DST_LEN"
    using assms(2) d by (auto simp: canonical_def)
  let ?n = "new_packet None (p_raw q) pt cx tt ht tid ai cr cf"
  let ?p0 = "?n\<lparr>p_flags := p_raw q ! 0, p_hops := p_raw q ! 1\<rparr>"
  have raw0: "p_raw q ! 0 = get_packed_flags p" "p_raw q ! Suc 0 = p_hops p" "length (p_raw q) \<ge> 2"
    using raw fl by (simp_all add: frame_def)
  let ?f = "unpack_flags (?n\<lparr>p_hops := p_hops p, p_flags := get_packed_flags p\<rparr>)"
  have f: "?f = ?n\<lparr>p_hops := p_hops p, p_flags := get_packed_flags p, p_header_type := p_header_type p,
       p_context_flag := p_context_flag p, p_transport_type := p_transport_type p,
       p_packet_type := p_packet_type p, p_destination_type := Some (packed_dest_type p)\<rparr>"
    by (rule unpack_flags_packed [OF wf])
  have htc: "p_header_type p = (case wire_transport_id p of None \<Rightarrow> HEADER_1 | Some _ \<Rightarrow> HEADER_2)"
    using wf tid le_1_cases [of "p_header_type p"] by (auto simp: wire_transport_id_def wf_header_def)
  have tl': "case wire_transport_id p of None \<Rightarrow> True | Some t \<Rightarrow> length t = DST_LEN"
    using tl by (auto simp: wire_transport_id_def split: option.split)
  have fr: "p_raw ?f = p_raw q" "p_header_type ?f = p_header_type p"
    unfolding f by (simp_all add: new_packet_def)
  have a: "unpack_addresses ?f = (True, ?f\<lparr>p_transport_id := wire_transport_id p,
      p_destination_hash := Some (d_hash d), p_context := p_context p, p_data := c\<rparr>)"
    by (rule unpack_addresses_frame [OF trans [OF fr(1) raw] dl trans [OF fr(2) htc] tl'])
  have "get_hashable_part q = (p_flags p AND 15) # d_hash d @ [p_context p] @ c"
    by (rule hashable_frame [OF raw _ tl']) (simp add: ht htc)
  moreover have "get_hashable_part (?f\<lparr>p_transport_id := wire_transport_id p,
      p_destination_hash := Some (d_hash d), p_context := p_context p, p_data := c\<rparr>)
      = (p_flags p AND 15) # d_hash d @ [p_context p] @ c"
    using trans [OF fr(1) raw] trans [OF fr(2) htc] by (intro hashable_frame [OF _ _ tl']) simp_all
  ultimately have g: "get_hash sha (?f\<lparr>p_transport_id := wire_transport_id p,
      p_destination_hash := Some (d_hash d), p_context := p_context p, p_data := c\<rparr>) = get_hash sha q"
    by (simp add: get_hash_def)
  have ne: "c \<noteq> []" using assms(3) c by auto
  have "unpack sha ?n = (True, update_hash sha (?f\<lparr>p_transport_id := wire_transport_id p,
      p_destination_hash := Some (d_hash d), p_context := p_context p, p_data := c, p_packed := False\<rparr>))"
    using a hops raw0 ne by (simp add: unpack_def new_packet_def Let_def linorder_not_le [symmetric])
  then show ?thesis
    using g hash by (simp add: f update_hash_def c d get_hash_def)
qed


lemma unpack_hashable:
  assumes "unpack sha p = (True, q)"
  shows "\<exists>dst. p_destination_hash q = Some dst \<and> length dst = DST_LEN
    \<and> get_hashable_part q = (p_flags q AND 15) # dst @ [p_context q] @ p_data q"
proof -
  obtain dst where d: "p_destination_hash q = Some dst" "length dst = DST_LEN"
    and raw: "p_raw q = frame (p_flags q) (p_hops q) (p_transport_id q) dst (p_context q) (p_data q)"
    and t: "case p_transport_id q of None \<Rightarrow> p_header_type q = HEADER_1
           | Some t \<Rightarrow> length t = DST_LEN \<and> p_header_type q = HEADER_2"
    using unpack_TrueD(1,2) [OF assms] by auto
  have "get_hashable_part q = (p_flags q AND 15) # dst @ [p_context q] @ p_data q"
    using t by (intro hashable_frame [OF raw]) (auto split: option.splits)
  then show ?thesis using d by blast
qed

section \<open>Properties\<close>

text \<open>A concrete announce, for the witnesses.\<close>

definition sample_destination :: destination where
  "sample_destination = default_destination\<lparr>d_hash := replicate 16 7, d_dest_type := Single\<rparr>"

definition sample_packet :: packet where
  "sample_packet = new_packet (Some sample_destination) [1, 2, 3] ANNOUNCE CTX_NONE BROADCAST
     HEADER_1 None None False FLAG_SET"

definition sample_frame :: bytes where
  "sample_frame = [0x21, 0] @ replicate 16 7 @ [0, 1, 2, 3]"

lemma sample_pack:
  "pack (\<lambda>x. x) (\<lambda>d x. Inl []) sample_packet =
     (Inr (), sample_packet\<lparr>p_destination_hash := Some (replicate 16 7),
        p_ciphertext := Some [1, 2, 3], p_raw := sample_frame, p_packed := True,
        p_packet_hash := Some (1 # drop 2 sample_frame)\<rparr>)"
  by (simp add: sample_packet_def sample_destination_def new_packet_def pack_def pack_header_def
      sent_in_clear_def get_packed_flags_def flag_byte_def Let_def update_hash_def get_hash_def
      full_hash_def get_hashable_part_def sample_frame_def)

lemma sample_canonical: "canonical sample_packet"
  by (simp add: canonical_def wf_header_def sample_packet_def new_packet_def sample_destination_def Let_def
       get_packed_flags_def)

text \<open>
  C17. What \<^verbatim>\<open>pack\<close> writes, \<^verbatim>\<open>unpack\<close> reads back: for a packet whose fields fit the header and
  whose ciphertext is not empty, the receiver that wraps the raw bytes
  (\<^verbatim>\<open>Packet::new(None, raw, ..)\<close>, whatever the other arguments) accepts the frame and gets the
  packet type, header type, transport type, context flag, context, hop count, destination type
  and hash, transport id, ciphertext and packet hash of the sender.
\<close>

theorem pack_unpack_roundtrip:
  assumes "pack sha enc p = (Inr (), q)" and "canonical p" and "p_ciphertext q \<noteq> Some []"
  shows "\<exists>r. unpack sha (new_packet None (p_raw q) pt cx tt ht tid ai cr cf) = (True, r)
     \<and> p_packet_type r = p_packet_type p \<and> p_header_type r = p_header_type p
     \<and> p_transport_type r = p_transport_type p \<and> p_context_flag r = p_context_flag p
     \<and> p_context r = p_context p \<and> p_hops r = p_hops p
     \<and> p_destination_type r = Some (packed_dest_type p)
     \<and> p_destination_hash r = map_option d_hash (p_destination p)
     \<and> p_transport_id r = wire_transport_id p
     \<and> Some (p_data r) = p_ciphertext q \<and> p_packet_hash r = p_packet_hash q"
  by (rule pack_unpack [OF assms])

theorem pack_unpack_roundtrip_witness:
  "\<exists>r. unpack (\<lambda>x. x) (new_packet None sample_frame DATA CTX_NONE BROADCAST HEADER_1 None None False 0)
       = (True, r) \<and> p_packet_type r = ANNOUNCE \<and> p_data r = [1, 2, 3]"
  using pack_unpack_roundtrip [OF sample_pack sample_canonical, of DATA CTX_NONE BROADCAST HEADER_1
      None None False 0]
  by (auto simp: sample_packet_def new_packet_def sample_destination_def)

text \<open>
  \<^verbatim>\<open>unpack\<close> accepts only well-formed frames and loses nothing: the raw bytes are exactly the
  frame rebuilt from the fields it read, with a transport id if and only if the header is
  HEADER\_2, both addresses of the right length, a hop count under \<^verbatim>\<open>PATHFINDER_M\<close> and a
  payload that is not empty.
\<close>

theorem unpack_exact:
  assumes "unpack sha p = (True, q)"
  shows "\<exists>dst. p_destination_hash q = Some dst \<and> length dst = DST_LEN
       \<and> p_raw p = frame (p_flags q) (p_hops q) (p_transport_id q) dst (p_context q) (p_data q)
       \<and> (case p_transport_id q of None \<Rightarrow> p_header_type q = HEADER_1
           | Some t \<Rightarrow> length t = DST_LEN \<and> p_header_type q = HEADER_2)
       \<and> p_data q \<noteq> [] \<and> p_hops q < PATHFINDER_M \<and> p_packet_hash q = Some (get_hash sha q)"
  using unpack_TrueD [OF assms] by blast

theorem unpack_exact_witness:
  "\<exists>q dst. unpack (\<lambda>x. x) (new_packet None sample_frame DATA CTX_NONE BROADCAST HEADER_1 None None False 0)
       = (True, q) \<and> p_destination_hash q = Some dst
     \<and> sample_frame = frame (p_flags q) (p_hops q) (p_transport_id q) dst (p_context q) (p_data q)"
proof -
  obtain q where q: "unpack (\<lambda>x. x)
      (new_packet None sample_frame DATA CTX_NONE BROADCAST HEADER_1 None None False 0) = (True, q)"
    by (simp add: unpack_def new_packet_def sample_frame_def unpack_flags_def unpack_addresses_def
        Let_def)
  show ?thesis using q unpack_exact [OF q] by (auto simp: new_packet_def)
qed

text \<open>
  The packet hash identifies a packet up to the route it took. Two accepted frames have the
  same hashable part exactly when the low four bits of their flags (destination and packet
  type), their destination hash, context and payload agree: hop count, header type, transport
  id and transport type, which every relay rewrites, do not enter it, and neither does the
  context flag.
\<close>

theorem hashable_part_iff:
  assumes "unpack sha p = (True, q)" and "unpack sha p' = (True, q')"
  shows "get_hashable_part q = get_hashable_part q' \<longleftrightarrow>
     p_flags q AND 15 = p_flags q' AND 15 \<and> p_destination_hash q = p_destination_hash q'
     \<and> p_context q = p_context q' \<and> p_data q = p_data q'"
proof -
  obtain dst where d: "p_destination_hash q = Some dst" "length dst = DST_LEN"
    "get_hashable_part q = (p_flags q AND 15) # dst @ [p_context q] @ p_data q"
    using unpack_hashable [OF assms(1)] by blast
  obtain dst' where d': "p_destination_hash q' = Some dst'" "length dst' = DST_LEN"
    "get_hashable_part q' = (p_flags q' AND 15) # dst' @ [p_context q'] @ p_data q'"
    using unpack_hashable [OF assms(2)] by blast
  show ?thesis using d d' by auto
qed

theorem hashable_part_iff_witness:
  "\<exists>q q'. unpack (\<lambda>x. x) (new_packet None ([0x01, 0] @ replicate 16 7 @ [0, 1])
        DATA CTX_NONE BROADCAST HEADER_1 None None False 0) = (True, q)
    \<and> unpack (\<lambda>x. x) (new_packet None ([0x71, 5] @ replicate 16 9 @ replicate 16 7 @ [0, 1])
        DATA CTX_NONE BROADCAST HEADER_1 None None False 0) = (True, q')
    \<and> get_hashable_part q = get_hashable_part q'"
proof -
  obtain q where q: "unpack (\<lambda>x. x) (new_packet None ([0x01, 0] @ replicate 16 7 @ [0, 1])
        DATA CTX_NONE BROADCAST HEADER_1 None None False 0) = (True, q)"
    "p_flags q = 1" "p_destination_hash q = Some (replicate 16 7)" "p_context q = 0" "p_data q = [1]"
    by (simp add: unpack_def new_packet_def unpack_flags_def unpack_addresses_def Let_def byte_range_def
        update_hash_def nth_append)
  obtain q' where q': "unpack (\<lambda>x. x) (new_packet None ([0x71, 5] @ replicate 16 9 @ replicate 16 7 @ [0, 1])
        DATA CTX_NONE BROADCAST HEADER_1 None None False 0) = (True, q')"
    "p_flags q' = 0x71" "p_destination_hash q' = Some (replicate 16 7)" "p_context q' = 0" "p_data q' = [1]"
    by (simp add: unpack_def new_packet_def unpack_flags_def unpack_addresses_def Let_def byte_range_def
        update_hash_def nth_append)
  show ?thesis using q q' hashable_part_iff [OF q(1) q'(1)] by auto
qed

end
