(* ===== verification/Receipt.thy ===== *)
theory Receipt
  imports Packet
begin

text \<open>
  \<^verbatim>\<open>PacketReceipt\<close> of \<^verbatim>\<open>src/packet.rs\<close>: how a sent packet concludes. An operation returns the
  receipt it leaves in the shared state and the callbacks it runs; \<open>now\<close> is the clock reading
  of the call. The setters \<^verbatim>\<open>set_sent\<close>, \<^verbatim>\<open>set_proved\<close>, \<^verbatim>\<open>set_status\<close>, \<^verbatim>\<open>set_concluded_at\<close> and
  \<^verbatim>\<open>set_sent_at\<close> overwrite one field each and are not operations of the state machine below.
  The latency assertion in \<^verbatim>\<open>fire_delivery_callback\<close> is the one of a release build: it logs.
\<close>

abbreviation (input) FAILED :: u8 where "FAILED \<equiv> 0x00"
abbreviation (input) SENT :: u8 where "SENT \<equiv> 0x01"
abbreviation (input) DELIVERED :: u8 where "DELIVERED \<equiv> 0x02"
abbreviation (input) CULLED :: u8 where "CULLED \<equiv> 0xFF"
abbreviation (input) EXPL_LENGTH :: nat where "EXPL_LENGTH \<equiv> 96"
abbreviation (input) IMPL_LENGTH :: nat where "IMPL_LENGTH \<equiv> 64"
abbreviation (input) TRAFFIC_TIMEOUT_MIN_MS :: real where "TRAFFIC_TIMEOUT_MIN_MS \<equiv> 5"
abbreviation (input) TRAFFIC_TIMEOUT_FACTOR :: real where "TRAFFIC_TIMEOUT_FACTOR \<equiv> 6"
abbreviation (input) DEFAULT_PER_HOP_TIMEOUT :: real where "DEFAULT_PER_HOP_TIMEOUT \<equiv> 6"
abbreviation (input) TIMEOUT_PER_HOP :: real where "TIMEOUT_PER_HOP \<equiv> 6"

section \<open>Construction\<close>

definition link_timeout :: "link_info option \<Rightarrow> real" where
  "link_timeout link =
     (let rtt = (case Option.bind link li_rtt of None \<Rightarrow> 0 | Some r \<Rightarrow> r);
          factor = (case link of None \<Rightarrow> TRAFFIC_TIMEOUT_FACTOR | Some l \<Rightarrow> li_traffic_timeout_factor l)
      in max (rtt * factor) (TRAFFIC_TIMEOUT_MIN_MS / 1000))"

text \<open>\<open>rid\<close> is the address of the fresh shared state.\<close>

definition from_parts :: "nat \<Rightarrow> real \<Rightarrow> bytes \<Rightarrow> bytes \<Rightarrow> destination \<Rightarrow> real \<Rightarrow> receipt" where
  "from_parts rid now h th d timeout =
     \<lparr> r_id = rid, r_hash = h, r_truncated_hash = th, r_destination = d,
       r_sent = True, r_sent_at = now, r_proved = False, r_status = SENT,
       r_concluded_at = None, r_timeout = timeout, r_delivery_callback = None,
       r_timeout_callback = None, r_delivery_notified = False, r_timeout_notified = False \<rparr>"

definition new_with_timeout :: "(bytes \<Rightarrow> bytes) \<Rightarrow> nat \<Rightarrow> real \<Rightarrow> packet \<Rightarrow> real \<Rightarrow> receipt" where
  "new_with_timeout sha rid now p timeout =
     from_parts rid now (get_hash sha p) (get_truncated_hash sha p)
       (case p_destination p of None \<Rightarrow> default_destination | Some d \<Rightarrow> d) timeout"

text \<open>\<^verbatim>\<open>PacketReceipt::new\<close>; \<open>hops_to\<close> is \<^verbatim>\<open>Transport::hops_to\<close>.\<close>

definition new_receipt ::
  "(bytes \<Rightarrow> bytes) \<Rightarrow> (bytes \<Rightarrow> u8) \<Rightarrow> nat \<Rightarrow> real \<Rightarrow> packet \<Rightarrow> receipt"
where
  "new_receipt sha hops_to rid now p =
     (let d = (case p_destination p of None \<Rightarrow> default_destination | Some d \<Rightarrow> d);
          timeout = (if d_dest_type d = Link then link_timeout (d_link d)
                     else DEFAULT_PER_HOP_TIMEOUT + TIMEOUT_PER_HOP *
                       real (unat (hops_to (case p_destination_hash p of None \<Rightarrow> [] | Some h \<Rightarrow> h))))
      in new_with_timeout sha rid now p timeout)"

section \<open>Operations\<close>

datatype callback_run = RunDelivery nat | RunTimeout nat

definition callbacks :: "(nat \<Rightarrow> callback_run) \<Rightarrow> nat option \<Rightarrow> callback_run list" where
  "callbacks mk cb = (case cb of None \<Rightarrow> [] | Some f \<Rightarrow> [mk f])"

definition mark_delivered :: "real \<Rightarrow> receipt \<Rightarrow> bool \<times> receipt \<times> callback_run list" where
  "mark_delivered now r =
     (if r_status r \<noteq> SENT \<and> r_status r \<noteq> FAILED then (False, r, [])
      else (True,
            r\<lparr>r_status := DELIVERED, r_proved := True, r_concluded_at := Some now,
              r_delivery_notified := (r_delivery_callback r \<noteq> None)\<rparr>,
            callbacks RunDelivery (r_delivery_callback r)))"

definition validate_with_identity_variants :: "crypto \<Rightarrow> identity \<Rightarrow> bytes \<Rightarrow> bytes \<Rightarrow> bool" where
  "validate_with_identity_variants c i signature h =
     (if validate c i signature h then True
      else case get_public_key i of
             Inl _ \<Rightarrow> False
           | Inr k \<Rightarrow>
             if length k = 64 then
               (case from_public_key c (byte_range 32 64 k @ take 32 k) of
                  Inl _ \<Rightarrow> False
                | Inr swapped \<Rightarrow> validate c swapped signature h)
             else False)"

definition validate_proof ::
  "crypto \<Rightarrow> real \<Rightarrow> bytes \<Rightarrow> receipt \<Rightarrow> bool \<times> receipt \<times> callback_run list"
where
  "validate_proof c now prf r =
     (if length prf = EXPL_LENGTH then
        (if take HASH_LEN prf = r_hash r then
           (case d_identity (r_destination r) of
              None \<Rightarrow> (False, r, [])
            | Some i \<Rightarrow>
              if validate_with_identity_variants c i (byte_range HASH_LEN (HASH_LEN + SIG_LEN) prf) (r_hash r)
              then mark_delivered now r else (False, r, []))
         else (False, r, []))
      else if length prf = IMPL_LENGTH then
        (case d_identity (r_destination r) of
           None \<Rightarrow> (False, r, [])
         | Some i \<Rightarrow>
           if validate_with_identity_variants c i prf (r_hash r)
           then mark_delivered now r else (False, r, []))
      else (False, r, []))"

definition receipt_validate_proof_packet ::
  "crypto \<Rightarrow> real \<Rightarrow> packet \<Rightarrow> receipt \<Rightarrow> bool \<times> receipt \<times> callback_run list"
where
  "receipt_validate_proof_packet c now proof_pkt r = validate_proof c now (p_data proof_pkt) r"

definition validate_link_proof_with ::
  "(bytes \<Rightarrow> bytes \<Rightarrow> bool) \<Rightarrow> real \<Rightarrow> bytes \<Rightarrow> receipt \<Rightarrow> bool \<times> receipt \<times> callback_run list"
where
  "validate_link_proof_with link_validate now prf r =
     (if length prf = EXPL_LENGTH then
        (if take HASH_LEN prf = r_hash r
            \<and> link_validate (byte_range HASH_LEN (HASH_LEN + SIG_LEN) prf) (r_hash r)
         then mark_delivered now r else (False, r, []))
      else (False, r, []))"

text \<open>The wrappers of \<^verbatim>\<open>Packet\<close>, on the packet's receipt.\<close>

definition packet_validate_proof ::
  "crypto \<Rightarrow> real \<Rightarrow> bytes \<Rightarrow> packet \<Rightarrow> bool \<times> packet \<times> callback_run list"
where
  "packet_validate_proof c now prf p =
     (case p_receipt p of
        None \<Rightarrow> (False, p, [])
      | Some r \<Rightarrow> (case validate_proof c now prf r of
                     (ok, r', es) \<Rightarrow> (ok, p\<lparr>p_receipt := Some r'\<rparr>, es)))"

definition is_timed_out :: "real \<Rightarrow> receipt \<Rightarrow> bool" where
  "is_timed_out now r \<longleftrightarrow> r_sent_at r + r_timeout r < now"

definition check_timeout :: "real \<Rightarrow> receipt \<Rightarrow> receipt \<times> callback_run list" where
  "check_timeout now r =
     (if r_status r \<noteq> SENT then (r, [])
      else if r_sent_at r + r_timeout r \<ge> now then (r, [])
      else (r\<lparr>r_status := (if r_timeout r = -1 then CULLED else FAILED),
              r_concluded_at := Some now,
              r_timeout_notified := (r_timeout_callback r \<noteq> None)\<rparr>,
            callbacks RunTimeout (r_timeout_callback r)))"

definition get_rtt :: "receipt \<Rightarrow> real option" where
  "get_rtt r = map_option (\<lambda>t. t - r_sent_at r) (r_concluded_at r)"

definition set_delivery_callback :: "nat \<Rightarrow> receipt \<Rightarrow> receipt \<times> callback_run list" where
  "set_delivery_callback f r =
     (let late = (r_status r = DELIVERED \<and> \<not> r_delivery_notified r);
          r = r\<lparr>r_delivery_callback := Some f\<rparr>
      in if late then (r\<lparr>r_delivery_notified := True\<rparr>, [RunDelivery f]) else (r, []))"

definition set_timeout_callback :: "nat \<Rightarrow> receipt \<Rightarrow> receipt \<times> callback_run list" where
  "set_timeout_callback f r =
     (let concluded = (r_status r = FAILED \<or> r_status r = CULLED);
          late = (concluded \<and> \<not> r_timeout_notified r);
          r = r\<lparr>r_timeout_callback := Some f\<rparr>
      in if late then (r\<lparr>r_timeout_notified := True\<rparr>, [RunTimeout f]) else (r, []))"

definition set_timeout :: "real \<Rightarrow> receipt \<Rightarrow> receipt" where
  "set_timeout t r = r\<lparr>r_timeout := t\<rparr>"

section \<open>The receipts a proof concludes\<close>

definition provable :: "receipt \<Rightarrow> bool" where
  "provable r \<longleftrightarrow> r_status r = SENT \<or> r_status r = FAILED"

definition proof_candidates :: "receipt list \<Rightarrow> bytes \<Rightarrow> bytes option \<Rightarrow> receipt list" where
  "proof_candidates receipts prf addressed =
     (let proof_hash = (if length prf = EXPL_LENGTH then Some (take HASH_LEN prf) else None)
      in filter provable
           (filter (\<lambda>r. case proof_hash of
                Some h \<Rightarrow> r_hash r = h
              | None \<Rightarrow> (case addressed of None \<Rightarrow> True | Some a \<Rightarrow> r_truncated_hash r = a)) receipts))"

text \<open>
  \<^verbatim>\<open>conclude_proved_receipts\<close>: each candidate is a handle on the shared state, which is checked
  again and validated, and leaves the tracked list when the proof delivers it; later handles on
  the same state see it delivered. \<open>validate_one\<close> is the closure the caller passes. The
  concluded receipts, which live on in the handles their owners kept, are returned too.
\<close>

fun conclude_proved_receipts ::
  "(receipt \<Rightarrow> bool \<times> receipt \<times> callback_run list) \<Rightarrow> receipt list \<Rightarrow> receipt list
   \<Rightarrow> nat \<times> receipt list \<times> receipt list \<times> callback_run list"
where
  "conclude_proved_receipts validate_one [] tracked = (0, tracked, [], [])"
| "conclude_proved_receipts validate_one (r # rs) tracked =
     (if \<not> provable r then conclude_proved_receipts validate_one rs tracked
      else case validate_one r of
        (True, r', es) \<Rightarrow>
          (case conclude_proved_receipts validate_one
                  (map (\<lambda>x. if r_id x = r_id r then r' else x) rs)
                  (filter (\<lambda>t. r_id t \<noteq> r_id r) tracked) of
             (n, tracked', gone, es') \<Rightarrow> (Suc n, tracked', r' # gone, es @ es'))
      | (False, _, es) \<Rightarrow>
          (case conclude_proved_receipts validate_one rs tracked of
             (n, tracked', gone, es') \<Rightarrow> (n, tracked', gone, es @ es')))"

section \<open>The receipt as a state machine\<close>

datatype receipt_op =
    ValidateProof bytes real
  | ValidateLinkProof bytes bool real
  | CheckTimeout real
  | SetDeliveryCallback nat
  | SetTimeoutCallback nat
  | SetTimeout real

text \<open>The state: the receipt, and the callbacks run so far. A link's answer is an input.\<close>

fun receipt_step :: "crypto \<Rightarrow> receipt_op \<Rightarrow> receipt \<times> callback_run list \<Rightarrow> receipt \<times> callback_run list" where
  "receipt_step c (ValidateProof prf now) (r, es) =
     (case validate_proof c now prf r of (_, r', es') \<Rightarrow> (r', es @ es'))"
| "receipt_step c (ValidateLinkProof prf ok now) (r, es) =
     (case validate_link_proof_with (\<lambda>_ _. ok) now prf r of (_, r', es') \<Rightarrow> (r', es @ es'))"
| "receipt_step c (CheckTimeout now) (r, es) =
     (case check_timeout now r of (r', es') \<Rightarrow> (r', es @ es'))"
| "receipt_step c (SetDeliveryCallback f) (r, es) =
     (case set_delivery_callback f r of (r', es') \<Rightarrow> (r', es @ es'))"
| "receipt_step c (SetTimeoutCallback f) (r, es) =
     (case set_timeout_callback f r of (r', es') \<Rightarrow> (r', es @ es'))"
| "receipt_step c (SetTimeout t) (r, es) = (set_timeout t r, es)"

definition deliveries :: "callback_run list \<Rightarrow> nat" where
  "deliveries es = length (filter (\<lambda>e. case e of RunDelivery _ \<Rightarrow> True | _ \<Rightarrow> False) es)"

definition timeouts :: "callback_run list \<Rightarrow> nat" where
  "timeouts es = length (filter (\<lambda>e. case e of RunTimeout _ \<Rightarrow> True | _ \<Rightarrow> False) es)"

text \<open>What holds of every receipt the program reaches.\<close>

definition receipt_inv :: "receipt \<times> callback_run list \<Rightarrow> bool" where
  "receipt_inv = (\<lambda>(r, es).
     r_status r \<in> {SENT, FAILED, DELIVERED, CULLED}
     \<and> (r_proved r \<longleftrightarrow> r_status r = DELIVERED)
     \<and> (r_concluded_at r = None \<longleftrightarrow> r_status r = SENT)
     \<and> deliveries es = (if r_delivery_notified r then 1 else 0)
     \<and> timeouts es = (if r_timeout_notified r then 1 else 0)
     \<and> (r_delivery_notified r \<longleftrightarrow> r_status r = DELIVERED \<and> r_delivery_callback r \<noteq> None)
     \<and> (r_timeout_notified r \<longrightarrow> r_status r \<noteq> SENT \<and> r_timeout_callback r \<noteq> None)
     \<and> (r_status r \<in> {FAILED, CULLED} \<and> r_timeout_callback r \<noteq> None \<longrightarrow> r_timeout_notified r))"

lemma callback_counts [simp]:
  "deliveries [] = 0" "timeouts [] = 0"
  "deliveries (es @ fs) = deliveries es + deliveries fs"
  "timeouts (es @ fs) = timeouts es + timeouts fs"
  "deliveries [RunDelivery f] = 1" "timeouts [RunDelivery f] = 0"
  "deliveries [RunTimeout f] = 0" "timeouts [RunTimeout f] = 1"
  by (simp_all add: deliveries_def timeouts_def)

lemma callbacks_counts [simp]:
  "deliveries (callbacks RunDelivery cb) = (if cb = None then 0 else 1)"
  "timeouts (callbacks RunDelivery cb) = 0"
  "deliveries (callbacks RunTimeout cb) = 0"
  "timeouts (callbacks RunTimeout cb) = (if cb = None then 0 else 1)"
  by (simp_all add: callbacks_def split: option.split)

text \<open>Every validation either changes nothing or marks the receipt delivered.\<close>

lemma validate_proof_cases:
  "validate_proof c now prf r = (False, r, []) \<or> validate_proof c now prf r = mark_delivered now r"
  by (simp add: validate_proof_def split: option.split)

lemma validate_link_proof_cases:
  "validate_link_proof_with v now prf r = (False, r, [])
   \<or> validate_link_proof_with v now prf r = mark_delivered now r"
  by (simp add: validate_link_proof_with_def)

lemma mark_delivered_inv:
  assumes "receipt_inv (r, es)" and "mark_delivered now r = (ok, r', es')"
  shows "receipt_inv (r', es @ es')"
proof (cases "r_status r \<noteq> SENT \<and> r_status r \<noteq> FAILED")
  case True
  then show ?thesis using assms by (simp add: mark_delivered_def)
next
  case False
  then have "r' = r\<lparr>r_status := DELIVERED, r_proved := True, r_concluded_at := Some now,
      r_delivery_notified := (r_delivery_callback r \<noteq> None)\<rparr>"
    and "es' = callbacks RunDelivery (r_delivery_callback r)"
    using assms(2) by (auto simp: mark_delivered_def)
  moreover have "\<not> r_delivery_notified r" "r_timeout_notified r \<longrightarrow> r_timeout_callback r \<noteq> None"
    using False assms(1) by (auto simp: receipt_inv_def)
  ultimately show ?thesis using assms(1) by (simp add: receipt_inv_def)
qed

lemma receipt_inv_step: "receipt_inv s \<Longrightarrow> receipt_inv (receipt_step c e s)"
proof (induction c e s rule: receipt_step.induct)
  case (1 c pr now r es)
  obtain ok r' es' where v: "validate_proof c now pr r = (ok, r', es')" by (cases "validate_proof c now pr r")
  from validate_proof_cases [of c now pr r] show ?case
    using 1 mark_delivered_inv [of r es now ok r' es'] by (auto simp: v)
next
  case (2 c pr ok now r es)
  obtain b r' es' where v: "validate_link_proof_with (\<lambda>_ _. ok) now pr r = (b, r', es')"
    by (cases "validate_link_proof_with (\<lambda>_ _. ok) now pr r")
  from validate_link_proof_cases [of "\<lambda>_ _. ok" now pr r] show ?case
    using 2 mark_delivered_inv [of r es now b r' es'] by (auto simp: v)
qed (auto simp: receipt_inv_def check_timeout_def set_delivery_callback_def set_timeout_callback_def
      set_timeout_def Let_def)

interpretation receipts: machine "receipt_step c" "(from_parts rid now h th d timeout, [])" receipt_inv
  for c rid now h th d timeout
  by unfold_locales (simp_all add: receipt_inv_step, simp add: receipt_inv_def from_parts_def)

section \<open>Properties\<close>

lemma no_callbacks: "deliveries es = 0 \<Longrightarrow> timeouts es = 0 \<Longrightarrow> es = []"
  by (cases es) (auto simp: deliveries_def timeouts_def split: callback_run.splits)

text \<open>
  C34. One conclusion, one callback. After any sequence of operations on a fresh receipt, the
  delivery callback has run exactly once if the receipt is delivered and a callback is
  registered (before or after the proof arrived), and never otherwise; the timeout callback
  has run at most once, and exactly once if the receipt failed or was culled and one is
  registered; a receipt still waiting has run nothing.
\<close>

theorem receipt_callbacks_once:
  "case run (receipt_step c) ops (from_parts rid now h th d timeout, []) of (r, es) \<Rightarrow>
     deliveries es = (if r_status r = DELIVERED \<and> r_delivery_callback r \<noteq> None then 1 else 0)
     \<and> timeouts es \<le> 1
     \<and> (r_status r \<in> {FAILED, CULLED} \<longrightarrow> timeouts es = (if r_timeout_callback r \<noteq> None then 1 else 0))
     \<and> (r_status r = SENT \<longrightarrow> es = [])
     \<and> (r_proved r \<longleftrightarrow> r_status r = DELIVERED) \<and> (r_concluded_at r = None \<longleftrightarrow> r_status r = SENT)"
proof -
  obtain r es where run: "run (receipt_step c) ops (from_parts rid now h th d timeout, []) = (r, es)"
    by fastforce
  have inv: "receipt_inv (r, es)"
    using receipts.inv_reachable [of c ops rid now h th d timeout] by (simp only: run)
  have "r_status r = SENT \<longrightarrow> deliveries es = 0 \<and> timeouts es = 0"
    using inv by (auto simp: receipt_inv_def)
  then have "r_status r = SENT \<longrightarrow> es = []" using no_callbacks by blast
  with inv show ?thesis by (auto simp: run receipt_inv_def)
qed

theorem receipt_callbacks_once_witness:
  "case run (receipt_step toy_crypto) [CheckTimeout 9, SetTimeoutCallback 1] (from_parts 0 0 [] [] default_destination 5, []) of
     (r, es) \<Rightarrow> r_status r = FAILED \<and> timeouts es = 1"
  using receipt_callbacks_once [of toy_crypto "[CheckTimeout 9, SetTimeoutCallback 1]" 0 0 "[]" "[]"
      default_destination 5]
  by (simp add: check_timeout_def from_parts_def set_timeout_callback_def callbacks_def)

text \<open>The outcomes that are final, and how a status may move.\<close>

lemma status_step:
  "r_status (fst s) \<in> {DELIVERED, CULLED} \<Longrightarrow>
   r_status (fst (receipt_step c e s)) = r_status (fst s)
   \<and> r_proved (fst (receipt_step c e s)) = r_proved (fst s)
   \<and> r_concluded_at (fst (receipt_step c e s)) = r_concluded_at (fst s)"
proof (induction c e s rule: receipt_step.induct)
  case (1 c pr now r es)
  then show ?case
    using validate_proof_cases [of c now pr r] by (auto simp: mark_delivered_def)
next
  case (2 c pr ok now r es)
  then show ?case
    using validate_link_proof_cases [of "\<lambda>_ _. ok" now pr r] by (auto simp: mark_delivered_def)
qed (auto simp: check_timeout_def set_delivery_callback_def set_timeout_callback_def
      set_timeout_def Let_def)

text \<open>
  Delivered is final: whatever happens to a delivered (or culled) receipt afterwards, more
  proofs, timeout checks, new callbacks or a new timeout, its status, its proved flag and the
  time it concluded at, hence its round-trip time, stay as they were.
\<close>

theorem receipt_outcome_final:
  assumes "r_status (fst s) \<in> {DELIVERED, CULLED}"
  shows "r_status (fst (run (receipt_step c) ops s)) = r_status (fst s)
    \<and> r_proved (fst (run (receipt_step c) ops s)) = r_proved (fst s)
    \<and> r_concluded_at (fst (run (receipt_step c) ops s)) = r_concluded_at (fst s)"
  using assms
proof (induction ops arbitrary: s)
  case (Cons e ops)
  note st = status_step [OF Cons.prems, of c e]
  then have "r_status (fst (receipt_step c e s)) \<in> {DELIVERED, CULLED}" using Cons.prems by simp
  from Cons.IH [OF this] st show ?case by simp
qed simp

theorem receipt_outcome_final_witness:
  "r_status (fst (run (receipt_step toy_crypto) [CheckTimeout 9, SetTimeout 3]
     ((from_parts 0 0 [] [] default_destination 5)\<lparr>r_status := DELIVERED\<rparr>, []))) = DELIVERED"
  using receipt_outcome_final [of "((from_parts 0 0 [] [] default_destination 5)\<lparr>r_status := DELIVERED\<rparr>, [])" toy_crypto
      "[CheckTimeout 9, SetTimeout 3]"]
  by simp

text \<open>The proofs that validate, whatever the status of the receipt.\<close>

definition proof_accepted :: "crypto \<Rightarrow> bytes \<Rightarrow> receipt \<Rightarrow> bool" where
  "proof_accepted c pr r \<longleftrightarrow>
     (\<exists>i sig. d_identity (r_destination r) = Some i \<and> length sig = SIG_LEN
        \<and> (pr = sig \<or> pr = r_hash r @ sig \<and> length (r_hash r) = HASH_LEN)
        \<and> validate_with_identity_variants c i sig (r_hash r))"

lemma proof_accepted_explicit:
  assumes "length pr = EXPL_LENGTH"
  shows "proof_accepted c pr r \<longleftrightarrow> take HASH_LEN pr = r_hash r
     \<and> (\<exists>i. d_identity (r_destination r) = Some i
           \<and> validate_with_identity_variants c i (drop HASH_LEN pr) (r_hash r))"
proof
  assume "proof_accepted c pr r"
  then obtain i sig where "d_identity (r_destination r) = Some i" "length sig = SIG_LEN"
    "pr = r_hash r @ sig" "length (r_hash r) = HASH_LEN"
    "validate_with_identity_variants c i sig (r_hash r)"
    using assms by (auto simp: proof_accepted_def)
  then show "take HASH_LEN pr = r_hash r \<and> (\<exists>i. d_identity (r_destination r) = Some i
           \<and> validate_with_identity_variants c i (drop HASH_LEN pr) (r_hash r))" by simp
next
  assume r: "take HASH_LEN pr = r_hash r \<and> (\<exists>i. d_identity (r_destination r) = Some i
           \<and> validate_with_identity_variants c i (drop HASH_LEN pr) (r_hash r))"
  moreover have "length (take HASH_LEN pr) = HASH_LEN" using assms by simp
  then have "length (r_hash r) = HASH_LEN" using r by simp
  moreover have "pr = r_hash r @ drop HASH_LEN pr"
    using r append_take_drop_id [of HASH_LEN pr] by metis
  ultimately show "proof_accepted c pr r"
    using assms unfolding proof_accepted_def
    by (intro exI [of _ "the (d_identity (r_destination r))"] exI [of _ "drop HASH_LEN pr"]) auto
qed

lemma validate_proof_eq:
  "validate_proof c now pr r =
     (if proof_accepted c pr r then mark_delivered now r else (False, r, []))"
proof (cases "length pr = EXPL_LENGTH")
  case True
  then show ?thesis
    by (auto simp: proof_accepted_explicit validate_proof_def byte_range_def split: option.split)
next
  case False
  then have "proof_accepted c pr r \<longleftrightarrow> length pr = IMPL_LENGTH
     \<and> (\<exists>i. d_identity (r_destination r) = Some i \<and> validate_with_identity_variants c i pr (r_hash r))"
    by (auto simp: proof_accepted_def)
  then show ?thesis using False by (auto simp: validate_proof_def split: option.split)
qed

text \<open>
  Exactly which proofs deliver a receipt. \<^verbatim>\<open>validate_proof\<close> succeeds if and only if the
  receipt is still waiting or has timed out (a late proof is honoured), its destination has an
  identity, and the proof is the packet hash followed by a signature of it or that signature
  alone, valid under the identity's signing key or under the key pair with its halves swapped.
  Otherwise the receipt is unchanged and no callback runs.
\<close>

theorem validate_proof_iff:
  "(fst (validate_proof c now pr r) \<longleftrightarrow>
     r_status r \<in> {SENT, FAILED}
     \<and> (\<exists>i sig. d_identity (r_destination r) = Some i \<and> length sig = SIG_LEN
          \<and> (pr = sig \<or> pr = r_hash r @ sig \<and> length (r_hash r) = HASH_LEN)
          \<and> validate_with_identity_variants c i sig (r_hash r)))
   \<and> (\<not> fst (validate_proof c now pr r) \<longrightarrow> validate_proof c now pr r = (False, r, []))"
  by (auto simp: validate_proof_eq proof_accepted_def mark_delivered_def)

theorem validate_proof_iff_witness:
  "fst (validate_proof toy_crypto 5 (replicate 64 0)
     (from_parts 0 0 [1] [] (default_destination\<lparr>d_identity := Some (empty_identity\<lparr>signing_pub_key := Some [2]\<rparr>)\<rparr>) 5))"
  using validate_proof_iff [of toy_crypto 5 "replicate 64 0"
      "from_parts 0 0 [1] [] (default_destination\<lparr>d_identity := Some (empty_identity\<lparr>signing_pub_key := Some [2]\<rparr>)\<rparr>) 5"]
  by (simp add: from_parts_def validate_with_identity_variants_def validate_def toy_crypto_def)

lemma validate_proof_delivers:
  "validate_proof c now pr r = (True, r', es) \<Longrightarrow> provable r \<and> proof_accepted c pr r \<and> r_status r' = DELIVERED
     \<and> r_id r' = r_id r"
  by (auto simp: validate_proof_eq mark_delivered_def provable_def split: if_splits)

lemma validate_proof_True_iff:
  "provable r \<Longrightarrow> fst (validate_proof c now pr r) \<longleftrightarrow> proof_accepted c pr r"
  by (auto simp: validate_proof_eq mark_delivered_def provable_def)

lemma conclude_gone:
  assumes "distinct (map r_id rs)"
    and "conclude_proved_receipts (validate_proof c now pr) rs tracked = (n, tracked', gone, es)"
  shows "n = length gone \<and> (\<forall>g\<in>set gone. r_status g = DELIVERED)
    \<and> r_id ` set gone = r_id ` {r \<in> set rs. provable r \<and> proof_accepted c pr r}
    \<and> tracked' = filter (\<lambda>t. r_id t \<notin> r_id ` set gone) tracked"
  using assms
proof (induction rs arbitrary: tracked n tracked' gone es)
  case Nil
  then show ?case by simp
next
  case (Cons r rs)
  obtain ok r' es1 where v: "validate_proof c now pr r = (ok, r', es1)"
    by (cases "validate_proof c now pr r")
  have same: "map (\<lambda>x. if r_id x = r_id r then r' else x) rs = rs"
    using Cons.prems(1) by (intro map_idI) (metis (mono_tags) distinct.simps(2) image_eqI list.set_map list.simps(9))
  show ?case
  proof (cases "provable r \<and> ok")
    case True
    obtain n2 tr2 gone2 es2 where rec: "conclude_proved_receipts (validate_proof c now pr) rs
        (filter (\<lambda>t. r_id t \<noteq> r_id r) tracked) = (n2, tr2, gone2, es2)"
      by (cases "conclude_proved_receipts (validate_proof c now pr) rs (filter (\<lambda>t. r_id t \<noteq> r_id r) tracked)")
    have res: "n = Suc n2" "tracked' = tr2" "gone = r' # gone2"
      using Cons.prems(2) True v rec by (auto simp: same)
    have d: "proof_accepted c pr r" "r_status r' = DELIVERED" "r_id r' = r_id r"
      using validate_proof_delivers [of c now pr r r' es1] v True by auto
    from Cons.IH [OF _ rec] Cons.prems(1) have IH: "n2 = length gone2 \<and> (\<forall>g\<in>set gone2. r_status g = DELIVERED)
      \<and> r_id ` set gone2 = r_id ` {r \<in> set rs. provable r \<and> proof_accepted c pr r}
      \<and> tr2 = filter (\<lambda>t. r_id t \<notin> r_id ` set gone2) (filter (\<lambda>t. r_id t \<noteq> r_id r) tracked)" by simp
    have "{x \<in> set (r # rs). provable x \<and> proof_accepted c pr x}
        = insert r {x \<in> set rs. provable x \<and> proof_accepted c pr x}"
      using True d by auto
    then show ?thesis using IH d unfolding res
      by (auto intro!: filter_cong)
  next
    case False
    then have nacc: "\<not> (provable r \<and> proof_accepted c pr r)"
      using validate_proof_True_iff [of r c now pr] v by auto
    obtain es3 where rec: "conclude_proved_receipts (validate_proof c now pr) rs tracked = (n, tracked', gone, es3)"
      using Cons.prems(2) False v by (auto split: if_splits prod.splits)
    have "{x \<in> set (r # rs). provable x \<and> proof_accepted c pr x}
        = {x \<in> set rs. provable x \<and> proof_accepted c pr x}" using nacc by auto
    then show ?thesis using Cons.IH [OF _ rec] Cons.prems(1) by simp
  qed
qed

text \<open>
  An arriving proof concludes exactly the receipts it proves. Of the tracked receipts (each
  with its own state), those that leave the list are the candidates, addressed by the proof
  and still provable, under whose destination's key it validates; each of them is delivered,
  their number is returned, and every other receipt stays in the list, in order and untouched.
\<close>

theorem proof_concludes_exactly:
  assumes "distinct (map r_id tracked)"
    and "conclude_proved_receipts (validate_proof c now pr) (proof_candidates tracked pr addressed) tracked
       = (n, tracked', gone, es)"
  shows "n = length gone \<and> (\<forall>g\<in>set gone. r_status g = DELIVERED)
    \<and> tracked' = filter (\<lambda>t. \<not> (t \<in> set (proof_candidates tracked pr addressed) \<and> proof_accepted c pr t)) tracked"
proof -
  let ?cs = "proof_candidates tracked pr addressed"
  have sub: "set ?cs \<subseteq> set tracked" and prov: "\<forall>r\<in>set ?cs. provable r"
    by (auto simp: proof_candidates_def Let_def)
  have dist: "distinct (map r_id ?cs)"
    using assms(1) by (simp add: proof_candidates_def Let_def distinct_map_filter)
  note g = conclude_gone [OF dist assms(2)]
  have "t \<in> set tracked \<Longrightarrow> r_id t \<in> r_id ` {r \<in> set ?cs. provable r \<and> proof_accepted c pr r}
      \<longleftrightarrow> t \<in> set ?cs \<and> proof_accepted c pr t" for t
    using assms(1) sub prov by (auto simp: distinct_map inj_on_def)
  then have "filter (\<lambda>t. r_id t \<notin> r_id ` {r \<in> set ?cs. provable r \<and> proof_accepted c pr r}) tracked
      = filter (\<lambda>t. \<not> (t \<in> set ?cs \<and> proof_accepted c pr t)) tracked"
    by (intro filter_cong) auto
  then show ?thesis using g by simp
qed

theorem proof_concludes_exactly_witness:
  "\<exists>n tracked' gone es. conclude_proved_receipts (validate_proof toy_crypto 5 [0])
      (proof_candidates [from_parts 0 0 [1] [] default_destination 5] [0] None)
      [from_parts 0 0 [1] [] default_destination 5] = (n, tracked', gone, es)
    \<and> tracked' = [from_parts 0 0 [1] [] default_destination 5]"
proof -
  obtain n tracked' gone es where c: "conclude_proved_receipts (validate_proof toy_crypto 5 [0])
      (proof_candidates [from_parts 0 0 [1] [] default_destination 5] [0] None)
      [from_parts 0 0 [1] [] default_destination 5] = (n, tracked', gone, es)"
    by (rule prod_cases4)
  show ?thesis using c proof_concludes_exactly [OF _ c]
    by (simp add: proof_accepted_def from_parts_def default_destination_def)
qed

end
