(* ===== verification/Announce.thy ===== *)
theory Announce
  imports Packet
begin

text \<open>
  Announces and link proofs on the wire: the announce a destination signs
  (\<^verbatim>\<open>src/destination.rs\<close>), its validation (\<^verbatim>\<open>Identity::validate_announce\<close>), the fields
  \<^verbatim>\<open>src/transport.rs\<close> reads from it, the signalling bytes of a link request
  (\<^verbatim>\<open>src/link.rs\<close>), the link id, and the validation of a link-request proof by a relay.
\<close>

abbreviation (input) RANDOM_BLOB_LEN :: nat where "RANDOM_BLOB_LEN \<equiv> 10"
abbreviation (input) ECPUBSIZE :: nat where "ECPUBSIZE \<equiv> 64"
abbreviation (input) LINK_MTU_SIZE :: nat where "LINK_MTU_SIZE \<equiv> 3"
abbreviation (input) MODE_AES128_CBC :: u8 where "MODE_AES128_CBC \<equiv> 0"
abbreviation (input) MODE_AES256_CBC :: u8 where "MODE_AES256_CBC \<equiv> 1"
abbreviation (input) MTU_BYTEMASK :: u32 where "MTU_BYTEMASK \<equiv> 0x1FFFFF"
abbreviation (input) MODE_BYTEMASK :: u32 where "MODE_BYTEMASK \<equiv> 0xE0"

section \<open>Destination names\<close>

text \<open>\<^verbatim>\<open>expand_name\<close> panics on a dot in the application name or an aspect: \<open>None\<close>.\<close>

definition expand_name :: "string option \<Rightarrow> string \<Rightarrow> string list \<Rightarrow> string option" where
  "expand_name hexhash app_name aspects =
     (if CHR ''.'' \<in> set app_name \<or> (\<exists>a\<in>set aspects. CHR ''.'' \<in> set a) then None
      else Some (app_name @ concat (map (\<lambda>a. CHR ''.'' # a) aspects)
                 @ (case hexhash of None \<Rightarrow> [] | Some h \<Rightarrow> CHR ''.'' # h)))"

definition string_bytes :: "string \<Rightarrow> bytes" where
  "string_bytes s = map (\<lambda>ch. of_nat (of_char ch)) s"

definition name_hash_of :: "crypto \<Rightarrow> string \<Rightarrow> string list \<Rightarrow> bytes option" where
  "name_hash_of c app_name aspects =
     map_option (\<lambda>n. take NAME_HASH_LEN (full_hash (c_sha c) (string_bytes n)))
       (expand_name None app_name aspects)"

text \<open>\<^verbatim>\<open>Destination::hash\<close>.\<close>

definition destination_hash_of :: "crypto \<Rightarrow> bytes option \<Rightarrow> string \<Rightarrow> string list \<Rightarrow> bytes option" where
  "destination_hash_of c identity_hash app_name aspects =
     map_option (\<lambda>n. take DST_LEN (full_hash (c_sha c)
         (n @ (case identity_hash of None \<Rightarrow> [] | Some i \<Rightarrow> i))))
       (name_hash_of c app_name aspects)"

section \<open>The announce a destination signs\<close>

text \<open>\<^verbatim>\<open>(now as u64).to_be_bytes()[3..8]\<close>.\<close>

definition timebase_bytes :: "u64 \<Rightarrow> bytes" where
  "timebase_bytes now = map (\<lambda>k. ucast (drop_bit (8 * k) now)) [4, 3, 2, 1, 0]"

text \<open>
  \<^verbatim>\<open>generate_announce_data\<close> once the ratchets are rotated: \<open>ratchet\<close> is the public key of the
  newest ratchet, or empty; \<open>rnd\<close> the random bytes; \<open>sign\<close> the identity's signing operation;
  \<open>default_app_data\<close> the destination's field. The map of path responses is the last component.
\<close>

definition generate_announce_data ::
  "(bytes \<Rightarrow> bytes) \<Rightarrow> bytes \<Rightarrow> bytes \<Rightarrow> bytes \<Rightarrow> bytes option \<Rightarrow> identity \<Rightarrow> bytes
   \<Rightarrow> bytes option \<Rightarrow> u64 \<Rightarrow> bytes option \<Rightarrow> (bytes \<rightharpoonup> u64 \<times> bytes)
   \<Rightarrow> (error + bytes) \<times> (bytes \<rightharpoonup> u64 \<times> bytes)"
where
  "generate_announce_data sign dest_hash name_hash ratchet default_app_data i rnd app_data now tag
     path_responses =
   (let announce_app_data = (case app_data of Some d \<Rightarrow> d
                             | None \<Rightarrow> (case default_app_data of Some d \<Rightarrow> d | None \<Rightarrow> []))
    in case get_public_key i of
         Inl e \<Rightarrow> (Inl e, path_responses)
       | Inr public_key \<Rightarrow>
         (let random_hash = take 5 rnd @ timebase_bytes now;
              signed_data = dest_hash @ public_key @ name_hash @ random_hash @ ratchet
                            @ announce_app_data;
              announce_data = public_key @ name_hash @ random_hash @ ratchet @ sign signed_data
                              @ announce_app_data
          in (Inr announce_data,
              case tag of None \<Rightarrow> path_responses
              | Some t \<Rightarrow> path_responses(t \<mapsto> (now, announce_data)))))"

section \<open>Validation\<close>

definition validate_announce ::
  "crypto \<Rightarrow> bytes \<Rightarrow> bytes option \<Rightarrow> bytes option \<Rightarrow> u8 \<Rightarrow> bool"
where
  "validate_announce c data destination_hash public_key context_flag =
     (if length data < KEY_LEN + NAME_HASH_LEN + 10 + SIG_LEN then False
      else case destination_hash of None \<Rightarrow> False | Some dest_hash \<Rightarrow>
      (case public_key of None \<Rightarrow> False | Some pub_key_bytes \<Rightarrow>
       if length pub_key_bytes \<noteq> KEY_LEN then False
       else
         let public_key = take KEY_LEN data;
             name_hash = byte_range KEY_LEN (KEY_LEN + NAME_HASH_LEN) data;
             random_hash = byte_range (KEY_LEN + NAME_HASH_LEN) (KEY_LEN + NAME_HASH_LEN + 10) data;
             has_ratchet = (context_flag = FLAG_SET);
             sig_start = KEY_LEN + NAME_HASH_LEN + 10 + (if has_ratchet then RATCHET_LEN else 0);
             sig_end = sig_start + SIG_LEN
         in if length data < sig_end then False
            else
              let signature = byte_range sig_start sig_end data;
                  app_data = drop sig_end data;
                  ratchet = byte_range (KEY_LEN + NAME_HASH_LEN + 10) sig_start data;
                  signed_data = dest_hash @ public_key @ name_hash @ random_hash @ ratchet @ app_data;
                  signing_pub = byte_range 32 64 pub_key_bytes
              in if \<not> c_ed_key_ok c signing_pub then False
                 else if \<not> c_ed_verify c signing_pub signed_data signature then False
                 else if pub_key_bytes \<noteq> public_key then False
                 else truncated_hash (c_sha c) (name_hash @ truncated_hash (c_sha c) public_key)
                      = dest_hash))"

section \<open>Fields read by the transport\<close>

definition extract_announce_name_hash :: "packet \<Rightarrow> bytes option" where
  "extract_announce_name_hash p =
     (if length (p_data p) < KEY_LEN + NAME_HASH_LEN then None
      else Some (byte_range KEY_LEN (KEY_LEN + NAME_HASH_LEN) (p_data p)))"

definition extract_announce_app_data :: "packet \<Rightarrow> bytes option" where
  "extract_announce_app_data p =
     (let ratchet_len = (if p_context_flag p = FLAG_SET then RATCHET_LEN else 0);
          offset = KEY_LEN + NAME_HASH_LEN + 10 + ratchet_len + SIG_LEN
      in if length (p_data p) \<le> offset then None else Some (drop offset (p_data p)))"

definition extract_announce_ratchet :: "packet \<Rightarrow> bytes option" where
  "extract_announce_ratchet p =
     (if p_context_flag p \<noteq> FLAG_SET then None
      else
        let start = KEY_LEN + NAME_HASH_LEN + 10; stop = start + RATCHET_LEN
        in if length (p_data p) < stop then None else Some (byte_range start stop (p_data p)))"

definition extract_announce_identity :: "crypto \<Rightarrow> packet \<Rightarrow> identity option" where
  "extract_announce_identity c p =
     (if length (p_data p) < KEY_LEN then None
      else case from_public_key c (take KEY_LEN (p_data p)) of Inl _ \<Rightarrow> None | Inr i \<Rightarrow> Some i)"

definition announce_wire_fields :: "bytes \<Rightarrow> (bytes \<times> u64) option" where
  "announce_wire_fields raw =
     (case raw of
        [] \<Rightarrow> None
      | b # _ \<Rightarrow>
        (let header_2 = (drop_bit 6 b AND 0x01 = HEADER_2);
             dest_at = 2 + (if header_2 then DST_LEN else 0);
             data_at = dest_at + DST_LEN + 1;
             blob_at = data_at + KEY_LEN + NAME_HASH_LEN
         in case get_range (blob_at + 5) (blob_at + 10) raw of
              None \<Rightarrow> None
            | Some timebase \<Rightarrow>
              (case get_range dest_at (dest_at + DST_LEN) raw of
                 None \<Rightarrow> None
               | Some d \<Rightarrow> Some (d, be_fold_u64 timebase))))"

definition random_blob_emitted :: "bytes \<Rightarrow> u64" where
  "random_blob_emitted blob = be_fold_u64 (byte_range 5 10 blob)"

section \<open>Link requests and their proofs\<close>

definition signalling_bytes :: "nat \<Rightarrow> u8 \<Rightarrow> error + bytes" where
  "signalling_bytes mtu mode =
     (if mode \<noteq> MODE_AES256_CBC \<and> mode \<noteq> MODE_AES128_CBC then Inl (Err ''Requested link mode not enabled'')
      else
        let v = ((of_nat mtu :: u32) AND MTU_BYTEMASK)
                + push_bit 16 (push_bit 5 (ucast mode) AND MODE_BYTEMASK)
        in Inr [ucast (drop_bit 16 v), ucast (drop_bit 8 v), ucast v])"

definition mtu_at :: "nat \<Rightarrow> bytes \<Rightarrow> nat option" where
  "mtu_at offset data =
     (if length data = offset + LINK_MTU_SIZE then
        Some (unat ((push_bit 16 (ucast (data ! offset)) + push_bit 8 (ucast (data ! (offset + 1)))
                     + (ucast (data ! (offset + 2)) :: u32)) AND MTU_BYTEMASK))
      else None)"

definition mtu_from_lr_packet :: "bytes \<Rightarrow> nat option" where
  "mtu_from_lr_packet data = mtu_at ECPUBSIZE data"

definition mtu_from_lp_packet :: "bytes \<Rightarrow> nat option" where
  "mtu_from_lp_packet data = mtu_at (SIG_LEN + ECPUBSIZE div 2) data"

definition mode_from_lr_packet :: "bytes \<Rightarrow> u8" where
  "mode_from_lr_packet data =
     (if length data > ECPUBSIZE
      then ucast (drop_bit 5 ((ucast (data ! ECPUBSIZE) :: u32) AND MODE_BYTEMASK))
      else MODE_AES256_CBC)"

definition mode_from_lp_packet :: "bytes \<Rightarrow> u8" where
  "mode_from_lp_packet data =
     (let offset = SIG_LEN + ECPUBSIZE div 2
      in if length data > offset then drop_bit 5 (data ! offset) else MODE_AES256_CBC)"

definition link_id_from_lr_packet :: "(bytes \<Rightarrow> bytes) \<Rightarrow> packet \<Rightarrow> bytes" where
  "link_id_from_lr_packet sha p =
     (let h = get_hashable_part p in
      truncated_hash sha
        (if length (p_data p) > ECPUBSIZE \<and> length h \<ge> length (p_data p) - ECPUBSIZE
         then take (length h - (length (p_data p) - ECPUBSIZE)) h else h))"

definition validate_lrproof_signature ::
  "crypto \<Rightarrow> known_map \<Rightarrow> bytes \<Rightarrow> bytes \<Rightarrow> bytes \<Rightarrow> bool"
where
  "validate_lrproof_signature c known proof_data link_id dst_hash =
     (if length proof_data \<noteq> SIG_LEN + 32 \<and> length proof_data \<noteq> SIG_LEN + 32 + LINK_MTU_SIZE then False
      else case recall c known dst_hash of None \<Rightarrow> False | Some peer \<Rightarrow>
      (case get_public_key peer of Inl _ \<Rightarrow> False | Inr peer_pub_key \<Rightarrow>
       (let peer_sig_pub_bytes = byte_range 32 ECPUBSIZE peer_pub_key;
            signature = take SIG_LEN proof_data;
            peer_pub_bytes = byte_range SIG_LEN (SIG_LEN + 32) proof_data
        in case (if length proof_data = SIG_LEN + 32 + LINK_MTU_SIZE
                 then signalling_bytes (case mtu_from_lp_packet proof_data of None \<Rightarrow> 0 | Some m \<Rightarrow> m)
                        (mode_from_lp_packet proof_data)
                 else Inr []) of
             Inl _ \<Rightarrow> False
           | Inr signalling \<Rightarrow>
             validate c peer signature
               (link_id @ peer_pub_bytes @ peer_sig_pub_bytes @ signalling))))"

section \<open>Validation, lemmas\<close>

text \<open>The layout of an announce.\<close>

definition announce_layout :: "bytes \<Rightarrow> bytes \<Rightarrow> bytes \<Rightarrow> bytes \<Rightarrow> bytes \<Rightarrow> bytes \<Rightarrow> bytes" where
  "announce_layout pk name rnd ratchet sig app = pk @ name @ rnd @ ratchet @ sig @ app"

definition announce_lengths :: "bytes \<Rightarrow> bytes \<Rightarrow> bytes \<Rightarrow> bytes \<Rightarrow> bytes \<Rightarrow> u8 \<Rightarrow> bool" where
  "announce_lengths pk name rnd ratchet sig flag \<longleftrightarrow>
     length pk = KEY_LEN \<and> length name = NAME_HASH_LEN \<and> length rnd = 10 \<and> length sig = SIG_LEN
     \<and> length ratchet = (if flag = FLAG_SET then RATCHET_LEN else 0)"

lemma validate_announce_layout:
  assumes "announce_lengths pk name rnd ratchet sig flag"
  shows "validate_announce c (announce_layout pk name rnd ratchet sig app) (Some dest) (Some key) flag
    \<longleftrightarrow> key = pk \<and> c_ed_key_ok c (drop 32 pk)
        \<and> c_ed_verify c (drop 32 pk) (dest @ pk @ name @ rnd @ ratchet @ app) sig
        \<and> truncated_hash (c_sha c) (name @ truncated_hash (c_sha c) pk) = dest"
proof -
  note l = assms [unfolded announce_lengths_def]
  have pieces: "take KEY_LEN (announce_layout pk name rnd ratchet sig app) = pk"
    "byte_range KEY_LEN (KEY_LEN + NAME_HASH_LEN) (announce_layout pk name rnd ratchet sig app) = name"
    "byte_range (KEY_LEN + NAME_HASH_LEN) (KEY_LEN + NAME_HASH_LEN + 10) (announce_layout pk name rnd ratchet sig app) = rnd"
    using l by (simp_all add: announce_layout_def byte_range_def)
  show ?thesis
  proof (cases "flag = FLAG_SET")
    case True
    have more: "byte_range 84 116 (announce_layout pk name rnd ratchet sig app) = ratchet"
      "byte_range 116 180 (announce_layout pk name rnd ratchet sig app) = sig"
      "drop 180 (announce_layout pk name rnd ratchet sig app) = app"
      "length (announce_layout pk name rnd ratchet sig app) = 180 + length app"
      using l True by (simp_all add: announce_layout_def byte_range_def)
    show ?thesis
      using pieces more l True by (auto simp: validate_announce_def Let_def byte_range_def [of 32 64])
  next
    case False
    have more: "byte_range 84 84 (announce_layout pk name rnd ratchet sig app) = []" "ratchet = []"
      "byte_range 84 148 (announce_layout pk name rnd ratchet sig app) = sig"
      "drop 148 (announce_layout pk name rnd ratchet sig app) = app"
      "length (announce_layout pk name rnd ratchet sig app) = 148 + length app"
      using l False by (simp_all add: announce_layout_def byte_range_def)
    show ?thesis
      using pieces more l False by (auto simp: validate_announce_def Let_def byte_range_def [of 32 64])
  qed
qed

lemma validate_announce_shape:
  assumes "validate_announce c data d k flag"
  shows "\<exists>pk name rnd ratchet sig app dest. data = announce_layout pk name rnd ratchet sig app
     \<and> announce_lengths pk name rnd ratchet sig flag \<and> d = Some dest \<and> k = Some pk"
proof -
  define r where "r = (if flag = FLAG_SET then RATCHET_LEN else 0::nat)"
  have len: "148 + r \<le> length data" and dk: "\<exists>dest. d = Some dest" and kk: "k = Some (take KEY_LEN data)"
    using assms
    by (auto simp: validate_announce_def r_def Let_def split: option.splits if_splits)
  have "data = announce_layout (take 64 data) (byte_range 64 74 data) (byte_range 74 84 data)
      (byte_range 84 (84 + r) data) (byte_range (84 + r) (148 + r) data) (drop (148 + r) data)"
    unfolding announce_layout_def byte_range_def
    by (simp add: take_add [symmetric] drop_drop flip: append_assoc)
  moreover have "announce_lengths (take 64 data) (byte_range 64 74 data) (byte_range 74 84 data)
      (byte_range 84 (84 + r) data) (byte_range (84 + r) (148 + r) data) flag"
    using len by (simp add: announce_lengths_def r_def)
  ultimately show ?thesis using dk kk by blast
qed

lemma bit_below_16:
  "bit w n \<Longrightarrow> \<not> bit w (16 + (n - 16)) \<Longrightarrow> n - 8 < (8::nat)"
  by (cases "16 \<le> n") auto

lemma timebase_roundtrip: "be_fold_u64 (timebase_bytes now) = take_bit 40 now"
  unfolding be_fold_u64_def timebase_bytes_def
  by (rule bit_word_eqI) (auto simp: bit_simps intro: bit_below_16)

lemma length_timebase_bytes [simp]: "length (timebase_bytes now) = 5"
  by (simp add: timebase_bytes_def)

lemma announce_wire_fields_frame:
  assumes "length dst = DST_LEN" "length pk = KEY_LEN" "length name = NAME_HASH_LEN" "length rnd = 10"
    and "(case tid of None \<Rightarrow> drop_bit 6 f AND 1 = HEADER_1
          | Some t \<Rightarrow> drop_bit 6 f AND 1 = HEADER_2 \<and> length t = DST_LEN)"
  shows "announce_wire_fields (frame f hops tid dst ctx (announce_layout pk name rnd ratchet sig app))
     = Some (dst, random_blob_emitted rnd)"
  using assms
  by (cases tid)
    (simp_all add: announce_wire_fields_def frame_def announce_layout_def get_range_def byte_range_def
      random_blob_emitted_def)

definition sig_word :: "u32 \<Rightarrow> u8 \<Rightarrow> u32" where
  "sig_word mtu mode = (mtu AND MTU_BYTEMASK) OR push_bit 21 (ucast mode AND 7)"

lemma sig_word_eq:
  "(mtu AND MTU_BYTEMASK) + push_bit 16 (push_bit 5 (ucast (mode::u8)) AND MODE_BYTEMASK) = sig_word mtu mode"
proof -
  have e: "push_bit 16 (push_bit 5 (ucast mode) AND MODE_BYTEMASK) = (push_bit 21 (ucast mode AND 7) :: u32)"
    by (simp add: push_bit_and)
  have "(mtu AND MTU_BYTEMASK) AND push_bit 21 (ucast mode AND 7) = 0"
    by (simp add: push_bit_and and.assoc and.left_commute)
  then show ?thesis unfolding e sig_word_def by (rule disjunctive_add_eq_or)
qed

lemma signalling_bytes_eq:
  "mode = 0 \<or> mode = 1 \<Longrightarrow> signalling_bytes mtu mode =
     Inr [ucast (drop_bit 16 (sig_word (of_nat mtu) mode)), ucast (drop_bit 8 (sig_word (of_nat mtu) mode)),
          ucast (sig_word (of_nat mtu) mode)]"
  unfolding signalling_bytes_def Let_def sig_word_eq by auto

lemma three_bytes:
  "push_bit 16 (ucast (a::u8)) + push_bit 8 (ucast (b::u8)) + (ucast (c::u8) :: u32)
   = push_bit 16 (ucast a) OR push_bit 8 (ucast b) OR ucast c"
proof -
  have 1: "push_bit 16 (ucast a) AND push_bit 8 (ucast b) = (0::u32)"
    by (rule bit_word_eqI) (auto simp: bit_simps dest!: bit_imp_le_length)
  have 2: "(push_bit 16 (ucast a) OR push_bit 8 (ucast b)) AND ucast c = (0::u32)"
    by (rule bit_word_eqI) (auto simp: bit_simps dest!: bit_imp_le_length)
  show ?thesis using disjunctive_add_eq_or [OF 1] disjunctive_add_eq_or [OF 2] by (simp add: or.assoc)
qed

lemma three_bytes_of:
  "push_bit 16 (ucast (ucast (drop_bit 16 v) :: u8)) OR push_bit 8 (ucast (ucast (drop_bit 8 v) :: u8))
   OR (ucast (ucast v :: u8) :: u32) = v AND 0xFFFFFF"
proof -
  have m: "(0xFFFFFF::u32) = mask 24" by (simp add: mask_eq_exp_minus_1)
  show ?thesis unfolding m
    by (rule bit_word_eqI) (auto simp: bit_simps intro: bit_below_16)
qed

lemma mtu_at_signalling:
  assumes "length pre = offset"
  shows "mtu_at offset (pre @ [ucast (drop_bit 16 v), ucast (drop_bit 8 v), ucast v])
     = Some (unat (v AND MTU_BYTEMASK))"
proof -
  have "(v AND 0xFFFFFF) AND MTU_BYTEMASK = v AND MTU_BYTEMASK"
    by (simp add: and.assoc)
  then show ?thesis
    using assms by (simp add: mtu_at_def nth_append three_bytes three_bytes_of)
qed

lemma sig_word_mtu: "mtu < 2 ^ 21 \<Longrightarrow> unat (sig_word (of_nat mtu) mode AND MTU_BYTEMASK) = mtu"
proof -
  assume m: "mtu < 2 ^ 21"
  have mask: "MTU_BYTEMASK = mask 21" by (simp add: mask_eq_exp_minus_1)
  have "sig_word (of_nat mtu) mode AND MTU_BYTEMASK = take_bit 21 (of_nat mtu)"
    unfolding sig_word_def mask
    by (rule bit_word_eqI) (auto simp: bit_simps)
  then show ?thesis using m by (simp add: unsigned_take_bit_eq take_bit_nat_eq_self unsigned_of_nat)
qed

lemma sig_word_mode:
  assumes "mode = 0 \<or> mode = 1"
  shows "drop_bit 5 (ucast (drop_bit 16 (sig_word mtu mode)) :: u8) = mode"
    and "ucast (drop_bit 5 ((ucast (ucast (drop_bit 16 (sig_word mtu mode)) :: u8) :: u32) AND MODE_BYTEMASK)) = mode"
proof -
  have mask: "MTU_BYTEMASK = mask 21" by (simp add: mask_eq_exp_minus_1)
  have mask2: "MODE_BYTEMASK = push_bit 5 (mask 3)" by (simp add: mask_eq_exp_minus_1)
  have mask3: "(7::u32) = mask 3" by (simp add: mask_eq_exp_minus_1)
  show "drop_bit 5 (ucast (drop_bit 16 (sig_word mtu mode)) :: u8) = mode"
    using assms unfolding sig_word_def mask mask3
    by (intro bit_word_eqI) (auto simp: bit_simps)
  show "ucast (drop_bit 5 ((ucast (ucast (drop_bit 16 (sig_word mtu mode)) :: u8) :: u32) AND MODE_BYTEMASK)) = mode"
    using assms unfolding sig_word_def mask mask2 mask3
    by (intro bit_word_eqI) (auto simp: bit_simps)
qed

lemma signalling_of_bytes:
  assumes "drop_bit 5 (a::u8) = 0 \<or> drop_bit 5 a = 1"
  shows "signalling_bytes (unat ((push_bit 16 (ucast a) + push_bit 8 (ucast b) + (ucast c :: u32)) AND MTU_BYTEMASK))
     (drop_bit 5 a) = Inr [a, b, c]"
proof -
  let ?w = "(push_bit 16 (ucast a) OR push_bit 8 (ucast b) OR ucast c) :: u32"
  have mask: "MTU_BYTEMASK = mask 21" by (simp add: mask_eq_exp_minus_1)
  have mask3: "(7::u32) = mask 3" by (simp add: mask_eq_exp_minus_1)
  have "ucast (drop_bit 16 (sig_word (?w AND MTU_BYTEMASK) (drop_bit 5 a))) = a"
    unfolding sig_word_def mask mask3
    by (intro bit_word_eqI) (auto simp: bit_simps dest: bit_imp_le_length)
  moreover have "ucast (drop_bit 8 (sig_word (?w AND MTU_BYTEMASK) (drop_bit 5 a))) = b"
    unfolding sig_word_def mask mask3
    by (intro bit_word_eqI) (auto simp: bit_simps dest: bit_imp_le_length)
  moreover have "ucast (sig_word (?w AND MTU_BYTEMASK) (drop_bit 5 a)) = c"
    unfolding sig_word_def mask mask3
    by (intro bit_word_eqI) (auto simp: bit_simps dest: bit_imp_le_length)
  ultimately show ?thesis
    by (simp only: signalling_bytes_eq [OF assms] three_bytes of_nat_unat ucast_id)
qed

section \<open>Properties\<close>

text \<open>Concrete values for the witnesses.\<close>

definition sample_crypto :: crypto where
  "sample_crypto = toy_crypto\<lparr>c_sha := \<lambda>_. replicate 16 4\<rparr>"

definition sample_identity :: identity where
  "sample_identity = empty_identity\<lparr>encryption_pub_key := Some (replicate 32 1),
     signing_pub_key := Some (replicate 32 1)\<rparr>"

definition sample_announce :: bytes where
  "sample_announce = replicate 64 1 @ replicate 10 2 @ replicate 5 3 @ timebase_bytes 77 @ replicate 64 5 @ [9]"

definition sample_known :: known_map where
  "sample_known = [[1] \<mapsto> \<lparr> kd_public_key = replicate 64 1, kd_app_data = None, kd_last_seen = 0 \<rparr>]"

text \<open>
  A destination's own announce is accepted and read back. With a signing operation whose
  signatures verify under the announced key, and a destination hash derived from that key and
  the name, the announce \<^verbatim>\<open>generate_announce_data\<close> builds, with or without ratchet, passes
  \<^verbatim>\<open>validate_announce\<close>; the transport extracts from it the name hash, the ratchet and the
  application data it was built with; and from its frame, direct or carried by a relay, the
  destination hash and the emission time modulo \<open>2 ^ 40\<close>.
\<close>

theorem announce_roundtrip:
  assumes pk: "get_public_key i = Inr pk" "length pk = KEY_LEN" "c_ed_key_ok c (drop 32 pk)"
    and sign: "\<forall>m. length (sign m) = SIG_LEN \<and> c_ed_verify c (drop 32 pk) m (sign m)"
    and dest: "dest = truncated_hash (c_sha c) (name @ truncated_hash (c_sha c) pk)" "length dest = DST_LEN"
    and lens: "length name = NAME_HASH_LEN" "5 \<le> length rnd"
      "length ratchet = (if flag = FLAG_SET then RATCHET_LEN else 0)"
    and p: "p_data p = data" "p_context_flag p = flag"
    and tid: "case tid of None \<Rightarrow> drop_bit 6 f AND 1 = HEADER_1
          | Some t \<Rightarrow> drop_bit 6 f AND 1 = HEADER_2 \<and> length t = DST_LEN"
    and gen: "fst (generate_announce_data sign dest name ratchet None i rnd (Some app) now tag pr) = Inr data"
  shows "validate_announce c data (Some dest) (Some pk) flag
    \<and> extract_announce_name_hash p = Some name
    \<and> extract_announce_ratchet p = (if flag = FLAG_SET then Some ratchet else None)
    \<and> extract_announce_app_data p = (if app = [] then None else Some app)
    \<and> announce_wire_fields (frame f hops tid dest ctx data) = Some (dest, take_bit 40 now)"
proof -
  define r where "r = take 5 rnd @ timebase_bytes now"
  define s where "s = sign (dest @ pk @ name @ r @ ratchet @ app)"
  have data: "data = announce_layout pk name r ratchet s app"
    using gen pk(1) by (auto simp: generate_announce_data_def Let_def announce_layout_def r_def s_def)
  have rl: "length r = 10" using lens(2) by (simp add: r_def)
  have sl: "length s = SIG_LEN" "c_ed_verify c (drop 32 pk) (dest @ pk @ name @ r @ ratchet @ app) s"
    using sign by (auto simp: s_def)
  have al: "announce_lengths pk name r ratchet s flag"
    using pk lens rl sl by (simp add: announce_lengths_def)
  have v: "validate_announce c data (Some dest) (Some pk) flag"
    unfolding data validate_announce_layout [OF al] using pk(3) sl(2) dest(1) by simp
  have w: "announce_wire_fields (frame f hops tid dest ctx data) = Some (dest, take_bit 40 now)"
    unfolding data announce_wire_fields_frame [OF dest(2) pk(2) lens(1) rl tid]
    using lens(2) by (simp add: random_blob_emitted_def r_def byte_range_def timebase_roundtrip)
  have "extract_announce_name_hash p = Some name"
    using p pk(2) lens(1) by (simp add: extract_announce_name_hash_def data announce_layout_def byte_range_def)
  moreover have "extract_announce_ratchet p = (if flag = FLAG_SET then Some ratchet else None)"
    using p pk(2) lens rl sl(1)
    by (simp add: extract_announce_ratchet_def data announce_layout_def byte_range_def)
  moreover have "extract_announce_app_data p = (if app = [] then None else Some app)"
    using p pk(2) lens rl sl(1)
    by (simp add: extract_announce_app_data_def data announce_layout_def Let_def)
  ultimately show ?thesis using v w by blast
qed

theorem announce_roundtrip_witness:
  "validate_announce sample_crypto sample_announce (Some (replicate 16 4)) (Some (replicate 64 1)) FLAG_UNSET
   \<and> announce_wire_fields (frame 0 0 None (replicate 16 4) 0 sample_announce) = Some (replicate 16 4, 77)"
proof -
  have "replicate 32 1 @ replicate 32 (1::u8) = replicate 64 1"
    using replicate_add [of 32 32 "1::u8"] by simp
  then have pk: "get_public_key sample_identity = Inr (replicate 64 1)"
    by (simp add: sample_identity_def get_public_key_def)
  have dest: "replicate 16 4 = truncated_hash (c_sha sample_crypto)
      (replicate 10 2 @ truncated_hash (c_sha sample_crypto) (replicate 64 1))"
    by (simp add: truncated_hash_def full_hash_def sample_crypto_def)
  have gen: "fst (generate_announce_data (\<lambda>_. replicate 64 5) (replicate 16 4) (replicate 10 2) [] None
      sample_identity (replicate 5 3) (Some [9]) 77 None Map.empty) = Inr sample_announce"
    by (simp add: generate_announce_data_def Let_def pk sample_announce_def)
  have "validate_announce sample_crypto sample_announce (Some (replicate 16 4)) (Some (replicate 64 1)) FLAG_UNSET
   \<and> announce_wire_fields (frame 0 0 None (replicate 16 4) 0 sample_announce) = Some (replicate 16 4, take_bit 40 77)"
    using announce_roundtrip [OF pk _ _ _ dest, where sign = "\<lambda>_. replicate 64 5" 
        and rnd = "replicate 5 3" and ratchet = "[]" and flag = FLAG_UNSET and data = sample_announce
        and p = "sample_packet\<lparr>p_data := sample_announce, p_context_flag := 0\<rparr>" and tid = None
        and f = 0 and hops = 0 and ctx = 0 and app = "[9]" and now = 77 and tag = None and pr = Map.empty]
    by (simp add: gen sample_crypto_def toy_crypto_def)
  then show ?thesis by (simp add: take_bit_word_eq_self)
qed

text \<open>
  C19. What an accepted announce proves. \<^verbatim>\<open>validate_announce\<close> accepts exactly the byte strings laid
  out as public key, name hash, random blob, ratchet (when the flag says so), signature and
  application data for which: the caller's key is the key carried, the signature verifies under
  its signing half over destination hash, key, name, blob, ratchet and application data, and the
  destination hash is the one the key and the name derive. In particular no announce for another
  key's destination hash is accepted.
\<close>

theorem validate_announce_iff:
  "validate_announce c data d k flag \<longleftrightarrow>
     (\<exists>pk name rnd ratchet sig app dest. data = announce_layout pk name rnd ratchet sig app
        \<and> announce_lengths pk name rnd ratchet sig flag \<and> d = Some dest \<and> k = Some pk
        \<and> c_ed_key_ok c (drop 32 pk)
        \<and> c_ed_verify c (drop 32 pk) (dest @ pk @ name @ rnd @ ratchet @ app) sig
        \<and> dest = truncated_hash (c_sha c) (name @ truncated_hash (c_sha c) pk))"
proof
  assume v: "validate_announce c data d k flag"
  from validate_announce_shape [OF v] obtain pk name rnd ratchet sig app dest where
    s: "data = announce_layout pk name rnd ratchet sig app" "announce_lengths pk name rnd ratchet sig flag"
      "d = Some dest" "k = Some pk" by blast
  with v show "\<exists>pk name rnd ratchet sig app dest. data = announce_layout pk name rnd ratchet sig app
        \<and> announce_lengths pk name rnd ratchet sig flag \<and> d = Some dest \<and> k = Some pk
        \<and> c_ed_key_ok c (drop 32 pk)
        \<and> c_ed_verify c (drop 32 pk) (dest @ pk @ name @ rnd @ ratchet @ app) sig
        \<and> dest = truncated_hash (c_sha c) (name @ truncated_hash (c_sha c) pk)"
    using validate_announce_layout [OF s(2), of c app dest pk] by blast
qed (use validate_announce_layout in blast)

text \<open>
  A ratchet announce can be re-framed. The signature does not cover the context flag nor the
  boundary between ratchet and application data: an announce with a ratchet is accepted if and
  only if the announce without one, with the signature moved forward and the ratchet prefixed to
  the application data, is accepted for the same destination and key.
\<close>

theorem announce_ratchet_reframing:
  assumes "announce_lengths pk name rnd ratchet sig FLAG_SET"
  shows "validate_announce c (announce_layout pk name rnd ratchet sig app) (Some dest) (Some pk) FLAG_SET
     \<longleftrightarrow> validate_announce c (announce_layout pk name rnd [] sig (ratchet @ app)) (Some dest) (Some pk) FLAG_UNSET"
proof -
  have "announce_lengths pk name rnd [] sig FLAG_UNSET" using assms by (simp add: announce_lengths_def)
  from validate_announce_layout [OF assms] validate_announce_layout [OF this] show ?thesis by simp
qed

theorem announce_ratchet_reframing_witness:
  "validate_announce (toy_crypto\<lparr>c_sha := \<lambda>_. replicate 16 4\<rparr>)
      (announce_layout (replicate 64 1) (replicate 10 2) (replicate 10 3) [] (replicate 64 5)
         (replicate 32 6 @ [7])) (Some (replicate 16 4)) (Some (replicate 64 1)) FLAG_UNSET"
  unfolding announce_ratchet_reframing [where ratchet = "replicate 32 6" and pk = "replicate 64 1"
      and name = "replicate 10 2" and rnd = "replicate 10 3" and sig = "replicate 64 5", symmetric,
      simplified announce_lengths_def, simplified]
  by (simp add: validate_announce_layout announce_lengths_def toy_crypto_def truncated_hash_def full_hash_def)

text \<open>
  Link signalling round trip. For an enabled mode and an MTU below \<open>2 ^ 21\<close>, the three
  signalling bytes appended to a link request, or to a link proof, give back the MTU and the mode.
\<close>

theorem signalling_roundtrip:
  assumes "mode = MODE_AES128_CBC \<or> mode = MODE_AES256_CBC" and "mtu < 2 ^ 21"
    and "length ec = ECPUBSIZE" and "length lp = SIG_LEN + 32"
  shows "\<exists>sb. signalling_bytes mtu mode = Inr sb \<and> length sb = LINK_MTU_SIZE
     \<and> mtu_from_lr_packet (ec @ sb) = Some mtu \<and> mode_from_lr_packet (ec @ sb) = mode
     \<and> mtu_from_lp_packet (lp @ sb) = Some mtu \<and> mode_from_lp_packet (lp @ sb) = mode"
proof -
  let ?v = "sig_word (of_nat mtu) mode"
  let ?sb = "[ucast (drop_bit 16 ?v), ucast (drop_bit 8 ?v), ucast ?v] :: bytes"
  have sb: "signalling_bytes mtu mode = Inr ?sb" by (rule signalling_bytes_eq [OF assms(1)])
  have mtu: "unat (?v AND MTU_BYTEMASK) = mtu" by (rule sig_word_mtu [OF assms(2)])
  have "mtu_from_lr_packet (ec @ ?sb) = Some mtu" "mtu_from_lp_packet (lp @ ?sb) = Some mtu"
    unfolding mtu_from_lr_packet_def mtu_from_lp_packet_def
    using mtu_at_signalling [of ec ECPUBSIZE ?v] mtu_at_signalling [of lp "SIG_LEN + ECPUBSIZE div 2" ?v] assms(3,4)
    by (simp_all only: mtu)
  moreover have "mode_from_lr_packet (ec @ ?sb) = mode"
    using assms(3) sig_word_mode(2) [OF assms(1)] by (simp add: mode_from_lr_packet_def nth_append)
  moreover have "mode_from_lp_packet (lp @ ?sb) = mode"
    using assms(4) sig_word_mode(1) [OF assms(1)] by (simp add: mode_from_lp_packet_def nth_append)
  ultimately show ?thesis using sb by (intro exI [of _ ?sb]) simp
qed

theorem signalling_roundtrip_witness:
  "\<exists>sb. signalling_bytes 500 1 = Inr sb \<and> mtu_from_lr_packet (replicate 64 0 @ sb) = Some 500"
  using signalling_roundtrip [of 1 500 "replicate 64 0" "replicate 96 0"] by auto

text \<open>
  The link id does not depend on the signalling. Two accepted link requests that agree on
  destination, type bits, context and the 64 key bytes get the same link id whatever follows
  the keys, so that a relay may clamp or strip the signalled MTU without changing it.
\<close>

theorem link_id_ignores_signalling:
  assumes "unpack sha p = (True, q)" and "unpack sha p' = (True, q')"
    and "p_flags q AND 15 = p_flags q' AND 15" and "p_destination_hash q = p_destination_hash q'"
    and "p_context q = p_context q'" and "take ECPUBSIZE (p_data q) = take ECPUBSIZE (p_data q')"
  shows "link_id_from_lr_packet sha q = link_id_from_lr_packet sha q'"
proof -
  have cut: "link_id_from_lr_packet sha x = truncated_hash sha ((p_flags x AND 15) # dst @ [p_context x]
      @ take ECPUBSIZE (p_data x))"
    if "p_destination_hash x = Some dst"
      "get_hashable_part x = (p_flags x AND 15) # dst @ [p_context x] @ p_data x" for x dst
    using that
    by (auto simp: link_id_from_lr_packet_def Let_def take_Cons' intro!: arg_cong [where f = "truncated_hash sha"])
  show ?thesis
    using unpack_hashable [OF assms(1)] unpack_hashable [OF assms(2)] cut [of q] cut [of q'] assms(3-6)
    by auto
qed

theorem link_id_ignores_signalling_witness:
  "\<exists>q q'. unpack (\<lambda>x. x) (new_packet None ([2, 0] @ replicate 16 7 @ [0] @ replicate 64 1)
        DATA CTX_NONE BROADCAST HEADER_1 None None False 0) = (True, q)
    \<and> unpack (\<lambda>x. x) (new_packet None ([2, 3] @ replicate 16 7 @ [0] @ replicate 64 1 @ [8, 8, 8])
        DATA CTX_NONE BROADCAST HEADER_1 None None False 0) = (True, q')
    \<and> link_id_from_lr_packet (\<lambda>x. x) q = link_id_from_lr_packet (\<lambda>x. x) q'"
proof -
  obtain q where q: "unpack (\<lambda>x. x) (new_packet None ([2, 0] @ replicate 16 7 @ [0] @ replicate 64 1)
        DATA CTX_NONE BROADCAST HEADER_1 None None False 0) = (True, q)"
    "p_flags q = 2" "p_destination_hash q = Some (replicate 16 7)" "p_context q = 0" "p_data q = replicate 64 1"
    by (simp add: unpack_def new_packet_def unpack_flags_def unpack_addresses_def Let_def byte_range_def
        update_hash_def nth_append)
  obtain q' where q': "unpack (\<lambda>x. x) (new_packet None ([2, 3] @ replicate 16 7 @ [0] @ replicate 64 1 @ [8, 8, 8])
        DATA CTX_NONE BROADCAST HEADER_1 None None False 0) = (True, q')"
    "p_flags q' = 2" "p_destination_hash q' = Some (replicate 16 7)" "p_context q' = 0"
    "p_data q' = replicate 64 1 @ [8, 8, 8]"
    by (simp add: unpack_def new_packet_def unpack_flags_def unpack_addresses_def Let_def byte_range_def
        update_hash_def nth_append)
  show ?thesis using q q' link_id_ignores_signalling [OF q(1) q'(1)] by auto
qed

text \<open>
  A relayed link proof is authentic. \<^verbatim>\<open>validate_lrproof_signature\<close> accepts a proof only if the
  link's destination is known and its key signed the link id, the peer's ephemeral key, the
  destination's signing key and the very signalling bytes the proof carries.
\<close>

theorem lrproof_signature_sound:
  assumes v: "validate_lrproof_signature c known pd link_id dst"
  shows "\<exists>peer pk sig pub signalling. recall c known dst = Some peer \<and> get_public_key peer = Inr pk
     \<and> pd = sig @ pub @ signalling \<and> length sig = SIG_LEN \<and> length pub = 32
     \<and> (signalling = [] \<or> length signalling = LINK_MTU_SIZE)
     \<and> validate c peer sig (link_id @ pub @ byte_range 32 64 pk @ signalling)"
proof -
  obtain peer pk where pk: "recall c known dst = Some peer" "get_public_key peer = Inr pk"
    and len: "length pd = 96 \<or> length pd = 99"
    using v by (auto simp: validate_lrproof_signature_def split: if_splits option.splits sum.splits)
  define sg where "sg = drop 96 pd"
  have pd: "pd = take 64 pd @ byte_range 64 96 pd @ sg"
    using take_byte_range_drop [of 64 96 pd] by (simp add: sg_def)
  have "validate c peer (take 64 pd) (link_id @ byte_range 64 96 pd @ byte_range 32 64 pk @ sg)"
    using len
  proof
    assume "length pd = 96"
    then show ?thesis using v pk by (simp add: validate_lrproof_signature_def Let_def sg_def)
  next
    assume l: "length pd = 99"
    then have "length sg = 3" by (simp add: sg_def)
    then obtain a b d where abd: "sg = [a, b, d]"
      by (auto simp: length_Suc_conv numeral_3_eq_3)
    have "pd ! (96 + k) = sg ! k" if "k < 3" for k
      using l that by (simp add: sg_def)
    from this [of 0] this [of 1] this [of 2] have nth: "pd ! 96 = a" "pd ! 97 = b" "pd ! 98 = d"
      using abd by simp_all
    have mtu: "mtu_from_lp_packet pd = Some (unat ((push_bit 16 (ucast a) + push_bit 8 (ucast b)
        + (ucast d :: u32)) AND MTU_BYTEMASK))" and mode: "mode_from_lp_packet pd = drop_bit 5 a"
      using l nth by (simp_all add: mtu_from_lp_packet_def mtu_at_def mode_from_lp_packet_def)
    have "drop_bit 5 a = 0 \<or> drop_bit 5 a = 1"
      using v l mode pk by (auto simp: validate_lrproof_signature_def Let_def signalling_bytes_def
          split: sum.splits if_splits)
    from signalling_of_bytes [OF this] show ?thesis
      using v pk l by (simp add: validate_lrproof_signature_def Let_def mtu mode abd)
  qed
  then show ?thesis
    using pk pd len by (intro exI [of _ peer] exI [of _ pk] exI [of _ "take 64 pd"]
        exI [of _ "byte_range 64 96 pd"] exI [of _ sg]) (auto simp: sg_def)
qed
theorem lrproof_signature_sound_witness:
  "\<exists>peer pk sig pub signalling. recall toy_crypto sample_known [1] = Some peer
     \<and> get_public_key peer = Inr pk \<and> replicate 64 0 @ replicate 32 3 = sig @ pub @ signalling
     \<and> validate toy_crypto peer sig ([6] @ pub @ byte_range 32 64 pk @ signalling)"
proof -
  have "validate_lrproof_signature toy_crypto sample_known (replicate 64 0 @ replicate 32 3) [6] [1]"
    by (simp add: validate_lrproof_signature_def sample_known_def recall_def from_public_key_def
        load_public_key_def toy_crypto_def update_hashes_def get_public_key_def validate_def Let_def)
  from lrproof_signature_sound [OF this] show ?thesis by blast
qed

end
