(* ===== verification/Announce_Queue.thy ===== *)
theory Announce_Queue
  imports Prelude
begin

text \<open>
  What an interface keeps for announces (\<^verbatim>\<open>InterfaceStub\<close> in \<^verbatim>\<open>src/transport.rs\<close>): the pacing of
  the node's own announces, the cap on rebroadcast announces with its queue, and the set of
  published destinations with the operations that maintain it.

  The record holds the fields of \<^verbatim>\<open>InterfaceStub\<close> that the modelled code reads or writes.
\<close>

abbreviation (input) OWN_ANNOUNCE_SPACING_SECS :: real where "OWN_ANNOUNCE_SPACING_SECS \<equiv> 10"
abbreviation (input) MAX_QUEUED_ANNOUNCES :: nat where "MAX_QUEUED_ANNOUNCES \<equiv> 4096"
abbreviation (input) QUEUED_ANNOUNCE_LIFE :: real where "QUEUED_ANNOUNCE_LIFE \<equiv> 10800"
abbreviation (input) ANNOUNCE_CAP :: real where "ANNOUNCE_CAP \<equiv> 2"
abbreviation (input) MODE_ACCESS_POINT :: u8 where "MODE_ACCESS_POINT \<equiv> 0x03"
abbreviation (input) MODE_ROAMING :: u8 where "MODE_ROAMING \<equiv> 0x04"

section \<open>State\<close>

record announce_queue_entry =
  aq_destination :: bytes
  aq_time :: real
  aq_hops :: u8
  aq_emitted :: u64
  aq_raw :: bytes

record interface_stub =
  if_name :: string
  if_online :: bool
  if_bitrate :: "real option"
  if_hw_mtu :: "nat option"
  if_autoconfigure_mtu :: bool
  if_fixed_mtu :: bool
  if_out :: bool
  if_mode :: u8
  if_announce_cap :: real
  if_announce_allowed_at :: real
  if_announce_queue :: "announce_queue_entry list"
  if_own_announce_allowed_at :: real
  if_own_announce_queue :: "(bytes \<times> bytes) list"
  if_announce_rate_target :: "real option"
  if_tunnel_id :: "bytes option"
  if_last_inbound_at :: real

datatype own_announce = Sent | Queued

section \<open>Pacing of the node's own announces\<close>

definition admit_own_announce ::
  "bytes \<Rightarrow> bytes \<Rightarrow> real \<Rightarrow> interface_stub \<Rightarrow> own_announce \<times> interface_stub"
where
  "admit_own_announce destination raw now i =
     (if if_own_announce_queue i = [] \<and> now \<ge> if_own_announce_allowed_at i
      then (Sent, i\<lparr>if_own_announce_allowed_at := now + OWN_ANNOUNCE_SPACING_SECS\<rparr>)
      else if \<exists>e\<in>set (if_own_announce_queue i). fst e = destination
      then (Queued, i\<lparr>if_own_announce_queue :=
              update_first (\<lambda>e. fst e = destination) (\<lambda>e. (fst e, raw)) (if_own_announce_queue i)\<rparr>)
      else (Queued, i\<lparr>if_own_announce_queue := if_own_announce_queue i @ [(destination, raw)]\<rparr>))"

definition next_own_announce ::
  "real \<Rightarrow> interface_stub \<Rightarrow> (bytes \<times> bytes) option \<times> interface_stub"
where
  "next_own_announce now i =
     (if now < if_own_announce_allowed_at i then (None, i)
      else case if_own_announce_queue i of
             [] \<Rightarrow> (None, i)
           | e # q \<Rightarrow> (Some e, i\<lparr>if_own_announce_queue := q,
                                 if_own_announce_allowed_at := now + OWN_ANNOUNCE_SPACING_SECS\<rparr>))"

section \<open>The announce cap\<close>

definition announce_airtime_cost :: "interface_stub \<Rightarrow> nat \<Rightarrow> real \<Rightarrow> real" where
  "announce_airtime_cost i raw_len bitrate =
     (let cap = (if if_announce_cap i > 0 then if_announce_cap i else ANNOUNCE_CAP / 100)
      in real (raw_len * 8) / bitrate / cap)"

text \<open>\<^verbatim>\<open>self.bitrate.filter(|b| *b > 0.0)\<close>\<close>

definition positive_bitrate :: "interface_stub \<Rightarrow> real option" where
  "positive_bitrate i =
     (case if_bitrate i of None \<Rightarrow> None | Some b \<Rightarrow> if b > 0 then Some b else None)"

definition admit_announce ::
  "bytes \<Rightarrow> u8 \<Rightarrow> u64 \<Rightarrow> bytes \<Rightarrow> real \<Rightarrow> interface_stub \<Rightarrow> bool \<times> interface_stub"
where
  "admit_announce destination hops emitted raw outbound_time i =
     (case positive_bitrate i of
        None \<Rightarrow> (True, i)
      | Some bitrate \<Rightarrow>
        if if_announce_queue i = [] \<and> outbound_time > if_announce_allowed_at i
        then (True, i\<lparr>if_announce_allowed_at :=
                outbound_time + announce_airtime_cost i (length raw) bitrate\<rparr>)
        else if \<exists>e\<in>set (if_announce_queue i). aq_destination e = destination
        then (False, i\<lparr>if_announce_queue :=
                update_first (\<lambda>e. aq_destination e = destination)
                  (\<lambda>e. if emitted > aq_emitted e
                       then e\<lparr>aq_time := outbound_time, aq_hops := hops, aq_emitted := emitted, aq_raw := raw\<rparr>
                       else e)
                  (if_announce_queue i)\<rparr>)
        else if length (if_announce_queue i) < MAX_QUEUED_ANNOUNCES
        then (False, i\<lparr>if_announce_queue := if_announce_queue i @
                [\<lparr> aq_destination = destination, aq_time = outbound_time, aq_hops = hops,
                   aq_emitted = emitted, aq_raw = raw \<rparr>]\<rparr>)
        else (False, i))"

text \<open>
  The index \<^verbatim>\<open>next_queued_announce\<close> picks: of the entries with the fewest hops, the first of
  those with the least time (\<^verbatim>\<open>min_by\<close> keeps the first of equal elements).
\<close>

fun first_min :: "('a \<Rightarrow> bool) \<Rightarrow> ('a \<Rightarrow> real) \<Rightarrow> nat \<Rightarrow> 'a list \<Rightarrow> (nat \<times> 'a) option" where
  "first_min P key k [] = None"
| "first_min P key k (x # xs) =
     (case first_min P key (Suc k) xs of
        None \<Rightarrow> if P x then Some (k, x) else None
      | Some (j, y) \<Rightarrow> if P x \<and> key x \<le> key y then Some (k, x) else Some (j, y))"

definition next_queued_announce :: "real \<Rightarrow> interface_stub \<Rightarrow> bytes option \<times> interface_stub" where
  "next_queued_announce now i =
     (let q = filter (\<lambda>e. now \<le> aq_time e + QUEUED_ANNOUNCE_LIFE) (if_announce_queue i);
          i = i\<lparr>if_announce_queue := q\<rparr>
      in if q = [] \<or> now < if_announce_allowed_at i then (None, i)
         else case positive_bitrate i of
           None \<Rightarrow> (None, i)
         | Some bitrate \<Rightarrow>
           (let min_hops = Min (aq_hops ` set q) in
            case first_min (\<lambda>e. aq_hops e = min_hops) aq_time 0 q of
              None \<Rightarrow> (None, i)
            | Some (idx, selected) \<Rightarrow>
              (Some (aq_raw selected),
               i\<lparr>if_announce_queue := take idx q @ drop (Suc idx) q,
                 if_announce_allowed_at := now + announce_airtime_cost i (length (aq_raw selected)) bitrate\<rparr>)))"

text \<open>
  The block of \<^verbatim>\<open>jobs()\<close> that empties an interface's queue: up to 64 releases, all with the same
  clock reading.
\<close>

fun drain_queued_announces :: "nat \<Rightarrow> real \<Rightarrow> interface_stub \<Rightarrow> bytes list \<times> interface_stub" where
  "drain_queued_announces 0 now i = ([], i)"
| "drain_queued_announces (Suc budget) now i =
     (case next_queued_announce now i of
        (None, i') \<Rightarrow> ([], i')
      | (Some raw, i') \<Rightarrow>
        (case drain_queued_announces budget now i' of (raws, i'') \<Rightarrow> (raw # raws, i'')))"

definition release_queued_announces ::
  "real \<Rightarrow> interface_stub list \<Rightarrow> (string \<times> bytes) list \<times> interface_stub list"
where
  "release_queued_announces now is =
     (let rs = map (\<lambda>i. if if_online i then drain_queued_announces 64 now i else ([], i)) is
      in (concat (map (\<lambda>(raws, i). map (Pair (if_name i)) raws) rs), map snd rs))"

section \<open>Published destinations\<close>

record published_destination =
  pd_refresh_interval :: "real option"
  pd_last_announced_at :: real
  pd_app_data :: "bytes option"

type_synonym published_set = "(bytes \<times> published_destination) list"

definition ps_get :: "published_set \<Rightarrow> bytes \<Rightarrow> published_destination option" where
  "ps_get ps h = map_option snd (find (\<lambda>e. fst e = h) ps)"

definition ps_contains_key :: "published_set \<Rightarrow> bytes \<Rightarrow> bool" where
  "ps_contains_key ps h \<longleftrightarrow> (\<exists>e\<in>set ps. fst e = h)"

definition ps_insert :: "bytes \<Rightarrow> published_destination \<Rightarrow> published_set \<Rightarrow> published_set" where
  "ps_insert h p ps =
     (if ps_contains_key ps h then update_first (\<lambda>e. fst e = h) (\<lambda>e. (fst e, p)) ps
      else ps @ [(h, p)])"

fun ps_remove :: "bytes \<Rightarrow> published_set \<Rightarrow> published_set" where
  "ps_remove h [] = []"
| "ps_remove h (e # ps) = (if fst e = h then ps else e # ps_remove h ps)"

definition publish_destination ::
  "bytes \<Rightarrow> real option \<Rightarrow> bytes option \<Rightarrow> published_set \<Rightarrow> published_set"
where
  "publish_destination h refresh_interval app_data ps =
     (let last = (case ps_get ps h of None \<Rightarrow> 0 | Some e \<Rightarrow> pd_last_announced_at e)
      in ps_insert h \<lparr> pd_refresh_interval = refresh_interval, pd_last_announced_at = last,
                       pd_app_data = app_data \<rparr> ps)"

definition update_published_app_data ::
  "bytes \<Rightarrow> bytes option \<Rightarrow> published_set \<Rightarrow> bool \<times> published_set"
where
  "update_published_app_data h app_data ps =
     (if ps_contains_key ps h
      then (True, update_first (\<lambda>e. fst e = h) (\<lambda>e. (fst e, (snd e)\<lparr>pd_app_data := app_data\<rparr>)) ps)
      else (False, ps))"

text \<open>\<^verbatim>\<open>announce_sent_at\<close>: when a destination was last announced on an interface.\<close>

type_synonym announce_sent_at = "bytes \<times> string \<rightharpoonup> real"

definition unpublish_destination ::
  "bytes \<Rightarrow> published_set \<Rightarrow> announce_sent_at \<Rightarrow> published_set \<times> announce_sent_at"
where
  "unpublish_destination h ps sent =
     (ps_remove h ps, (\<lambda>k. if fst k = h then None else sent k))"

text \<open>
  One pass of \<^verbatim>\<open>release_own_announces_locked\<close>: at most one announce per online interface, the
  frames to dispatch and the times recorded.
\<close>

fun release_own_announces ::
  "real \<Rightarrow> interface_stub list \<Rightarrow> announce_sent_at
   \<Rightarrow> (string \<times> bytes) list \<times> interface_stub list \<times> announce_sent_at"
where
  "release_own_announces now [] sent = ([], [], sent)"
| "release_own_announces now (i # is) sent =
     (if \<not> if_online i then
        (case release_own_announces now is sent of (out, is', sent') \<Rightarrow> (out, i # is', sent'))
      else case next_own_announce now i of
        (None, i') \<Rightarrow>
          (case release_own_announces now is sent of (out, is', sent') \<Rightarrow> (out, i' # is', sent'))
      | (Some (dest, raw), i') \<Rightarrow>
          (case release_own_announces now is (sent((dest, if_name i) \<mapsto> now)) of
             (out, is', sent') \<Rightarrow> ((if_name i, raw) # out, i' # is', sent')))"

definition auto_announce_due :: "announce_sent_at \<Rightarrow> bytes \<Rightarrow> string \<Rightarrow> real \<Rightarrow> real \<Rightarrow> bool" where
  "auto_announce_due sent h iface period now \<longleftrightarrow>
     now - (case sent (h, iface) of None \<Rightarrow> 0 | Some t \<Rightarrow> t) \<ge> period"

definition drop_announce_queues :: "interface_stub list \<Rightarrow> nat \<times> interface_stub list" where
  "drop_announce_queues is =
     (sum_list (map (\<lambda>i. length (if_announce_queue i)) is), map (\<lambda>i. i\<lparr>if_announce_queue := []\<rparr>) is)"

section \<open>Own announces: spacing, order, nothing lost\<close>

text \<open>
  The interface under any interleaving of requests and releases. Besides the interface the state
  records, as ghosts, what was sent (newest first) and the latest frame asked per destination.
\<close>

datatype own_op = Admit bytes bytes real | Release real

record own_state =
  os_iface :: interface_stub
  os_sent :: "(real \<times> bytes \<times> bytes) list"
  os_latest :: "bytes \<rightharpoonup> bytes"

fun own_step :: "own_op \<Rightarrow> own_state \<Rightarrow> own_state" where
  "own_step (Admit d raw now) s =
     (case admit_own_announce d raw now (os_iface s) of
        (Sent, i) \<Rightarrow> s\<lparr>os_iface := i, os_sent := (now, d, raw) # os_sent s, os_latest := (os_latest s)(d \<mapsto> raw)\<rparr>
      | (Queued, i) \<Rightarrow> s\<lparr>os_iface := i, os_latest := (os_latest s)(d \<mapsto> raw)\<rparr>)"
| "own_step (Release now) s =
     (case next_own_announce now (os_iface s) of
        (None, i) \<Rightarrow> s\<lparr>os_iface := i\<rparr>
      | (Some (d, raw), i) \<Rightarrow> s\<lparr>os_iface := i, os_sent := (now, d, raw) # os_sent s\<rparr>)"

text \<open>Every two consecutive transmissions are at least the spacing apart (newest first).\<close>

fun spaced :: "(real \<times> 'a) list \<Rightarrow> bool" where
  "spaced ((t, _) # (t', y) # xs) \<longleftrightarrow> t' + OWN_ANNOUNCE_SPACING_SECS \<le> t \<and> spaced ((t', y) # xs)"
| "spaced _ \<longleftrightarrow> True"

definition own_inv :: "own_state \<Rightarrow> bool" where
  "own_inv s \<longleftrightarrow> spaced (os_sent s) \<and> distinct (map fst (if_own_announce_queue (os_iface s)))
     \<and> (case os_sent s of [] \<Rightarrow> True
        | (t, _) # _ \<Rightarrow> if_own_announce_allowed_at (os_iface s) = t + OWN_ANNOUNCE_SPACING_SECS)
     \<and> (\<forall>d raw. os_latest s d = Some raw \<longrightarrow>
          (d, raw) \<in> set (if_own_announce_queue (os_iface s)) \<or> (\<exists>t. (t, d, raw) \<in> set (os_sent s)))
     \<and> (\<forall>e\<in>set (if_own_announce_queue (os_iface s)). os_latest s (fst e) = Some (snd e))"

lemma spaced_Cons:
  "spaced xs \<Longrightarrow> (case xs of [] \<Rightarrow> True | (t', _) # _ \<Rightarrow> t' + OWN_ANNOUNCE_SPACING_SECS \<le> t)
   \<Longrightarrow> spaced ((t, x) # xs)"
  by (cases xs) auto

lemma update_first_unique:
  assumes "distinct (map fst q)" and "\<exists>e\<in>set q. fst e = d"
  shows "set (update_first (\<lambda>e. fst e = d) (\<lambda>e. (fst e, v)) q) = insert (d, v) {e \<in> set q. fst e \<noteq> d}"
  using assms
proof (induction q)
  case (Cons a q)
  show ?case
  proof (cases "fst a = d")
    case True
    then have "\<forall>e\<in>set q. fst e \<noteq> d" using Cons.prems(1) by (auto simp: rev_image_eqI)
    with True show ?thesis by auto
  next
    case False
    then show ?thesis using Cons by auto
  qed
qed simp

lemma own_inv_admit:
  assumes "own_inv s"
  shows "own_inv (own_step (Admit d raw now) s)"
proof -
  let ?i = "os_iface s" and ?q = "if_own_announce_queue (os_iface s)"
  note inv = assms [unfolded own_inv_def]
  consider (send) "?q = [] \<and> now \<ge> if_own_announce_allowed_at ?i"
    | (replace) "\<not> (?q = [] \<and> now \<ge> if_own_announce_allowed_at ?i)" "\<exists>e\<in>set ?q. fst e = d"
    | (append) "\<not> (?q = [] \<and> now \<ge> if_own_announce_allowed_at ?i)" "\<not> (\<exists>e\<in>set ?q. fst e = d)"
    by blast
  then show ?thesis
  proof cases
    case send
    then show ?thesis
      using inv by (auto simp: own_inv_def admit_own_announce_def intro!: spaced_Cons split: list.splits)
  next
    case replace
    have m: "map fst (update_first (\<lambda>e. fst e = d) (\<lambda>e. (fst e, raw)) ?q) = map fst ?q"
      by (rule map_update_first) simp
    have s: "set (update_first (\<lambda>e. fst e = d) (\<lambda>e. (fst e, raw)) ?q) = insert (d, raw) {e \<in> set ?q. fst e \<noteq> d}"
      using inv replace(2) by (intro update_first_unique) auto
    show ?thesis
      using inv replace by (auto simp: own_inv_def admit_own_announce_def m s split: list.splits)
  next
    case append
    then show ?thesis
      using inv by (auto simp: own_inv_def admit_own_announce_def image_iff split: list.splits)
  qed
qed

lemma own_inv_release:
  assumes "own_inv s"
  shows "own_inv (own_step (Release now) s)"
proof (cases "now < if_own_announce_allowed_at (os_iface s) \<or> if_own_announce_queue (os_iface s) = []")
  case True
  then have "next_own_announce now (os_iface s) = (None, os_iface s)"
    by (auto simp: next_own_announce_def)
  then show ?thesis using assms by simp
next
  case False
  then obtain d raw q where q: "if_own_announce_queue (os_iface s) = (d, raw) # q"
    by (cases "if_own_announce_queue (os_iface s)") auto
  with False assms show ?thesis
    by (auto simp: own_inv_def next_own_announce_def intro!: spaced_Cons split: list.splits) blast
qed

definition own_start :: "interface_stub \<Rightarrow> own_state" where
  "own_start i = \<lparr> os_iface = i\<lparr>if_own_announce_queue := []\<rparr>, os_sent = [], os_latest = (\<lambda>_. None) \<rparr>"

interpretation own_pacing: machine own_step "own_start i" own_inv for i
proof
  show "own_inv (own_start i)" by (simp add: own_inv_def own_start_def)
  show "own_inv (own_step e s)" if "own_inv s" for s e
    using that own_inv_admit own_inv_release by (cases e) blast+
qed

section \<open>The cap queue\<close>

lemma first_min_Some:
  "first_min P key k xs = Some (j, y) \<Longrightarrow>
     k \<le> j \<and> j - k < length xs \<and> xs ! (j - k) = y \<and> P y \<and> (\<forall>x\<in>set xs. P x \<longrightarrow> key y \<le> key x)"
proof (induction xs arbitrary: k j y)
  case (Cons x xs)
  show ?case
  proof (cases "first_min P key (Suc k) xs")
    case None
    then have no: "\<forall>z\<in>set xs. \<not> P z"
      by (induction xs arbitrary: k) (auto split: option.splits if_splits)
    from None no Cons.prems show ?thesis by (auto split: if_splits)
  next
    case (Some r)
    obtain j' y' where r: "r = (j', y')" by (cases r)
    have IH: "Suc k \<le> j'" "j' - Suc k < length xs" "xs ! (j' - Suc k) = y'" "P y'"
      "\<forall>x\<in>set xs. P x \<longrightarrow> key y' \<le> key x"
      using Cons.IH [of "Suc k" j' y'] Some r by auto
    show ?thesis
    proof (cases "P x \<and> key x \<le> key y'")
      case True
      then have "j = k" "y = x" using Cons.prems Some r by auto
      then show ?thesis using True IH by force
    next
      case False
      then have "j = j'" "y = y'" using Cons.prems Some r by auto
      moreover have "(x # xs) ! (j' - k) = y'" using IH by (metis Suc_diff_le diff_Suc_Suc nth_Cons_Suc)
      ultimately show ?thesis using False IH by auto
    qed
  qed
qed simp

lemma first_min_None: "first_min P key k xs = None \<Longrightarrow> \<forall>x\<in>set xs. \<not> P x"
  by (induction xs arbitrary: k) (auto split: option.splits if_splits)

definition cap_inv :: "interface_stub \<Rightarrow> bool" where
  "cap_inv i \<longleftrightarrow> length (if_announce_queue i) \<le> MAX_QUEUED_ANNOUNCES
     \<and> distinct (map aq_destination (if_announce_queue i))"

lemma cap_inv_admit: "cap_inv i \<Longrightarrow> cap_inv (snd (admit_announce d h em raw t i))"
  by (auto simp: admit_announce_def cap_inv_def map_update_first split: option.split)

lemma distinct_map_remove_nth:
  "distinct (map f xs) \<Longrightarrow> distinct (map f (take n xs @ drop (Suc n) xs))"
  by (simp add: take_map [symmetric] drop_map [symmetric] set_take_disj_set_drop_if_distinct
      flip: set_map)

lemma cap_inv_next: "cap_inv i \<Longrightarrow> cap_inv (snd (next_queued_announce now i))"
proof -
  assume inv: "cap_inv i"
  let ?q = "filter (\<lambda>e. now \<le> aq_time e + QUEUED_ANNOUNCE_LIFE) (if_announce_queue i)"
  have q: "length ?q \<le> MAX_QUEUED_ANNOUNCES" "distinct (map aq_destination ?q)"
    using inv by (auto simp: cap_inv_def distinct_map_filter)
  have "length (take n ?q @ drop (Suc n) ?q) \<le> MAX_QUEUED_ANNOUNCES" for n
    using q(1) by simp
  with q distinct_map_remove_nth [OF q(2)] show ?thesis
    by (auto simp: next_queued_announce_def cap_inv_def Let_def split: option.split prod.split)
qed

section \<open>The published set as an ordered map\<close>

text \<open>
  What the announce sweep relies on: a map that remembers the order in which its keys were first
  inserted.
\<close>

locale ordered_map =
  fixes empty :: 'm and get :: "'m \<Rightarrow> 'k \<Rightarrow> 'v option"
    and insert :: "'k \<Rightarrow> 'v \<Rightarrow> 'm \<Rightarrow> 'm" and remove :: "'k \<Rightarrow> 'm \<Rightarrow> 'm"
    and keys :: "'m \<Rightarrow> 'k list" and inv :: "'m \<Rightarrow> bool"
  assumes inv_empty: "inv empty" and keys_empty: "keys empty = []"
    and inv_insert: "inv m \<Longrightarrow> inv (insert k v m)"
    and inv_remove: "inv m \<Longrightarrow> inv (remove k m)"
    and get_insert: "inv m \<Longrightarrow> get (insert k v m) k' = (if k' = k then Some v else get m k')"
    and get_remove: "inv m \<Longrightarrow> get (remove k m) k' = (if k' = k then None else get m k')"
    and keys_insert: "inv m \<Longrightarrow> keys (insert k v m) = (if k \<in> set (keys m) then keys m else keys m @ [k])"
    and keys_remove: "inv m \<Longrightarrow> keys (remove k m) = remove1 k (keys m)"
    and get_keys: "inv m \<Longrightarrow> get m k \<noteq> None \<longleftrightarrow> k \<in> set (keys m)"
begin

abbreviation insert_all :: "('k \<times> 'v) list \<Rightarrow> 'm \<Rightarrow> 'm" where
  "insert_all kvs m \<equiv> fold (\<lambda>(k, v). insert k v) kvs m"

lemma inv_insert_all: "inv m \<Longrightarrow> inv (insert_all kvs m)"
  by (induction kvs arbitrary: m) (auto intro: inv_insert)

text \<open>Inserting keeps every key's place and appends the new ones in order.\<close>

lemma keys_insert_all:
  "inv m \<Longrightarrow> \<exists>new. keys (insert_all kvs m) = keys m @ new \<and> set new \<subseteq> fst ` set kvs"
proof (induction kvs arbitrary: m)
  case (Cons kv kvs)
  obtain k v where kv: "kv = (k, v)" by (cases kv)
  from Cons.IH [OF inv_insert [OF Cons.prems, of k v]] obtain new
    where "keys (insert_all kvs (insert k v m)) = keys (insert k v m) @ new" "set new \<subseteq> fst ` set kvs"
    by blast
  then show ?case using keys_insert [OF Cons.prems, of k v] by (auto simp: kv split: if_splits)
qed simp

lemma first_key_stays: "inv m \<Longrightarrow> keys m = k # ks \<Longrightarrow> hd (keys (insert_all kvs m)) = k"
  using keys_insert_all [of m kvs] by auto

lemma reinsert_goes_last:
  "inv m \<Longrightarrow> distinct (keys m) \<Longrightarrow> keys (insert k v (remove k m)) = remove1 k (keys m) @ [k]"
  by (simp add: keys_insert inv_remove keys_remove)

end

lemma find_update_first:
  "find (\<lambda>e. fst e = k') (update_first (\<lambda>e. fst e = k) (\<lambda>e. (fst e, v)) ps)
   = (if k' = k then map_option (\<lambda>e. (fst e, v)) (find (\<lambda>e. fst e = k) ps) else find (\<lambda>e. fst e = k') ps)"
  by (induction ps) auto

lemma ps_contains_iff: "ps_contains_key ps h \<longleftrightarrow> h \<in> set (map fst ps)"
  by (auto simp: ps_contains_key_def)

lemma find_append_key:
  "\<not> ps_contains_key ps h \<Longrightarrow> find (\<lambda>e. fst e = k) (ps @ [(h, p)])
     = (if k = h then Some (h, p) else find (\<lambda>e. fst e = k) ps)"
  by (induction ps) (auto simp: ps_contains_key_def)

lemma ps_get_insert: "ps_get (ps_insert h p ps) k = (if k = h then Some p else ps_get ps k)"
proof (cases "ps_contains_key ps h")
  case True
  then have "find (\<lambda>e. fst e = h) ps \<noteq> None" by (auto simp: ps_contains_key_def find_None_iff)
  then obtain e where "find (\<lambda>e. fst e = h) ps = Some e" by blast
  then show ?thesis using True by (simp add: ps_get_def ps_insert_def find_update_first)
qed (simp add: ps_get_def ps_insert_def find_append_key)

lemma keys_ps_insert:
  "map fst (ps_insert h p ps) = (if h \<in> set (map fst ps) then map fst ps else map fst ps @ [h])"
  by (simp add: ps_insert_def ps_contains_iff map_update_first)

lemma keys_ps_remove: "map fst (ps_remove h ps) = remove1 h (map fst ps)"
  by (induction ps) auto

lemma ps_get_None: "ps_get ps k = None \<longleftrightarrow> k \<notin> set (map fst ps)"
  by (auto simp: ps_get_def find_None_iff rev_image_eqI)

lemma ps_get_remove:
  "distinct (map fst ps) \<Longrightarrow> ps_get (ps_remove h ps) k = (if k = h then None else ps_get ps k)"
proof (induction ps)
  case (Cons e ps)
  then show ?case using ps_get_None [of ps h] by (auto simp: ps_get_def)
qed (simp add: ps_get_def)

interpretation published: ordered_map "[]" ps_get ps_insert ps_remove "map fst" "\<lambda>ps. distinct (map fst ps)"
  by unfold_locales
    (simp_all add: ps_get_insert keys_ps_insert ps_get_remove keys_ps_remove ps_get_None distinct_remove1
      del: set_map not_None_eq)

section \<open>Properties\<close>

lemma airtime_positive:
  "positive_bitrate i = Some b \<Longrightarrow> raw \<noteq> [] \<Longrightarrow> 0 < announce_airtime_cost i (length raw) b"
  by (auto simp: announce_airtime_cost_def positive_bitrate_def Let_def split: option.splits if_splits)

lemma queued_announce_facts:
  "case next_queued_announce now i of
     (Some raw, i') \<Rightarrow>
       (\<exists>ys e zs b. filter (\<lambda>e. now \<le> aq_time e + QUEUED_ANNOUNCE_LIFE) (if_announce_queue i) = ys @ e # zs
          \<and> raw = aq_raw e \<and> if_announce_queue i' = ys @ zs \<and> if_announce_allowed_at i \<le> now
          \<and> (\<forall>x\<in>set (ys @ e # zs). aq_hops e \<le> aq_hops x
                \<and> (aq_hops x = aq_hops e \<longrightarrow> aq_time e \<le> aq_time x))
          \<and> positive_bitrate i = Some b
          \<and> if_announce_allowed_at i' = now + announce_airtime_cost i (length raw) b)
   | (None, i') \<Rightarrow>
       if_announce_queue i' = filter (\<lambda>e. now \<le> aq_time e + QUEUED_ANNOUNCE_LIFE) (if_announce_queue i)
       \<and> (if_announce_queue i' = [] \<or> now < if_announce_allowed_at i \<or> positive_bitrate i = None)"
proof -
  define q where "q = filter (\<lambda>e. now \<le> aq_time e + QUEUED_ANNOUNCE_LIFE) (if_announce_queue i)"
  define m where "m = Min (aq_hops ` set q)"
  have pb: "positive_bitrate (i\<lparr>if_announce_queue := x\<rparr>) = positive_bitrate i" for x
    by (simp add: positive_bitrate_def)
  have ac: "announce_airtime_cost (i\<lparr>if_announce_queue := x\<rparr>) = announce_airtime_cost i" for x
    by (simp add: announce_airtime_cost_def fun_eq_iff)
  show ?thesis
  proof (cases "q = [] \<or> now < if_announce_allowed_at i \<or> positive_bitrate i = None")
    case True
    then show ?thesis
      by (auto simp: next_queued_announce_def Let_def pb q_def [symmetric] split: option.split)
  next
    case False
    then obtain b where b: "positive_bitrate i = Some b" and ne: "q \<noteq> []"
      and t: "if_announce_allowed_at i \<le> now" by auto
    have m: "m \<in> aq_hops ` set q" "\<forall>x\<in>set q. m \<le> aq_hops x"
      using ne by (auto simp: m_def intro: Min_in)
    then have "first_min (\<lambda>e. aq_hops e = m) aq_time 0 q \<noteq> None"
      using first_min_None [of "\<lambda>e. aq_hops e = m" aq_time 0 q] by (metis (mono_tags, lifting) imageE)
    then obtain idx e where f: "first_min (\<lambda>e. aq_hops e = m) aq_time 0 q = Some (idx, e)" by auto
    note fm = first_min_Some [OF f]
    obtain ys zs where yz: "ys = take idx q" "zs = drop (Suc idx) q" by blast
    have split: "q = ys @ e # zs"
      using fm id_take_nth_drop [of idx q] by (simp add: yz)
    have best: "\<forall>x\<in>set q. aq_hops e \<le> aq_hops x \<and> (aq_hops x = aq_hops e \<longrightarrow> aq_time e \<le> aq_time x)"
      using fm m(2) by auto
    have "next_queued_announce now i = (Some (aq_raw e), i\<lparr>if_announce_queue := ys @ zs,
        if_announce_allowed_at := now + announce_airtime_cost i (length (aq_raw e)) b\<rparr>)"
      using False b f by (simp add: next_queued_announce_def Let_def q_def [symmetric] m_def [symmetric] pb ac yz)
    moreover have "\<forall>x\<in>set (ys @ e # zs). aq_hops e \<le> aq_hops x
        \<and> (aq_hops x = aq_hops e \<longrightarrow> aq_time e \<le> aq_time x)"
      using best unfolding split [symmetric] .
    ultimately show ?thesis
      unfolding q_def [symmetric] using split b t by (simp del: set_append) blast
  qed
qed

text \<open>
  C33. Our own announces on an interface are spaced and none is lost. Whatever the requests and
  releases and whatever their clock readings, starting from an interface with an empty queue:
  any two consecutive transmissions are at least \<^verbatim>\<open>OWN_ANNOUNCE_SPACING_SECS\<close> apart, at most
  one announce per destination waits, and the latest frame asked for a destination is either
  still waiting or was transmitted.
\<close>

theorem own_announces_paced:
  "spaced (os_sent (run own_step ops (own_start i)))
   \<and> distinct (map fst (if_own_announce_queue (os_iface (run own_step ops (own_start i)))))
   \<and> (\<forall>d raw. os_latest (run own_step ops (own_start i)) d = Some raw \<longrightarrow>
        (d, raw) \<in> set (if_own_announce_queue (os_iface (run own_step ops (own_start i))))
        \<or> (\<exists>t. (t, d, raw) \<in> set (os_sent (run own_step ops (own_start i)))))"
  using own_pacing.inv_reachable [of ops i] unfolding own_inv_def by blast

definition sample_iface :: interface_stub where
  "sample_iface = \<lparr> if_name = ''eth'', if_online = True, if_bitrate = Some 1000, if_hw_mtu = None,
     if_autoconfigure_mtu = False, if_fixed_mtu = False, if_out = True, if_mode = 1,
     if_announce_cap = 0, if_announce_allowed_at = 0, if_announce_queue = [],
     if_own_announce_allowed_at = 0, if_own_announce_queue = [], if_announce_rate_target = None,
     if_tunnel_id = None, if_last_inbound_at = 0 \<rparr>"

theorem own_announces_paced_witness:
  "os_sent (run own_step [Admit [1] [10] 0, Admit [2] [20] 1, Admit [2] [21] 2, Release 5, Release 10]
     (own_start sample_iface)) = [(10, [2], [21]), (0, [1], [10])]
   \<and> spaced (os_sent (run own_step [Admit [1] [10] 0, Admit [2] [20] 1, Admit [2] [21] 2, Release 5, Release 10]
     (own_start sample_iface)))"
  using own_announces_paced [of "[Admit [1] [10] 0, Admit [2] [20] 1, Admit [2] [21] 2, Release 5, Release 10]"
      sample_iface]
  by (simp add: own_start_def sample_iface_def admit_own_announce_def next_own_announce_def)

text \<open>
  What the announce cap releases. When \<^verbatim>\<open>next_queued_announce\<close> releases a frame, the window
  has passed, and the frame is that of a waiting announce that is not stale, has the fewest hops
  of those and, among them, waited longest; exactly the stale entries and this one leave the
  queue, and the window is closed for the frame's share of airtime. When it releases nothing
  although a live announce waits on an interface with a bitrate, the window has not passed.
\<close>

theorem queued_announce_release:
  "case next_queued_announce now i of
     (Some raw, i') \<Rightarrow>
       (\<exists>ys e zs b. filter (\<lambda>e. now \<le> aq_time e + QUEUED_ANNOUNCE_LIFE) (if_announce_queue i) = ys @ e # zs
          \<and> raw = aq_raw e \<and> if_announce_queue i' = ys @ zs \<and> if_announce_allowed_at i \<le> now
          \<and> (\<forall>x\<in>set (ys @ e # zs). aq_hops e \<le> aq_hops x
                \<and> (aq_hops x = aq_hops e \<longrightarrow> aq_time e \<le> aq_time x))
          \<and> positive_bitrate i = Some b
          \<and> if_announce_allowed_at i' = now + announce_airtime_cost i (length raw) b)
   | (None, i') \<Rightarrow>
       if_announce_queue i' = filter (\<lambda>e. now \<le> aq_time e + QUEUED_ANNOUNCE_LIFE) (if_announce_queue i)
       \<and> (if_announce_queue i' = [] \<or> now < if_announce_allowed_at i \<or> positive_bitrate i = None)"
  by (rule queued_announce_facts)

theorem queued_announce_release_witness:
  "fst (next_queued_announce 100 (sample_iface\<lparr>if_announce_queue :=
     [\<lparr> aq_destination = [1], aq_time = 90, aq_hops = 2, aq_emitted = 5, aq_raw = [7] \<rparr>,
      \<lparr> aq_destination = [2], aq_time = 80, aq_hops = 2, aq_emitted = 5, aq_raw = [8] \<rparr>]\<rparr>)) = Some [8]"
  using queued_announce_release [of 100 "sample_iface\<lparr>if_announce_queue :=
     [\<lparr> aq_destination = [1], aq_time = 90, aq_hops = 2, aq_emitted = 5, aq_raw = [7] \<rparr>,
      \<lparr> aq_destination = [2], aq_time = 80, aq_hops = 2, aq_emitted = 5, aq_raw = [8] \<rparr>]\<rparr>"]
  by (simp add: next_queued_announce_def sample_iface_def positive_bitrate_def)

text \<open>
  A pass of \<^verbatim>\<open>jobs()\<close> releases at most one queued announce per interface. Each release closes
  the window with the clock reading the next attempt of the pass uses, so the budget of 64 is
  never used: with frames that are not empty, the first release is also the last.
\<close>

theorem drain_releases_at_most_one:
  assumes "\<forall>e\<in>set (if_announce_queue i). aq_raw e \<noteq> []"
  shows "length (fst (drain_queued_announces budget now i)) \<le> 1"
proof (cases budget)
  case (Suc n)
  obtain r i' where r: "next_queued_announce now i = (r, i')" by fastforce
  show ?thesis
  proof (cases r)
    case (Some raw)
    obtain ys e zs b where e: "filter (\<lambda>e. now \<le> aq_time e + QUEUED_ANNOUNCE_LIFE) (if_announce_queue i) = ys @ e # zs"
      and raw: "raw = aq_raw e" and b: "positive_bitrate i = Some b"
      and nx: "if_announce_allowed_at i' = now + announce_airtime_cost i (length raw) b"
      using queued_announce_facts [of now i] r Some by auto
    have "e \<in> set (filter (\<lambda>e. now \<le> aq_time e + QUEUED_ANNOUNCE_LIFE) (if_announce_queue i))"
      unfolding e by simp
    then have "e \<in> set (if_announce_queue i)" by simp
    then have "now < if_announce_allowed_at i'"
      using assms raw nx airtime_positive [OF b, of raw] by auto
    then have "fst (next_queued_announce now i') = None"
      by (auto simp: next_queued_announce_def Let_def)
    then have "fst (drain_queued_announces n now i') = []"
      by (cases n) (auto split: prod.splits option.splits)
    then show ?thesis using r Some Suc by (auto split: prod.splits)
  qed (use r Suc in simp)
qed simp

theorem drain_releases_at_most_one_witness:
  "length (fst (drain_queued_announces 64 100 (sample_iface\<lparr>if_announce_queue :=
     [\<lparr> aq_destination = [1], aq_time = 90, aq_hops = 2, aq_emitted = 5, aq_raw = [7] \<rparr>,
      \<lparr> aq_destination = [2], aq_time = 80, aq_hops = 2, aq_emitted = 5, aq_raw = [8] \<rparr>]\<rparr>))) \<le> 1"
  by (rule drain_releases_at_most_one) simp

definition publish_all :: "(bytes \<times> published_destination) list \<Rightarrow> published_set \<Rightarrow> published_set" where
  "publish_all kvs ps = fold (\<lambda>(k, v). ps_insert k v) kvs ps"

text \<open>
  The published set keeps its promise to the announce sweep. Publishing, in any order and any
  number of times, from the empty set: each destination is listed once and found under the
  policy it was last published with; a destination keeps its place through every later
  publication, so the one published first stays first; and one that is unpublished and published
  again goes to the end.
\<close>

theorem published_order:
  assumes "distinct (map fst ps)"
  shows "distinct (map fst (publish_all kvs ps))
    \<and> (\<exists>new. map fst (publish_all kvs ps) = map fst ps @ new \<and> set new \<subseteq> fst ` set kvs)
    \<and> ps_get (ps_insert h p ps) k = (if k = h then Some p else ps_get ps k)
    \<and> map fst (ps_insert h p (ps_remove h ps)) = remove1 h (map fst ps) @ [h]"
  using published.inv_insert_all [OF assms] published.keys_insert_all [OF assms, of kvs]
    published.get_insert [OF assms] published.reinsert_goes_last [OF assms assms]
  unfolding publish_all_def by blast

theorem published_order_witness:
  "map fst (ps_insert [1] (\<lparr> pd_refresh_interval = None, pd_last_announced_at = 0, pd_app_data = None \<rparr>)
     (ps_remove [1] [([1], \<lparr> pd_refresh_interval = None, pd_last_announced_at = 0, pd_app_data = None \<rparr>),
       ([2], \<lparr> pd_refresh_interval = None, pd_last_announced_at = 0, pd_app_data = None \<rparr>)])) = [[2], [1]]"
  using published_order [of "[([1], \<lparr> pd_refresh_interval = None, pd_last_announced_at = 0, pd_app_data = None \<rparr>),
       ([2], \<lparr> pd_refresh_interval = None, pd_last_announced_at = 0, pd_app_data = None \<rparr>)]" "[]" "[1]"]
  by simp

end
