(* ===== verification/Path_Table.thy ===== *)
theory Path_Table
  imports Announce Announce_Queue
begin

text \<open>
  The multi-entry path table of \<^verbatim>\<open>src/transport.rs\<close>: up to three routes per destination, their
  admission and eviction, the selection of a route for traffic, the queries built on it, the
  removal of routes, and the blobs by which a new emission of an announce is told from another
  copy of one already heard.

  \<open>path_state\<close> holds the fields of \<^verbatim>\<open>TransportState\<close> these operations use; the state of the
  transport extends it.
\<close>

abbreviation (input) MAX_PATHS_PER_DEST :: nat where "MAX_PATHS_PER_DEST \<equiv> 3"
abbreviation (input) MAX_RANDOM_BLOBS :: nat where "MAX_RANDOM_BLOBS \<equiv> 64"
abbreviation (input) AP_PATH_TIME :: real where "AP_PATH_TIME \<equiv> 86400"
abbreviation (input) ROAMING_PATH_TIME :: real where "ROAMING_PATH_TIME \<equiv> 21600"
abbreviation (input) DESTINATION_TIMEOUT :: real where "DESTINATION_TIMEOUT \<equiv> 604800"
abbreviation (input) LINK_UNKNOWN_HOP_COUNT :: u8 where "LINK_UNKNOWN_HOP_COUNT \<equiv> 4"

section \<open>State\<close>

record path_entry =
  pe_timestamp :: real
  pe_next_hop :: bytes
  pe_hops :: u8
  pe_expires :: real
  pe_receiving_interface :: "string option"
  pe_packet_hash :: bytes

record blackhole_entry =
  bh_source :: bytes
  bh_until :: "real option"
  bh_reason :: "string option"

type_synonym path_table = "bytes \<rightharpoonup> path_entry list"

record path_state =
  ts_path_table :: path_table
  ts_path_random_blobs :: "bytes \<rightharpoonup> bytes list"
  ts_path_table_dirty :: bool
  ts_path_verified_this_session :: "bytes set"
  ts_interfaces :: "interface_stub list"
  ts_blackholed_identities :: "bytes \<rightharpoonup> blackhole_entry"

definition score :: "path_entry \<Rightarrow> real option \<Rightarrow> real" where
  "score e interface_bitrate =
     (case interface_bitrate of None \<Rightarrow> 1000 | Some b \<Rightarrow> b) / (real (unat (pe_hops e)) + 1)"

definition is_expired :: "path_entry \<Rightarrow> real \<Rightarrow> bool" where
  "is_expired e now \<longleftrightarrow> now \<ge> pe_expires e"

definition find_interface :: "interface_stub list \<Rightarrow> string \<Rightarrow> interface_stub option" where
  "find_interface ifs name = find (\<lambda>i. if_name i = name) ifs"

section \<open>Admission and eviction\<close>

text \<open>\<open>worse_or_equal a b\<close>: \<open>b\<close> compares greater than or equal to \<open>a\<close> in the eviction order.\<close>

definition worse_or_equal :: "path_entry \<Rightarrow> path_entry \<Rightarrow> bool" where
  "worse_or_equal a b \<longleftrightarrow>
     pe_hops a < pe_hops b \<or> pe_hops a = pe_hops b \<and> pe_timestamp b \<le> pe_timestamp a"

text \<open>The index \<^verbatim>\<open>max_by\<close> finds: the last of the maximal elements.\<close>

fun worst_from :: "nat \<Rightarrow> path_entry \<Rightarrow> nat \<Rightarrow> path_entry list \<Rightarrow> nat" where
  "worst_from best e k [] = best"
| "worst_from best e k (x # xs) =
     (if worse_or_equal e x then worst_from k x (Suc k) xs else worst_from best e (Suc k) xs)"

definition worst_route :: "path_entry list \<Rightarrow> nat option" where
  "worst_route es = (case es of [] \<Rightarrow> None | e # es' \<Rightarrow> Some (worst_from 0 e 1 es'))"

function evict_worst :: "path_entry list \<Rightarrow> path_entry list" where
  "evict_worst es =
     (if length es > MAX_PATHS_PER_DEST then
        (case worst_route es of
           None \<Rightarrow> es
         | Some i \<Rightarrow> evict_worst (take i es @ drop (Suc i) es))
      else es)"
  by pat_completeness auto

lemma worst_from_bound: "best < k \<Longrightarrow> worst_from best e k xs < k + length xs"
  by (induction best e k xs rule: worst_from.induct) auto

lemma worst_route_bound: "worst_route es = Some i \<Longrightarrow> i < length es"
  using worst_from_bound [of 0 1] by (auto simp: worst_route_def split: list.splits)

termination evict_worst
  by (relation "measure length") (auto dest: worst_route_bound)

declare evict_worst.simps [simp del]

text \<open>Two entries are the same route when they share receiving interface and next hop.\<close>

definition same_route :: "path_entry \<Rightarrow> path_entry \<Rightarrow> bool" where
  "same_route a b \<longleftrightarrow>
     pe_receiving_interface a = pe_receiving_interface b \<and> pe_next_hop a = pe_next_hop b"

definition admit_route :: "path_entry \<Rightarrow> path_entry list \<Rightarrow> path_entry list" where
  "admit_route new_entry deque =
     evict_worst (new_entry # filter (\<lambda>e. \<not> same_route e new_entry) deque)"

section \<open>Selection\<close>

text \<open>The gate on the receiving interface: registered and online, when the route has one.\<close>

definition route_online :: "interface_stub list \<Rightarrow> path_entry \<Rightarrow> bool" where
  "route_online ifs e =
     (case pe_receiving_interface e of
        None \<Rightarrow> True
      | Some name \<Rightarrow> (case find_interface ifs name of None \<Rightarrow> False | Some i \<Rightarrow> if_online i))"

definition route_score :: "interface_stub list \<Rightarrow> path_entry \<Rightarrow> real" where
  "route_score ifs e =
     score e (Option.bind (Option.bind (pe_receiving_interface e) (find_interface ifs)) if_bitrate)"

fun select_loop ::
  "interface_stub list \<Rightarrow> real \<Rightarrow> string option \<Rightarrow> nat \<Rightarrow> (nat \<times> real \<times> path_entry) option
   \<Rightarrow> path_entry list \<Rightarrow> (nat \<times> real \<times> path_entry) option"
where
  "select_loop ifs now excl idx best [] = best"
| "select_loop ifs now excl idx best (e # es) =
     (if is_expired e now then select_loop ifs now excl (Suc idx) best es
      else if excl \<noteq> None \<and> pe_receiving_interface e = excl then select_loop ifs now excl (Suc idx) best es
      else if \<not> route_online ifs e then select_loop ifs now excl (Suc idx) best es
      else
        let s = route_score ifs e in
        case best of
          Some (_, best_score, _) \<Rightarrow>
            if s \<le> best_score then select_loop ifs now excl (Suc idx) best es
            else select_loop ifs now excl (Suc idx) (Some (idx, s, e)) es
        | None \<Rightarrow> select_loop ifs now excl (Suc idx) (Some (idx, s, e)) es)"

definition select_path_excluding ::
  "path_table \<Rightarrow> interface_stub list \<Rightarrow> bytes \<Rightarrow> real \<Rightarrow> string option \<Rightarrow> (nat \<times> path_entry) option"
where
  "select_path_excluding table ifs dest now excl =
     (case table dest of
        None \<Rightarrow> None
      | Some entries \<Rightarrow> map_option (\<lambda>(i, _, e). (i, e)) (select_loop ifs now excl 0 None entries))"

definition select_path ::
  "path_table \<Rightarrow> interface_stub list \<Rightarrow> bytes \<Rightarrow> real \<Rightarrow> (nat \<times> path_entry) option"
where
  "select_path table ifs dest now = select_path_excluding table ifs dest now None"

text \<open>\<^verbatim>\<open>sort_by\<close> is stable; the comparison is by descending score.\<close>

definition select_all_paths ::
  "path_table \<Rightarrow> interface_stub list \<Rightarrow> bytes \<Rightarrow> real \<Rightarrow> (nat \<times> real \<times> path_entry) list"
where
  "select_all_paths table ifs dest now =
     (case table dest of
        None \<Rightarrow> []
      | Some entries \<Rightarrow>
        sort_key (\<lambda>(_, s, _). - s)
          (map (\<lambda>(i, e). (i, route_score ifs e, e))
             (filter (\<lambda>(_, e). \<not> is_expired e now \<and> route_online ifs e) (enumerate 0 entries))))"

section \<open>Queries\<close>

definition select_path_for :: "'a path_state_scheme \<Rightarrow> real \<Rightarrow> bytes \<Rightarrow> (nat \<times> path_entry) option" where
  "select_path_for s now dest = select_path (ts_path_table s) (ts_interfaces s) dest now"

definition hops_to :: "'a path_state_scheme \<Rightarrow> real \<Rightarrow> bytes \<Rightarrow> u8" where
  "hops_to s now dest =
     (case select_path_for s now dest of None \<Rightarrow> LINK_UNKNOWN_HOP_COUNT | Some (_, e) \<Rightarrow> pe_hops e)"

definition next_hop :: "'a path_state_scheme \<Rightarrow> real \<Rightarrow> bytes \<Rightarrow> bytes option" where
  "next_hop s now dest = map_option (\<lambda>(_, e). pe_next_hop e) (select_path_for s now dest)"

definition next_hop_interface :: "'a path_state_scheme \<Rightarrow> real \<Rightarrow> bytes \<Rightarrow> string option" where
  "next_hop_interface s now dest =
     Option.bind (select_path_for s now dest) (\<lambda>(_, e). pe_receiving_interface e)"

definition has_path :: "'a path_state_scheme \<Rightarrow> real \<Rightarrow> bytes \<Rightarrow> bool" where
  "has_path s now dest \<longleftrightarrow> select_path_for s now dest \<noteq> None"

definition path_hops :: "'a path_state_scheme \<Rightarrow> real \<Rightarrow> bytes \<Rightarrow> u8 option" where
  "path_hops s now dest = map_option (\<lambda>(_, e). pe_hops e) (select_path_for s now dest)"

definition next_hop_interface_hw_mtu :: "'a path_state_scheme \<Rightarrow> real \<Rightarrow> bytes \<Rightarrow> nat option" where
  "next_hop_interface_hw_mtu s now dest =
     Option.bind (next_hop_interface s now dest) (\<lambda>name.
       Option.bind (find_interface (ts_interfaces s) name) (\<lambda>i.
         if if_autoconfigure_mtu i \<or> if_fixed_mtu i then if_hw_mtu i else None))"

definition next_hop_per_bit_latency :: "'a path_state_scheme \<Rightarrow> real \<Rightarrow> bytes \<Rightarrow> real option" where
  "next_hop_per_bit_latency s now dest =
     Option.bind (next_hop_interface s now dest) (\<lambda>name.
       Option.bind (find_interface (ts_interfaces s) name) (\<lambda>i. map_option (\<lambda>b. 1 / b) (if_bitrate i)))"

definition next_hop_per_byte_latency :: "'a path_state_scheme \<Rightarrow> real \<Rightarrow> bytes \<Rightarrow> real option" where
  "next_hop_per_byte_latency s now dest = map_option (\<lambda>v. v * 8) (next_hop_per_bit_latency s now dest)"

definition first_hop_timeout :: "'a path_state_scheme \<Rightarrow> real \<Rightarrow> bytes \<Rightarrow> real" where
  "first_hop_timeout s now dest =
     (case next_hop_per_byte_latency s now dest of None \<Rightarrow> 6 | Some latency \<Rightarrow> real MTU * latency + 6)"

definition extra_link_proof_timeout :: "'a path_state_scheme \<Rightarrow> string option \<Rightarrow> real" where
  "extra_link_proof_timeout s interface_name =
     (case Option.bind (Option.bind interface_name (find_interface (ts_interfaces s))) if_bitrate of
        None \<Rightarrow> 0
      | Some bitrate \<Rightarrow> 1 / bitrate * 8 * real MTU)"

section \<open>Changes\<close>

definition clone_path ::
  "real \<Rightarrow> bytes \<Rightarrow> bytes \<Rightarrow> 'a path_state_scheme \<Rightarrow> bool \<times> 'a path_state_scheme"
where
  "clone_path now source dest s =
     (if source = [] \<or> dest = [] \<or> source = dest then (False, s)
      else case select_path (ts_path_table s) (ts_interfaces s) source now of
             None \<Rightarrow> (False, s)
           | Some (_, best) \<Rightarrow>
             (True, s\<lparr>ts_path_table := (ts_path_table s)(dest \<mapsto>
                        best # (case ts_path_table s dest of None \<Rightarrow> [] | Some es \<Rightarrow> es)),
                      ts_path_table_dirty := True,
                      ts_path_verified_this_session :=
                        (if source \<in> ts_path_verified_this_session s
                         then insert dest (ts_path_verified_this_session s)
                         else ts_path_verified_this_session s)\<rparr>))"

definition expire_path :: "bytes \<Rightarrow> 'a path_state_scheme \<Rightarrow> bool \<times> 'a path_state_scheme" where
  "expire_path dest s =
     (let existed = (ts_path_table s dest \<noteq> None)
      in (existed, s\<lparr>ts_path_table := (ts_path_table s)(dest := None),
                     ts_path_random_blobs := (ts_path_random_blobs s)(dest := None),
                     ts_path_table_dirty := (existed \<or> ts_path_table_dirty s)\<rparr>))"

definition mark_path_unresponsive ::
  "bytes \<Rightarrow> string option \<Rightarrow> 'a path_state_scheme \<Rightarrow> bool \<times> 'a path_state_scheme"
where
  "mark_path_unresponsive dest blocked s =
     (case ts_path_table s dest of
        None \<Rightarrow> (False, s)
      | Some deque \<Rightarrow>
        (let deque' = (case blocked of
                         Some iface \<Rightarrow> filter (\<lambda>e. pe_receiving_interface e \<noteq> Some iface) deque
                       | None \<Rightarrow> []);
             removed = (length deque > length deque');
             s = (if deque' = []
                  then s\<lparr>ts_path_table := (ts_path_table s)(dest := None),
                         ts_path_random_blobs := (ts_path_random_blobs s)(dest := None)\<rparr>
                  else s\<lparr>ts_path_table := (ts_path_table s)(dest \<mapsto> deque')\<rparr>)
         in (removed, s\<lparr>ts_path_table_dirty := (removed \<or> ts_path_table_dirty s)\<rparr>)))"

definition blackhole_identity ::
  "bytes \<Rightarrow> real option \<Rightarrow> string option \<Rightarrow> 'a path_state_scheme \<Rightarrow> bool \<times> 'a path_state_scheme"
where
  "blackhole_identity h until reason s =
     (True, s\<lparr>ts_blackholed_identities := (ts_blackholed_identities s)(h \<mapsto>
        \<lparr> bh_source = h, bh_until = until, bh_reason = reason \<rparr>)\<rparr>)"

definition unblackhole_identity :: "bytes \<Rightarrow> 'a path_state_scheme \<Rightarrow> bool \<times> 'a path_state_scheme" where
  "unblackhole_identity h s =
     (ts_blackholed_identities s h \<noteq> None,
      s\<lparr>ts_blackholed_identities := (ts_blackholed_identities s)(h := None)\<rparr>)"

section \<open>New emissions\<close>

definition route_is_live :: "interface_stub list \<Rightarrow> real \<Rightarrow> path_entry \<Rightarrow> bool" where
  "route_is_live ifs now e =
     (if is_expired e now then False
      else
        case map_option if_mode (Option.bind (pe_receiving_interface e) (find_interface ifs)) of
          None \<Rightarrow> True
        | Some m \<Rightarrow>
          if m = MODE_ACCESS_POINT then now < pe_timestamp e + AP_PATH_TIME
          else if m = MODE_ROAMING then now < pe_timestamp e + ROAMING_PATH_TIME
          else True)"

definition newest_emission :: "bytes list \<Rightarrow> u64" where
  "newest_emission seen = (if seen = [] then 0 else Max (random_blob_emitted ` set seen))"

definition announce_is_new_emission ::
  "path_entry list option \<Rightarrow> bytes list option \<Rightarrow> bytes \<Rightarrow> u8 \<Rightarrow> (path_entry \<Rightarrow> bool) \<Rightarrow> bool"
where
  "announce_is_new_emission routes seen blob hops is_live =
     (case routes of None \<Rightarrow> True | Some rs \<Rightarrow>
      if rs = [] then True
      else if (case seen of None \<Rightarrow> False | Some bs \<Rightarrow> blob \<in> set bs) then False
      else if random_blob_emitted blob > (case seen of None \<Rightarrow> 0 | Some bs \<Rightarrow> newest_emission bs) then True
      else if (\<exists>r\<in>set rs. is_live r) then False
      else hops > Min (pe_hops ` set rs))"

text \<open>
  The block of \<^verbatim>\<open>inbound\<close> that remembers the blob of a new emission; \<open>known\<close> says whether the
  destination had a route before.
\<close>

definition remember_blob :: "bool \<Rightarrow> bytes \<Rightarrow> bytes list option \<Rightarrow> bytes list" where
  "remember_blob known blob seen =
     (let bs = (if known then (case seen of None \<Rightarrow> [] | Some bs \<Rightarrow> bs) else []);
          bs = (if blob \<in> set bs then bs else bs @ [blob])
      in drop (length bs - MAX_RANDOM_BLOBS) bs)"

text \<open>
  The block of \<^verbatim>\<open>inbound\<close> that inserts the route of an announce and decides whether it is a new
  emission. \<open>blob\<close> is the random blob of the announce when its data is long enough to have one.
\<close>

definition learn_route ::
  "real \<Rightarrow> bytes \<Rightarrow> path_entry \<Rightarrow> bytes option \<Rightarrow> 'a path_state_scheme \<Rightarrow> bool \<times> 'a path_state_scheme"
where
  "learn_route now dest new_entry blob s =
     (let routes = ts_path_table s dest;
          seen = ts_path_random_blobs s dest;
          known = (case routes of None \<Rightarrow> False | Some rs \<Rightarrow> rs \<noteq> []);
          is_new = (case blob of
                      None \<Rightarrow> True
                    | Some b \<Rightarrow> announce_is_new_emission routes seen b (pe_hops new_entry)
                                 (route_is_live (ts_interfaces s) now))
      in (is_new,
          s\<lparr>ts_path_table := (ts_path_table s)(dest \<mapsto>
              admit_route new_entry (case routes of None \<Rightarrow> [] | Some rs \<Rightarrow> rs)),
            ts_path_random_blobs :=
              (case blob of
                 None \<Rightarrow> ts_path_random_blobs s
               | Some b \<Rightarrow> if is_new then (ts_path_random_blobs s)(dest \<mapsto> remember_blob known b seen)
                            else ts_path_random_blobs s),
            ts_path_table_dirty := True,
            ts_path_verified_this_session := insert dest (ts_path_verified_this_session s)\<rparr>))"

section \<open>The cull\<close>

text \<open>
  The block of \<^verbatim>\<open>jobs()\<close> that culls the table. \<^verbatim>\<open>interface_modes\<close> is a map built from all
  interfaces, a later one of the same name winning.
\<close>

definition interface_modes :: "interface_stub list \<Rightarrow> string \<rightharpoonup> u8" where
  "interface_modes ifs = map_of (rev (map (\<lambda>i. (if_name i, if_mode i)) ifs))"

definition mode_expiry :: "interface_stub list \<Rightarrow> path_entry \<Rightarrow> real" where
  "mode_expiry ifs e =
     (case Option.bind (pe_receiving_interface e) (interface_modes ifs) of
        None \<Rightarrow> pe_expires e
      | Some m \<Rightarrow>
        if m = MODE_ACCESS_POINT then pe_timestamp e + AP_PATH_TIME
        else if m = MODE_ROAMING then pe_timestamp e + ROAMING_PATH_TIME
        else pe_expires e)"

definition cull_routes :: "interface_stub list \<Rightarrow> real \<Rightarrow> path_entry list \<Rightarrow> path_entry list" where
  "cull_routes ifs now es = filter (\<lambda>e. now < mode_expiry ifs e) (filter (\<lambda>e. \<not> is_expired e now) es)"

definition cull_path_table :: "real \<Rightarrow> 'a path_state_scheme \<Rightarrow> 'a path_state_scheme" where
  "cull_path_table now s =
     (let ifs = ts_interfaces s;
          table = (\<lambda>d. case ts_path_table s d of
                     None \<Rightarrow> None
                   | Some es \<Rightarrow> if cull_routes ifs now es = [] then None else Some (cull_routes ifs now es));
          dirty = (\<exists>d es. ts_path_table s d = Some es \<and> (es = [] \<or> length (cull_routes ifs now es) \<noteq> length es))
      in s\<lparr>ts_path_table := table,
           ts_path_random_blobs := (\<lambda>d. if table d = None then None else ts_path_random_blobs s d),
           ts_path_table_dirty := (dirty \<or> ts_path_table_dirty s)\<rparr>)"

section \<open>Bounded route lists\<close>

definition wf_routes :: "path_entry list \<Rightarrow> bool" where
  "wf_routes es \<longleftrightarrow> length es \<le> MAX_PATHS_PER_DEST
     \<and> distinct (map (\<lambda>e. (pe_receiving_interface e, pe_next_hop e)) es)"

lemma worse_or_equal_refl [simp]: "worse_or_equal a a"
  by (simp add: worse_or_equal_def)

lemma worse_or_equal_trans: "worse_or_equal a b \<Longrightarrow> worse_or_equal b c \<Longrightarrow> worse_or_equal a c"
  by (auto simp: worse_or_equal_def)

lemma worse_or_equal_total: "worse_or_equal a b \<or> worse_or_equal b a"
  by (auto simp: worse_or_equal_def)

lemma worst_from_max:
  assumes "best < k" and "length pre = k" and "pre ! best = e" and "\<forall>y\<in>set pre. worse_or_equal y e"
  shows "\<forall>y\<in>set (pre @ xs). worse_or_equal y ((pre @ xs) ! worst_from best e k xs)"
  using assms
proof (induction best e k xs arbitrary: pre rule: worst_from.induct)
  case (2 best e k x xs)
  show ?case
  proof (cases "worse_or_equal e x")
    case True
    have "\<forall>y\<in>set ((pre @ [x]) @ xs). worse_or_equal y (((pre @ [x]) @ xs) ! worst_from k x (Suc k) xs)"
      using True 2 worse_or_equal_trans [of _ e x] by (intro "2.IH"(1)) (auto simp: nth_append)
    then show ?thesis using True by simp
  next
    case False
    then have "worse_or_equal x e" using worse_or_equal_total by blast
    then have "\<forall>y\<in>set ((pre @ [x]) @ xs). worse_or_equal y (((pre @ [x]) @ xs) ! worst_from best e (Suc k) xs)"
      using False 2 by (intro "2.IH"(2)) (auto simp: nth_append)
    then show ?thesis using False by simp
  qed
qed (auto simp: nth_append)

lemma worst_route_max:
  "worst_route es = Some i \<Longrightarrow> \<forall>y\<in>set es. worse_or_equal y (es ! i)"
  using worst_from_max [of 0 1 "[hd es]" "hd es" "tl es"]
  by (auto simp: worst_route_def split: list.splits)

text \<open>What eviction keeps: a sublist of at most three entries, the dropped ones the worst.\<close>

lemma evict_worst_spec:
  "length (evict_worst es) = min MAX_PATHS_PER_DEST (length es)
   \<and> set (evict_worst es) \<subseteq> set es
   \<and> (distinct (map f es) \<longrightarrow> distinct (map f (evict_worst es)))
   \<and> (\<forall>k\<in>set (evict_worst es). \<forall>d\<in>set es - set (evict_worst es). worse_or_equal k d)"
proof (induction es rule: evict_worst.induct)
  case (1 es)
  show ?case
  proof (cases "length es > MAX_PATHS_PER_DEST")
    case True
    then have "es \<noteq> []" by auto
    then obtain i where i: "worst_route es = Some i" by (cases es) (auto simp: worst_route_def)
    let ?es = "take i es @ drop (Suc i) es"
    have b: "i < length es" by (rule worst_route_bound [OF i])
    have es: "es = take i es @ es ! i # drop (Suc i) es" by (rule id_take_nth_drop [OF b])
    have step: "evict_worst es = evict_worst ?es" using True i by (simp add: evict_worst.simps [of es])
    have sub: "set ?es \<subseteq> set es" "set es \<subseteq> insert (es ! i) (set ?es)"
      by (subst (2) es, auto) (subst (asm) es, auto)
    have len: "length ?es = length es - 1" using b by simp
    note IH = "1.IH" [OF True i]
    have "distinct (map f es) \<longrightarrow> distinct (map f ?es)" using distinct_map_remove_nth by blast
    moreover have "\<forall>k\<in>set (evict_worst ?es). worse_or_equal k (es ! i)"
      using worst_route_max [OF i] IH sub(1) by blast
    ultimately show ?thesis using IH sub len True unfolding step by auto
  next
    case False
    then show ?thesis by (simp add: evict_worst.simps [of es])
  qed
qed

definition route_key :: "path_entry \<Rightarrow> string option \<times> bytes" where
  "route_key e = (pe_receiving_interface e, pe_next_hop e)"

lemma same_route_key: "same_route a b \<longleftrightarrow> route_key a = route_key b"
  by (simp add: same_route_def route_key_def)

lemma wf_routes_key: "wf_routes es \<longleftrightarrow> length es \<le> MAX_PATHS_PER_DEST \<and> distinct (map route_key es)"
  by (simp add: wf_routes_def route_key_def [abs_def])

lemma wf_admit_route: "wf_routes es \<Longrightarrow> wf_routes (admit_route e es)"
proof -
  assume wf: "wf_routes es"
  let ?c = "e # filter (\<lambda>x. \<not> same_route x e) es"
  have "distinct (map route_key ?c)"
    using wf by (auto simp: wf_routes_key same_route_key distinct_map_filter)
  with evict_worst_spec [of ?c route_key] show ?thesis
    by (simp add: wf_routes_key admit_route_def)
qed

text \<open>
  What the table relies on: an admission that keeps the lists bounded, and lists that may lose
  entries at will.
\<close>

locale route_store =
  fixes admit :: "'e \<Rightarrow> 'e list \<Rightarrow> 'e list" and wf :: "'e list \<Rightarrow> bool"
  assumes wf_Nil: "wf []" and wf_admit: "wf es \<Longrightarrow> wf (admit e es)"
    and wf_filter: "wf es \<Longrightarrow> wf (filter P es)"
begin

definition table_wf :: "('k \<rightharpoonup> 'e list) \<Rightarrow> bool" where
  "table_wf t \<longleftrightarrow> (\<forall>k es. t k = Some es \<longrightarrow> wf es)"

lemma table_wf_empty: "table_wf (\<lambda>_. None)"
  by (simp add: table_wf_def)

lemma table_wf_update: "table_wf t \<Longrightarrow> wf es \<Longrightarrow> table_wf (t(k \<mapsto> es))"
  by (simp add: table_wf_def)

lemma table_wf_admit:
  "table_wf t \<Longrightarrow> table_wf (t(k \<mapsto> admit e (case t k of None \<Rightarrow> [] | Some es \<Rightarrow> es)))"
  by (auto simp: table_wf_def intro: wf_admit wf_Nil split: option.split)

lemma table_wf_remove: "table_wf t \<Longrightarrow> table_wf (t(k := None))"
  by (simp add: table_wf_def)

lemma table_wf_retain: "table_wf t \<Longrightarrow> t k = Some es \<Longrightarrow> table_wf (t(k \<mapsto> filter P es))"
  by (auto simp: table_wf_def intro: wf_filter)

lemma table_wf_retain_all:
  "table_wf t \<Longrightarrow> table_wf (\<lambda>k. case t k of None \<Rightarrow> None
      | Some es \<Rightarrow> if filter P es = [] then None else Some (filter P es))"
  by (auto simp: table_wf_def intro: wf_filter split: option.splits if_splits)

end

interpretation routes: route_store admit_route wf_routes
proof
  show "wf_routes []" by (simp add: wf_routes_def)
  show "wf_routes (admit_route e es)" if "wf_routes es" for es e by (rule wf_admit_route [OF that])
  show "wf_routes (filter P es)" if "wf_routes es" for es P
    using that by (auto simp: wf_routes_key distinct_map_filter)
qed

section \<open>Selection, lemmas\<close>

definition eligible :: "interface_stub list \<Rightarrow> real \<Rightarrow> string option \<Rightarrow> path_entry \<Rightarrow> bool" where
  "eligible ifs now excl e \<longleftrightarrow> \<not> is_expired e now \<and> \<not> (excl \<noteq> None \<and> pe_receiving_interface e = excl)
     \<and> route_online ifs e"

text \<open>The first of the eligible entries with the greatest score.\<close>

definition best_of ::
  "interface_stub list \<Rightarrow> real \<Rightarrow> string option \<Rightarrow> path_entry list \<Rightarrow> nat \<Rightarrow> bool"
where
  "best_of ifs now excl es i \<longleftrightarrow> i < length es \<and> eligible ifs now excl (es ! i)
     \<and> (\<forall>j<length es. eligible ifs now excl (es ! j) \<longrightarrow> route_score ifs (es ! j) \<le> route_score ifs (es ! i))
     \<and> (\<forall>j<i. eligible ifs now excl (es ! j) \<longrightarrow> route_score ifs (es ! j) < route_score ifs (es ! i))"

lemma select_loop_invariant:
  assumes "idx = length pre"
    and "case best of None \<Rightarrow> \<forall>e\<in>set pre. \<not> eligible ifs now excl e
       | Some (i, s, e) \<Rightarrow> best_of ifs now excl pre i \<and> pre ! i = e \<and> s = route_score ifs e"
  shows "case select_loop ifs now excl idx best es of
       None \<Rightarrow> \<forall>e\<in>set (pre @ es). \<not> eligible ifs now excl e
     | Some (i, s, e) \<Rightarrow> best_of ifs now excl (pre @ es) i \<and> (pre @ es) ! i = e \<and> s = route_score ifs e"
  using assms
proof (induction es arbitrary: pre idx best)
  case (Cons x es)
  have app: "pre @ x # es = (pre @ [x]) @ es" by simp
  have keep: "case best of None \<Rightarrow> \<forall>e\<in>set (pre @ [x]). \<not> eligible ifs now excl e
       | Some (i, s, e) \<Rightarrow> best_of ifs now excl (pre @ [x]) i \<and> (pre @ [x]) ! i = e \<and> s = route_score ifs e"
    if "\<not> eligible ifs now excl x \<or> (\<exists>i s e. best = Some (i, s, e) \<and> route_score ifs x \<le> s)"
    using that Cons.prems
    by (auto simp: best_of_def nth_append less_Suc_eq split: option.splits if_splits)
  show ?case
  proof (cases "eligible ifs now excl x")
    case False
    have "select_loop ifs now excl idx best (x # es) = select_loop ifs now excl (Suc idx) best es"
      using False by (auto simp: eligible_def)
    moreover note Cons.IH [of "Suc idx" "pre @ [x]" best, OF _ keep]
    ultimately show ?thesis unfolding app using False Cons.prems(1) by simp
  next
    case True
    show ?thesis
    proof (cases "\<exists>i s e. best = Some (i, s, e) \<and> route_score ifs x \<le> s")
      case le: True
      have "select_loop ifs now excl idx best (x # es) = select_loop ifs now excl (Suc idx) best es"
        using True le by (auto simp: eligible_def Let_def)
      moreover note Cons.IH [of "Suc idx" "pre @ [x]" best, OF _ keep]
      ultimately show ?thesis unfolding app using le Cons.prems(1) by simp
    next
      case gt: False
      have "select_loop ifs now excl idx best (x # es)
          = select_loop ifs now excl (Suc idx) (Some (idx, route_score ifs x, x)) es"
        using True gt by (auto simp: eligible_def Let_def split: option.splits)
      moreover have "best_of ifs now excl (pre @ [x]) idx"
        using True gt Cons.prems
        by (force simp: best_of_def nth_append less_Suc_eq in_set_conv_nth split: option.splits)
      moreover note Cons.IH [of "Suc idx" "pre @ [x]" "Some (idx, route_score ifs x, x)"]
      ultimately show ?thesis unfolding app using Cons.prems(1) by (simp add: nth_append)
    qed
  qed
qed (auto split: option.splits)

lemma select_path_excluding_spec:
  assumes "table dest = Some es"
  shows "case select_path_excluding table ifs dest now excl of
     None \<Rightarrow> \<forall>e\<in>set es. \<not> eligible ifs now excl e
   | Some (i, e) \<Rightarrow> best_of ifs now excl es i \<and> es ! i = e"
  using select_loop_invariant [where idx = 0 and pre = "[]" and best = None and ifs = ifs and now = now
      and excl = excl and es = es] assms
  by (auto simp: select_path_excluding_def split: option.splits)

lemma best_of_unique: "best_of ifs now excl es i \<Longrightarrow> best_of ifs now excl es j \<Longrightarrow> i = j"
  unfolding best_of_def by (metis linorder_neqE_nat order.strict_iff_not)

lemma sort_key_hd:
  assumes "xs \<noteq> []" and "hd (sort_key f xs) = y"
  shows "y \<in> set xs \<and> (\<forall>x\<in>set xs. f y \<le> f x) \<and> hd (filter (\<lambda>x. f x = f y) xs) = y"
proof -
  obtain ys where s: "sort_key f xs = y # ys"
    using assms by (cases "sort_key f xs") (auto dest: arg_cong [where f = length])
  have "set xs = set (y # ys)" using s by (metis set_sort)
  moreover have "sorted (map f (y # ys))" using s by (metis sorted_sort_key)
  moreover have "filter (\<lambda>x. f x = f y) xs = filter (\<lambda>x. f x = f y) (y # ys)"
    using sort_key_stable [of f "f y" xs] unfolding s by simp
  ultimately show ?thesis by auto
qed

lemma hd_filter_least:
  "sorted (map fst xs) \<Longrightarrow> z \<in> set xs \<Longrightarrow> P z \<Longrightarrow> fst (hd (filter P xs)) \<le> fst z"
  by (induction xs) auto

lemma sorted_enumerate_filter: "sorted (map fst (filter P (enumerate n xs)))"
  by (rule sorted_filter) (simp add: sorted_wrt_upt strict_sorted_imp_sorted)

lemma select_all_hd:
  assumes "table dest = Some es"
  shows "(case select_all_paths table ifs dest now of [] \<Rightarrow> None | (i, _, e) # _ \<Rightarrow> Some (i, e))
     = select_path table ifs dest now"
proof -
  define f :: "nat \<times> real \<times> path_entry \<Rightarrow> real" where "f = (\<lambda>(_, s, _). - s)"
  define xs where "xs = map (\<lambda>(i, e). (i, route_score ifs e, e))
     (filter (\<lambda>(_, e). \<not> is_expired e now \<and> route_online ifs e) (enumerate 0 es))"
  have sel: "select_all_paths table ifs dest now = sort_key f xs"
    using assms by (simp add: select_all_paths_def xs_def f_def)
  have elig: "eligible ifs now None e \<longleftrightarrow> \<not> is_expired e now \<and> route_online ifs e" for e
    by (simp add: eligible_def)
  have mem: "(i, s, e) \<in> set xs \<longleftrightarrow> i < length es \<and> es ! i = e \<and> eligible ifs now None e \<and> s = route_score ifs e"
    for i s e by (auto simp: xs_def elig in_set_enumerate_eq image_iff)
  have srt: "sorted (map fst xs)"
    using sorted_enumerate_filter [of "\<lambda>(_, e). \<not> is_expired e now \<and> route_online ifs e" 0 es]
    by (simp add: xs_def case_prod_beta' comp_def)
  note spec = select_path_excluding_spec [where table = table and excl = None, OF assms, of ifs now]
  show ?thesis
  proof (cases "xs = []")
    case True
    then have "\<forall>e\<in>set es. \<not> eligible ifs now None e"
      using mem by (metis in_set_conv_nth list.set_cases list.distinct(1) empty_iff list.set(1))
    then have "select_path table ifs dest now = None"
      using spec by (auto simp: select_path_def best_of_def split: option.splits)
    then show ?thesis by (simp add: sel True)
  next
    case False
    obtain i s e where hd: "hd (sort_key f xs) = (i, s, e)" by (metis prod_cases3)
    note h = sort_key_hd [OF False hd]
    have best: "best_of ifs now None es i"
      unfolding best_of_def
    proof (intro conjI allI impI)
      show "i < length es" "eligible ifs now None (es ! i)" using h mem by auto
      show "route_score ifs (es ! j) \<le> route_score ifs (es ! i)"
        if "j < length es" "eligible ifs now None (es ! j)" for j
        using h mem that by (fastforce simp: f_def)
      show "route_score ifs (es ! j) < route_score ifs (es ! i)"
        if j: "j < i" "eligible ifs now None (es ! j)" for j
      proof (rule ccontr)
        let ?z = "(j, route_score ifs (es ! j), es ! j)"
        assume "\<not> ?thesis"
        moreover have z: "?z \<in> set xs" using h mem j by auto
        ultimately have "f ?z = f (i, s, e)" using h mem by (fastforce simp: f_def)
        then have "fst (hd (filter (\<lambda>x. f x = f (i, s, e)) xs)) \<le> fst ?z"
          using srt z by (intro hd_filter_least) auto
        then show False using h j by simp
      qed
    qed
    have e: "es ! i = e" using h mem by auto
    have "select_path_excluding table ifs dest now None = Some (i, e)"
    proof (cases "select_path_excluding table ifs dest now None")
      case None
      then show ?thesis using spec best by (auto simp: best_of_def)
    next
      case (Some r)
      then obtain k x where r: "select_path_excluding table ifs dest now None = Some (k, x)" by (cases r) auto
      then have "best_of ifs now None es k" "es ! k = x" using spec by auto
      with best_of_unique [OF best] e r show ?thesis by blast
    qed
    then have "select_path table ifs dest now = Some (i, e)" by (simp add: select_path_def)
    then show ?thesis using hd False by (cases "sort_key f xs") (auto simp: sel dest: arg_cong [where f = length])
  qed
qed

section \<open>The table as a state machine\<close>

datatype path_op =
    Learn real bytes path_entry "bytes option"
  | Expire bytes
  | Unresponsive bytes "string option"
  | Cull real

fun path_step :: "path_op \<Rightarrow> path_state \<Rightarrow> path_state" where
  "path_step (Learn now dest e blob) s = snd (learn_route now dest e blob s)"
| "path_step (Expire dest) s = snd (expire_path dest s)"
| "path_step (Unresponsive dest blocked) s = snd (mark_path_unresponsive dest blocked s)"
| "path_step (Cull now) s = cull_path_table now s"

definition path_inv :: "'a path_state_scheme \<Rightarrow> bool" where
  "path_inv s \<longleftrightarrow> routes.table_wf (ts_path_table s)
     \<and> (\<forall>d es. ts_path_table s d = Some es \<longrightarrow> es \<noteq> [])
     \<and> dom (ts_path_random_blobs s) \<subseteq> dom (ts_path_table s)
     \<and> (\<forall>d bs. ts_path_random_blobs s d = Some bs \<longrightarrow> length bs \<le> MAX_RANDOM_BLOBS)"

lemma admit_route_nonempty [simp]: "admit_route e es \<noteq> []"
  using evict_worst_spec [of "e # filter (\<lambda>x. \<not> same_route x e) es"]
  by (auto simp: admit_route_def)

lemma length_remember_blob: "length (remember_blob known b seen) \<le> MAX_RANDOM_BLOBS"
  unfolding remember_blob_def Let_def length_drop by linarith

lemma last_in_drop: "k \<le> length bs \<Longrightarrow> b \<in> set (drop k (bs @ [b]))"
  by simp

lemma in_remember_blob:
  assumes "\<not> known \<or> (case seen of None \<Rightarrow> True | Some bs \<Rightarrow> blob \<notin> set bs)"
  shows "blob \<in> set (remember_blob known blob seen)"
proof -
  define bs where "bs = (if known then (case seen of None \<Rightarrow> [] | Some x \<Rightarrow> x) else [])"
  have "blob \<notin> set bs" using assms unfolding bs_def by (cases known; cases seen) simp_all
  then have "remember_blob known blob seen = drop (length (bs @ [blob]) - 64) (bs @ [blob])"
    unfolding remember_blob_def Let_def bs_def [symmetric] by (simp only: if_False)
  moreover have "length (bs @ [blob]) - 64 \<le> length bs" unfolding length_append_singleton by linarith
  ultimately show ?thesis using last_in_drop by (simp only:)
qed

lemma path_inv_learn: "path_inv s \<Longrightarrow> path_inv (snd (learn_route now dest e blob s))"
  using routes.table_wf_admit [of "ts_path_table s" dest e]
  by (auto simp: path_inv_def learn_route_def Let_def length_remember_blob split: option.splits if_splits)

lemma path_inv_expire: "path_inv s \<Longrightarrow> path_inv (snd (expire_path dest s))"
  using routes.table_wf_remove [of "ts_path_table s" dest]
  by (auto simp: path_inv_def expire_path_def Let_def)

lemma path_inv_unresponsive: "path_inv s \<Longrightarrow> path_inv (snd (mark_path_unresponsive dest blocked s))"
  using routes.table_wf_remove [of "ts_path_table s" dest]
    routes.table_wf_retain [of "ts_path_table s" dest _ "\<lambda>e. pe_receiving_interface e \<noteq> blocked"]
  by (auto simp: path_inv_def mark_path_unresponsive_def Let_def split: option.splits)

lemma cull_routes_filter:
  "cull_routes ifs now es = filter (\<lambda>e. now < mode_expiry ifs e \<and> \<not> is_expired e now) es"
  by (simp add: cull_routes_def conj_commute)

lemma path_inv_cull: "path_inv s \<Longrightarrow> path_inv (cull_path_table now s)"
  using routes.table_wf_retain_all [of "ts_path_table s"
      "\<lambda>e. now < mode_expiry (ts_interfaces s) e \<and> \<not> is_expired e now"]
  unfolding path_inv_def cull_path_table_def Let_def cull_routes_filter
  by (auto split: option.splits if_splits)

definition empty_paths :: "interface_stub list \<Rightarrow> path_state" where
  "empty_paths ifs = \<lparr> ts_path_table = (\<lambda>_. None), ts_path_random_blobs = (\<lambda>_. None),
     ts_path_table_dirty = False, ts_path_verified_this_session = {}, ts_interfaces = ifs,
     ts_blackholed_identities = (\<lambda>_. None) \<rparr>"

interpretation paths: machine path_step "empty_paths ifs" path_inv for ifs
proof
  show "path_inv (empty_paths ifs)" by (simp add: path_inv_def empty_paths_def routes.table_wf_empty)
  show "path_inv (path_step e s)" if "path_inv s" for s e
    using that path_inv_learn path_inv_expire path_inv_unresponsive path_inv_cull
    by (cases e) auto
qed

section \<open>Properties\<close>

text \<open>
  Admission is bounded and never displaces a better route. From a well-formed list (at most
  three routes, no two with the same interface and next hop) \<^verbatim>\<open>admit_route\<close> makes a well-formed
  list of entries of the old list and the new one; every other route it loses, when there was no
  room, is at least as bad (more hops, or as many and older) as every route it keeps; and with
  room nothing but the superseded copy of the same route is lost.
\<close>

theorem admit_route_bounded_fair:
  assumes "wf_routes es"
  shows "wf_routes (admit_route e es) \<and> set (admit_route e es) \<subseteq> insert e (set es)
    \<and> (\<forall>k\<in>set (admit_route e es). \<forall>d\<in>insert e {x \<in> set es. \<not> same_route x e} - set (admit_route e es).
         worse_or_equal k d)
    \<and> (length (filter (\<lambda>x. \<not> same_route x e) es) < MAX_PATHS_PER_DEST \<longrightarrow>
         admit_route e es = e # filter (\<lambda>x. \<not> same_route x e) es)"
proof -
  let ?c = "e # filter (\<lambda>x. \<not> same_route x e) es"
  have sp: "set (admit_route e es) \<subseteq> set ?c"
    "\<forall>k\<in>set (admit_route e es). \<forall>d\<in>set ?c - set (admit_route e es). worse_or_equal k d"
    using evict_worst_spec [of ?c] unfolding admit_route_def by blast+
  have room: "length (filter (\<lambda>x. \<not> same_route x e) es) < 3 \<longrightarrow> admit_route e es = ?c"
    by (simp add: admit_route_def evict_worst.simps)
  have "set ?c = insert e {x \<in> set es. \<not> same_route x e}" by auto
  then have "set (admit_route e es) \<subseteq> insert e {x \<in> set es. \<not> same_route x e}"
    "\<forall>k\<in>set (admit_route e es). \<forall>d\<in>insert e {x \<in> set es. \<not> same_route x e} - set (admit_route e es).
       worse_or_equal k d"
    using sp by (simp_all only:)
  then show ?thesis using wf_admit_route [OF assms] room by blast
qed

definition sample_route :: "u8 \<Rightarrow> real \<Rightarrow> path_entry" where
  "sample_route h t = \<lparr> pe_timestamp = t, pe_next_hop = [h], pe_hops = h, pe_expires = 100,
     pe_receiving_interface = None, pe_packet_hash = [] \<rparr>"

theorem admit_route_bounded_fair_witness:
  "wf_routes (admit_route (sample_route 2 5) [sample_route 1 0, sample_route 4 0, sample_route 3 0])"
  using admit_route_bounded_fair [of "[sample_route 1 0, sample_route 4 0, sample_route 3 0]" "sample_route 2 5"]
  by (simp add: wf_routes_def sample_route_def)

text \<open>
  C31. The route selected for traffic. \<^verbatim>\<open>select_path_excluding\<close> returns nothing exactly when the
  destination has no entry that is unexpired, not on the excluded interface and on a registered
  online interface (if it names one); otherwise it returns the first of these with the greatest
  score.
\<close>

theorem select_path_best:
  "case select_path_excluding table ifs dest now excl of
     None \<Rightarrow> (\<forall>es. table dest = Some es \<longrightarrow> (\<forall>e\<in>set es. \<not> eligible ifs now excl e))
   | Some (i, e) \<Rightarrow> (\<exists>es. table dest = Some es \<and> best_of ifs now excl es i \<and> es ! i = e)"
proof (cases "table dest")
  case (Some es)
  then show ?thesis
    using select_path_excluding_spec [where table = table, OF Some, of ifs now excl] by (auto split: option.splits)
qed (simp add: select_path_excluding_def)

theorem select_path_best_witness:
  "select_path_excluding [[1] \<mapsto> [sample_route 4 0, sample_route 1 0]] [] [1] 50 None = Some (1, sample_route 1 0)
   \<and> best_of [] 50 None [sample_route 4 0, sample_route 1 0] 1"
proof -
  have s: "select_path_excluding [[1] \<mapsto> [sample_route 4 0, sample_route 1 0]] [] [1] 50 None
      = Some (1, sample_route 1 0)"
    by (simp add: select_path_excluding_def sample_route_def is_expired_def route_online_def route_score_def score_def)
  show ?thesis
    using select_path_best [where table = "[[1] \<mapsto> [sample_route 4 0, sample_route 1 0]]" and ifs = "[]"
        and dest = "[1]" and now = 50 and excl = None] s by simp
qed

text \<open>
  The route used for traffic is the head of the list used for hedging: \<^verbatim>\<open>select_path\<close> is the
  first entry of \<^verbatim>\<open>select_all_paths\<close>, ties included, and one is empty exactly when the other is.
\<close>

theorem select_path_is_first_of_all:
  "(case select_all_paths table ifs dest now of [] \<Rightarrow> None | (i, _, e) # _ \<Rightarrow> Some (i, e))
   = select_path table ifs dest now"
proof (cases "table dest")
  case None
  then show ?thesis by (simp add: select_all_paths_def select_path_def select_path_excluding_def)
next
  case (Some es)
  then show ?thesis by (rule select_all_hd)
qed

lemma interface_modes_find:
  "distinct (map if_name ifs) \<Longrightarrow> interface_modes ifs n = map_option if_mode (find_interface ifs n)"
proof (induction ifs)
  case (Cons i ifs)
  then have "interface_modes ifs (if_name i) = None"
    by (simp add: interface_modes_def map_of_eq_None_iff comp_def image_image)
  with Cons show ?case
    by (auto simp: interface_modes_def find_interface_def map_add_def map_of_append split: option.split)
qed (simp add: interface_modes_def find_interface_def)

text \<open>
  A route counts as live exactly until the next cull would remove it: with distinct interface
  names, the cull of \<^verbatim>\<open>jobs()\<close> keeps precisely the routes \<^verbatim>\<open>route_is_live\<close> accepts.
\<close>

theorem cull_keeps_live_routes:
  assumes "distinct (map if_name ifs)"
  shows "cull_routes ifs now es = filter (route_is_live ifs now) es"
proof -
  have "now < mode_expiry ifs e \<and> \<not> is_expired e now \<longleftrightarrow> route_is_live ifs now e" for e
    using interface_modes_find [OF assms]
    by (cases "pe_receiving_interface e")
      (auto simp: mode_expiry_def route_is_live_def is_expired_def split: option.split)
  then show ?thesis by (simp add: cull_routes_filter)
qed

theorem cull_keeps_live_routes_witness:
  "cull_routes [sample_iface] 50 [sample_route 1 0] = filter (route_is_live [sample_iface] 50) [sample_route 1 0]"
  by (rule cull_keeps_live_routes) simp

text \<open>
  An emission is new once. If learning a copy of an announce finds it a new emission, then
  learning another copy of the same emission right after it, over whatever route, at whatever
  time, does not: it is not rebroadcast again. And while the destination has a live route, only an
  emission later than every remembered one is new.
\<close>

theorem emission_new_once:
  assumes "learn_route now dest e (Some blob) s = (True, s')"
  shows "fst (learn_route now' dest e' (Some blob) s') = False
    \<and> (\<forall>rs bs b. ts_path_table s dest = Some rs \<and> (\<exists>r\<in>set rs. route_is_live (ts_interfaces s) now r)
         \<and> ts_path_random_blobs s dest = Some bs \<and> b \<in> set bs
         \<longrightarrow> random_blob_emitted b < random_blob_emitted blob)"
proof -
  have "\<not> (case ts_path_table s dest of None \<Rightarrow> False | Some rs \<Rightarrow> rs \<noteq> [])
      \<or> (case ts_path_random_blobs s dest of None \<Rightarrow> True | Some bs \<Rightarrow> blob \<notin> set bs)"
    using assms by (auto simp: learn_route_def Let_def announce_is_new_emission_def split: option.splits if_splits)
  note in_blobs = in_remember_blob [OF this]
  have t: "\<exists>rs. ts_path_table s' dest = Some rs \<and> rs \<noteq> []"
    and b: "\<exists>bs. ts_path_random_blobs s' dest = Some bs \<and> blob \<in> set bs"
    using assms in_blobs by (auto simp: learn_route_def Let_def)
  have "fst (learn_route now' dest e' (Some blob) s') = False"
    using t b by (auto simp: learn_route_def Let_def announce_is_new_emission_def)
  moreover have "random_blob_emitted b < random_blob_emitted blob"
    if "ts_path_table s dest = Some rs" "\<exists>r\<in>set rs. route_is_live (ts_interfaces s) now r"
      "ts_path_random_blobs s dest = Some bs" "b \<in> set bs" for rs bs b
  proof -
    have "newest_emission bs < random_blob_emitted blob"
      using assms that by (auto simp: learn_route_def Let_def announce_is_new_emission_def split: if_splits)
    moreover have "random_blob_emitted b \<le> newest_emission bs"
      using that(4) by (auto simp: newest_emission_def)
    ultimately show ?thesis by simp
  qed
  ultimately show ?thesis by blast
qed

theorem emission_new_once_witness:
  "fst (learn_route 60 [1] (sample_route 3 9) (Some (replicate 10 0))
     (snd (learn_route 50 [1] (sample_route 2 5) (Some (replicate 10 0)) (empty_paths [])))) = False"
proof -
  obtain s' where s': "learn_route 50 [1] (sample_route 2 5) (Some (replicate 10 0)) (empty_paths []) = (True, s')"
    by (simp add: learn_route_def announce_is_new_emission_def empty_paths_def Let_def)
  show ?thesis using emission_new_once [OF s', of 60 "sample_route 3 9"] s' by simp
qed

text \<open>
  The table stays bounded through every sequence of learning, expiring, marking unresponsive
  and culling: at most three distinct routes per destination and never an empty list, at most
  64 remembered emissions per destination, and only for destinations in the table.
\<close>

theorem path_table_bounded:
  "case run path_step ops (empty_paths ifs) of s \<Rightarrow>
     (\<forall>d es. ts_path_table s d = Some es \<longrightarrow> wf_routes es \<and> es \<noteq> [])
     \<and> dom (ts_path_random_blobs s) \<subseteq> dom (ts_path_table s)
     \<and> (\<forall>d bs. ts_path_random_blobs s d = Some bs \<longrightarrow> length bs \<le> MAX_RANDOM_BLOBS)"
  using paths.inv_reachable [of ops ifs] by (auto simp: path_inv_def routes.table_wf_def)

theorem path_table_bounded_witness:
  "\<exists>es. ts_path_table (run path_step [Learn 5 [1] (sample_route 1 0) None] (empty_paths [])) [1] = Some es \<and> wf_routes es"
  using path_table_bounded [of "[Learn 5 [1] (sample_route 1 0) None]" "[]"]
  by (simp add: learn_route_def Let_def empty_paths_def)

text \<open>
  \<^verbatim>\<open>clone_path\<close> is outside that bound: it pushes a route without the cap, so three clones onto a
  destination with a route leave it with four, and one more each time.
\<close>

theorem clone_path_exceeds_cap:
  assumes "select_path (ts_path_table s) (ts_interfaces s) source now = Some (i, best)"
    and "source \<noteq> []" and "dest \<noteq> []" and "source \<noteq> dest" and "ts_path_table s dest = Some es"
  shows "\<exists>es'. ts_path_table (snd (clone_path now source dest s)) dest = Some es' \<and> length es' = Suc (length es)"
  using assms by (simp add: clone_path_def)

theorem clone_path_exceeds_cap_witness:
  "\<exists>es'. ts_path_table (snd (clone_path 50 [1] [2] ((empty_paths [])\<lparr>ts_path_table :=
      [[1] \<mapsto> [sample_route 1 0], [2] \<mapsto> [sample_route 1 0, sample_route 2 0, sample_route 3 0]]\<rparr>))) [2] = Some es'
    \<and> length es' = 4"
proof -
  let ?s = "(empty_paths [])\<lparr>ts_path_table :=
      [[1] \<mapsto> [sample_route 1 0], [2] \<mapsto> [sample_route 1 0, sample_route 2 0, sample_route 3 0]]\<rparr>"
  have "select_path (ts_path_table ?s) (ts_interfaces ?s) [1] 50 = Some (0, sample_route 1 0)"
    by (simp add: select_path_def select_path_excluding_def sample_route_def is_expired_def route_online_def
        empty_paths_def)
  from clone_path_exceeds_cap [OF this, of "[2]"] show ?thesis by (simp add: eval_nat_numeral)
qed

end
