(* ===== verification/Transport_State.thy ===== *)
theory Transport_State
  imports Receipt Path_Table
begin

text \<open>
  The state of the transport (\<^verbatim>\<open>TransportState\<close> and the tables of \<^verbatim>\<open>src/transport.rs\<close>) as far
  as inbound processing uses it, and what processing a packet leaves to be done.

  The code stores the rows of its announce, link, reverse and tunnel tables as vectors of tagged
  values at fixed positions, all of which every writer fills; they are records here. The maps of
  known destinations and ratchets, which are statics of \<^verbatim>\<open>src/identity.rs\<close>, are fields too.
\<close>

section \<open>Tables\<close>

record announce_rate_entry =
  ar_last :: real
  ar_rate_violations :: nat
  ar_blocked_until :: real
  ar_timestamps :: "real list"

record announce_entry =
  at_timestamp :: real
  at_retransmit_timeout :: real
  at_retries :: u8
  at_received_from :: bytes
  at_hops :: u8
  at_packet :: packet
  at_local_rebroadcasts :: u8
  at_block_rebroadcasts :: bool
  at_attached_interface :: "string option"

record reverse_entry =
  rv_received_interface :: "string option"
  rv_outbound_interface :: "string option"
  rv_timestamp :: real

record link_entry =
  lt_timestamp :: real
  lt_next_hop_transport :: bytes
  lt_next_hop_interface :: "string option"
  lt_remaining_hops :: u8
  lt_received_interface :: "string option"
  lt_taken_hops :: u8
  lt_destination_hash :: bytes
  lt_validated :: bool
  lt_proof_timeout :: real

record tunnel_path =
  tp_timestamp :: real
  tp_next_hop :: bytes
  tp_hops :: u8
  tp_expires :: real
  tp_random_blobs :: "bytes list"
  tp_receiving_interface :: "string option"
  tp_packet_hash :: bytes

record tunnel_entry =
  tt_interface :: "string option"
  tt_paths :: "bytes \<rightharpoonup> tunnel_path"
  tt_expires :: real

record discovery_path_request =
  dp_timeout :: real
  dp_requesting_interface :: "string option"

text \<open>An announce handler; its callback is named by a number.\<close>

record announce_handler =
  ah_aspect_filter :: "string option"
  ah_receive_path_responses :: bool
  ah_callback :: nat

section \<open>State\<close>

record transport_state = path_state +
  ts_identity :: "identity option"
  ts_transport_enabled :: bool
  ts_is_connected_to_shared_instance :: bool
  ts_drop_announces :: bool
  ts_announce_watchlist :: "bytes set"
  ts_local_client_interfaces :: "interface_stub list"
  ts_packet_hashlist :: "bytes set"
  ts_packet_hashlist_prev :: "bytes set"
  ts_validated_announce_hashes :: "bytes set"
  ts_validated_announce_hashes_prev :: "bytes set"
  ts_announce_rate_table :: "bytes \<rightharpoonup> announce_rate_entry"
  ts_control_hashes :: "bytes set"
  ts_control_destinations :: "destination list"
  ts_destinations :: "destination list"
  ts_announce_handlers :: "announce_handler list"
  ts_interface_announce_filter :: "string option"
  ts_announce_table :: "bytes \<rightharpoonup> announce_entry"
  ts_reverse_table :: "bytes \<rightharpoonup> reverse_entry"
  ts_link_table :: "bytes \<rightharpoonup> link_entry"
  ts_tunnels :: "bytes \<rightharpoonup> tunnel_entry"
  ts_receipts :: "receipt list"
  ts_discovery_path_requests :: "bytes \<rightharpoonup> discovery_path_request"
  ts_client_announce_pacing :: "string \<rightharpoonup> real"
  ts_pending_local_announces :: "(real \<times> string \<times> bytes) list"
  ts_global_blobs :: "bytes list"
  ts_known_destinations :: known_map
  ts_known_ratchets :: known_ratchets
  ts_path_requests :: "bytes \<rightharpoonup> real"
  ts_discovery_pr_tags :: "bytes list"
  ts_discovery_pr_tags_set :: "bytes set"
  ts_discovery_pr_tags_prev :: "bytes set"
  ts_max_pr_tags :: nat
  ts_pending_local_path_requests :: "bytes \<rightharpoonup> interface_stub"
  ts_held_announces :: "bytes \<rightharpoonup> announce_entry"
  ts_published_destinations :: published_set
  ts_announce_sent_at :: "bytes \<times> string \<rightharpoonup> real"

text \<open>
  What the code collects under the lock to do after releasing it, in the order it does it, and
  the announces it writes to its cache on the way.
\<close>

record deferred =
  df_outbound :: "(string \<times> bytes) list"
  df_announce_callbacks :: "(nat \<times> bytes \<times> identity \<times> bytes \<times> bytes option \<times> bool) list"
  df_destination_receives :: "(destination \<times> packet) list"
  df_link_packets :: "packet list"
  df_proof_receipts :: "receipt list"
  df_cached :: "packet list"

definition no_deferred :: deferred where
  "no_deferred = \<lparr> df_outbound = [], df_announce_callbacks = [], df_destination_receives = [],
     df_link_packets = [], df_proof_receipts = [], df_cached = [] \<rparr>"

definition send_on :: "string \<Rightarrow> bytes \<Rightarrow> deferred \<Rightarrow> deferred" where
  "send_on iface raw df = df\<lparr>df_outbound := df_outbound df @ [(iface, raw)]\<rparr>"

text \<open>What the rest of the program and the network see of an inbound packet.\<close>

datatype effect =
    Dispatch string bytes
  | RunReceiptCallback callback_run
  | DestinationReceive destination packet
  | ProvePacket packet destination
  | LinkDispatch packet
  | InterfaceAnnounce bytes identity bytes
  | AnnounceCallback nat bytes identity bytes "bytes option" bool
  | CacheAnnounce packet
  | AnnounceDestination destination "bytes option" "string option" "bytes option"
  | SendPathRequest bytes "bytes option" "string option"

text \<open>
  What runs outside the modelled code, or is read from outside: the clock (one reading per
  packet), a random number in \<open>[0, 1)\<close> and a random hash, the order in which the blob set and a
  tunnel's paths are iterated, the files of the packet cache (announces and others), the
  destination's and the link's own handling of a packet, and whether the application wants a
  packet proved.
\<close>

record env =
  e_crypto :: crypto
  e_now :: real
  e_unix_now :: nat
  e_random :: real
  e_blob_order :: "bytes list \<Rightarrow> bytes list"
  e_random_hash :: bytes
  e_cache_file :: "bool \<Rightarrow> bytes \<Rightarrow> (bytes \<times> string option) option"
  e_tunnel_order :: "(bytes \<rightharpoonup> tunnel_path) \<Rightarrow> (bytes \<times> tunnel_path) list"
  e_destination_receive :: "destination \<Rightarrow> packet \<Rightarrow> string + bool"
  e_proof_requested :: "destination \<Rightarrow> packet \<Rightarrow> bool"
  e_link_dispatch :: "packet \<Rightarrow> bool"
  e_link_validate :: "bytes \<Rightarrow> bytes \<Rightarrow> bytes \<Rightarrow> bool"

section \<open>Names\<close>

text \<open>\<^verbatim>\<open>name.split('.')\<close>\<close>

fun split_dots :: "string \<Rightarrow> string list" where
  "split_dots [] = [[]]"
| "split_dots (ch # cs) =
     (if ch = CHR ''.'' then [] # split_dots cs
      else case split_dots cs of [] \<Rightarrow> [[ch]] | p # ps \<Rightarrow> (ch # p) # ps)"

definition app_and_aspects_from_name :: "string \<Rightarrow> string \<times> string list" where
  "app_and_aspects_from_name name =
     (case split_dots name of [] \<Rightarrow> ([], []) | a # as \<Rightarrow> (a, as))"

definition name_hash_for_aspect_filter :: "crypto \<Rightarrow> string \<Rightarrow> bytes option" where
  "name_hash_for_aspect_filter c filter_name =
     (case app_and_aspects_from_name filter_name of
        (app_name, aspects) \<Rightarrow> if app_name = [] then None else name_hash_of c app_name aspects)"

definition is_local_client_interface :: "transport_state \<Rightarrow> string \<Rightarrow> bool" where
  "is_local_client_interface s name \<longleftrightarrow> (\<exists>i\<in>set (ts_local_client_interfaces s). if_name i = name)"

text \<open>\<^verbatim>\<open>new_raw[1] = packet.hops\<close>\<close>

definition set_hops :: "u8 \<Rightarrow> bytes \<Rightarrow> bytes" where
  "set_hops h raw = raw[1 := h]"

lemma split_dots_no_dot: "p \<in> set (split_dots s) \<Longrightarrow> CHR ''.'' \<notin> set p"
  by (induction s arbitrary: p) (auto split: if_splits list.splits)

text \<open>The name in a filter never makes \<^verbatim>\<open>expand_name\<close> panic.\<close>

lemma filter_name_expands:
  "app_and_aspects_from_name n = (a, as) \<Longrightarrow> \<exists>x. expand_name None a as = Some x"
  using split_dots_no_dot [of _ n]
  by (auto simp: app_and_aspects_from_name_def expand_name_def split: list.splits)

section \<open>Concrete environment and state\<close>

text \<open>They serve the witnesses of the theorems about the transport.\<close>

definition sample_env :: env where
  "sample_env = \<lparr> e_crypto = toy_crypto, e_now = 100, e_unix_now = 100, e_random = 1 / 2,
     e_blob_order = (\<lambda>bs. bs), e_random_hash = replicate 16 9, e_cache_file = (\<lambda>_ _. None),
     e_tunnel_order = (\<lambda>_. []),
     e_destination_receive = (\<lambda>_ _. Inr True), e_proof_requested = (\<lambda>_ _. False),
     e_link_dispatch = (\<lambda>_. False), e_link_validate = (\<lambda>_ _ _. False) \<rparr>"

text \<open>A transport with nothing in its tables.\<close>

definition fresh_state :: transport_state where
  "fresh_state = \<lparr> ts_path_table = (\<lambda>_. None), ts_path_random_blobs = (\<lambda>_. None),
     ts_path_table_dirty = False, ts_path_verified_this_session = {}, ts_interfaces = [],
     ts_blackholed_identities = (\<lambda>_. None),
     ts_identity = None, ts_transport_enabled = False, ts_is_connected_to_shared_instance = False,
     ts_drop_announces = False, ts_announce_watchlist = {}, ts_local_client_interfaces = [],
     ts_packet_hashlist = {}, ts_packet_hashlist_prev = {}, ts_validated_announce_hashes = {},
     ts_validated_announce_hashes_prev = {}, ts_announce_rate_table = (\<lambda>_. None),
     ts_control_hashes = {}, ts_control_destinations = [], ts_destinations = [],
     ts_announce_handlers = [], ts_interface_announce_filter = None,
     ts_announce_table = (\<lambda>_. None), ts_reverse_table = (\<lambda>_. None), ts_link_table = (\<lambda>_. None),
     ts_tunnels = (\<lambda>_. None), ts_receipts = [], ts_discovery_path_requests = (\<lambda>_. None),
     ts_client_announce_pacing = (\<lambda>_. None), ts_pending_local_announces = [],
     ts_global_blobs = [], ts_known_destinations = (\<lambda>_. None), ts_known_ratchets = (\<lambda>_. None),
     ts_path_requests = (\<lambda>_. None), ts_discovery_pr_tags = [], ts_discovery_pr_tags_set = {},
     ts_discovery_pr_tags_prev = {}, ts_max_pr_tags = 32000,
     ts_pending_local_path_requests = (\<lambda>_. None), ts_held_announces = (\<lambda>_. None),
     ts_published_destinations = [], ts_announce_sent_at = (\<lambda>_. None) \<rparr>"

end
