(* ===== verification/Path_Request.thy ===== *)
theory Path_Request
  imports Transport_State
begin

text \<open>
  Path requests and tunnels of \<^verbatim>\<open>src/transport.rs\<close>: the request a node sends, what the two
  control destinations do with the packets addressed to them, and the cached announces they
  answer from. The source drops and retakes its lock inside \<^verbatim>\<open>path_request\<close>; the model runs it in
  one piece. An own destination's announce and the worker that sends a request are effects.
\<close>

abbreviation (input) MODE_GATEWAY :: u8 where "MODE_GATEWAY \<equiv> 0x06"
abbreviation (input) PATH_REQUEST_TIMEOUT :: real where "PATH_REQUEST_TIMEOUT \<equiv> 15"
abbreviation (input) PATH_REQUEST_GRACE :: real where "PATH_REQUEST_GRACE \<equiv> 2 / 5"
abbreviation (input) PATH_REQUEST_RG :: real where "PATH_REQUEST_RG \<equiv> 3 / 2"
abbreviation (input) PATHFINDER_R :: u8 where "PATHFINDER_R \<equiv> 1"
abbreviation (input) LOCAL_CLIENT_ANNOUNCE_PACE :: real where "LOCAL_CLIENT_ANNOUNCE_PACE \<equiv> 3 / 5"
abbreviation (input) HEADER_MINSIZE :: nat where "HEADER_MINSIZE \<equiv> 19"
abbreviation (input) ANNOUNCE_CAP :: real where "ANNOUNCE_CAP \<equiv> 2"
abbreviation (input) APP_NAME :: string where "APP_NAME \<equiv> ''rnstransport''"

section \<open>Shared steps\<close>

text \<open>An announce rebuilt as this node's own relay of it.\<close>

definition relayed_announce :: "transport_state \<Rightarrow> packet \<Rightarrow> bytes \<Rightarrow> u8 \<Rightarrow> bytes" where
  "relayed_announce s p dh context =
     (let identity_hash = (case Option.bind (ts_identity s) id_hash of None \<Rightarrow> [] | Some h \<Rightarrow> h);
          dest_type_bits = (case p_destination_type p of None \<Rightarrow> 0 | Some t \<Rightarrow> dest_type_u8 t);
          flags = push_bit 6 HEADER_2 OR push_bit 5 (p_context_flag p AND 0x01)
                  OR push_bit 4 MODE_TRANSPORT OR push_bit 2 dest_type_bits OR ANNOUNCE;
          dest = (case p_destination_hash p of Some h \<Rightarrow> h | None \<Rightarrow> dh)
      in [flags, p_hops p] @ identity_hash @ dest @ [context] @ p_data p)"

text \<open>
  Announces to a local client are spaced: whether this one goes out now, and the state with it
  counted and, when it does not, waiting.
\<close>

definition pace_client ::
  "real \<Rightarrow> string \<Rightarrow> bytes \<Rightarrow> transport_state \<Rightarrow> bool \<times> transport_state"
where
  "pace_client now name raw s =
     (let last = (case ts_client_announce_pacing s name of
            None \<Rightarrow> now - LOCAL_CLIENT_ANNOUNCE_PACE | Some t \<Rightarrow> t);
          dispatch_at = max now (last + LOCAL_CLIENT_ANNOUNCE_PACE);
          s = s\<lparr>ts_client_announce_pacing := (ts_client_announce_pacing s)(name \<mapsto> dispatch_at)\<rparr>
      in if dispatch_at \<le> now + 1 / 1000 then (True, s)
         else (False, s\<lparr>ts_pending_local_announces :=
                 ts_pending_local_announces s @ [(dispatch_at, name, raw)]\<rparr>))"

text \<open>A cached packet, unpacked again.\<close>

definition get_cached_packet :: "env \<Rightarrow> bool \<Rightarrow> bytes \<Rightarrow> packet option" where
  "get_cached_packet E announce h =
     (case e_cache_file E announce h of
        None \<Rightarrow> None
      | Some (raw, iface) \<Rightarrow>
        (case unpack (c_sha (e_crypto E))
                ((new_packet None [] 0 0 BROADCAST HEADER_1 None None False 0)
                   \<lparr>p_raw := raw, p_receiving_interface := iface\<rparr>) of
           (False, _) \<Rightarrow> None
         | (True, p) \<Rightarrow> Some p))"

section \<open>Sending a path request\<close>

text \<open>
  The dedup time is recorded at once; the packet is built and sent by the worker, with a random
  tag when none is given.
\<close>

definition request_path ::
  "real \<Rightarrow> bytes \<Rightarrow> bytes option \<Rightarrow> string option \<Rightarrow> bytes option \<Rightarrow> transport_state
   \<Rightarrow> transport_state \<times> effect list"
where
  "request_path now dh request_tag attached tag s =
     (s\<lparr>ts_path_requests := (ts_path_requests s)(dh \<mapsto> now)\<rparr>,
      [SendPathRequest dh (case request_tag of Some t \<Rightarrow> Some t | None \<Rightarrow> tag) attached])"

definition path_request_data :: "transport_state \<Rightarrow> bytes \<Rightarrow> bytes \<Rightarrow> bytes" where
  "path_request_data s dh request_tag =
     dh @ (if ts_transport_enabled s
           then (case Option.bind (ts_identity s) id_hash of None \<Rightarrow> [] | Some h \<Rightarrow> h) else [])
        @ request_tag"

text \<open>The packet of the worker; \<open>dest\<close> is the plain path-request destination.\<close>

definition path_request_packet ::
  "env \<Rightarrow> destination option \<Rightarrow> transport_state \<Rightarrow> bytes \<Rightarrow> bytes option \<Rightarrow> string option \<Rightarrow> packet"
where
  "path_request_packet E dest s dh tag attached =
     new_packet dest (path_request_data s dh (case tag of Some t \<Rightarrow> t | None \<Rightarrow> e_random_hash E))
       DATA CTX_NONE BROADCAST HEADER_1 None attached False 0"

text \<open>A request made for someone else is held to the announce cap of the interface.\<close>

definition request_path_recursive ::
  "env \<Rightarrow> bytes \<Rightarrow> string \<Rightarrow> bytes option \<Rightarrow> transport_state \<Rightarrow> transport_state \<times> effect list"
where
  "request_path_recursive E dh on_interface tag s =
     (let now = e_now E; send = request_path now dh None (Some on_interface) tag in
      case find_interface (ts_interfaces s) on_interface of
        None \<Rightarrow> send s
      | Some i \<Rightarrow>
        if if_announce_queue i \<noteq> [] then (s, [])
        else if now < if_announce_allowed_at i then (s, [])
        else
          (let data_len = length dh + (if ts_transport_enabled s then DST_LEN else 0)
                          + (case tag of Some t \<Rightarrow> length t | None \<Rightarrow> DST_LEN);
               cap = (if if_announce_cap i > 0 then if_announce_cap i else ANNOUNCE_CAP / 100)
           in case if_bitrate i of
                None \<Rightarrow> send s
              | Some bitrate \<Rightarrow>
                if bitrate > 0 then
                  send (s\<lparr>ts_interfaces := update_first (\<lambda>i. if_name i = on_interface)
                     (\<lambda>i. i\<lparr>if_announce_allowed_at :=
                        now + real ((data_len + HEADER_MINSIZE) * 8) / bitrate / cap\<rparr>) (ts_interfaces s)\<rparr>)
                else send s))"

text \<open>One request after the other, over a list of interfaces.\<close>

fun each_interface ::
  "(string \<Rightarrow> transport_state \<Rightarrow> transport_state \<times> effect list) \<Rightarrow> string list \<Rightarrow> transport_state
   \<Rightarrow> transport_state \<times> effect list"
where
  "each_interface f [] s = (s, [])"
| "each_interface f (name # names) s =
     (case f name s of (s, es) \<Rightarrow> (case each_interface f names s of (s, es') \<Rightarrow> (s, es @ es')))"

section \<open>Answering a path request\<close>

text \<open>The destination asked for, the transport instance asking and the tag.\<close>

definition parse_path_request :: "bytes \<Rightarrow> (bytes \<times> bytes option \<times> bytes option) option" where
  "parse_path_request data =
     (if length data < DST_LEN then None
      else Some (take DST_LEN data,
             (if length data > DST_LEN * 2 then Some (byte_range DST_LEN (DST_LEN * 2) data) else None),
             (if length data > DST_LEN * 2 then Some (take DST_LEN (drop (DST_LEN * 2) data))
              else if length data > DST_LEN then Some (take DST_LEN (drop DST_LEN data))
              else None)))"

definition mode_of :: "transport_state \<Rightarrow> string option \<Rightarrow> u8 option" where
  "mode_of s iface =
     map_option if_mode (Option.bind iface (find_interface (ts_interfaces s)))"

text \<open>Interfaces on behalf of whose peers this node searches for unknown paths.\<close>

definition should_search_for_unknown :: "transport_state \<Rightarrow> string option \<Rightarrow> bool" where
  "should_search_for_unknown s attached \<longleftrightarrow>
     ts_transport_enabled s
     \<and> mode_of s attached \<in> {Some MODE_ACCESS_POINT, Some MODE_GATEWAY, Some MODE_ROAMING}"

definition note_pending_local_request ::
  "real \<Rightarrow> bytes \<Rightarrow> string option \<Rightarrow> transport_state \<Rightarrow> transport_state"
where
  "note_pending_local_request now dh attached s =
     (if ts_local_client_interfaces s = [] then s
      else case Option.bind (select_path (ts_path_table s) (ts_interfaces s) dh now)
                  (\<lambda>(_, best). pe_receiving_interface best) of
             None \<Rightarrow> s
           | Some name \<Rightarrow>
             if is_local_client_interface s name then
               (case Option.bind attached (find_interface (ts_interfaces s)) of
                  None \<Rightarrow> s
                | Some i \<Rightarrow> s\<lparr>ts_pending_local_path_requests :=
                                (ts_pending_local_path_requests s)(dh \<mapsto> i)\<rparr>)
             else s)"

definition answer_timeout :: "real \<Rightarrow> bool \<Rightarrow> bytes \<Rightarrow> string option \<Rightarrow> transport_state \<Rightarrow> real" where
  "answer_timeout now is_from_local_client dh attached s =
     (if is_from_local_client then now
      else if (case next_hop_interface s now dh of None \<Rightarrow> False | Some n \<Rightarrow> is_local_client_interface s n)
      then now
      else now + PATH_REQUEST_GRACE + (if mode_of s attached = Some MODE_ROAMING then PATH_REQUEST_RG else 0))"

text \<open>The answer to a request for a destination with a known path, from the cached announce.\<close>

definition answer_known_path ::
  "env \<Rightarrow> bytes \<Rightarrow> bool \<Rightarrow> string option \<Rightarrow> bytes option \<Rightarrow> path_entry \<Rightarrow> transport_state
   \<Rightarrow> transport_state \<times> effect list"
where
  "answer_known_path E dh is_from_local_client attached requestor best s =
     (if requestor = Some (pe_next_hop best) then (s, [])
      else if attached \<noteq> None \<and> attached = pe_receiving_interface best
              \<and> mode_of s attached = Some MODE_ROAMING then (s, [])
      else case get_cached_packet E True (pe_packet_hash best) of
        None \<Rightarrow> (s, [])
      | Some p \<Rightarrow>
        (let now = e_now E;
             p = p\<lparr>p_hops := pe_hops best\<rparr>;
             timeout = answer_timeout now is_from_local_client dh attached s;
             s = (case Option.bind (p_destination_hash p) (\<lambda>h. map_option (Pair h) (ts_announce_table s h)) of
                    None \<Rightarrow> s
                  | Some (h, e) \<Rightarrow> s\<lparr>ts_held_announces := (ts_held_announces s)(h \<mapsto> e)\<rparr>);
             s = s\<lparr>ts_announce_table := (ts_announce_table s)(dh \<mapsto>
                    \<lparr> at_timestamp = now, at_retransmit_timeout = timeout, at_retries = PATHFINDER_R,
                      at_received_from = pe_next_hop best, at_hops = pe_hops best, at_packet = p,
                      at_local_rebroadcasts = 0, at_block_rebroadcasts = True,
                      at_attached_interface = attached \<rparr>)\<rparr>
         in if is_from_local_client then
              (case attached of
                 None \<Rightarrow> (s, [])
               | Some name \<Rightarrow>
                 (let raw = relayed_announce s p dh PATH_RESPONSE in
                  case pace_client now name raw s of
                    (send_now, s) \<Rightarrow> (s, if send_now then [Dispatch name raw] else [])))
            else (s, [])))"

definition path_request ::
  "env \<Rightarrow> bytes \<Rightarrow> bool \<Rightarrow> string option \<Rightarrow> bytes option \<Rightarrow> bytes option \<Rightarrow> transport_state
   \<Rightarrow> transport_state \<times> effect list"
where
  "path_request E dh is_from_local_client attached requestor tag s =
     (let now = e_now E;
          search = should_search_for_unknown s attached;
          s = note_pending_local_request now dh attached s;
          others = filter (\<lambda>name. Some name \<noteq> attached) (map if_name (ts_interfaces s))
      in case find (\<lambda>d. d_hash d = dh) (ts_destinations s) of
           Some d \<Rightarrow>
             (s, [AnnounceDestination d (Option.bind (ps_get (ts_published_destinations s) dh) pd_app_data)
                    attached tag])
         | None \<Rightarrow>
           (case (if ts_transport_enabled s \<or> is_from_local_client
                  then select_path (ts_path_table s) (ts_interfaces s) dh now else None) of
              Some (_, best) \<Rightarrow> answer_known_path E dh is_from_local_client attached requestor best s
            | None \<Rightarrow>
              if is_from_local_client then
                each_interface (\<lambda>name. request_path now dh (Some (e_random_hash E)) (Some name) None) others s
              else if search then
                (if ts_discovery_path_requests s dh \<noteq> None then (s, [])
                 else each_interface (\<lambda>name. request_path_recursive E dh name tag) others
                   (s\<lparr>ts_discovery_path_requests := (ts_discovery_path_requests s)(dh \<mapsto>
                        \<lparr> dp_timeout = now + PATH_REQUEST_TIMEOUT, dp_requesting_interface = attached \<rparr>)\<rparr>))
              else if ts_local_client_interfaces s \<noteq> [] then
                each_interface (\<lambda>name. request_path now dh None (Some name) None)
                  (map if_name (ts_local_client_interfaces s)) s
              else (s, [])))"

text \<open>
  The handler of the path-request destination: requests without a tag are ignored, and so are
  those whose destination and tag were seen in this generation of tags or the one before.
\<close>

definition path_request_handler :: "env \<Rightarrow> packet \<Rightarrow> transport_state \<Rightarrow> transport_state \<times> effect list" where
  "path_request_handler E p s =
     (case parse_path_request (p_data p) of
        None \<Rightarrow> (s, [])
      | Some (dh, requestor, tag) \<Rightarrow>
        (case tag of
           None \<Rightarrow> (s, [])
         | Some t \<Rightarrow>
           (let unique_tag = dh @ t in
            if unique_tag \<in> ts_discovery_pr_tags_prev s then (s, [])
            else if unique_tag \<in> ts_discovery_pr_tags_set s then (s, [])
            else
              path_request E dh
                (case p_receiving_interface p of None \<Rightarrow> False | Some n \<Rightarrow> is_local_client_interface s n)
                (p_receiving_interface p) requestor tag
                (s\<lparr>ts_discovery_pr_tags_set := insert unique_tag (ts_discovery_pr_tags_set s),
                   ts_discovery_pr_tags := ts_discovery_pr_tags s @ [unique_tag]\<rparr>))))"

text \<open>The rotation of the tag generations, done by the periodic jobs.\<close>

definition rotate_pr_tags :: "transport_state \<Rightarrow> transport_state" where
  "rotate_pr_tags s =
     (if length (ts_discovery_pr_tags s) > ts_max_pr_tags s
      then s\<lparr>ts_discovery_pr_tags_prev := ts_discovery_pr_tags_set s,
             ts_discovery_pr_tags_set := {}, ts_discovery_pr_tags := []\<rparr>
      else s)"

section \<open>Tunnels\<close>

text \<open>A path learned over an interface that carries a tunnel is recorded in the tunnel.\<close>

definition record_tunnel_path ::
  "real \<Rightarrow> string option \<Rightarrow> bytes \<Rightarrow> bytes \<Rightarrow> u8 \<Rightarrow> real \<Rightarrow> bytes option \<Rightarrow> bytes
   \<Rightarrow> transport_state \<Rightarrow> transport_state"
where
  "record_tunnel_path now receiving_interface dh hop hops expires blob packet_hash s =
     (case receiving_interface of None \<Rightarrow> s | Some iface_name \<Rightarrow>
      (case Option.bind (find_interface (ts_interfaces s) iface_name) if_tunnel_id of None \<Rightarrow> s | Some tunnel_id \<Rightarrow>
       (case ts_tunnels s tunnel_id of None \<Rightarrow> s | Some t \<Rightarrow>
        s\<lparr>ts_tunnels := (ts_tunnels s)(tunnel_id \<mapsto>
            t\<lparr>tt_paths := (tt_paths t)(dh \<mapsto>
               \<lparr> tp_timestamp = now, tp_next_hop = hop, tp_hops = hops, tp_expires = expires,
                 tp_random_blobs = (case blob of None \<Rightarrow> [] | Some b \<Rightarrow> [b]),
                 tp_receiving_interface = Some iface_name, tp_packet_hash = packet_hash \<rparr>)\<rparr>)\<rparr>)))"

text \<open>
  Whether a recorded path is worth restoring: it has not expired, and no live route has fewer
  hops.
\<close>

definition restorable :: "real \<Rightarrow> path_table \<Rightarrow> bytes \<Rightarrow> tunnel_path \<Rightarrow> bool" where
  "restorable now table dh tp =
     (if now > tp_expires tp then False
      else case table dh of
             None \<Rightarrow> True
           | Some es \<Rightarrow> (\<forall>e\<in>set es. pe_expires e > now \<longrightarrow> tp_hops tp \<le> pe_hops e))"

fun restore_tunnel_paths ::
  "string \<Rightarrow> real \<Rightarrow> (bytes \<times> tunnel_path) list \<Rightarrow> transport_state \<Rightarrow> bytes list \<times> transport_state"
where
  "restore_tunnel_paths iface now [] s = ([], s)"
| "restore_tunnel_paths iface now ((dh, tp) # recorded) s =
     (if restorable now (ts_path_table s) dh tp then
        restore_tunnel_paths iface now recorded
          (s\<lparr>ts_path_table := (ts_path_table s)(dh \<mapsto>
               admit_route \<lparr> pe_timestamp = now, pe_next_hop = tp_next_hop tp, pe_hops = tp_hops tp,
                   pe_expires = tp_expires tp, pe_receiving_interface = Some iface,
                   pe_packet_hash = tp_packet_hash tp \<rparr>
                 (case ts_path_table s dh of None \<Rightarrow> [] | Some es \<Rightarrow> es)),
             ts_path_table_dirty := True\<rparr>)
      else
        (case restore_tunnel_paths iface now recorded s of (deprecated, s) \<Rightarrow> (dh # deprecated, s)))"

definition handle_tunnel :: "env \<Rightarrow> bytes \<Rightarrow> string \<Rightarrow> transport_state \<Rightarrow> transport_state" where
  "handle_tunnel E tunnel_id iface s =
     (let now = e_now E; expires = now + DESTINATION_TIMEOUT;
          s = s\<lparr>ts_interfaces := update_first (\<lambda>i. if_name i = iface)
                 (\<lambda>i. i\<lparr>if_tunnel_id := Some tunnel_id\<rparr>) (ts_interfaces s)\<rparr>
      in case ts_tunnels s tunnel_id of
           None \<Rightarrow> s\<lparr>ts_tunnels := (ts_tunnels s)(tunnel_id \<mapsto>
                      \<lparr> tt_interface = Some iface, tt_paths = (\<lambda>_. None), tt_expires = expires \<rparr>)\<rparr>
         | Some t \<Rightarrow>
           (case restore_tunnel_paths iface now (e_tunnel_order E (tt_paths t)) s of
              (deprecated, s) \<Rightarrow>
                s\<lparr>ts_tunnels := (ts_tunnels s)(tunnel_id \<mapsto>
                    t\<lparr>tt_interface := Some iface, tt_expires := expires,
                      tt_paths := (\<lambda>d. if d \<in> set deprecated then None else tt_paths t d)\<rparr>)\<rparr>))"

definition tunnel_synthesize_handler :: "env \<Rightarrow> packet \<Rightarrow> transport_state \<Rightarrow> transport_state" where
  "tunnel_synthesize_handler E p s =
     (if length (p_data p) \<noteq> KEY_LEN + HASH_LEN + DST_LEN + SIG_LEN then s
      else
        (let tunnel_id = full_hash (c_sha (e_crypto E))
               (take KEY_LEN (p_data p) @ byte_range KEY_LEN (KEY_LEN + HASH_LEN) (p_data p))
         in case p_receiving_interface p of
              None \<Rightarrow> s
            | Some iface \<Rightarrow> handle_tunnel E tunnel_id iface s))"

section \<open>What path requests leave alone\<close>

text \<open>The routes, the node's own destinations, the packet hashes and the tags seen.\<close>

definition core_of :: "transport_state \<Rightarrow> path_table \<times> (bytes \<rightharpoonup> bytes list) \<times> destination list
    \<times> (bytes \<rightharpoonup> tunnel_entry) \<times> bytes set \<times> bytes set \<times> bytes set \<times> bytes set" where
  "core_of s = (ts_path_table s, ts_path_random_blobs s, ts_destinations s, ts_tunnels s,
     ts_packet_hashlist s, ts_packet_hashlist_prev s, ts_discovery_pr_tags_set s, ts_discovery_pr_tags_prev s)"

lemma core_update [simp]:
  "core_of (s\<lparr>ts_announce_table := a\<rparr>) = core_of s"
  "core_of (s\<lparr>ts_held_announces := h\<rparr>) = core_of s"
  "core_of (s\<lparr>ts_interfaces := ifs\<rparr>) = core_of s"
  "core_of (s\<lparr>ts_discovery_path_requests := d\<rparr>) = core_of s"
  by (simp_all add: core_of_def)

lemma core_request_path [simp]: "core_of (fst (request_path now dh rt i t s)) = core_of s"
  by (simp add: request_path_def core_of_def)

lemma core_request_path_recursive [simp]: "core_of (fst (request_path_recursive E dh name tag s)) = core_of s"
  by (simp add: request_path_recursive_def Let_def split: option.split)

lemma core_each_interface [simp]:
  "(\<And>name s. core_of (fst (f name s)) = core_of s) \<Longrightarrow> core_of (fst (each_interface f names s)) = core_of s"
  by (induction names arbitrary: s) (simp_all add: split_def)

lemma core_note_pending [simp]: "core_of (note_pending_local_request now dh i s) = core_of s"
  by (simp add: note_pending_local_request_def core_of_def split: option.split)

lemma core_pace_client [simp]: "core_of (snd (pace_client now name raw s)) = core_of s"
  by (simp add: pace_client_def core_of_def Let_def)

lemma core_answer_known_path [simp]:
  "core_of (fst (answer_known_path E dh loc i req best s)) = core_of s"
  by (simp add: answer_known_path_def Let_def split_def split: option.split)

lemma core_path_request [simp]: "core_of (fst (path_request E dh loc i req tag s)) = core_of s"
  by (simp add: path_request_def Let_def split_def split: option.split)

lemma path_request_keeps:
  "ts_path_table (fst (path_request E dh loc i req tag s)) = ts_path_table s"
  "ts_path_random_blobs (fst (path_request E dh loc i req tag s)) = ts_path_random_blobs s"
  "ts_destinations (fst (path_request E dh loc i req tag s)) = ts_destinations s"
  "ts_tunnels (fst (path_request E dh loc i req tag s)) = ts_tunnels s"
  "ts_discovery_pr_tags_set (fst (path_request E dh loc i req tag s)) = ts_discovery_pr_tags_set s"
  "ts_discovery_pr_tags_prev (fst (path_request E dh loc i req tag s)) = ts_discovery_pr_tags_prev s"
  using core_path_request [of E dh loc i req tag s] by (simp_all add: core_of_def del: core_path_request)

section \<open>Properties\<close>

text \<open>
  A path request is read back the way it was written: the destination, the identity of the
  transport that asks when it is one, and the tag.
\<close>

theorem path_request_roundtrip:
  assumes "length dh = DST_LEN" and "length tag = DST_LEN"
    and "\<And>h. Option.bind (ts_identity s) id_hash = Some h \<Longrightarrow> length h = DST_LEN"
  shows "parse_path_request (path_request_data s dh tag)
     = Some (dh, (if ts_transport_enabled s then Option.bind (ts_identity s) id_hash else None), Some tag)"
proof (cases "Option.bind (ts_identity s) id_hash")
  case None
  then show ?thesis
    using assms(1,2) by (simp add: parse_path_request_def path_request_data_def)
next
  case (Some h)
  then show ?thesis
    using assms(1,2) assms(3) [OF Some]
    by (auto simp: parse_path_request_def path_request_data_def byte_range_def)
qed

theorem path_request_roundtrip_witness:
  "parse_path_request (path_request_data (fresh_state\<lparr>ts_transport_enabled := True,
      ts_identity := Some (empty_identity\<lparr>id_hash := Some (replicate 16 5)\<rparr>)\<rparr>) (replicate 16 1) (replicate 16 2))
   = Some (replicate 16 1, Some (replicate 16 5), Some (replicate 16 2))"
  by (subst path_request_roundtrip) auto

definition run_requests :: "env \<Rightarrow> packet list \<Rightarrow> transport_state \<Rightarrow> transport_state" where
  "run_requests E ps s = fold (\<lambda>p s. fst (path_request_handler E p s)) ps s"

lemma handler_tags:
  "ts_discovery_pr_tags_set s \<subseteq> ts_discovery_pr_tags_set (fst (path_request_handler E p s))"
  "ts_discovery_pr_tags_prev (fst (path_request_handler E p s)) = ts_discovery_pr_tags_prev s"
  by (auto simp: path_request_handler_def path_request_keeps Let_def split: option.splits)

lemma run_requests_tags:
  "ts_discovery_pr_tags_set s \<subseteq> ts_discovery_pr_tags_set (run_requests E ps s)"
  "ts_discovery_pr_tags_prev (run_requests E ps s) = ts_discovery_pr_tags_prev s"
  unfolding run_requests_def
  by (induction ps arbitrary: s) (simp_all add: handler_tags, meson handler_tags(1) order_trans)

lemma handler_ignores_seen:
  assumes "parse_path_request (p_data q) = Some (dh, requestor, Some tag)"
    and "dh @ tag \<in> ts_discovery_pr_tags_set s \<union> ts_discovery_pr_tags_prev s"
  shows "path_request_handler E q s = (s, [])"
  using assms by (auto simp: path_request_handler_def Let_def)

lemma handler_records_new:
  assumes "parse_path_request (p_data p) = Some (dh, requestor, Some tag)"
    and "dh @ tag \<notin> ts_discovery_pr_tags_set s \<union> ts_discovery_pr_tags_prev s"
  shows "dh @ tag \<in> ts_discovery_pr_tags_set (fst (path_request_handler E p s))"
  using assms by (simp add: path_request_handler_def path_request_keeps Let_def)

text \<open>
  C32. A path request is acted on once. After a new request for a destination with some tag, a later
  request with the same two is ignored: nothing changes and nothing is sent. In between any
  requests may have been handled and the generations of tags rotated once.
\<close>

theorem path_request_once:
  assumes "parse_path_request (p_data p) = Some (dh, requestor, Some tag)"
    and "parse_path_request (p_data q) = Some (dh, requestor', Some tag)"
    and "dh @ tag \<notin> ts_discovery_pr_tags_set s \<union> ts_discovery_pr_tags_prev s"
    and "s1 = run_requests E1 ps1 (fst (path_request_handler E p s))"
    and "s2 = run_requests E2 ps2 s1 \<or> s2 = run_requests E2 ps2 (rotate_pr_tags s1)"
  shows "path_request_handler E3 q s2 = (s2, [])"
proof -
  have "dh @ tag \<in> ts_discovery_pr_tags_set s1"
    using handler_records_new [OF assms(1,3), of E] run_requests_tags(1) unfolding assms(4) by blast
  then have "dh @ tag \<in> ts_discovery_pr_tags_set s2 \<union> ts_discovery_pr_tags_prev s2"
    using assms(5) run_requests_tags [where E = E2 and ps = ps2]
    by (fastforce simp: rotate_pr_tags_def split: if_splits)
  with assms(2) show ?thesis by (rule handler_ignores_seen)
qed

text \<open>A request for sixteen ones with a tag of sixteen twos, arriving on no interface.\<close>

definition sample_path_request :: packet where
  "sample_path_request = new_packet None (replicate 16 1 @ replicate 16 2) DATA CTX_NONE BROADCAST HEADER_1
     None None False 0"

theorem path_request_once_witness:
  "\<exists>s2. s2 = rotate_pr_tags (fst (path_request_handler sample_env sample_path_request
            (fresh_state\<lparr>ts_max_pr_tags := 0\<rparr>)))
      \<and> path_request_handler sample_env sample_path_request s2 = (s2, [])"
proof -
  have "parse_path_request (p_data sample_path_request) = Some (replicate 16 1, None, Some (replicate 16 2))"
    by (simp add: parse_path_request_def sample_path_request_def new_packet_def)
  note once = path_request_once [OF this this, where ?E1.0 = sample_env and ?E2.0 = sample_env
      and ?ps1.0 = "[]" and ?ps2.0 = "[]", unfolded run_requests_def fold_Nil id_apply, OF _ refl disjI2 [OF refl]]
  show ?thesis
    by (rule exI, rule conjI [OF refl], rule once) (simp add: fresh_state_def)
qed

text \<open>Restoring paths of a tunnel.\<close>

lemma restore_other:
  "dh \<notin> fst ` set recorded \<Longrightarrow> ts_path_table (snd (restore_tunnel_paths iface now recorded s)) dh = ts_path_table s dh"
  by (induction recorded arbitrary: s rule: list.induct) (auto simp: split_def)

lemma restore_tunnel_route:
  assumes "(dh, tp) \<in> set recorded" "distinct (map fst recorded)" "now \<le> tp_expires tp" "ts_path_table s dh = None"
  shows "ts_path_table (snd (restore_tunnel_paths iface now recorded s)) dh =
     Some [\<lparr> pe_timestamp = now, pe_next_hop = tp_next_hop tp, pe_hops = tp_hops tp, pe_expires = tp_expires tp,
             pe_receiving_interface = Some iface, pe_packet_hash = tp_packet_hash tp \<rparr>]"
  using assms
proof (induction recorded arbitrary: s)
  case (Cons x xs)
  show ?case
  proof (cases "x = (dh, tp)")
    case True
    then have "dh \<notin> fst ` set xs" using Cons.prems(2) by force
    then show ?thesis using True Cons.prems(3,4) by (simp add: restorable_def restore_other admit_route_def evict_worst.simps)
  next
    case False
    then have "(dh, tp) \<in> set xs" "fst x \<noteq> dh" using Cons.prems(1,2) by (auto simp: rev_image_eqI)
    then show ?thesis using Cons.IH Cons.prems by (cases x) (auto simp: split_def)
  qed
qed simp

text \<open>
  A tunnel is taken over without its signature. Whatever the last 80 bytes of a synthesis packet are (the random hash and
  the signature), a packet that names the key and the interface of a tunnel moves the tunnel to the interface it came in
  on: a path the tunnel has recorded and the node has no other route for becomes a route over that interface.
\<close>

theorem forged_tunnel_takes_routes:
  assumes len: "length pk = KEY_LEN" "length ih = HASH_LEN" "length forged = DST_LEN + SIG_LEN"
    and p: "p_data p = pk @ ih @ forged" "p_receiving_interface p = Some iface"
    and t: "ts_tunnels s (full_hash (c_sha (e_crypto E)) (pk @ ih)) = Some t" "(dh, tp) \<in> set (e_tunnel_order E (tt_paths t))"
      "distinct (map fst (e_tunnel_order E (tt_paths t)))" "e_now E \<le> tp_expires tp" "ts_path_table s dh = None"
  shows "\<exists>e. ts_path_table (tunnel_synthesize_handler E p s) dh = Some [e] \<and> pe_receiving_interface e = Some iface
     \<and> pe_next_hop e = tp_next_hop tp
     \<and> map_option tt_interface (ts_tunnels (tunnel_synthesize_handler E p s) (full_hash (c_sha (e_crypto E)) (pk @ ih))) = Some (Some iface)"
proof -
  have h: "tunnel_synthesize_handler E p s = handle_tunnel E (full_hash (c_sha (e_crypto E)) (pk @ ih)) iface s"
    using len p by (simp add: tunnel_synthesize_handler_def byte_range_def Let_def)
  let ?s = "s\<lparr>ts_interfaces := update_first (\<lambda>i. if_name i = iface)
      (\<lambda>i. i\<lparr>if_tunnel_id := Some (full_hash (c_sha (e_crypto E)) (pk @ ih))\<rparr>) (ts_interfaces s)\<rparr>"
  have "ts_path_table ?s dh = None" using t(5) by simp
  from restore_tunnel_route [OF t(2-4) this, of iface] show ?thesis
    unfolding h handle_tunnel_def Let_def using t(1) by (simp add: split_def)
qed

theorem forged_tunnel_takes_routes_witness:
  "\<exists>e. ts_path_table (tunnel_synthesize_handler
      (sample_env\<lparr>e_tunnel_order := \<lambda>m. [([7], \<lparr> tp_timestamp = 0, tp_next_hop = [8], tp_hops = 2, tp_expires = 1000000, tp_random_blobs = [],
          tp_receiving_interface = None, tp_packet_hash = [] \<rparr>)]\<rparr>)
      (sample_path_request\<lparr>p_data := replicate 64 1 @ replicate 32 2 @ replicate 80 0, p_receiving_interface := Some ''eth''\<rparr>)
      (fresh_state\<lparr>ts_tunnels := \<lambda>_. Some \<lparr> tt_interface = None, tt_paths = (\<lambda>_. None), tt_expires = 0 \<rparr>\<rparr>)) [7] = Some [e]
     \<and> pe_receiving_interface e = Some ''eth''"
proof -
  let ?tp = "\<lparr> tp_timestamp = 0, tp_next_hop = [8], tp_hops = 2, tp_expires = 1000000, tp_random_blobs = [],
          tp_receiving_interface = None, tp_packet_hash = [] \<rparr>"
  let ?E = "sample_env\<lparr>e_tunnel_order := \<lambda>m. [([7], ?tp)]\<rparr>"
  let ?p = "sample_path_request\<lparr>p_data := replicate 64 1 @ replicate 32 2 @ replicate 80 0, p_receiving_interface := Some ''eth''\<rparr>"
  let ?s = "fresh_state\<lparr>ts_tunnels := \<lambda>_. Some \<lparr> tt_interface = None, tt_paths = (\<lambda>_. None), tt_expires = 0 \<rparr>\<rparr>"
  have "e_now ?E \<le> 1000000" "ts_path_table ?s [7] = None" by (simp_all add: sample_env_def fresh_state_def)
  then show ?thesis
    using forged_tunnel_takes_routes [of "replicate 64 1" "replicate 32 2" "replicate 80 0" ?p "''eth''" ?s ?E _ "[7]" ?tp] by auto
qed

end
