(* ===== verification/Outbound.thy ===== *)
theory Outbound
  imports Path_Request
begin

text \<open>
  \<^verbatim>\<open>Transport::outbound\<close> of \<^verbatim>\<open>src/transport.rs\<close>: the one frame on the best path, or the frame on every interface that
  may carry it, the announce rules, and the receipt. What it sends is a list of effects; the clock is read once.
\<close>

abbreviation (input) PATH_STALE_THRESHOLD :: real where "PATH_STALE_THRESHOLD \<equiv> 72"
abbreviation (input) MODE_BOUNDARY :: u8 where "MODE_BOUNDARY \<equiv> 0x05"

section \<open>A packet with a known path\<close>

definition mark_packet_sent :: "real \<Rightarrow> packet \<Rightarrow> packet" where
  "mark_packet_sent outbound_time p = p\<lparr>p_sent := True, p_sent_at := Some outbound_time\<rparr>"

text \<open>The frame for a packet that goes into transport: the next hop is put in after flags and hops.\<close>

definition transport_frame :: "packet \<Rightarrow> bytes \<Rightarrow> bytes" where
  "transport_frame p nh =
     [push_bit 6 HEADER_2 OR push_bit 4 MODE_TRANSPORT OR (p_flags p AND 0b00001111), p_hops p] @ nh
     @ (if length (p_raw p) > 2 then drop 2 (p_raw p) else [])"

definition path_frame :: "bool \<Rightarrow> packet \<Rightarrow> bytes \<Rightarrow> path_entry \<Rightarrow> bytes" where
  "path_frame shared p dest_hash e =
     (if pe_hops e > 1 \<and> p_header_type p = HEADER_1 then
        (if pe_next_hop e = dest_hash then p_raw p else transport_frame p (pe_next_hop e))
      else if pe_hops e = 1 \<and> shared \<and> p_header_type p = HEADER_1 then transport_frame p (pe_next_hop e)
      else p_raw p)"

text \<open>A path that has not been heard of for a while keeps at most a short time to live.\<close>

definition shorten_expiry :: "real \<Rightarrow> bytes \<Rightarrow> path_entry \<Rightarrow> transport_state \<Rightarrow> transport_state" where
  "shorten_expiry outbound_time dest_hash e s =
     (let shortened = outbound_time + PATH_STALE_THRESHOLD; same = (\<lambda>f. pe_packet_hash f = pe_packet_hash e) in
      case ts_path_table s dest_hash of
        None \<Rightarrow> s
      | Some deque \<Rightarrow>
        (case find same deque of
           None \<Rightarrow> s
         | Some f \<Rightarrow>
           if shortened < pe_expires f
           then s\<lparr>ts_path_table := (ts_path_table s)(dest_hash \<mapsto> update_first same (\<lambda>f. f\<lparr>pe_expires := shortened\<rparr>) deque),
                  ts_path_table_dirty := True\<rparr>
           else s))"

text \<open>
  The walk over the paths, best first: the transmissions, the path requests put off until the lock is released, and the state.
\<close>

fun send_on_paths ::
  "real \<Rightarrow> packet \<Rightarrow> bytes \<Rightarrow> (nat \<times> real \<times> path_entry) list \<Rightarrow> transport_state
   \<Rightarrow> (string \<times> bytes) list \<times> string option list \<times> transport_state"
where
  "send_on_paths outbound_time p dest_hash [] s = ([], [], s)"
| "send_on_paths outbound_time p dest_hash ((_, _, e) # es) s =
     (let tx = (case pe_receiving_interface e of
            Some name \<Rightarrow> if \<exists>i\<in>set (ts_interfaces s). if_name i = name
                         then [(name, path_frame (ts_is_connected_to_shared_instance s) p dest_hash e)] else []
          | None \<Rightarrow> [])
      in if pe_hops e \<ge> 2 \<and> outbound_time - pe_timestamp e > PATH_STALE_THRESHOLD then
           (let s = shorten_expiry outbound_time dest_hash e s in
            if tx \<noteq> [] then (tx, [pe_receiving_interface e], s)
            else (case send_on_paths outbound_time p dest_hash es s of
                    (txs, stale, s) \<Rightarrow> (txs, pe_receiving_interface e # stale, s)))
         else (tx, [], s))"

fun request_stale_paths ::
  "real \<Rightarrow> bytes \<Rightarrow> string option list \<Rightarrow> transport_state \<Rightarrow> transport_state \<times> effect list"
where
  "request_stale_paths now dest_hash [] s = (s, [])"
| "request_stale_paths now dest_hash (iface # ifaces) s =
     (case request_path now dest_hash None iface None s of
        (s, es) \<Rightarrow> (case request_stale_paths now dest_hash ifaces s of (s, es') \<Rightarrow> (s, es @ es')))"

section \<open>A packet sent on every interface\<close>

definition untargeted_announce :: "packet \<Rightarrow> bool" where
  "untargeted_announce p \<longleftrightarrow> p_packet_type p = ANNOUNCE \<and> p_attached_interface p = None"

definition link_outbound_info :: "packet \<Rightarrow> (string option \<times> bool) option" where
  "link_outbound_info p =
     (if p_destination_type p = Some Link
      then map_option (\<lambda>li. (li_attached_interface li, li_status_closed li)) (Option.bind (p_destination p) d_link)
      else None)"

text \<open>What the loop over the interfaces has read of the state before it.\<close>

record broadcast_info =
  bi_link :: "(string option \<times> bool) option"
  bi_local_clients :: "string list"
  bi_wire :: "(bytes \<times> u64) option"
  bi_is_local_destination :: bool
  bi_from_mode :: "u8 option"

definition broadcast_info_of :: "real \<Rightarrow> packet \<Rightarrow> transport_state \<Rightarrow> broadcast_info" where
  "broadcast_info_of now p s =
     (let wire = (if untargeted_announce p then announce_wire_fields (p_raw p) else None) in
      \<lparr> bi_link = link_outbound_info p,
        bi_local_clients = map if_name (ts_local_client_interfaces s),
        bi_wire = wire,
        bi_is_local_destination = (case wire of None \<Rightarrow> False | Some (dest, _) \<Rightarrow> \<exists>d\<in>set (ts_destinations s). d_hash d = dest),
        bi_from_mode = (case wire of
            None \<Rightarrow> None
          | Some (dest, _) \<Rightarrow>
            Option.bind (next_hop_interface s now dest) (\<lambda>name. map_option if_mode (find_interface (ts_interfaces s) name))) \<rparr>)"

text \<open>The gates before the announce rules: an interface the packet may go out on at all.\<close>

definition open_interface :: "packet \<Rightarrow> interface_stub \<Rightarrow> bool" where
  "open_interface p i \<longleftrightarrow> if_online i \<and> (p_packet_type p = ANNOUNCE \<or> if_out i)"

definition may_transmit :: "broadcast_info \<Rightarrow> packet \<Rightarrow> interface_stub \<Rightarrow> bool" where
  "may_transmit bi p i \<longleftrightarrow>
     (case bi_link bi of
        None \<Rightarrow> True
      | Some (attached, is_closed) \<Rightarrow> \<not> is_closed \<and> (case attached of None \<Rightarrow> True | Some name \<Rightarrow> if_name i = name))
     \<and> (case p_attached_interface p of None \<Rightarrow> True | Some name \<Rightarrow> if_name i = name)
     \<and> (p_packet_type p = ANNOUNCE \<longrightarrow> p_receiving_interface p \<noteq> Some (if_name i))
     \<and> (untargeted_announce p \<longrightarrow> if_name i \<notin> set (bi_local_clients bi))"

definition announce_allowed :: "real \<Rightarrow> broadcast_info \<Rightarrow> packet \<Rightarrow> interface_stub \<Rightarrow> bool \<times> interface_stub" where
  "announce_allowed outbound_time bi p i =
     (if if_mode i = MODE_ACCESS_POINT then (False, i)
      else if if_mode i = MODE_ROAMING then
        (bi_is_local_destination bi \<or> bi_from_mode bi \<notin> {None, Some MODE_ROAMING, Some MODE_BOUNDARY}, i)
      else if if_mode i = MODE_BOUNDARY then
        (bi_is_local_destination bi \<or> bi_from_mode bi \<notin> {None, Some MODE_ROAMING}, i)
      else if p_hops p > 0 then
        (case bi_wire bi of
           None \<Rightarrow> (True, i)
         | Some (dest, emitted) \<Rightarrow> admit_announce dest (p_hops p) emitted (p_raw p) outbound_time i)
      else (True, i))"

datatype broadcast = Transmitted | HeldBack | QueuedOwn

definition own_announce_dest :: "packet \<Rightarrow> bytes option" where
  "own_announce_dest p =
     (if p_packet_type p = ANNOUNCE \<and> p_hops p = 0 \<and> p_context p \<noteq> PATH_RESPONSE then p_destination_hash p else None)"

definition broadcast_on :: "real \<Rightarrow> broadcast_info \<Rightarrow> packet \<Rightarrow> interface_stub \<Rightarrow> broadcast \<times> interface_stub" where
  "broadcast_on outbound_time bi p i =
     (if \<not> open_interface p i \<or> \<not> may_transmit bi p i then (HeldBack, i)
      else
        (case (if untargeted_announce p then announce_allowed outbound_time bi p i else (True, i)) of
           (False, i) \<Rightarrow> (HeldBack, i)
         | (True, i) \<Rightarrow>
           (case own_announce_dest p of
              None \<Rightarrow> (Transmitted, i)
            | Some dest \<Rightarrow>
              (case admit_own_announce dest (p_raw p) outbound_time i of
                 (Queued, i) \<Rightarrow> (QueuedOwn, i)
               | (Sent, i) \<Rightarrow> (Transmitted, i)))))"

definition broadcast_names :: "broadcast \<Rightarrow> real \<Rightarrow> broadcast_info \<Rightarrow> packet \<Rightarrow> interface_stub list \<Rightarrow> string list" where
  "broadcast_names b outbound_time bi p ifs = map if_name (filter (\<lambda>i. fst (broadcast_on outbound_time bi p i) = b) ifs)"

text \<open>The transmissions, the interfaces that queued the announce, the packet and the state after the loop.\<close>

definition broadcast_packet ::
  "real \<Rightarrow> packet \<Rightarrow> transport_state \<Rightarrow> (string \<times> bytes) list \<times> string list \<times> packet \<times> transport_state"
where
  "broadcast_packet outbound_time p s =
     (let bi = broadcast_info_of outbound_time p s;
          names = broadcast_names Transmitted outbound_time bi p (ts_interfaces s);
          queued = broadcast_names QueuedOwn outbound_time bi p (ts_interfaces s);
          s = s\<lparr>ts_interfaces := map (\<lambda>i. snd (broadcast_on outbound_time bi p i)) (ts_interfaces s)\<rparr>;
          s = (case p_packet_hash p of
                 Some h \<Rightarrow> if names \<noteq> [] then s\<lparr>ts_packet_hashlist := insert h (ts_packet_hashlist s)\<rparr> else s
               | None \<Rightarrow> s);
          s = (case own_announce_dest p of
                 None \<Rightarrow> s
               | Some dest \<Rightarrow> s\<lparr>ts_announce_sent_at :=
                   fold (\<lambda>n m. m((dest, n) \<mapsto> outbound_time)) (names @ queued) (ts_announce_sent_at s)\<rparr>)
      in (map (\<lambda>n. (n, p_raw p)) names, queued, if names \<noteq> [] then mark_packet_sent outbound_time p else p, s))"

section \<open>Outbound\<close>

definition transmission_online :: "transport_state \<Rightarrow> string \<Rightarrow> bool" where
  "transmission_online s name =
     (case find_interface (ts_interfaces s) name of
        Some i \<Rightarrow> if_online i
      | None \<Rightarrow> (case find_interface (ts_local_client_interfaces s) name of Some i \<Rightarrow> if_online i | None \<Rightarrow> False))"

definition outbound_dest :: "packet \<Rightarrow> bytes option" where
  "outbound_dest p = (case p_destination_hash p of Some h \<Rightarrow> Some h | None \<Rightarrow> map_option d_hash (p_destination p))"

definition path_routable :: "packet \<Rightarrow> bool" where
  "path_routable p \<longleftrightarrow> p_packet_type p \<noteq> ANNOUNCE \<and> p_destination_type p \<noteq> Some Plain
     \<and> p_destination_type p \<noteq> Some Group \<and> outbound_dest p \<noteq> None"

definition outbound_paths :: "real \<Rightarrow> packet \<Rightarrow> transport_state \<Rightarrow> (nat \<times> real \<times> path_entry) list" where
  "outbound_paths now p s =
     (if path_routable p
      then (case outbound_dest p of None \<Rightarrow> [] | Some h \<Rightarrow> select_all_paths (ts_path_table s) (ts_interfaces s) h now)
      else [])"

definition receipt_timeout :: "real \<Rightarrow> packet \<Rightarrow> transport_state \<Rightarrow> real" where
  "receipt_timeout now p s =
     (if p_destination_type p = Some Link then link_timeout (Option.bind (p_destination p) d_link)
      else DEFAULT_PER_HOP_TIMEOUT + TIMEOUT_PER_HOP *
        real (unat (case outbound_dest p of
            None \<Rightarrow> 0
          | Some h \<Rightarrow> (case select_path_for s now h of None \<Rightarrow> 0 | Some (_, e) \<Rightarrow> pe_hops e))))"

text \<open>The end of \<^verbatim>\<open>outbound\<close>: transmissions on interfaces that are down are dropped, and a packet that was sent gets a receipt.\<close>

definition finish_outbound ::
  "crypto \<Rightarrow> nat \<Rightarrow> real \<Rightarrow> (string \<times> bytes) list \<Rightarrow> string list \<Rightarrow> packet \<Rightarrow> transport_state
   \<Rightarrow> bool \<times> packet \<times> transport_state \<times> effect list"
where
  "finish_outbound c rid now tx queued p s =
     (let tx = filter (\<lambda>(name, _). transmission_online s name) tx;
          sent = (tx \<noteq> [] \<or> queued \<noteq> []);
          es = map (\<lambda>(name, raw). Dispatch name raw) tx
      in if sent \<and> should_generate_receipt p \<and> p_receipt p = None
         then (let r = new_with_timeout (c_sha c) rid now p (receipt_timeout now p s)
               in (sent, p\<lparr>p_receipt := Some r\<rparr>, s\<lparr>ts_receipts := ts_receipts s @ [r]\<rparr>, es))
         else (sent, p, s, es))"

text \<open>\<open>rid\<close> is the address of the receipt, should one be made.\<close>

definition outbound ::
  "crypto \<Rightarrow> nat \<Rightarrow> real \<Rightarrow> packet \<Rightarrow> transport_state \<Rightarrow> bool \<times> packet \<times> transport_state \<times> effect list"
where
  "outbound c rid now p s =
     (case (outbound_paths now p s, outbound_dest p) of
        (path # paths, Some dest_hash) \<Rightarrow>
          (case send_on_paths now p dest_hash (path # paths) s of
             (tx, stale, s) \<Rightarrow>
               (case request_stale_paths now dest_hash stale s of
                  (s, requests) \<Rightarrow>
                    (case finish_outbound c rid now tx [] (mark_packet_sent now p) s of
                       (sent, p, s, es) \<Rightarrow> (sent, p, s, requests @ es))))
      | _ \<Rightarrow>
          (case broadcast_packet now p s of
             (tx, queued, p, s) \<Rightarrow> finish_outbound c rid now tx queued p s))"

end
