(* ===== verification/Resource.thy ===== *)
theory Resource
  imports Prelude
begin

text \<open>
  Resource transfers (\<^verbatim>\<open>resource.rs\<close>): a byte string of any size is encrypted, cut into parts, advertised
  with the hashes of its parts and sent part by part as the receiver asks for them; the receiver
  assembles it and proves that it has it.

  One record stands for the sender's and the receiver's \<^verbatim>\<open>Resource\<close>, as in the source. The hash map is a list
  of four-byte hashes, since the source reads and writes it only in aligned groups of four. The link
  (encryption, state, whether a packet can be sent), the hash, bzip2 and MessagePack are an environment; the clock
  is an argument of every operation, read once. Packets a Resource sends and what it tells its link and
  its callbacks are effects. The next segment of a split Resource is a flag: it is a Resource of its
  own.
\<close>

abbreviation (input) MAPHASH_LEN :: nat where "MAPHASH_LEN \<equiv> 4"
abbreviation (input) HASH_BYTES :: nat where "HASH_BYTES \<equiv> 32"
abbreviation (input) RANDOM_HASH_SIZE :: nat where "RANDOM_HASH_SIZE \<equiv> 4"
abbreviation (input) RES_WINDOW_MAX :: nat where "RES_WINDOW_MAX \<equiv> 75"
abbreviation (input) FAST_RATE_THRESHOLD :: nat where "FAST_RATE_THRESHOLD \<equiv> 4"
abbreviation (input) HASHMAP_MAX_LEN :: nat where "HASHMAP_MAX_LEN \<equiv> 74"
abbreviation (input) COLLISION_GUARD_SIZE :: nat where "COLLISION_GUARD_SIZE \<equiv> 224"
abbreviation (input) MAX_EFFICIENT_SIZE :: nat where "MAX_EFFICIENT_SIZE \<equiv> 1048575"
abbreviation (input) METADATA_MAX_SIZE :: nat where "METADATA_MAX_SIZE \<equiv> 16777215"
abbreviation (input) AUTO_COMPRESS_MAX_SIZE :: nat where "AUTO_COMPRESS_MAX_SIZE \<equiv> 67108864"
abbreviation (input) MAX_RETRIES :: nat where "MAX_RETRIES \<equiv> 16"
abbreviation (input) MAX_ADV_RETRIES :: nat where "MAX_ADV_RETRIES \<equiv> 4"
abbreviation (input) HASHMAP_IS_EXHAUSTED :: u8 where "HASHMAP_IS_EXHAUSTED \<equiv> 0xFF"
abbreviation (input) NO_HASH :: bytes where "NO_HASH \<equiv> [0, 0, 0, 0]"

section \<open>State\<close>

datatype resource_status =
  RsNone | RsQueued | RsAdvertised | RsTransferring | RsAwaitingProof | RsAssembling | RsComplete | RsFailed
  | RsCorrupt | RsRejected

fun status_u8 :: "resource_status \<Rightarrow> nat" where
  "status_u8 RsNone = 0" | "status_u8 RsQueued = 1" | "status_u8 RsAdvertised = 2" | "status_u8 RsTransferring = 3"
| "status_u8 RsAwaitingProof = 4" | "status_u8 RsAssembling = 5" | "status_u8 RsComplete = 6"
| "status_u8 RsFailed = 7" | "status_u8 RsCorrupt = 8" | "status_u8 RsRejected = 9"

datatype auto_compress = CompressDisabled | CompressEnabled | CompressLimit nat

text \<open>A part's packet: what the sender needs of it.\<close>

record part_packet =
  pp_map_hash :: bytes
  pp_data :: bytes
  pp_sent :: bool

record link_context =
  lc_mtu :: nat
  lc_rtt :: "real option"
  lc_traffic_timeout_factor :: real
  lc_establishment_cost :: nat
  lc_last_resource_window :: "nat option"
  lc_last_resource_eifr :: "real option"

record resource_env =
  re_full_hash :: "bytes \<Rightarrow> bytes"
  re_encrypt :: "bytes \<Rightarrow> bytes option"
  re_decrypt :: "bytes \<Rightarrow> bytes option"
  re_compress :: "bytes \<Rightarrow> bytes option"
  re_decompress :: "bytes \<Rightarrow> bytes option"
  re_hmu_pack :: "nat \<Rightarrow> bytes \<Rightarrow> bytes"
  re_hmu_unpack :: "bytes \<Rightarrow> (nat \<times> bytes) option"
  re_link_active :: bool
  re_send_ok :: bool
  re_carried :: bool

record resource =
  rs_status :: resource_status
  rs_sdu :: nat
  rs_size :: nat
  rs_total_size :: nat
  rs_uncompressed_size :: nat
  rs_compressed_size :: nat
  rs_data :: "bytes option"
  rs_encrypted :: bool
  rs_compressed :: bool
  rs_initiator :: bool
  rs_has_callback :: bool
  rs_has_progress_callback :: bool
  rs_rtt :: "real option"
  rs_rtt_rxd_bytes :: nat
  rs_req_sent :: real
  rs_req_sent_bytes :: nat
  rs_req_resp :: "real option"
  rs_req_resp_rtt_rate :: real
  rs_rtt_rxd_bytes_at_part_req :: nat
  rs_req_data_rtt_rate :: real
  rs_eifr :: "real option"
  rs_previous_eifr :: "real option"
  rs_fast_rate_rounds :: nat
  rs_very_slow_rate_rounds :: nat
  rs_hash :: bytes
  rs_original_hash :: bytes
  rs_random_hash :: bytes
  rs_truncated_hash :: bytes
  rs_expected_proof :: bytes
  rs_parts :: "bytes option list"
  rs_packets :: "part_packet list"
  rs_hashmap :: "bytes list"
  rs_hashmap_height :: nat
  rs_waiting_for_hmu :: bool
  rs_consecutive_completed_height :: int
  rs_total_parts :: nat
  rs_received_count :: nat
  rs_outstanding_parts :: nat
  rs_window :: nat
  rs_window_max :: nat
  rs_window_min :: nat
  rs_window_flexibility :: nat
  rs_retries_left :: nat
  rs_max_retries :: nat
  rs_timeout :: real
  rs_timeout_factor :: real
  rs_part_timeout_factor :: real
  rs_sender_grace_time :: real
  rs_adv_sent :: real
  rs_last_activity :: real
  rs_last_part_sent :: real
  rs_sent_parts :: nat
  rs_request_id :: "bytes option"
  rs_is_response :: bool
  rs_max_decompressed_size :: nat
  rs_auto_compress_option :: auto_compress
  rs_receiver_min_consecutive_height :: nat
  rs_split :: bool
  rs_segment_index :: nat
  rs_total_segments :: nat
  rs_next_segment :: bool
  rs_metadata :: bytes
  rs_has_metadata :: bool
  rs_metadata_size :: nat
  rs_input_bytes :: "bytes option"
  rs_assembly_lock :: bool


datatype resource_effect =
    SendAdvertisement
  | SendRequest bytes
  | SendPart bytes
  | ResendPart bytes
  | SendHashmapUpdate bytes
  | SendProof bytes
  | SendControl u8
  | AskCache bytes
  | ConcludeOnLink
  | CancelOnLink bool
  | TearDownLink
  | CancelNextSegment
  | AdvertiseNextSegment
  | RunCallback
  | RunProgressCallback
  | StartAssembly
  | SetExpectedRate real
  | StoreMetadata bytes
  | RegisterOutgoing

abbreviation (input) RESOURCE_ICL :: u8 where "RESOURCE_ICL \<equiv> 0x06"
abbreviation (input) RESOURCE_RCL :: u8 where "RESOURCE_RCL \<equiv> 0x07"

section \<open>Ending a transfer\<close>

text \<open>\<^verbatim>\<open>cancel\<close> and \<^verbatim>\<open>rejected\<close>.\<close>

definition cancel :: "resource_env \<Rightarrow> resource \<Rightarrow> resource_effect list \<times> resource" where
  "cancel env r =
     (let next_es = (if rs_next_segment r then [CancelNextSegment] else []) in
      if rs_status r = RsCorrupt then
        (next_es @ [CancelOnLink False, SendControl RESOURCE_RCL, TearDownLink], r)
      else if status_u8 (rs_status r) < status_u8 RsComplete then
        (let r = r\<lparr>rs_status := RsFailed\<rparr>;
             es = (if rs_initiator r
                   then (if re_link_active env then [SendControl RESOURCE_ICL] else []) @ [CancelOnLink True]
                   else (if re_link_active env then [SendControl RESOURCE_RCL] else []) @ [CancelOnLink False]);
             cb = (if rs_has_callback r then [ConcludeOnLink, RunCallback] else [])
         in (next_es @ es @ cb, r))
      else (next_es, r))"

definition rejected :: "resource \<Rightarrow> resource_effect list \<times> resource" where
  "rejected r =
     (if status_u8 (rs_status r) < status_u8 RsComplete \<and> rs_initiator r then
        ([CancelOnLink True] @ (if rs_has_callback r then [ConcludeOnLink, RunCallback] else []), r\<lparr>rs_status := RsRejected\<rparr>)
      else ([], r))"

section \<open>Preparing to send\<close>

datatype resource_data = RdBytes bytes | RdFile bytes | RdShared bytes

fun rd_bytes :: "resource_data \<Rightarrow> bytes" where
  "rd_bytes (RdBytes bs) = bs" | "rd_bytes (RdFile bs) = bs" | "rd_bytes (RdShared bs) = bs"

definition empty_resource :: "auto_compress \<Rightarrow> nat \<Rightarrow> bytes option \<Rightarrow> bool \<Rightarrow> nat \<Rightarrow> bool \<Rightarrow> bool \<Rightarrow> resource" where
  "empty_resource auto_compress segment_index request_id is_response sent_metadata_size cb pcb =
     \<lparr> rs_status = RsNone, rs_sdu = 464, rs_size = 0, rs_total_size = 0, rs_uncompressed_size = 0,
       rs_compressed_size = 0, rs_data = None, rs_encrypted = False, rs_compressed = False, rs_initiator = False,
       rs_has_callback = cb, rs_has_progress_callback = pcb, rs_rtt = None, rs_rtt_rxd_bytes = 0, rs_req_sent = 0,
       rs_req_sent_bytes = 0, rs_req_resp = None, rs_req_resp_rtt_rate = 0, rs_rtt_rxd_bytes_at_part_req = 0,
       rs_req_data_rtt_rate = 0, rs_eifr = None, rs_previous_eifr = None, rs_fast_rate_rounds = 0,
       rs_very_slow_rate_rounds = 0, rs_hash = [], rs_original_hash = [], rs_random_hash = [], rs_truncated_hash = [],
       rs_expected_proof = [], rs_parts = [], rs_packets = [], rs_hashmap = [], rs_hashmap_height = 0,
       rs_waiting_for_hmu = False, rs_consecutive_completed_height = -1, rs_total_parts = 0, rs_received_count = 0,
       rs_outstanding_parts = 0, rs_window = 4, rs_window_max = 10, rs_window_min = 2, rs_window_flexibility = 4,
       rs_retries_left = MAX_RETRIES, rs_max_retries = MAX_RETRIES, rs_timeout = 0, rs_timeout_factor = 4,
       rs_part_timeout_factor = 4, rs_sender_grace_time = 10, rs_adv_sent = 0, rs_last_activity = 0,
       rs_last_part_sent = 0, rs_sent_parts = 0, rs_request_id = request_id, rs_is_response = is_response,
       rs_max_decompressed_size = AUTO_COMPRESS_MAX_SIZE, rs_auto_compress_option = auto_compress,
       rs_receiver_min_consecutive_height = 0, rs_split = False, rs_segment_index = segment_index,
       rs_total_segments = 1, rs_next_segment = False, rs_metadata = [], rs_has_metadata = False,
       rs_metadata_size = sent_metadata_size, rs_input_bytes = None, rs_assembly_lock = False \<rparr>"

text \<open>\<^verbatim>\<open>prepare_metadata\<close>: the packed metadata behind its length in three bytes.\<close>

definition u24_to_be_bytes :: "nat \<Rightarrow> bytes" where
  "u24_to_be_bytes n = [of_nat (n div 65536), of_nat (n div 256), of_nat n]"

definition prepare_metadata :: "bytes option \<Rightarrow> nat \<Rightarrow> resource \<Rightarrow> string + resource" where
  "prepare_metadata packed sent_metadata_size r =
     (case packed of
        Some packed \<Rightarrow>
          if length packed > METADATA_MAX_SIZE then Inl ''Resource metadata size exceeded''
          else (let metadata = u24_to_be_bytes (length packed) @ packed in
                Inr (r\<lparr>rs_metadata := metadata, rs_metadata_size := length metadata, rs_has_metadata := True\<rparr>))
      | None \<Rightarrow>
          Inr (if sent_metadata_size > 0 then r\<lparr>rs_metadata := [], rs_has_metadata := True\<rparr> else r\<lparr>rs_metadata := []\<rparr>))"

text \<open>
  \<^verbatim>\<open>take_segment\<close> and the file branch of \<^verbatim>\<open>prepare_data\<close>, which reads the same bytes: the first segment
  is shorter by the metadata.
\<close>

definition segment_range :: "nat \<Rightarrow> nat \<Rightarrow> nat \<Rightarrow> nat \<times> nat" where
  "segment_range metadata_size segment_index len =
     (let first_read_size = MAX_EFFICIENT_SIZE - metadata_size;
          (start, n) = (if segment_index = 1 then (0, first_read_size)
                        else (first_read_size + (segment_index - 2) * MAX_EFFICIENT_SIZE, MAX_EFFICIENT_SIZE));
          start = min start len
      in (start, min (start + n) len))"

definition take_segment :: "bytes \<Rightarrow> resource \<Rightarrow> bytes \<times> resource" where
  "take_segment bs r =
     (let r = r\<lparr>rs_total_segments := (rs_total_size r - 1) div MAX_EFFICIENT_SIZE + 1,
                rs_segment_index := max (rs_segment_index r) 1, rs_split := True\<rparr>;
          (start, end) = segment_range (rs_metadata_size r) (rs_segment_index r) (length bs)
      in (byte_range start end bs,
          if rs_segment_index r < rs_total_segments r then r\<lparr>rs_input_bytes := Some bs\<rparr> else r))"

definition select_data :: "resource_data \<Rightarrow> resource \<Rightarrow> bytes \<times> resource" where
  "select_data rd r =
     (let bs = rd_bytes rd;
          r = r\<lparr>rs_total_size := length bs + rs_metadata_size r\<rparr>
      in if rs_total_size r \<le> MAX_EFFICIENT_SIZE
         then (bs, r\<lparr>rs_total_segments := 1, rs_segment_index := 1, rs_split := False\<rparr>)
         else take_segment bs r)"

definition compress_payload :: "resource_env \<Rightarrow> bytes \<Rightarrow> resource \<Rightarrow> string + (bytes \<times> bool)" where
  "compress_payload env d r =
     (let should_compress = (case rs_auto_compress_option r of
            CompressDisabled \<Rightarrow> False
          | CompressEnabled \<Rightarrow> length d \<le> AUTO_COMPRESS_MAX_SIZE
          | CompressLimit limit \<Rightarrow> length d \<le> limit)
      in if should_compress then
           (case re_compress env d of
              None \<Rightarrow> Inl ''compression failed''
            | Some c \<Rightarrow> Inr (if length c < length d then (c, True) else (d, False)))
         else Inr (d, False))"

text \<open>\<^verbatim>\<open>prepare_data\<close>: the result holds the data the hashes cover. The random prefix is an argument.\<close>

definition prepare_data ::
  "resource_env \<Rightarrow> bytes \<Rightarrow> resource_data \<Rightarrow> resource \<Rightarrow> string + (bytes \<times> resource)"
where
  "prepare_data env prefix rd r =
     (case select_data rd r of
        (bs, r) \<Rightarrow>
          (let d = (if rs_has_metadata r then rs_metadata r @ bs else bs);
               r = r\<lparr>rs_initiator := True, rs_uncompressed_size := length d,
                     rs_total_size := (if rs_split r then rs_total_size r else length d)\<rparr>
           in case compress_payload env d r of
                Inl e \<Rightarrow> Inl e
              | Inr (payload, compressed) \<Rightarrow>
                (case re_encrypt env (prefix @ payload) of
                   None \<Rightarrow> Inl ''Encryption on link failed''
                 | Some stream \<Rightarrow>
                   Inr (d, r\<lparr>rs_compressed := compressed, rs_compressed_size := length payload, rs_data := Some stream,
                             rs_encrypted := True, rs_size := length stream,
                             rs_total_parts := (length stream + rs_sdu r - 1) div rs_sdu r\<rparr>))))"

definition salt :: "resource_env \<Rightarrow> bytes \<Rightarrow> bytes \<Rightarrow> bytes option \<Rightarrow> resource \<Rightarrow> resource" where
  "salt env random_hash hashed_data original_hash r =
     (let hash = re_full_hash env (hashed_data @ random_hash) in
      r\<lparr>rs_random_hash := random_hash, rs_hash := hash, rs_truncated_hash := take 16 hash,
        rs_expected_proof := re_full_hash env (hashed_data @ hash),
        rs_original_hash := (case original_hash of Some h \<Rightarrow> h | None \<Rightarrow> hash)\<rparr>)"

definition get_map_hash :: "resource_env \<Rightarrow> bytes \<Rightarrow> bytes \<Rightarrow> bytes" where
  "get_map_hash env random_hash part = take MAPHASH_LEN (re_full_hash env (part @ random_hash))"

text \<open>The parts of a stream.\<close>

definition part_of :: "nat \<Rightarrow> bytes \<Rightarrow> nat \<Rightarrow> bytes" where
  "part_of sdu stream i = byte_range (i * sdu) (min ((i + 1) * sdu) (length stream)) stream"

text \<open>One pass of the map: it fails at the first hash that is among the last \<open>COLLISION_GUARD_SIZE\<close> ones.\<close>

fun map_pass :: "(nat \<Rightarrow> bytes) \<Rightarrow> (bytes \<Rightarrow> bytes) \<Rightarrow> bytes list \<Rightarrow> nat list \<Rightarrow> part_packet list option" where
  "map_pass part hashf guard [] = Some []"
| "map_pass part hashf guard (i # is) =
     (let h = hashf (part i) in
      if h \<in> set guard then None
      else
        (let guard = guard @ [h];
             guard = (if length guard > COLLISION_GUARD_SIZE then tl guard else guard)
         in map_option (Cons \<lparr> pp_map_hash = h, pp_data = part i, pp_sent = False \<rparr>) (map_pass part hashf guard is)))"

text \<open>\<^verbatim>\<open>map_parts\<close>, on the salts the generator draws: \<open>None\<close> when all of them collide.\<close>

fun map_parts :: "resource_env \<Rightarrow> bytes \<Rightarrow> bytes option \<Rightarrow> bytes list \<Rightarrow> resource \<Rightarrow> resource option" where
  "map_parts env hashed_data original_hash [] r = None"
| "map_parts env hashed_data original_hash (random # salts) r =
     (let r = salt env random hashed_data original_hash r;
          stream = the (rs_data r)
      in case map_pass (part_of (rs_sdu r) stream) (get_map_hash env random) [] [0..<rs_total_parts r] of
           None \<Rightarrow> map_parts env hashed_data original_hash salts r
         | Some packets \<Rightarrow>
           Some (r\<lparr>rs_parts := map (Some \<circ> pp_data) packets, rs_hashmap := map pp_map_hash packets,
                   rs_packets := packets\<rparr>))"

definition sdu_of_mtu :: "nat \<Rightarrow> nat" where
  "sdu_of_mtu mtu = mtu - 36"

text \<open>\<^verbatim>\<open>new_internal\<close> for a Resource that sends, without the advertisement.\<close>

definition new_outgoing ::
  "resource_env \<Rightarrow> link_context \<Rightarrow> bytes \<Rightarrow> bytes list \<Rightarrow> resource_data \<Rightarrow> bytes option \<Rightarrow> bytes option \<Rightarrow> real option
   \<Rightarrow> resource \<Rightarrow> string + resource option"
where
  "new_outgoing env ctx prefix salts rd packed_metadata original_hash timeout r =
     (let r = r\<lparr>rs_sdu := sdu_of_mtu (lc_mtu ctx)\<rparr> in
      case prepare_metadata packed_metadata (rs_metadata_size r) r of
        Inl e \<Rightarrow> Inl e
      | Inr r \<Rightarrow>
        (case prepare_data env prefix rd r of
           Inl e \<Rightarrow> Inl e
         | Inr (hashed_data, r) \<Rightarrow>
           (let r = r\<lparr>rs_timeout_factor := lc_traffic_timeout_factor ctx,
                      rs_timeout := (case timeout of Some t \<Rightarrow> t
                        | None \<Rightarrow> (case lc_rtt ctx of None \<Rightarrow> 0 | Some rtt \<Rightarrow> rtt) * lc_traffic_timeout_factor ctx)\<rparr>
            in Inr (map_option
                 (\<lambda>r. r\<lparr>rs_hashmap_height := (rs_total_parts r + HASHMAP_MAX_LEN - 1) div HASHMAP_MAX_LEN\<rparr>)
                 (map_parts env hashed_data original_hash salts r)))))"

section \<open>Advertisement\<close>

record advertisement =
  ad_t :: nat
  ad_d :: nat
  ad_n :: nat
  ad_h :: bytes
  ad_r :: bytes
  ad_o :: bytes
  ad_i :: nat
  ad_l :: nat
  ad_q :: "bytes option"
  ad_f :: u8
  ad_m :: "bytes list"

definition flag_bit :: "nat \<Rightarrow> bool \<Rightarrow> u8" where
  "flag_bit k b = (if b then push_bit k 1 else 0)"

definition new_from_resource :: "resource \<Rightarrow> advertisement" where
  "new_from_resource r =
     (let u = (rs_request_id r \<noteq> None \<and> \<not> rs_is_response r);
          p = (rs_request_id r \<noteq> None \<and> rs_is_response r)
      in \<lparr> ad_t = rs_size r, ad_d = rs_total_size r, ad_n = rs_total_parts r, ad_h = rs_hash r, ad_r = rs_random_hash r,
           ad_o = rs_original_hash r, ad_i = rs_segment_index r, ad_l = rs_total_segments r, ad_q = rs_request_id r,
           ad_f = flag_bit 5 (rs_has_metadata r) OR flag_bit 4 p OR flag_bit 3 u OR flag_bit 2 (rs_split r)
                  OR flag_bit 1 (rs_compressed r) OR flag_bit 0 (rs_encrypted r),
           ad_m = rs_hashmap r \<rparr>)"

text \<open>
  \<^verbatim>\<open>pack\<close> puts one segment of the hash map into the advertisement; \<^verbatim>\<open>unpack\<close> reads the flags back and
  refuses a transfer size over the limit. The MessagePack encoding between the two is not modelled.
\<close>

definition hashmap_segment :: "nat \<Rightarrow> nat \<Rightarrow> bytes list \<Rightarrow> bytes list" where
  "hashmap_segment segment n hashmap =
     byte_range (segment * HASHMAP_MAX_LEN) (min ((segment + 1) * HASHMAP_MAX_LEN) n) hashmap"

definition adv_pack :: "nat \<Rightarrow> advertisement \<Rightarrow> advertisement" where
  "adv_pack segment a = a\<lparr>ad_m := hashmap_segment segment (ad_n a) (ad_m a)\<rparr>"

definition adv_flag :: "nat \<Rightarrow> advertisement \<Rightarrow> bool" where
  "adv_flag k a = bit (ad_f a) k"

definition adv_unpack :: "advertisement \<Rightarrow> string + advertisement" where
  "adv_unpack a = (if ad_t a > MAX_EFFICIENT_SIZE * 3 then Inl ''Invalid transfer size'' else Inr a)"


section \<open>Receiving\<close>

definition hash_groups :: "bytes \<Rightarrow> bytes list" where
  "hash_groups bs = map (\<lambda>i. byte_range (i * MAPHASH_LEN) ((i + 1) * MAPHASH_LEN) bs) [0..<length bs div MAPHASH_LEN]"

text \<open>Copying hashes into the map: each hash that fits, counting those that were unknown.\<close>

fun put_hashes :: "bytes list \<Rightarrow> nat \<Rightarrow> bytes list \<times> nat \<Rightarrow> bytes list \<times> nat" where
  "put_hashes [] idx s = s"
| "put_hashes (h # hs) idx (hashmap, height) =
     put_hashes hs (idx + 1)
       (if idx < length hashmap
        then (hashmap[idx := h], if hashmap ! idx = NO_HASH then height + 1 else height)
        else (hashmap, height))"

definition new_incoming :: "link_context \<Rightarrow> advertisement \<Rightarrow> bytes option \<Rightarrow> bool \<Rightarrow> bool \<Rightarrow> resource" where
  "new_incoming ctx adv request_id cb pcb =
     (let r = empty_resource CompressEnabled (ad_i adv) request_id (adv_flag 4 adv) 0 cb pcb in
      r\<lparr>rs_sdu := sdu_of_mtu (lc_mtu ctx), rs_timeout_factor := lc_traffic_timeout_factor ctx,
        rs_timeout := (case lc_rtt ctx of None \<Rightarrow> 0 | Some rtt \<Rightarrow> rtt) * lc_traffic_timeout_factor ctx\<rparr>)"

text \<open>
  \<^verbatim>\<open>accept\<close>, up to the first request, which it leaves to a thread of its own. The number of parts is
  the sender's.
\<close>

definition accept ::
  "link_context \<Rightarrow> advertisement \<Rightarrow> bytes option \<Rightarrow> bool \<Rightarrow> bool \<Rightarrow> real \<Rightarrow> resource option"
where
  "accept ctx packed request_id cb pcb now =
     (case adv_unpack packed of
        Inl _ \<Rightarrow> None
      | Inr adv \<Rightarrow>
        (let r = new_incoming ctx adv request_id cb pcb;
             n = ad_n adv;
             (hashmap, height) = put_hashes (ad_m adv) 0 (replicate n NO_HASH, 0)
         in Some (r\<lparr>rs_status := RsTransferring, rs_has_metadata := adv_flag 5 adv, rs_size := ad_t adv,
                    rs_total_size := ad_d adv, rs_uncompressed_size := ad_d adv, rs_hash := ad_h adv,
                    rs_original_hash := ad_o adv, rs_random_hash := ad_r adv, rs_encrypted := adv_flag 0 adv,
                    rs_compressed := adv_flag 1 adv, rs_initiator := False, rs_total_parts := n,
                    rs_received_count := 0, rs_outstanding_parts := 0, rs_parts := replicate n None,
                    rs_window := (case lc_last_resource_window ctx of Some w \<Rightarrow> w | None \<Rightarrow> 4), rs_window_max := 10,
                    rs_window_min := 2, rs_window_flexibility := 4, rs_last_activity := now,
                    rs_segment_index := ad_i adv, rs_total_segments := ad_l adv, rs_split := ad_l adv > 1,
                    rs_hashmap := hashmap, rs_hashmap_height := height, rs_waiting_for_hmu := False,
                    rs_consecutive_completed_height := -1, rs_previous_eifr := lc_last_resource_eifr ctx\<rparr>)))"

text \<open>\<^verbatim>\<open>hashmap_update\<close>: whether the next request is due.\<close>

definition hashmap_update :: "resource_env \<Rightarrow> nat \<Rightarrow> bytes \<Rightarrow> resource \<Rightarrow> bool \<times> resource_effect list \<times> resource" where
  "hashmap_update env segment bs r =
     (if rs_status r = RsFailed then (False, [], r)
      else
        (let hs = hash_groups bs;
             (hashmap, height) = put_hashes hs (segment * HASHMAP_MAX_LEN) (rs_hashmap r, rs_hashmap_height r);
             r = r\<lparr>rs_status := RsTransferring, rs_hashmap := hashmap, rs_hashmap_height := height\<rparr>
         in if length hs < 1 then (case cancel env r of (es, r) \<Rightarrow> (False, es, r))
            else (True, [], r\<lparr>rs_waiting_for_hmu := False\<rparr>)))"

definition hashmap_update_packet ::
  "resource_env \<Rightarrow> bytes \<Rightarrow> real \<Rightarrow> resource \<Rightarrow> bool \<times> resource_effect list \<times> resource"
where
  "hashmap_update_packet env plaintext now r =
     (if rs_status r \<noteq> RsFailed \<and> rs_waiting_for_hmu r then
        (let r = r\<lparr>rs_last_activity := now, rs_retries_left := rs_max_retries r\<rparr> in
         if length plaintext > HASH_BYTES then
           (case re_hmu_unpack env (drop HASH_BYTES plaintext) of
              Some (segment, hashmap) \<Rightarrow> hashmap_update env segment hashmap r
            | None \<Rightarrow> (False, [], r))
         else (False, [], r))
      else (False, [], r))"

text \<open>The search for the parts to ask for, from part \<open>pn\<close>: how many, their hashes, and whether a hash is unknown.\<close>

fun search_missing ::
  "bytes option list \<Rightarrow> bytes list \<Rightarrow> nat \<Rightarrow> nat \<Rightarrow> nat \<Rightarrow> nat \<Rightarrow> bytes list \<Rightarrow> nat \<times> bytes list \<times> bool"
where
  "search_missing parts hashmap window 0 pn n hs = (n, hs, False)"
| "search_missing parts hashmap window (Suc left) pn n hs =
     (if pn \<ge> length parts then (n, hs, False)
      else
        (case (if parts ! pn = None then
                 if pn < length hashmap \<and> hashmap ! pn \<noteq> NO_HASH then (n + 1, hs @ [hashmap ! pn], False)
                 else (n, hs, True)
               else (n, hs, False)) of
           (n, hs, exhausted) \<Rightarrow>
             if n \<ge> window \<or> exhausted then (n, hs, exhausted)
             else search_missing parts hashmap window left (pn + 1) n hs))"

definition next_part :: "resource \<Rightarrow> nat" where
  "next_part r = nat (rs_consecutive_completed_height r + 1)"

definition prepare_request_next_data :: "resource \<Rightarrow> bytes option \<times> resource" where
  "prepare_request_next_data r =
     (if rs_status r = RsFailed \<or> rs_waiting_for_hmu r then (None, r)
      else
        (case search_missing (rs_parts r) (rs_hashmap r) (rs_window r) (rs_window r) (next_part r) 0 [] of
           (n, hs, exhausted) \<Rightarrow>
             (let r = r\<lparr>rs_outstanding_parts := n\<rparr>;
                  last_idx = rs_hashmap_height r - 1;
                  known = (exhausted \<and> last_idx < length (rs_hashmap r));
                  hmu_part = [if exhausted then HASHMAP_IS_EXHAUSTED else 0] @ (if known then rs_hashmap r ! last_idx else [])
              in (Some (hmu_part @ rs_hash r @ concat hs), if known then r\<lparr>rs_waiting_for_hmu := True\<rparr> else r))))"

definition record_request_sent :: "nat \<Rightarrow> real \<Rightarrow> resource \<Rightarrow> resource" where
  "record_request_sent raw_len now r =
     r\<lparr>rs_last_activity := now, rs_req_sent := now, rs_req_sent_bytes := raw_len, rs_req_resp := None\<rparr>"

definition request_next :: "resource_env \<Rightarrow> nat \<Rightarrow> real \<Rightarrow> resource \<Rightarrow> resource_effect list \<times> resource" where
  "request_next env raw_len now r =
     (case prepare_request_next_data r of
        (None, r) \<Rightarrow> ([], r)
      | (Some d, r) \<Rightarrow>
        if re_send_ok env then ([SendRequest d], record_request_sent raw_len now r)
        else (case cancel env r of (es, r) \<Rightarrow> (SendRequest d # es, r)))"

definition hashmap_chunks :: "nat \<Rightarrow> nat \<Rightarrow> bytes list \<Rightarrow> bytes list" where
  "hashmap_chunks start count hashmap = take count (drop start hashmap)"

text \<open>The first part after a request: the round-trip time and the request rate.\<close>

definition note_response :: "link_context \<Rightarrow> nat \<Rightarrow> real \<Rightarrow> resource \<Rightarrow> bool \<times> resource" where
  "note_response ctx raw_len now r =
     (if rs_req_resp r \<noteq> None then (False, r)
      else
        (let rtt = now - rs_req_sent r;
             start_watchdog = (rs_rtt r = None);
             r = r\<lparr>rs_req_resp := Some now, rs_part_timeout_factor := 2,
                   rs_rtt := (case rs_rtt r of
                      None \<Rightarrow> lc_rtt ctx
                    | Some current \<Rightarrow>
                      if rtt < current then Some (current - current * 0.05)
                      else if rtt > current then Some (current + current * 0.05) else Some current)\<rparr>;
             r = (if rtt > 0 then
                    (let rate = real (raw_len + rs_req_sent_bytes r) / rtt;
                         r = r\<lparr>rs_req_resp_rtt_rate := rate\<rparr>
                     in if rate > 6250 \<and> rs_fast_rate_rounds r < FAST_RATE_THRESHOLD
                        then r\<lparr>rs_fast_rate_rounds := rs_fast_rate_rounds r + 1,
                               rs_window_max := (if rs_fast_rate_rounds r + 1 = FAST_RATE_THRESHOLD then 75 else rs_window_max r)\<rparr>
                        else r)
                  else r)
         in (start_watchdog, r)))"

text \<open>One part stored at its place; the completed height moves over every part that has come.\<close>

definition store_part :: "nat \<Rightarrow> bytes \<Rightarrow> resource \<Rightarrow> resource" where
  "store_part i part r =
     (let parts = (rs_parts r)[i := Some part];
          h = rs_consecutive_completed_height r;
          h = (if int i = h + 1 then int i else h);
          cp = nat (h + 1)
      in r\<lparr>rs_parts := parts, rs_rtt_rxd_bytes := rs_rtt_rxd_bytes r + length part,
           rs_received_count := rs_received_count r + 1, rs_outstanding_parts := rs_outstanding_parts r - 1,
           rs_consecutive_completed_height := h + int (length (takeWhile (\<lambda>p. p \<noteq> None) (drop cp parts)))\<rparr>)"

fun match_part :: "bytes \<Rightarrow> bytes \<Rightarrow> bytes list \<Rightarrow> nat \<Rightarrow> resource \<Rightarrow> resource_effect list \<times> resource" where
  "match_part part h [] i r = ([], r)"
| "match_part part h (map_hash # hs) i r =
     (if map_hash = h \<and> rs_parts r ! i = None then
        (case match_part part h hs (i + 1) (store_part i part r) of
           (es, r) \<Rightarrow> ((if rs_has_progress_callback r then [RunProgressCallback] else []) @ es, r))
      else match_part part h hs (i + 1) r)"

definition usize_sub :: "nat \<Rightarrow> nat \<Rightarrow> nat" where
  "usize_sub a b = (if b \<le> a then a - b else 2 ^ 64 + a - b)"

text \<open>The window after all the parts asked for have come.\<close>

definition widen_window :: "resource \<Rightarrow> resource" where
  "widen_window r =
     (if rs_window r < rs_window_max r then
        (let r = r\<lparr>rs_window := rs_window r + 1\<rparr> in
         if usize_sub (rs_window r) (rs_window_min r) > rs_window_flexibility r - 1
         then r\<lparr>rs_window_min := rs_window_min r + 1\<rparr> else r)
      else r)"

definition note_rate :: "real \<Rightarrow> resource \<Rightarrow> bool \<times> resource" where
  "note_rate now r =
     (let rtt = now - rs_req_sent r in
      if rs_req_sent r = 0 \<or> rtt = 0 then (False, r)
      else
        (let rate = real (rs_rtt_rxd_bytes r - rs_rtt_rxd_bytes_at_part_req r) / rtt;
             r = r\<lparr>rs_req_data_rtt_rate := rate, rs_rtt_rxd_bytes_at_part_req := rs_rtt_rxd_bytes r\<rparr>;
             r = (if rate > 6250 \<and> rs_fast_rate_rounds r < FAST_RATE_THRESHOLD
                  then r\<lparr>rs_fast_rate_rounds := rs_fast_rate_rounds r + 1,
                         rs_window_max := (if rs_fast_rate_rounds r + 1 = FAST_RATE_THRESHOLD then 75 else rs_window_max r)\<rparr>
                  else r);
             r = (if rs_fast_rate_rounds r = 0 \<and> rate < 250 \<and> rs_very_slow_rate_rounds r < 2
                  then r\<lparr>rs_very_slow_rate_rounds := rs_very_slow_rate_rounds r + 1,
                         rs_window_max := (if rs_very_slow_rate_rounds r + 1 = 2 then 4 else rs_window_max r)\<rparr>
                  else r)
         in (True, r)))"

definition update_eifr :: "link_context \<Rightarrow> resource \<Rightarrow> resource_effect list \<times> resource" where
  "update_eifr ctx r =
     (let rtt = (case rs_rtt r of Some rtt \<Rightarrow> rtt | None \<Rightarrow> (case lc_rtt ctx of Some rtt \<Rightarrow> rtt | None \<Rightarrow> 0));
          rate = (if rs_req_data_rtt_rate r \<noteq> 0 then rs_req_data_rtt_rate r * 8
                  else case rs_previous_eifr r of Some previous \<Rightarrow> previous
                       | None \<Rightarrow> if rtt > 0 then real (lc_establishment_cost ctx) * 8 / rtt else 0)
      in ([SetExpectedRate rate], r\<lparr>rs_eifr := Some rate\<rparr>))"

text \<open>\<^verbatim>\<open>receive_part\<close>: whether the next request is due, and whether to start the watchdog.\<close>

definition receive_part ::
  "resource_env \<Rightarrow> link_context \<Rightarrow> bytes \<Rightarrow> nat \<Rightarrow> real \<Rightarrow> resource \<Rightarrow> (bool \<times> bool) \<times> resource_effect list \<times> resource"
where
  "receive_part env ctx part raw_len now r =
     (case note_response ctx raw_len now (r\<lparr>rs_last_activity := now, rs_retries_left := rs_max_retries r\<rparr>) of
        (start_watchdog, r) \<Rightarrow>
          if rs_status r = RsFailed then ((False, start_watchdog), [], r)
          else
            (let r = r\<lparr>rs_status := RsTransferring\<rparr>;
                 i = next_part r
             in case match_part part (get_map_hash env (rs_random_hash r) part)
                       (hashmap_chunks i (rs_window r) (rs_hashmap r)) i r of
                  (es, r) \<Rightarrow>
                    if rs_received_count r = rs_total_parts r \<and> \<not> rs_assembly_lock r
                    then ((False, start_watchdog), es @ [StartAssembly], r\<lparr>rs_assembly_lock := True, rs_status := RsAssembling\<rparr>)
                    else if rs_outstanding_parts r = 0 then
                      (case note_rate now (widen_window r) of
                         (rated, r) \<Rightarrow>
                           (case (if rated then update_eifr ctx r else ([], r)) of
                              (es', r) \<Rightarrow> ((\<not> rs_waiting_for_hmu r, start_watchdog), es @ es', r)))
                    else ((False, start_watchdog), es, r)))"

section \<open>Serving requests\<close>

text \<open>The parts a request asks for, in the order of the Resource: every part whose hash is in it.\<close>

fun serve_parts :: "bool \<Rightarrow> bytes list \<Rightarrow> part_packet list \<Rightarrow> resource_effect list \<times> nat \<times> part_packet list" where
  "serve_parts carried hs [] = ([], 0, [])"
| "serve_parts carried hs (p # ps) =
     (case serve_parts carried hs ps of
        (es, fresh, ps) \<Rightarrow>
          if pp_map_hash p \<in> set hs then
            if \<not> pp_sent p then (SendPart (pp_data p) # es, fresh + 1, p\<lparr>pp_sent := carried\<rparr> # ps)
            else (ResendPart (pp_data p) # es, fresh, p # ps)
          else (es, fresh, p # ps))"

definition last_position :: "bytes \<Rightarrow> part_packet list \<Rightarrow> nat option" where
  "last_position h ps =
     (let is = filter (\<lambda>i. pp_map_hash (ps ! i) = h) [0..<length ps] in if is = [] then None else Some (last is))"

definition hmu_segment :: "nat \<Rightarrow> nat" where
  "hmu_segment last_index =
     (let part_index = last_index + 1 in
      if part_index mod HASHMAP_MAX_LEN = 0 then part_index div HASHMAP_MAX_LEN else last_index div HASHMAP_MAX_LEN + 1)"

definition finish_request :: "resource_effect list \<Rightarrow> resource \<Rightarrow> resource_effect list \<times> resource" where
  "finish_request es r =
     (let r = (if rs_sent_parts r = length (rs_packets r) then r\<lparr>rs_status := RsAwaitingProof, rs_retries_left := 3\<rparr> else r)
      in (es @ (if rs_has_progress_callback r then [RunProgressCallback] else []), r))"

text \<open>
  \<^verbatim>\<open>request\<close>. The link hands over only requests that are long enough (\<^verbatim>\<open>handle_data_packet\<close>).
\<close>

definition serve_request :: "resource_env \<Rightarrow> bytes \<Rightarrow> real \<Rightarrow> resource \<Rightarrow> resource_effect list \<times> resource" where
  "serve_request env request_data now r =
     (if rs_status r = RsFailed then ([], r)
      else
        (let r = r\<lparr>rs_rtt := (case rs_rtt r of None \<Rightarrow> Some (now - rs_adv_sent r) | Some t \<Rightarrow> Some t),
                   rs_status := RsTransferring, rs_retries_left := rs_max_retries r\<rparr>;
             wants_more_hashmap = (request_data ! 0 = HASHMAP_IS_EXHAUSTED);
             pad = (if wants_more_hashmap then 1 + MAPHASH_LEN else 1);
             map_hashes = hash_groups (drop (pad + HASH_BYTES) request_data)
         in case serve_parts (re_carried env) map_hashes (rs_packets r) of
              (es, fresh, packets) \<Rightarrow>
                (let r = r\<lparr>rs_packets := packets, rs_sent_parts := rs_sent_parts r + fresh\<rparr>;
                     r = (if es = [] then r else r\<lparr>rs_last_activity := now, rs_last_part_sent := now\<rparr>)
                 in if \<not> wants_more_hashmap then finish_request es r
                    else
                      (case last_position (byte_range 1 5 request_data) (rs_packets r) of
                         None \<Rightarrow> (case cancel env r of (es', r) \<Rightarrow> (es @ es', r))
                       | Some last_index \<Rightarrow>
                         (let r = r\<lparr>rs_receiver_min_consecutive_height := (last_index + 1) - (1 + RES_WINDOW_MAX)\<rparr>;
                              segment = hmu_segment last_index
                          in if segment \<ge> rs_hashmap_height r then (es, r)
                             else
                               (let hs = hashmap_segment segment (length (rs_parts r)) (rs_hashmap r);
                                    hmu = rs_hash r @ re_hmu_pack env segment (concat hs)
                                in if re_send_ok env then finish_request (es @ [SendHashmapUpdate hmu]) (r\<lparr>rs_last_activity := now\<rparr>)
                                   else (case cancel env r of
                                           (es', r) \<Rightarrow> finish_request (es @ [SendHashmapUpdate hmu] @ es') r)))))))"


section \<open>Assembling and proving\<close>

definition bounded_decompress :: "resource_env \<Rightarrow> bytes \<Rightarrow> nat \<Rightarrow> bytes option" where
  "bounded_decompress env d max_size =
     (case re_decompress env d of None \<Rightarrow> None | Some out \<Rightarrow> if length out > max_size then None else Some out)"

definition resource_prove :: "resource_env \<Rightarrow> resource \<Rightarrow> resource_effect list \<times> resource" where
  "resource_prove env r =
     (if rs_status r = RsFailed then ([], r)
      else
        (let d = (case rs_data r of Some d \<Rightarrow> d | None \<Rightarrow> []);
             proof_data = rs_hash r @ re_full_hash env (d @ rs_hash r)
         in if re_send_ok env then ([SendProof proof_data], r)
            else (case cancel env r of (es, r) \<Rightarrow> (SendProof proof_data # es, r))))"

text \<open>
  What the metadata leaves of the data: \<open>None\<close> when its length runs past the end, where the source
  panics.
\<close>

definition split_metadata :: "bytes \<Rightarrow> (bytes \<times> bytes) option" where
  "split_metadata d =
     (if length d < 3 then None
      else
        (let n = unat (d ! 0) * 65536 + unat (d ! 1) * 256 + unat (d ! 2) in
         if length d < 3 + n then None else Some (byte_range 3 (3 + n) d, drop (3 + n) d)))"

datatype assembly = Assembled "resource_effect list" resource bytes | AssemblyPanicked

text \<open>
  \<^verbatim>\<open>assemble\<close>, on the contents of the file the segments are collected in, which it appends to and
  removes after the last one.
\<close>

definition assembled_stream :: "resource_env \<Rightarrow> resource \<Rightarrow> bytes" where
  "assembled_stream env r =
     (let stream = concat (map (\<lambda>p. case p of Some bs \<Rightarrow> bs | None \<Rightarrow> []) (rs_parts r));
          d = (if rs_encrypted r then (case re_decrypt env stream of Some d \<Rightarrow> d | None \<Rightarrow> stream) else stream)
      in if length d \<ge> RANDOM_HASH_SIZE then drop RANDOM_HASH_SIZE d else d)"

definition conclude_assembly :: "resource_effect list \<Rightarrow> resource \<Rightarrow> bytes \<Rightarrow> assembly" where
  "conclude_assembly es r stored =
     (if rs_segment_index r = rs_total_segments r
      then Assembled (es @ [ConcludeOnLink] @ (if rs_has_callback r then [RunCallback] else [])) r []
      else Assembled (es @ [ConcludeOnLink]) r stored)"

definition assemble :: "resource_env \<Rightarrow> resource \<Rightarrow> bytes \<Rightarrow> assembly" where
  "assemble env r stored =
     (if rs_status r = RsFailed then Assembled [] r stored
      else
        (let r = r\<lparr>rs_status := RsAssembling\<rparr>;
             d = assembled_stream env r
         in case (if rs_compressed r then bounded_decompress env d (rs_max_decompressed_size r) else Some d) of
              None \<Rightarrow> (case cancel env (r\<lparr>rs_status := RsCorrupt\<rparr>) of (es, r) \<Rightarrow> Assembled es r stored)
            | Some d \<Rightarrow>
              if re_full_hash env (d @ rs_random_hash r) \<noteq> rs_hash r
              then conclude_assembly [] (r\<lparr>rs_status := RsCorrupt\<rparr>) stored
              else
                (case (if rs_has_metadata r \<and> rs_segment_index r = 1
                       then map_option (\<lambda>(m, p). ([StoreMetadata m], p)) (split_metadata d) else Some ([], d)) of
                   None \<Rightarrow> AssemblyPanicked
                 | Some (es, payload) \<Rightarrow>
                   (let stored = stored @ payload in
                    case resource_prove env (r\<lparr>rs_data := Some d, rs_status := RsComplete\<rparr>) of
                      (es', r) \<Rightarrow>
                        conclude_assembly (es @ es')
                          (if rs_split r
                           then r\<lparr>rs_data := (if rs_segment_index r = rs_total_segments r then Some stored else None)\<rparr>
                           else r) stored))))"

text \<open>\<^verbatim>\<open>prepare_next_segment\<close>: whether there is a next segment afterwards; making it may fail.\<close>

definition prepare_next_segment :: "bool \<Rightarrow> resource \<Rightarrow> resource" where
  "prepare_next_segment made r =
     (if rs_next_segment r \<or> rs_segment_index r \<ge> rs_total_segments r then r
      else case rs_input_bytes r of
             None \<Rightarrow> r
           | Some _ \<Rightarrow> r\<lparr>rs_input_bytes := None, rs_next_segment := made\<rparr>)"

definition resource_validate_proof :: "bool \<Rightarrow> bytes \<Rightarrow> resource \<Rightarrow> resource_effect list \<times> resource" where
  "resource_validate_proof made proof_data r =
     (if rs_status r \<noteq> RsFailed \<and> length proof_data = HASH_BYTES * 2 \<and> drop HASH_BYTES proof_data = rs_expected_proof r then
        (let r = r\<lparr>rs_status := RsComplete\<rparr>;
             cb = (if rs_has_callback r then [RunCallback] else [])
         in if rs_segment_index r = rs_total_segments r then (ConcludeOnLink # cb, r)
            else
              (let r = prepare_next_segment made r in
               if rs_next_segment r then ([ConcludeOnLink, AdvertiseNextSegment], r)
               else (ConcludeOnLink # cb, r\<lparr>rs_status := RsFailed\<rparr>)))
      else ([], r))"

section \<open>Progress\<close>

definition get_progress :: "resource \<Rightarrow> real" where
  "get_progress r =
     (if rs_status r = RsComplete \<and> rs_segment_index r = rs_total_segments r then 1
      else
        (let done_parts = real (if rs_initiator r then rs_sent_parts r else rs_received_count r);
             (processed, all_parts) =
               (if \<not> rs_split r then (done_parts, real (rs_total_parts r))
                else
                  (let per_segment = real_of_int \<lceil>real MAX_EFFICIENT_SIZE / real (rs_sdu r)\<rceil>;
                       before = real (rs_segment_index r - 1) * per_segment;
                       factor = (if real (rs_total_parts r) < per_segment then per_segment / real (rs_total_parts r) else 1)
                   in (before + done_parts * factor, real (rs_total_segments r) * per_segment)))
         in min (processed / all_parts) 1))"

definition get_segment_progress :: "resource \<Rightarrow> real" where
  "get_segment_progress r =
     (if rs_status r = RsComplete \<and> rs_segment_index r = rs_total_segments r then 1
      else min (real (if rs_initiator r then rs_sent_parts r else rs_received_count r) / real (rs_total_parts r)) 1)"

section \<open>Advertising and the watchdog\<close>

definition ensure_link :: "resource_env \<Rightarrow> resource \<Rightarrow> bool \<times> resource_effect list \<times> resource" where
  "ensure_link env r =
     (if re_link_active env then (True, [], r) else (case cancel env r of (es, r) \<Rightarrow> (False, es, r)))"

text \<open>
  \<^verbatim>\<open>advertise_job\<close>, one turn of it: while another Resource is on the link it stays queued (\<open>None\<close>); the
  result says whether the advertisement went out.
\<close>

definition advertise_turn ::
  "resource_env \<Rightarrow> bool \<Rightarrow> real \<Rightarrow> resource \<Rightarrow> bool option \<times> resource_effect list \<times> resource"
where
  "advertise_turn env ready now r =
     (if \<not> ready then (None, [], r\<lparr>rs_status := RsQueued\<rparr>)
      else
        (case ensure_link env r of
           (False, es, r) \<Rightarrow> (Some False, es, r)
         | (True, _, r) \<Rightarrow>
           if re_send_ok env
           then (Some True, [SendAdvertisement, RegisterOutgoing],
                 r\<lparr>rs_last_activity := now, rs_adv_sent := now, rs_rtt := None, rs_status := RsAdvertised,
                   rs_retries_left := MAX_ADV_RETRIES\<rparr>)
           else (case cancel env r of (es, r) \<Rightarrow> (Some False, SendAdvertisement # es, r))))"

text \<open>
  A quotient of \<^verbatim>\<open>f64\<close> by zero is infinite or not a number: \<open>None\<close>. Sums and products with one are so too, no comparison with
  zero finds one negative, and \<^verbatim>\<open>min\<close> with a number is the number.
\<close>

type_synonym f64 = "real option"

definition f64_div :: "real \<Rightarrow> real \<Rightarrow> f64" where
  "f64_div x y = (if y = 0 then None else Some (x / y))"

definition f64_negative :: "f64 \<Rightarrow> bool" where
  "f64_negative x = (case x of None \<Rightarrow> False | Some v \<Rightarrow> v < 0)"

definition expected_hmu_wait_remaining :: "bool \<Rightarrow> nat \<Rightarrow> nat \<Rightarrow> real \<Rightarrow> f64" where
  "expected_hmu_wait_remaining waiting_for_hmu outstanding_parts sdu eifr =
     (if waiting_for_hmu \<or> outstanding_parts = 0 then f64_div (real sdu * 8 * 3.5) eifr else Some 0)"

definition transferring_sleep_time ::
  "real \<Rightarrow> real \<Rightarrow> f64 \<Rightarrow> f64 \<Rightarrow> real \<Rightarrow> nat \<Rightarrow> real \<Rightarrow> real \<Rightarrow> real \<Rightarrow> f64"
where
  "transferring_sleep_time last_activity part_timeout_factor tof_remaining hmu_wait_remaining rate sdu eifr extra_wait now =
     (if rate \<noteq> 0
      then Option.bind tof_remaining (\<lambda>t. map_option
             (\<lambda>w. last_activity + part_timeout_factor * t + w + 0.25 + extra_wait - now) hmu_wait_remaining)
      else map_option (\<lambda>x. last_activity + part_timeout_factor * x + 0.25 + extra_wait - now) (f64_div (3 * real sdu) eifr))"

definition narrow_window :: "resource \<Rightarrow> resource" where
  "narrow_window r =
     (if rs_window r > rs_window_min r then
        (let r = r\<lparr>rs_window := rs_window r - 1\<rparr> in
         if rs_window_max r > rs_window_min r then
           (let r = r\<lparr>rs_window_max := rs_window_max r - 1\<rparr> in
            if usize_sub (rs_window_max r) (rs_window r) > rs_window_flexibility r - 1
            then r\<lparr>rs_window_max := rs_window_max r - 1\<rparr> else r)
         else r)
      else r)"

definition send_pending :: "resource_env \<Rightarrow> nat \<Rightarrow> real \<Rightarrow> resource_effect \<Rightarrow> resource \<Rightarrow> resource_effect list \<times> resource" where
  "send_pending env raw_len now e r =
     (if re_send_ok env then ([e], record_request_sent raw_len now r)
      else (case cancel env r of (es, r) \<Rightarrow> (e # es, r)))"

text \<open>
  One turn of the watchdog on a link that is neither closed nor stale (on such a link it cancels and
  stops), by the state of the transfer: the time until it has to act.
\<close>

definition watchdog_advertised ::
  "resource_env \<Rightarrow> nat \<Rightarrow> real \<Rightarrow> resource \<Rightarrow> f64 \<times> resource_effect list \<times> resource"
where
  "watchdog_advertised env raw_len now r =
     (let st = rs_adv_sent r + rs_timeout r + 1 - now in
      if st < 0 then
        if rs_retries_left r = 0 then (case cancel env r of (es, r) \<Rightarrow> (Some 0.001, es, r))
        else (case send_pending env raw_len now SendAdvertisement
                (r\<lparr>rs_retries_left := rs_retries_left r - 1, rs_last_activity := now, rs_adv_sent := now\<rparr>) of
                (es, r) \<Rightarrow> (Some 0.001, es, r))
      else (Some st, [], r))"

definition watchdog_receiving ::
  "resource_env \<Rightarrow> link_context \<Rightarrow> nat \<Rightarrow> real \<Rightarrow> resource \<Rightarrow> f64 \<times> resource_effect list \<times> resource"
where
  "watchdog_receiving env ctx raw_len now r =
     (case update_eifr ctx r of
        (es, r) \<Rightarrow>
          (let eifr = (case rs_eifr r of Some e \<Rightarrow> e | None \<Rightarrow> 1);
               extra_wait = real (rs_max_retries r - rs_retries_left r) * 0.5;
               st = transferring_sleep_time (rs_last_activity r) (rs_part_timeout_factor r)
                      (f64_div (real (rs_outstanding_parts r) * real (rs_sdu r) * 8) eifr)
                      (expected_hmu_wait_remaining (rs_waiting_for_hmu r) (rs_outstanding_parts r) (rs_sdu r) eifr)
                      (rs_req_resp_rtt_rate r) (rs_sdu r) eifr extra_wait now
           in if f64_negative st then
                if rs_retries_left r > 0 then
                  (let r = narrow_window r;
                       r = r\<lparr>rs_retries_left := rs_retries_left r - 1, rs_waiting_for_hmu := False\<rparr>
                   in case prepare_request_next_data r of
                        (None, r) \<Rightarrow> (Some 0.001, es, r)
                      | (Some d, r) \<Rightarrow>
                        (case send_pending env raw_len now (SendRequest d) r of (es', r) \<Rightarrow> (Some 0.001, es @ es', r)))
                else (case cancel env r of (es', r) \<Rightarrow> (Some 0.001, es @ es', r))
              else (st, es, r)))"

definition max_extra_wait :: "nat \<Rightarrow> real" where
  "max_extra_wait n = sum_list (map (\<lambda>x. real (x + 1) * 0.5) [0..<n])"

definition watchdog_sending ::
  "resource_env \<Rightarrow> real \<Rightarrow> resource \<Rightarrow> f64 \<times> resource_effect list \<times> resource"
where
  "watchdog_sending env now r =
     (let max_wait = (case rs_rtt r of Some t \<Rightarrow> t | None \<Rightarrow> 0) * rs_timeout_factor r * real (rs_max_retries r)
            + rs_sender_grace_time r + max_extra_wait (rs_max_retries r);
          st = rs_last_activity r + max_wait - now
      in if st < 0 then (case cancel env r of (es, r) \<Rightarrow> (Some 0.001, es, r)) else (Some st, [], r))"

definition watchdog_awaiting_proof ::
  "resource_env \<Rightarrow> real \<Rightarrow> resource \<Rightarrow> f64 \<times> resource_effect list \<times> resource"
where
  "watchdog_awaiting_proof env now r =
     (let r = r\<lparr>rs_timeout_factor := 3\<rparr>;
          st = rs_last_part_sent r + ((case rs_rtt r of Some t \<Rightarrow> t | None \<Rightarrow> 0) * rs_timeout_factor r + rs_sender_grace_time r) - now
      in if st < 0 then
           if rs_retries_left r = 0 then (case cancel env r of (es, r) \<Rightarrow> (Some 0.001, es, r))
           else (Some 0.001, [AskCache (rs_hash r @ rs_expected_proof r)],
                 r\<lparr>rs_retries_left := rs_retries_left r - 1, rs_last_part_sent := now\<rparr>)
         else (Some st, [], r))"

text \<open>The turn itself: \<open>None\<close> when the watchdog stops, else how long it sleeps, at most \<^verbatim>\<open>WATCHDOG_MAX_SLEEP\<close>.\<close>

abbreviation (input) WATCHDOG_MAX_SLEEP :: real where "WATCHDOG_MAX_SLEEP \<equiv> 1"

definition watchdog_sleep :: "f64 \<Rightarrow> real" where
  "watchdog_sleep st = (case st of None \<Rightarrow> WATCHDOG_MAX_SLEEP | Some x \<Rightarrow> min x WATCHDOG_MAX_SLEEP)"

definition watchdog_turn ::
  "resource_env \<Rightarrow> link_context \<Rightarrow> nat \<Rightarrow> real \<Rightarrow> resource \<Rightarrow> real option \<times> resource_effect list \<times> resource"
where
  "watchdog_turn env ctx raw_len now r =
     (if status_u8 (rs_status r) \<ge> status_u8 RsAssembling then (None, [], r)
      else
        (case rs_status r of
           RsAdvertised \<Rightarrow> apfst (\<lambda>st. Some (watchdog_sleep st)) (watchdog_advertised env raw_len now r)
         | RsTransferring \<Rightarrow>
             apfst (\<lambda>st. Some (watchdog_sleep st))
               (if rs_initiator r then watchdog_sending env now r else watchdog_receiving env ctx raw_len now r)
         | RsAwaitingProof \<Rightarrow> apfst (\<lambda>st. Some (watchdog_sleep st)) (watchdog_awaiting_proof env now r)
         | _ \<Rightarrow> (None, [], r)))"

end
