(* ===== verification/Link.thy ===== *)
theory Link
  imports Announce Resource
begin

text \<open>
  Links (\<^verbatim>\<open>link.rs\<close>): the handshake of two ephemeral key pairs, the encrypted channel it leaves, requests and
  responses over it, the identification of the initiator, keepalives, and the watchdog that closes a link nothing comes
  in on.

  A link lives in an actor that takes one message at a time; every message is one operation here. The record has
  the fields of \<^verbatim>\<open>Link\<close> that its operations read or write. Packets it sends, callbacks it runs and
  work it hands to threads are effects. An environment holds the cryptography, the clock, the MessagePack
  codecs, the outcome of sending, and what the Resources need; random keys are arguments.
\<close>

abbreviation (input) STATE_PENDING :: u8 where "STATE_PENDING \<equiv> 0x00"
abbreviation (input) STATE_HANDSHAKE :: u8 where "STATE_HANDSHAKE \<equiv> 0x01"
abbreviation (input) STATE_ACTIVE :: u8 where "STATE_ACTIVE \<equiv> 0x02"
abbreviation (input) STATE_STALE :: u8 where "STATE_STALE \<equiv> 0x03"
abbreviation (input) STATE_CLOSED :: u8 where "STATE_CLOSED \<equiv> 0x04"
abbreviation (input) REASON_TIMEOUT :: u8 where "REASON_TIMEOUT \<equiv> 0x01"
abbreviation (input) REASON_INITIATOR_CLOSED :: u8 where "REASON_INITIATOR_CLOSED \<equiv> 0x02"
abbreviation (input) REASON_DESTINATION_CLOSED :: u8 where "REASON_DESTINATION_CLOSED \<equiv> 0x03"
abbreviation (input) ACCEPT_NONE :: u8 where "ACCEPT_NONE \<equiv> 0x00"
abbreviation (input) ACCEPT_APP :: u8 where "ACCEPT_APP \<equiv> 0x01"
abbreviation (input) ACCEPT_ALL :: u8 where "ACCEPT_ALL \<equiv> 0x02"
abbreviation (input) ALLOW_NONE :: u8 where "ALLOW_NONE \<equiv> 0x00"
abbreviation (input) ALLOW_ALL :: u8 where "ALLOW_ALL \<equiv> 0x01"
abbreviation (input) ALLOW_LIST :: u8 where "ALLOW_LIST \<equiv> 0x02"
abbreviation (input) LINK_PER_HOP :: real where "LINK_PER_HOP \<equiv> 6"
abbreviation (input) KEEPALIVE_MAX_RTT :: real where "KEEPALIVE_MAX_RTT \<equiv> 7 / 4"
abbreviation (input) KEEPALIVE_MAX :: real where "KEEPALIVE_MAX \<equiv> 360"
abbreviation (input) KEEPALIVE_MIN :: real where "KEEPALIVE_MIN \<equiv> 5"
abbreviation (input) STALE_FACTOR :: real where "STALE_FACTOR \<equiv> 2"
abbreviation (input) STALE_GRACE :: real where "STALE_GRACE \<equiv> 5"
abbreviation (input) RESPONSE_MAX_GRACE_TIME :: real where "RESPONSE_MAX_GRACE_TIME \<equiv> 10"
abbreviation (input) RESOURCE_ADV :: u8 where "RESOURCE_ADV \<equiv> 0x02"
abbreviation (input) RESOURCE_HMU :: u8 where "RESOURCE_HMU \<equiv> 0x04"
abbreviation (input) CTX_REQUEST :: u8 where "CTX_REQUEST \<equiv> 0x09"
abbreviation (input) CTX_RESPONSE :: u8 where "CTX_RESPONSE \<equiv> 0x0A"
abbreviation (input) LINKCLOSE :: u8 where "LINKCLOSE \<equiv> 0xFC"
abbreviation (input) LRRTT :: u8 where "LRRTT \<equiv> 0xFE"
abbreviation (input) LINK_MDU :: nat where "LINK_MDU \<equiv> 431"

section \<open>State\<close>

datatype request_status = ReqFailed | ReqSent | ReqDelivered | ReqReceiving | ReqReady

text \<open>A callback of a request is named by a number.\<close>

record pending_request =
  pr_request_id :: bytes
  pr_sent_at :: real
  pr_timeout :: real
  pr_status :: request_status
  pr_started_at :: "real option"
  pr_progress :: real
  pr_response_size :: "nat option"
  pr_response_transfer_size :: "nat option"
  pr_max_response_size :: "nat option"
  pr_response_clock_started :: "real option"
  pr_receiving_response :: bool
  pr_response_callback :: "nat option"
  pr_failed_callback :: "nat option"
  pr_progress_callback :: "nat option"

text \<open>A request handler of the destination, as the link uses it.\<close>

record request_handler =
  rh_path :: string
  rh_allow_policy :: u8
  rh_allowed_list :: "bytes list option"
  rh_callback :: bool
  rh_proven_callback :: bool
  rh_auto_compress :: bool

record link =
  ln_link_id :: bytes
  ln_destination :: destination
  ln_request_handlers :: "(bytes \<times> request_handler) list"
  ln_max_request_size :: "nat option"
  ln_state :: u8
  ln_status :: u8
  ln_teardown_reason :: u8
  ln_mode :: u8
  ln_initiator :: bool
  ln_mtu :: nat
  ln_mdu :: nat
  ln_rtt :: "real option"
  ln_activated_at :: "nat option"
  ln_request_time :: "real option"
  ln_last_inbound :: nat
  ln_last_outbound :: nat
  ln_last_keepalive :: nat
  ln_last_proof :: nat
  ln_last_data :: nat
  ln_rx :: nat
  ln_rxbytes :: nat
  ln_establishment_cost :: nat
  ln_expected_hops :: "nat option"
  ln_expected_rate :: "real option"
  ln_prv_bytes :: "bytes option"
  ln_pub_bytes :: "bytes option"
  ln_sig_prv_bytes :: "bytes option"
  ln_sig_pub_bytes :: "bytes option"
  ln_peer_pub_bytes :: "bytes option"
  ln_peer_sig_pub_bytes :: "bytes option"
  ln_shared_key :: "bytes option"
  ln_derived_key :: "bytes option"
  ln_token :: "token option"
  ln_remote_identity :: "identity option"
  ln_cb_established :: bool
  ln_cb_closed :: bool
  ln_cb_recovered :: bool
  ln_cb_packet :: bool
  ln_cb_resource :: bool
  ln_cb_resource_started :: bool
  ln_cb_resource_concluded :: bool
  ln_cb_identified :: bool
  ln_resource_strategy :: u8
  ln_outgoing :: "resource list"
  ln_incoming :: "resource list"
  ln_pending_requests :: "pending_request list"
  ln_last_resource_window :: "nat option"
  ln_last_resource_eifr :: "real option"
  ln_attached_interface :: "string option"
  ln_traffic_timeout_factor :: real
  ln_keepalive_timeout_factor :: real
  ln_keepalive :: real
  ln_stale_time :: real
  ln_initiator_keepalive :: "real option"
  ln_stale_since :: "nat option"
  ln_stale_grace :: real
  ln_establishment_timeout :: real
  ln_watchdog_lock :: bool
  ln_pending_remote_identified :: bool
  ln_early_packets :: "(bytes \<times> packet) list"

text \<open>
  The environment of one message: cryptography, signing under a private key, the initialisation vector,
  the clock, whether a packet can be sent and a frame be put on an interface, MessagePack, the Resources'
  environment, and whether a new Resource can be accepted.
\<close>

record link_env =
  le_crypto :: crypto
  le_sign :: "bytes \<Rightarrow> bytes \<Rightarrow> bytes"
  le_iv :: bytes
  le_now :: real
  le_send_ok :: bool
  le_dispatch_ok :: bool
  le_pack_rtt :: "real \<Rightarrow> bytes"
  le_read_rtt :: "bytes \<Rightarrow> real option"
  le_pack_request :: "real \<Rightarrow> bytes \<Rightarrow> bytes \<Rightarrow> string + bytes"
  le_read_request :: "bytes \<Rightarrow> (real \<times> bytes \<times> bytes) option"
  le_pack_response :: "bytes \<Rightarrow> bytes \<Rightarrow> string + bytes"
  le_read_response :: "bytes \<Rightarrow> (bytes \<times> bytes) option"
  le_read_adv :: "bytes \<Rightarrow> advertisement option"
  le_resource :: resource_env

datatype link_effect =
    SendLinkPacket u8 u8 bytes
  | Dispatch string bytes
  | RegisterLink
  | UnregisterLink
  | RemoveLinkEntry
  | RunEstablished
  | RunClosed
  | RunRecovered
  | RunIdentified identity
  | RunPacket bytes
  | RunHandler bytes bytes bytes "identity option"
  | RunResponse nat bytes
  | RunFailed nat bytes
  | RunProgress nat bytes real
  | AskApp advertisement
  | RejectAdvertisement bytes
  | ResourceStarted bytes
  | OnResource bytes resource_effect
  | ResourceRequestNext bytes
  | ResourceStartWatchdog bytes
  | ResourceServe bytes bytes
  | ResourceCancelIncoming bytes
  | ResourceCancelled bytes
  | ResourceProgress bytes
  | ResourceRejected bytes
  | ResourceProof bytes bytes
  | CancelResources "bytes list"
  | SendAsResource bytes bytes bool

type_synonym link_result = "(error + unit) \<times> link_effect list \<times> link"

definition current_time :: "link_env \<Rightarrow> nat" where
  "current_time E = nat \<lfloor>le_now E\<rfloor>"

definition as_u64 :: "real \<Rightarrow> nat" where
  "as_u64 x = nat \<lfloor>x\<rfloor>"

section \<open>Construction\<close>

definition keepalive_for_rtt :: "real \<Rightarrow> real" where
  "keepalive_for_rtt rtt = max (min (rtt * (KEEPALIVE_MAX / KEEPALIVE_MAX_RTT)) KEEPALIVE_MAX) KEEPALIVE_MIN"

definition update_keepalive :: "link \<Rightarrow> link" where
  "update_keepalive l =
     (case ln_rtt l of
        None \<Rightarrow> l
      | Some rtt \<Rightarrow> l\<lparr>ln_keepalive := keepalive_for_rtt rtt, ln_stale_time := keepalive_for_rtt rtt * STALE_FACTOR\<rparr>)"

text \<open>The subtractions are those of \<^verbatim>\<open>usize\<close>: they wrap around when the MTU is too small.\<close>

definition mdu_of :: "nat \<Rightarrow> nat" where
  "mdu_of mtu = usize_sub (usize_sub (usize_sub (usize_sub mtu 1) 19) 48 div 16 * 16) 1"

definition update_mdu :: "link \<Rightarrow> link" where
  "update_mdu l = l\<lparr>ln_mdu := mdu_of (ln_mtu l)\<rparr>"

definition new_link :: "link_env \<Rightarrow> bytes \<Rightarrow> destination \<Rightarrow> (bytes \<times> request_handler) list \<Rightarrow> nat option \<Rightarrow> u8 \<Rightarrow> bool \<Rightarrow> link" where
  "new_link E link_id dest handlers max_request mode initiator =
     \<lparr> ln_link_id = link_id, ln_destination = dest, ln_request_handlers = handlers, ln_max_request_size = max_request,
       ln_state = STATE_PENDING, ln_status = 0, ln_teardown_reason = 0, ln_mode = mode, ln_initiator = initiator,
       ln_mtu = MTU, ln_mdu = LINK_MDU, ln_rtt = None, ln_activated_at = None, ln_request_time = Some (le_now E),
       ln_last_inbound = current_time E, ln_last_outbound = current_time E, ln_last_keepalive = 0, ln_last_proof = 0,
       ln_last_data = 0, ln_rx = 0, ln_rxbytes = 0, ln_establishment_cost = 0, ln_expected_hops = None,
       ln_expected_rate = None, ln_prv_bytes = None, ln_pub_bytes = None, ln_sig_prv_bytes = None,
       ln_sig_pub_bytes = None, ln_peer_pub_bytes = None, ln_peer_sig_pub_bytes = None, ln_shared_key = None,
       ln_derived_key = None, ln_token = None, ln_remote_identity = None, ln_cb_established = False,
       ln_cb_closed = False, ln_cb_recovered = False, ln_cb_packet = False, ln_cb_resource = False,
       ln_cb_resource_started = False, ln_cb_resource_concluded = False, ln_cb_identified = False, ln_resource_strategy = ACCEPT_NONE, ln_outgoing = [],
       ln_incoming = [], ln_pending_requests = [], ln_last_resource_window = None, ln_last_resource_eifr = None,
       ln_attached_interface = None, ln_traffic_timeout_factor = 6, ln_keepalive_timeout_factor = 4,
       ln_keepalive = KEEPALIVE_MAX, ln_stale_time = STALE_FACTOR * KEEPALIVE_MAX, ln_initiator_keepalive = None,
       ln_stale_since = None, ln_stale_grace = STALE_GRACE, ln_establishment_timeout = LINK_PER_HOP,
       ln_watchdog_lock = False, ln_pending_remote_identified = False, ln_early_packets = [] \<rparr>"

definition new_outbound :: "link_env \<Rightarrow> bytes \<Rightarrow> destination \<Rightarrow> u8 \<Rightarrow> link" where
  "new_outbound E link_id dest mode = new_link E link_id dest [] None mode True"

definition new_inbound :: "link_env \<Rightarrow> bytes \<Rightarrow> destination \<Rightarrow> (bytes \<times> request_handler) list \<Rightarrow> nat option \<Rightarrow> link" where
  "new_inbound E link_id dest handlers max_request = new_link E link_id dest handlers max_request MODE_AES256_CBC False"

definition had_outbound :: "link_env \<Rightarrow> bool \<Rightarrow> link \<Rightarrow> link" where
  "had_outbound E is_keepalive l =
     (let l = l\<lparr>ln_last_outbound := current_time E\<rparr> in
      if is_keepalive then l\<lparr>ln_last_keepalive := current_time E\<rparr> else l\<lparr>ln_last_data := current_time E\<rparr>)"

definition had_inbound :: "link_env \<Rightarrow> bool \<Rightarrow> link \<Rightarrow> link" where
  "had_inbound E is_data l =
     (let l = l\<lparr>ln_last_inbound := current_time E\<rparr> in if is_data then l\<lparr>ln_last_data := current_time E\<rparr> else l)"

section \<open>Keys\<close>

definition load_peer :: "bytes \<Rightarrow> bytes \<Rightarrow> link \<Rightarrow> (error + unit) \<times> link" where
  "load_peer peer_pub peer_sig_pub l =
     (if length peer_pub \<noteq> 32 then (Inl (Err ''Invalid peer public key length''), l)
      else if length peer_sig_pub \<noteq> 32 then (Inl (Err ''Invalid peer signing public key length''), l)
      else (Inr (), l\<lparr>ln_peer_pub_bytes := Some peer_pub, ln_peer_sig_pub_bytes := Some peer_sig_pub\<rparr>))"

text \<open>HKDF with the link id as salt; a shorter key is the beginning of a longer one.\<close>

definition derive_key_hkdf :: "crypto \<Rightarrow> bytes \<Rightarrow> bytes \<Rightarrow> nat \<Rightarrow> bytes" where
  "derive_key_hkdf c link_id shared_key len = take len (c_hkdf c link_id shared_key)"

definition handshake :: "crypto \<Rightarrow> link \<Rightarrow> (error + unit) \<times> link" where
  "handshake c l =
     (if ln_state l \<noteq> STATE_PENDING then (Inl (Err ''Invalid link state for handshake''), l)
      else case (ln_prv_bytes l, ln_peer_pub_bytes l) of
        (Some prv, Some peer_pub) \<Rightarrow>
          (let l = l\<lparr>ln_state := STATE_HANDSHAKE\<rparr> in
           if length prv \<noteq> 32 then (Inl (Err ''Invalid private key length''), l)
           else if length peer_pub \<noteq> 32 then (Inl (Err ''Invalid peer public key length''), l)
           else
             (let shared = c_dh c prv peer_pub;
                  l = l\<lparr>ln_shared_key := Some shared\<rparr>
              in if ln_mode l \<noteq> MODE_AES128_CBC \<and> ln_mode l \<noteq> MODE_AES256_CBC then (Inl (Err ''Invalid link mode''), l)
                 else
                   (let key = derive_key_hkdf c (ln_link_id l) shared (if ln_mode l = MODE_AES128_CBC then 32 else 64);
                        l = l\<lparr>ln_derived_key := Some key\<rparr>
                    in case Token_new key of
                         Inl e \<Rightarrow> (Inl e, l)
                       | Inr t \<Rightarrow> (Inr (), l\<lparr>ln_token := Some t\<rparr>))))
      | _ \<Rightarrow> (Inl (Err ''Missing keys for handshake''), l))"

definition link_encrypt :: "link_env \<Rightarrow> link \<Rightarrow> bytes \<Rightarrow> error + bytes" where
  "link_encrypt E l plaintext =
     (case ln_derived_key l of
        None \<Rightarrow> Inl (Err ''Link not properly established for encryption'')
      | Some key \<Rightarrow>
        (case Token_new key of Inl e \<Rightarrow> Inl e | Inr t \<Rightarrow> Token_encrypt (le_crypto E) (le_iv E) t plaintext))"

definition link_decrypt :: "link_env \<Rightarrow> link \<Rightarrow> bytes \<Rightarrow> error + bytes" where
  "link_decrypt E l ciphertext =
     (case ln_derived_key l of
        None \<Rightarrow> Inl (Err ''Link not properly established for decryption'')
      | Some key \<Rightarrow>
        (case Token_new key of Inl e \<Rightarrow> Inl e | Inr t \<Rightarrow> Token_decrypt (le_crypto E) t ciphertext))"

definition link_sign :: "link_env \<Rightarrow> link \<Rightarrow> bytes \<Rightarrow> error + bytes" where
  "link_sign E l d =
     (case (ln_sig_prv_bytes l, ln_sig_pub_bytes l) of
        (Some prv, Some pub) \<Rightarrow>
          if length prv \<noteq> 32 \<or> length pub \<noteq> 32 then Inl (Err ''Invalid signing key lengths'')
          else Inr (le_sign E prv d)
      | _ \<Rightarrow> Inl (Err ''Signing key not available''))"

definition link_validate :: "crypto \<Rightarrow> link \<Rightarrow> bytes \<Rightarrow> bytes \<Rightarrow> error + bool" where
  "link_validate c l signature d =
     (if length signature \<noteq> 64 then Inr False
      else case ln_peer_sig_pub_bytes l of
        None \<Rightarrow> Inl (Err ''Peer signing key not available'')
      | Some k \<Rightarrow>
        if length k \<noteq> 32 then Inr False
        else if \<not> c_ed_key_ok c k then Inl (Err ''Invalid public key'')
        else Inr (c_ed_verify c k d signature))"

section \<open>Closing\<close>

definition fail_request :: "pending_request \<Rightarrow> link_effect list" where
  "fail_request p = (case pr_failed_callback p of None \<Rightarrow> [] | Some cb \<Rightarrow> [RunFailed cb (pr_request_id p)])"

definition link_closed :: "link \<Rightarrow> link_effect list \<times> link" where
  "link_closed l =
     (let pending = ln_pending_requests l;
          in_flight = map rs_hash (ln_incoming l) @ map rs_hash (ln_outgoing l)
      in ((if in_flight = [] then [] else [CancelResources in_flight]) @ concat (map fail_request pending)
          @ (if ln_cb_closed l then [RunClosed] else []),
          l\<lparr>ln_pending_requests := [], ln_prv_bytes := None, ln_pub_bytes := None, ln_sig_prv_bytes := None,
            ln_sig_pub_bytes := None, ln_shared_key := None, ln_derived_key := None, ln_token := None\<rparr>))"

text \<open>The raw frame of a packet that the link builds by hand.\<close>

definition link_frame :: "link \<Rightarrow> u8 \<Rightarrow> bytes \<Rightarrow> bytes" where
  "link_frame l context ciphertext = [push_bit 2 (dest_type_u8 Link), 0] @ ln_link_id l @ [context] @ ciphertext"

definition teardown :: "link_env \<Rightarrow> link \<Rightarrow> link_effect list \<times> link" where
  "teardown E l =
     (let (es, l) =
            (if ln_state l \<noteq> STATE_CLOSED \<and> ln_state l \<noteq> STATE_PENDING then
               ((case (link_encrypt E l (ln_link_id l), ln_attached_interface l) of
                   (Inr ct, Some iface) \<Rightarrow> [Dispatch iface (link_frame l LINKCLOSE ct)]
                 | _ \<Rightarrow> []), had_outbound E False l)
             else ([], l));
          l = l\<lparr>ln_state := STATE_CLOSED, ln_status := STATE_CLOSED\<rparr>;
          l = (if ln_teardown_reason l \<noteq> REASON_TIMEOUT
               then l\<lparr>ln_teardown_reason := (if ln_initiator l then REASON_INITIATOR_CLOSED else REASON_DESTINATION_CLOSED)\<rparr>
               else l);
          (es', l) = link_closed l
      in (es @ [UnregisterLink, RemoveLinkEntry] @ es', l))"

definition teardown_packet :: "bytes \<Rightarrow> link \<Rightarrow> link_effect list \<times> link" where
  "teardown_packet plaintext l =
     (if plaintext \<noteq> ln_link_id l \<or> ln_state l = STATE_CLOSED then ([], l)
      else
        (let l = l\<lparr>ln_state := STATE_CLOSED, ln_status := STATE_CLOSED,
                   ln_teardown_reason := (if ln_initiator l then REASON_DESTINATION_CLOSED else REASON_INITIATOR_CLOSED)\<rparr>;
             (es, l) = link_closed l
         in ([UnregisterLink, RemoveLinkEntry] @ es, l)))"

section \<open>Establishing\<close>

text \<open>\<^verbatim>\<open>Identity::sign\<close> panics without the keys.\<close>

definition identity_sign :: "link_env \<Rightarrow> identity \<Rightarrow> bytes \<Rightarrow> error + bytes" where
  "identity_sign E i d =
     (case (signing_prv_key i, signing_pub_key i) of (Some prv, Some _) \<Rightarrow> Inr (le_sign E prv d) | _ \<Rightarrow> Inl Panic)"

text \<open>\<^verbatim>\<open>prove_packet\<close>: a received packet is proved by a signature over its hash.\<close>

definition prove_packet :: "link_env \<Rightarrow> packet \<Rightarrow> link \<Rightarrow> link_effect list" where
  "prove_packet E p l =
     (let h = get_hash (c_sha (le_crypto E)) p in
      case link_sign E l h of Inl _ \<Rightarrow> [] | Inr signature \<Rightarrow> [SendLinkPacket PROOF CTX_NONE (h @ signature)])"

definition prove_with_identity :: "link_env \<Rightarrow> identity \<Rightarrow> link \<Rightarrow> link_result" where
  "prove_with_identity E i l =
     (case signalling_bytes (ln_mtu l) (ln_mode l) of
        Inl e \<Rightarrow> (Inl e, [], l)
      | Inr sb \<Rightarrow>
        (case (ln_pub_bytes l, ln_sig_pub_bytes l) of
           (Some pub, Some sig_pub) \<Rightarrow>
             (case identity_sign E i (ln_link_id l @ pub @ sig_pub @ sb) of
                Inl e \<Rightarrow> (Inl e, [], l)
              | Inr signature \<Rightarrow>
                (let proof_data = signature @ pub @ sb;
                     es = [SendLinkPacket PROOF LRPROOF proof_data]
                 in if \<not> le_send_ok E then (Inl (Err ''send failed''), es, l)
                    else (Inr (), es,
                          l\<lparr>ln_last_proof := current_time E,
                            ln_establishment_cost := ln_establishment_cost l + (19 + length proof_data)\<rparr>)))
         | _ \<Rightarrow> (Inl (Err ''Own public key not available for proof''), [], l)))"

text \<open>
  \<^verbatim>\<open>validate_request\<close>: a link from the request of a peer. \<open>placeholder\<close> and \<open>prv\<close> are the random link id and key it
  draws; the owner's callbacks are flags.
\<close>

definition prepare_inbound :: "link_env \<Rightarrow> bytes \<Rightarrow> bool \<Rightarrow> bool \<Rightarrow> bytes \<Rightarrow> packet \<Rightarrow> link \<Rightarrow> link" where
  "prepare_inbound E prv cb_established cb_packet data p l =
     (let l = l\<lparr>ln_cb_established := cb_established, ln_cb_packet := cb_packet,
                ln_link_id := link_id_from_lr_packet (c_sha (le_crypto E)) p,
                ln_mtu := (case mtu_from_lr_packet data of Some m \<Rightarrow> m | None \<Rightarrow> ln_mtu l),
                ln_mode := mode_from_lr_packet data\<rparr>
      in (update_mdu l)\<lparr>ln_establishment_timeout := LINK_PER_HOP * real (max (unat (p_hops p)) 1) + KEEPALIVE_MAX,
           ln_establishment_cost := ln_establishment_cost l + length (p_raw p),
           ln_prv_bytes := Some prv, ln_pub_bytes := Some (c_x_pub (le_crypto E) prv)\<rparr>)"

definition load_signing_keys :: "bytes \<Rightarrow> bytes \<Rightarrow> link \<Rightarrow> link" where
  "load_signing_keys pub private l =
     l\<lparr>ln_sig_pub_bytes := Some (byte_range 32 64 pub),
       ln_sig_prv_bytes := (if length private \<ge> 64 then Some (byte_range 32 64 private) else ln_sig_prv_bytes l)\<rparr>"

definition validate_request ::
  "link_env \<Rightarrow> bytes \<Rightarrow> bytes \<Rightarrow> destination \<Rightarrow> (bytes \<times> request_handler) list \<Rightarrow> nat option \<Rightarrow> bool \<Rightarrow> bool \<Rightarrow> bytes \<Rightarrow> packet
   \<Rightarrow> (error + link) \<times> link_effect list"
where
  "validate_request E placeholder prv owner handlers max_request cb_established cb_packet data p =
     (if length data \<noteq> ECPUBSIZE \<and> length data \<noteq> ECPUBSIZE + LINK_MTU_SIZE
      then (Inl (Err ''Invalid link request data length''), [])
      else case load_peer (take 32 data) (byte_range 32 64 data) (new_inbound E placeholder owner handlers max_request) of
        (Inl e, _) \<Rightarrow> (Inl e, [])
      | (Inr _, l) \<Rightarrow>
        (let l = prepare_inbound E prv cb_established cb_packet data p l in
         case d_identity owner of
           None \<Rightarrow> (Inl (Err ''Destination has no identity for link proof''), [])
         | Some i \<Rightarrow>
           (case get_public_key i of
              Inl e \<Rightarrow> (Inl e, [])
            | Inr pub \<Rightarrow>
              if length pub \<noteq> 64 then (Inl (Err ''Invalid destination public key length''), [])
              else
                (case get_private_key i of
                   Inl e \<Rightarrow> (Inl e, [])
                 | Inr private \<Rightarrow>
                   (case handshake (le_crypto E) (load_signing_keys pub private l) of
                      (Inl e, _) \<Rightarrow> (Inl e, [])
                    | (Inr _, l) \<Rightarrow>
                      (case prove_with_identity E i (l\<lparr>ln_attached_interface := p_receiving_interface p\<rparr>) of
                         (Inl e, es, _) \<Rightarrow> (Inl e, es)
                       | (Inr _, es, l) \<Rightarrow>
                         (Inr (had_inbound E True (l\<lparr>ln_request_time := Some (le_now E)\<rparr>)), es @ [RegisterLink])))))))"

text \<open>
  \<^verbatim>\<open>initiate_prepare\<close>: the link request. \<open>prv\<close> and \<open>sig_prv\<close> are the keys it draws; hops and first-hop timeout
  come from the transport. The packet is built as \<^verbatim>\<open>Packet::pack\<close> builds one that goes in clear.
\<close>

definition request_packet :: "crypto \<Rightarrow> destination \<Rightarrow> bytes \<Rightarrow> packet" where
  "request_packet c d request_data =
     (let p = new_packet (Some d) request_data LINKREQUEST CTX_NONE BROADCAST HEADER_1 None None False 0
      in p\<lparr>p_raw := [p_flags p, p_hops p] @ d_hash d @ [p_context p] @ request_data, p_packed := True\<rparr>)"

definition initiate_prepare ::
  "link_env \<Rightarrow> bytes \<Rightarrow> bytes \<Rightarrow> nat \<Rightarrow> real \<Rightarrow> link \<Rightarrow> (error + packet) \<times> link_effect list \<times> link"
where
  "initiate_prepare E prv sig_prv hops first_hop_timeout l =
     (if \<not> ln_initiator l then (Inl (Err ''Cannot initiate inbound link''), [], l)
      else
        (let c = le_crypto E;
             l = l\<lparr>ln_prv_bytes := Some prv, ln_pub_bytes := Some (c_x_pub c prv), ln_sig_prv_bytes := Some sig_prv,
                   ln_sig_pub_bytes := Some (c_ed_pub c sig_prv)\<rparr>
         in case signalling_bytes MTU (ln_mode l) of
              Inl e \<Rightarrow> (Inl e, [], l)
            | Inr sb \<Rightarrow>
              (let p = request_packet c (ln_destination l) (c_x_pub c prv @ c_ed_pub c sig_prv @ sb)
               in (Inr p, [RegisterLink],
                   l\<lparr>ln_establishment_timeout := first_hop_timeout + LINK_PER_HOP * real (max hops 1),
                     ln_expected_hops := Some hops, ln_establishment_cost := ln_establishment_cost l + length (p_raw p),
                     ln_link_id := link_id_from_lr_packet (c_sha c) p, ln_request_time := Some (le_now E)\<rparr>))))"

definition initiate_send :: "link_env \<Rightarrow> packet \<Rightarrow> link \<Rightarrow> link_result" where
  "initiate_send E p l =
     (if le_send_ok E then (Inr (), [SendLinkPacket LINKREQUEST CTX_NONE (p_data p)], had_outbound E False l)
      else (Inl (Err ''send failed''), [SendLinkPacket LINKREQUEST CTX_NONE (p_data p)], l))"

text \<open>The link is up at the initiator, which tells the round-trip time.\<close>

definition send_lrrtt :: "link_env \<Rightarrow> link \<Rightarrow> link_result" where
  "send_lrrtt E l =
     (case ln_rtt l of
        None \<Rightarrow> (Inr (), [], l)
      | Some rtt \<Rightarrow>
        (case link_encrypt E l (le_pack_rtt E rtt) of
           Inl e \<Rightarrow> (Inl e, [], l)
         | Inr ct \<Rightarrow>
           (Inr (), (case ln_attached_interface l of None \<Rightarrow> [] | Some iface \<Rightarrow> [Dispatch iface (link_frame l LRRTT ct)]),
            had_outbound E False l)))"

definition activate :: "link_env \<Rightarrow> packet \<Rightarrow> link \<Rightarrow> link_result" where
  "activate E p l =
     (let now = current_time E;
          l = l\<lparr>ln_rtt := (case ln_request_time l of Some t \<Rightarrow> Some (max (le_now E - t) 0.001) | None \<Rightarrow> ln_rtt l),
                ln_state := STATE_ACTIVE, ln_status := STATE_ACTIVE, ln_activated_at := Some now,
                ln_attached_interface := p_receiving_interface p, ln_last_proof := now,
                ln_last_inbound := now, ln_last_outbound := now\<rparr>;
          l = (case mtu_from_lp_packet (p_data p) of None \<Rightarrow> l | Some m \<Rightarrow> update_mdu (l\<lparr>ln_mtu := m\<rparr>))
      in send_lrrtt E (update_keepalive l))"

text \<open>
  The proof of a link request, at the initiator. As in the source, the handshake comes before the signature is
  checked, and a link that has left the pending state ignores every further proof.
\<close>

definition proof_signalling :: "bytes \<Rightarrow> error + bytes" where
  "proof_signalling data =
     (if length data = SIG_LEN + 32 + LINK_MTU_SIZE
      then signalling_bytes (case mtu_from_lp_packet data of None \<Rightarrow> MTU | Some m \<Rightarrow> m) (mode_from_lp_packet data)
      else Inr [])"

definition handle_link_proof :: "link_env \<Rightarrow> packet \<Rightarrow> link \<Rightarrow> link_result" where
  "handle_link_proof E p l =
     (let data = p_data p; c = le_crypto E in
      if \<not> ln_initiator l \<or> ln_state l \<noteq> STATE_PENDING then (Inr (), [], l)
      else if length data \<noteq> SIG_LEN + 32 \<and> length data \<noteq> SIG_LEN + 32 + LINK_MTU_SIZE
      then (Inl (Err ''Invalid link proof packet length''), [], l)
      else if mode_from_lp_packet data \<noteq> ln_mode l then (Inl (Err ''Invalid link mode in proof packet''), [], l)
      else case d_identity (ln_destination l) of
        None \<Rightarrow> (Inl (Err ''Missing destination identity on link''), [], l)
      | Some i \<Rightarrow>
        (case get_public_key i of
           Inl e \<Rightarrow> (Inl e, [], l)
         | Inr pub \<Rightarrow>
           if length pub \<noteq> 64 then (Inl (Err ''Invalid destination public key length''), [], l)
           else
             (let peer_pub = byte_range SIG_LEN (SIG_LEN + 32) data; peer_sig_pub = byte_range 32 64 pub in
              case load_peer peer_pub peer_sig_pub l of
                (Inl e, l) \<Rightarrow> (Inl e, [], l)
              | (Inr _, l) \<Rightarrow>
                (case handshake c l of
                   (Inl e, l) \<Rightarrow> (Inl e, [], l)
                 | (Inr _, l) \<Rightarrow>
                   (case proof_signalling data of
                      Inl e \<Rightarrow> (Inl e, [], l)
                    | Inr sb \<Rightarrow>
                      if \<not> validate c i (take SIG_LEN data) (ln_link_id l @ peer_pub @ peer_sig_pub @ sb)
                      then (Inl (Err ''Invalid link proof signature''), [], l)
                      else activate E p l)))))"

text \<open>The round-trip time from the initiator, at the responder.\<close>

definition handle_lrrtt_packet :: "link_env \<Rightarrow> bytes \<Rightarrow> link \<Rightarrow> link_result" where
  "handle_lrrtt_packet E plaintext l =
     (if ln_initiator l then (Inr (), [], l)
      else
        (let measured = (case ln_request_time l of Some t \<Rightarrow> max (le_now E - t) 0.001 | None \<Rightarrow> 0) in
         case le_read_rtt E plaintext of
           None \<Rightarrow> (Inl (Err ''Invalid LRRTT payload''), [], l)
         | Some peer_rtt \<Rightarrow>
           (Inr (), [],
            update_keepalive (l\<lparr>ln_rtt := Some (max measured peer_rtt), ln_initiator_keepalive := Some (keepalive_for_rtt peer_rtt),
              ln_status := STATE_ACTIVE, ln_state := STATE_ACTIVE, ln_activated_at := Some (current_time E)\<rparr>))))"

section \<open>Packets and requests\<close>

definition link_destination :: "link \<Rightarrow> destination" where
  "link_destination l =
     (ln_destination l)\<lparr>d_dest_type := Link, d_hash := ln_link_id l,
       d_link := Some \<lparr> li_rtt = ln_rtt l, li_traffic_timeout_factor = ln_traffic_timeout_factor l, li_status_closed = False,
         li_mtu = Some (ln_mtu l), li_attached_interface = ln_attached_interface l \<rparr>\<rparr>"

text \<open>A packet the link packs by hand around a ciphertext.\<close>

definition hand_packed :: "link_env \<Rightarrow> link \<Rightarrow> u8 \<Rightarrow> bool \<Rightarrow> bytes \<Rightarrow> packet" where
  "hand_packed E l context create_receipt ciphertext =
     (let p = new_packet (Some (link_destination l)) [] DATA context BROADCAST HEADER_1 None None create_receipt 0
      in update_hash (c_sha (le_crypto E))
           (p\<lparr>p_ciphertext := Some ciphertext, p_destination_hash := Some (ln_link_id l), p_packed := True,
             p_raw := [p_flags p, p_hops p] @ ln_link_id l @ [p_context p] @ ciphertext\<rparr>))"

definition send_packet :: "link_env \<Rightarrow> bytes \<Rightarrow> link \<Rightarrow> (error + packet) \<times> link_effect list" where
  "send_packet E d l =
     (if ln_state l \<noteq> STATE_ACTIVE then (Inl (Err ''Link is not active''), [])
      else case link_encrypt E l d of
        Inl e \<Rightarrow> (Inl e, [])
      | Inr ct \<Rightarrow>
        (let p = hand_packed E l CTX_NONE True ct in
         (if le_send_ok E then Inr p else Inl (Err ''send_packet failed''), [SendLinkPacket DATA CTX_NONE ct])))"

definition new_pending_request ::
  "bytes \<Rightarrow> real \<Rightarrow> real \<Rightarrow> nat option \<Rightarrow> real option \<Rightarrow> nat option \<Rightarrow> nat option \<Rightarrow> nat option \<Rightarrow> pending_request"
where
  "new_pending_request request_id sent_at timeout max_size clock rcb fcb pcb =
     \<lparr> pr_request_id = request_id, pr_sent_at = sent_at, pr_timeout = timeout, pr_status = ReqSent, pr_started_at = clock,
       pr_progress = 0, pr_response_size = None, pr_response_transfer_size = None, pr_max_response_size = max_size,
       pr_response_clock_started = clock, pr_receiving_response = False, pr_response_callback = rcb,
       pr_failed_callback = fcb, pr_progress_callback = pcb \<rparr>"

definition request_timeout :: "link \<Rightarrow> real" where
  "request_timeout l =
     (case ln_rtt l of
        Some rtt \<Rightarrow> rtt * ln_traffic_timeout_factor l + RESPONSE_MAX_GRACE_TIME * 1.125
      | None \<Rightarrow> ln_traffic_timeout_factor l * 3 + RESPONSE_MAX_GRACE_TIME * 1.125)"

definition request_as_resource ::
  "link_env \<Rightarrow> bytes \<Rightarrow> nat option \<Rightarrow> nat option \<Rightarrow> nat option \<Rightarrow> real \<Rightarrow> nat option \<Rightarrow> link
   \<Rightarrow> (error + bytes) \<times> link_effect list \<times> link"
where
  "request_as_resource E packed rcb fcb pcb timeout max_size l =
     (let request_id = truncated_hash (c_sha (le_crypto E)) packed in
      (Inr request_id, [SendAsResource packed request_id False],
       l\<lparr>ln_pending_requests := ln_pending_requests l
           @ [new_pending_request request_id (le_now E) timeout max_size None rcb fcb pcb]\<rparr>))"

definition link_request ::
  "link_env \<Rightarrow> bytes \<Rightarrow> bytes \<Rightarrow> nat option \<Rightarrow> nat option \<Rightarrow> nat option \<Rightarrow> real option \<Rightarrow> nat option \<Rightarrow> link
   \<Rightarrow> (error + bytes) \<times> link_effect list \<times> link"
where
  "link_request E path d rcb fcb pcb timeout max_size l =
     (let timeout = (case timeout of Some t \<Rightarrow> t | None \<Rightarrow> request_timeout l) in
      case le_pack_request E (real (current_time E)) (truncated_hash (c_sha (le_crypto E)) path) d of
        Inl e \<Rightarrow> (Inl (Err e), [], l)
      | Inr payload \<Rightarrow>
        if length payload > ln_mdu l then request_as_resource E payload rcb fcb pcb timeout max_size l
        else
          (case link_encrypt E l payload of
             Inl e \<Rightarrow> (Inl e, [], l)
           | Inr ct \<Rightarrow>
             (let request_id = get_truncated_hash (c_sha (le_crypto E)) (hand_packed E l CTX_REQUEST False ct);
                  p = new_pending_request request_id (le_now E) timeout max_size (Some (le_now E)) rcb fcb pcb
              in if \<not> le_send_ok E
                 then (Inl (Err ''send failed''), SendLinkPacket DATA CTX_REQUEST ct # fail_request p, l)
                 else (Inr request_id, [SendLinkPacket DATA CTX_REQUEST ct],
                       l\<lparr>ln_pending_requests := ln_pending_requests l @ [p]\<rparr>))))"

text \<open>The first pending request with an id, and the others.\<close>

fun take_request :: "bytes \<Rightarrow> pending_request list \<Rightarrow> (pending_request \<times> pending_request list) option" where
  "take_request request_id [] = None"
| "take_request request_id (p # ps) =
     (if pr_request_id p = request_id then Some (p, ps)
      else map_option (\<lambda>(q, qs). (q, p # qs)) (take_request request_id ps))"

fun update_request :: "bytes \<Rightarrow> (pending_request \<Rightarrow> pending_request) \<Rightarrow> pending_request list \<Rightarrow> pending_request list" where
  "update_request request_id f [] = []"
| "update_request request_id f (p # ps) =
     (if pr_request_id p = request_id then f p # ps else p # update_request request_id f ps)"

definition response_received :: "pending_request \<Rightarrow> bytes \<Rightarrow> link_effect list" where
  "response_received p response =
     (case pr_progress_callback p of None \<Rightarrow> [] | Some cb \<Rightarrow> [RunProgress cb (pr_request_id p) 1])
     @ (case pr_response_callback p of None \<Rightarrow> [] | Some cb \<Rightarrow> [RunResponse cb response])"

definition size_ok :: "nat option \<Rightarrow> nat \<Rightarrow> bool" where
  "size_ok max_size n = (case max_size of None \<Rightarrow> True | Some m \<Rightarrow> n \<le> m)"

definition handle_response_packet :: "link_env \<Rightarrow> bytes \<Rightarrow> link \<Rightarrow> link_effect list \<times> link" where
  "handle_response_packet E plaintext l =
     (case le_read_response E plaintext of
        None \<Rightarrow> ([], l)
      | Some (request_id, response) \<Rightarrow>
        (case take_request request_id (ln_pending_requests l) of
           None \<Rightarrow> ([], l)
         | Some (p, ps) \<Rightarrow>
           (let l = l\<lparr>ln_pending_requests := ps\<rparr> in
            if size_ok (pr_max_response_size p) (length response - 2) then (response_received p response, l)
            else (fail_request p, l))))"

text \<open>The upload of a request that went as a Resource has ended.\<close>

definition request_resource_concluded :: "link_env \<Rightarrow> bytes \<Rightarrow> bool \<Rightarrow> link \<Rightarrow> link_effect list \<times> link" where
  "request_resource_concluded E request_id delivered l =
     (case take_request request_id (ln_pending_requests l) of
        None \<Rightarrow> ([], l)
      | Some (p, ps) \<Rightarrow>
        if delivered then
          ([], l\<lparr>ln_pending_requests := update_request request_id
             (\<lambda>p. p\<lparr>pr_response_clock_started := Some (le_now E), pr_status := ReqDelivered,
                      pr_started_at := (case pr_started_at p of None \<Rightarrow> Some (le_now E) | Some t \<Rightarrow> Some t)\<rparr>)
             (ln_pending_requests l)\<rparr>)
        else (fail_request p, l\<lparr>ln_pending_requests := ps\<rparr>))"

text \<open>A response that comes as a Resource: its progress, and its end with the data it left if it completed.\<close>

definition response_resource_progress :: "bytes \<Rightarrow> real \<Rightarrow> link \<Rightarrow> link_effect list \<times> link" where
  "response_resource_progress request_id progress l =
     (case take_request request_id (ln_pending_requests l) of
        None \<Rightarrow> ([], l)
      | Some (p, _) \<Rightarrow>
        if pr_status p = ReqFailed then ([ResourceCancelIncoming request_id], l)
        else
          ((case pr_progress_callback p of None \<Rightarrow> [] | Some cb \<Rightarrow> [RunProgress cb request_id progress]),
           l\<lparr>ln_pending_requests := update_request request_id (\<lambda>p. p\<lparr>pr_status := ReqReceiving, pr_progress := progress\<rparr>)
              (ln_pending_requests l)\<rparr>))"

text \<open>\<open>completed\<close> is whether the transfer reached the status \<^verbatim>\<open>Complete\<close>; one that did but holds no data leaves the request pending.\<close>

definition response_resource_concluded ::
  "link_env \<Rightarrow> bytes option \<Rightarrow> bool \<Rightarrow> bytes option \<Rightarrow> link \<Rightarrow> link_effect list \<times> link"
where
  "response_resource_concluded E request_id completed data_opt l =
     (if \<not> completed then
        (case Option.bind request_id (\<lambda>i. take_request i (ln_pending_requests l)) of
           None \<Rightarrow> ([], l)
         | Some (p, ps) \<Rightarrow> (fail_request p, l\<lparr>ln_pending_requests := ps\<rparr>))
      else case data_opt of
        None \<Rightarrow> ([], l)
      | Some d \<Rightarrow>
          (case (case le_read_response E d of Some (i, response) \<Rightarrow> Some (i, response)
                 | None \<Rightarrow> map_option (\<lambda>i. (i, d)) request_id) of
             None \<Rightarrow> ([], l)
           | Some (i, response) \<Rightarrow>
             (case take_request i (ln_pending_requests l) of
                None \<Rightarrow> ([], l)
              | Some (p, ps) \<Rightarrow> (response_received p response, l\<lparr>ln_pending_requests := ps\<rparr>))))"

definition check_request_timeouts :: "link_env \<Rightarrow> link \<Rightarrow> link_effect list \<times> link" where
  "check_request_timeouts E l =
     (let expired = (\<lambda>p. case pr_response_clock_started p of
            Some started \<Rightarrow> \<not> pr_receiving_response p \<and> le_now E \<ge> started + pr_timeout p
          | None \<Rightarrow> False)
      in (concat (map fail_request (filter expired (ln_pending_requests l))),
          l\<lparr>ln_pending_requests := filter (\<lambda>p. \<not> expired p) (ln_pending_requests l)\<rparr>))"

text \<open>Requests of the peer.\<close>

definition request_allowed :: "request_handler \<Rightarrow> identity option \<Rightarrow> bool" where
  "request_allowed h remote =
     (if rh_allow_policy h = ALLOW_NONE then False
      else if rh_allow_policy h = ALLOW_ALL then True
      else if rh_allow_policy h = ALLOW_LIST then
        (case (remote, rh_allowed_list h) of
           (Some i, Some allowed) \<Rightarrow> (case id_hash i of None \<Rightarrow> False | Some ih \<Rightarrow> ih \<in> set allowed)
         | _ \<Rightarrow> False)
      else False)"

definition handle_request_packet :: "link_env \<Rightarrow> bytes \<Rightarrow> bytes \<Rightarrow> link \<Rightarrow> link_effect list" where
  "handle_request_packet E request_id plaintext l =
     (case le_read_request E plaintext of
        None \<Rightarrow> []
      | Some (_, path_hash, d) \<Rightarrow>
        (case map_of (ln_request_handlers l) path_hash of
           None \<Rightarrow> []
         | Some h \<Rightarrow>
           if request_allowed h (ln_remote_identity l) \<and> (rh_proven_callback h \<or> rh_callback h)
           then [RunHandler path_hash request_id d (ln_remote_identity l)] else []))"

definition send_request_response :: "link_env \<Rightarrow> bytes \<Rightarrow> bytes \<Rightarrow> link \<Rightarrow> link_result" where
  "send_request_response E request_id response l =
     (case le_pack_response E request_id response of
        Inl e \<Rightarrow> (Inl (Err e), [], l)
      | Inr d \<Rightarrow>
        if length d > ln_mdu l then (Inr (), [SendAsResource d request_id True], l)
        else
          (case link_encrypt E l d of
             Inl _ \<Rightarrow> (Inr (), [], l)
           | Inr ct \<Rightarrow>
             (Inr (), (case ln_attached_interface l of None \<Rightarrow> [] | Some iface \<Rightarrow> [Dispatch iface (link_frame l CTX_RESPONSE ct)]),
              had_outbound E False l)))"

text \<open>A handler's answer: no bytes are no response.\<close>

definition send_response :: "link_env \<Rightarrow> bytes \<Rightarrow> bytes \<Rightarrow> link \<Rightarrow> link_effect list \<times> link" where
  "send_response E request_id response l =
     (if response = [] then ([], l) else snd (send_request_response E request_id response l))"

definition send_proven_request_response :: "link_env \<Rightarrow> bytes \<Rightarrow> bytes \<Rightarrow> link_effect list \<times> bool" where
  "send_proven_request_response E request_id response =
     (if response = [] then ([], False)
      else case le_pack_response E request_id response of
             Inl _ \<Rightarrow> ([], False)
           | Inr d \<Rightarrow> ([SendAsResource d request_id True], True))"

section \<open>Identification\<close>

definition link_identify :: "link_env \<Rightarrow> identity \<Rightarrow> link \<Rightarrow> link_result" where
  "link_identify E i l =
     (if \<not> ln_initiator l \<or> ln_state l \<noteq> STATE_ACTIVE
      then (Inl (Err ''Can only identify on outbound link after activation''), [], l)
      else case get_public_key i of
        Inl e \<Rightarrow> (Inl e, [], l)
      | Inr pub \<Rightarrow>
        (case identity_sign E i (ln_link_id l @ pub) of
           Inl e \<Rightarrow> (Inl e, [], l)
         | Inr signature \<Rightarrow>
           (case link_encrypt E l (pub @ signature) of
              Inl e \<Rightarrow> (Inl e, [], l)
            | Inr ct \<Rightarrow>
              if le_send_ok E then (Inr (), [SendLinkPacket DATA LINKIDENTIFY ct], had_outbound E False l)
              else (Inl (Err ''send failed''), [SendLinkPacket DATA LINKIDENTIFY ct], l))))"

definition handle_linkidentify_packet :: "link_env \<Rightarrow> bytes \<Rightarrow> link \<Rightarrow> (error + unit) \<times> link" where
  "handle_linkidentify_packet E plaintext l =
     (if length plaintext \<noteq> 128 then (Inl (Err ''Invalid LINKIDENTIFY packet length''), l)
      else
        (let pub = take 64 plaintext; signature = byte_range 64 128 plaintext in
         case from_public_key (le_crypto E) pub of
           Inl _ \<Rightarrow> (Inl (Err ''Failed to create identity from public key''), l)
         | Inr i \<Rightarrow>
           if \<not> validate (le_crypto E) i signature (ln_link_id l @ pub)
           then (Inl (Err ''LINKIDENTIFY signature validation failed''), l)
           else if ln_remote_identity l \<noteq> None then (Inr (), l)
           else (Inr (), l\<lparr>ln_remote_identity := Some i, ln_pending_remote_identified := True\<rparr>)))"

end
