(* ===== verification/Jobs.thy ===== *)
theory Jobs
  imports Outbound Link "HOL-Library.List_Lexorder" "HOL-Library.Char_ord"
begin

text \<open>
  The periodic jobs of the transport (\<^verbatim>\<open>Transport::jobs\<close> of \<^verbatim>\<open>src/transport.rs\<close>), one definition per block of the
  function, and the registration of interfaces. A pass reads the clock once.
\<close>

abbreviation (input) PATH_REQUEST_MI :: real where "PATH_REQUEST_MI \<equiv> 20"
abbreviation (input) MAX_RECEIPTS :: nat where "MAX_RECEIPTS \<equiv> 1024"
abbreviation (input) LOCAL_REBROADCASTS_MAX :: u8 where "LOCAL_REBROADCASTS_MAX \<equiv> 2"
abbreviation (input) PATHFINDER_R :: u8 where "PATHFINDER_R \<equiv> 1"
abbreviation (input) PATHFINDER_G :: real where "PATHFINDER_G \<equiv> 5"
abbreviation (input) PATHFINDER_RW :: real where "PATHFINDER_RW \<equiv> 0.5"
abbreviation (input) LOCAL_CLIENT_ANNOUNCE_PACE :: real where "LOCAL_CLIENT_ANNOUNCE_PACE \<equiv> 0.6"
abbreviation (input) AUTO_ANNOUNCE_HOLDOFF_SECS :: real where "AUTO_ANNOUNCE_HOLDOFF_SECS \<equiv> 21600"
abbreviation (input) REVERSE_TIMEOUT :: real where "REVERSE_TIMEOUT \<equiv> 480"
abbreviation (input) LINK_TIMEOUT :: real where "LINK_TIMEOUT \<equiv> 900"
abbreviation (input) HASHLIST_MAXSIZE :: nat where "HASHLIST_MAXSIZE \<equiv> 1000000"

section \<open>State\<close>

text \<open>
  The fields of \<^verbatim>\<open>TransportState\<close> that only the periodic jobs and the registration of interfaces use, around the
  state of the transport. The intervals between two runs of a job are constants of the code.
\<close>

record job_state =
  js_transport :: transport_state
  js_pending_links :: "link list"
  js_active_links :: "link list"
  js_links_last_checked :: real
  js_receipts_last_checked :: real
  js_announces_last_checked :: real
  js_pending_prs_last_checked :: real
  js_cache_last_cleaned :: real
  js_path_table_last_saved :: real
  js_tables_last_culled :: real
  js_interface_last_jobs :: real
  js_blackhole_last_checked :: real
  js_last_mgmt_announce :: real
  js_mgmt_destinations :: "destination list"
  js_client_announce_last_sent :: "string \<rightharpoonup> real"
  js_up_edge_pending_interfaces :: "string set"
  js_published_last_checked :: real
  js_published_last_announced_at :: real

text \<open>
  What is read from outside: the environment of the transport, the order in which two tables are iterated, the data of an
  announce with whether it carries a ratchet, and the encryption that \<^verbatim>\<open>pack\<close> calls.
\<close>

record job_env =
  je_env :: env
  je_announce_order :: "(bytes \<rightharpoonup> announce_entry) \<Rightarrow> bytes list"
  je_link_order :: "(bytes \<rightharpoonup> link_entry) \<Rightarrow> bytes list"
  je_announce_data :: "destination \<Rightarrow> bytes option \<Rightarrow> error + bytes \<times> bool"
  je_encrypt :: "destination \<Rightarrow> bytes \<Rightarrow> string + bytes \<times> bytes option"

datatype job_effect = JobEffect effect | CleanCache | SavePathTable | InterfaceUp string | InterfaceDown string

text \<open>The path requests of a pass: the last interface given for a destination stands.\<close>

type_synonym request_list = "(bytes \<times> string option) list"

definition put_request :: "bytes \<Rightarrow> string option \<Rightarrow> request_list \<Rightarrow> request_list" where
  "put_request h v rs = filter (\<lambda>r. fst r \<noteq> h) rs @ [(h, v)]"

definition last_path_request :: "transport_state \<Rightarrow> bytes \<Rightarrow> real" where
  "last_path_request s h = (case ts_path_requests s h of None \<Rightarrow> 0 | Some t \<Rightarrow> t)"

section \<open>Links and receipts\<close>

text \<open>A pending link that has closed: its path is tried anew, when this node is not a transport.\<close>

definition retire_link :: "real \<Rightarrow> link \<Rightarrow> job_state \<times> request_list \<Rightarrow> job_state \<times> request_list" where
  "retire_link now l jr =
     (case jr of (j, rs) \<Rightarrow>
        (let s = js_transport j; h = d_hash (ln_destination l) in
         if ts_transport_enabled s then (j, rs)
         else
           ((case ts_path_table s h of
               None \<Rightarrow> j
             | Some deque \<Rightarrow>
               j\<lparr>js_transport := (case deque of
                     [] \<Rightarrow> s
                   | e # es \<Rightarrow> s\<lparr>ts_path_table := (ts_path_table s)(h \<mapsto> e\<lparr>pe_timestamp := 0\<rparr> # es)\<rparr>),
                 js_tables_last_culled := 0\<rparr>),
            if now - last_path_request s h > PATH_REQUEST_MI then put_request h None rs else rs)))"

definition check_links :: "real \<Rightarrow> job_state \<Rightarrow> job_state \<times> request_list" where
  "check_links now j =
     (if now > js_links_last_checked j + 1 then
        (case fold (retire_link now) (filter (\<lambda>l. ln_status l = STATE_CLOSED) (js_pending_links j)) (j, []) of
           (j, rs) \<Rightarrow>
             (j\<lparr>js_pending_links := filter (\<lambda>l. ln_status l \<noteq> STATE_CLOSED) (js_pending_links j),
                js_active_links := filter (\<lambda>l. ln_status l \<noteq> STATE_CLOSED) (js_active_links j),
                js_links_last_checked := now\<rparr>, rs))
      else (j, []))"

text \<open>Receipts over the limit are culled, oldest first; the rest are checked, and leave unless a proof may still come.\<close>

definition check_receipts :: "real \<Rightarrow> receipt list \<Rightarrow> receipt list \<times> receipt list \<times> callback_run list" where
  "check_receipts now rs =
     (let excess = length rs - MAX_RECEIPTS;
          culled = map (\<lambda>r. check_timeout now (set_timeout (-1) r)) (take excess rs);
          checked = map (check_timeout now) (drop excess rs)
      in (filter provable (map fst checked), map fst culled @ map fst checked, concat (map snd (culled @ checked))))"

definition receipts_job :: "real \<Rightarrow> job_state \<Rightarrow> job_state \<times> job_effect list" where
  "receipts_job now j =
     (if now > js_receipts_last_checked j + 1 then
        (case check_receipts now (ts_receipts (js_transport j)) of
           (rs, _, runs) \<Rightarrow>
             (j\<lparr>js_transport := (js_transport j)\<lparr>ts_receipts := rs\<rparr>, js_receipts_last_checked := now\<rparr>,
              map (\<lambda>x. JobEffect (RunReceiptCallback x)) runs))
      else (j, []))"

section \<open>Announces to repeat\<close>

text \<open>The packet for an entry of the announce table; it has no destination and is packed by hand.\<close>

definition announce_retransmit :: "crypto \<Rightarrow> transport_state \<Rightarrow> bytes \<Rightarrow> announce_entry \<Rightarrow> packet" where
  "announce_retransmit c s dh e =
     (let p = at_packet e;
          context = (if at_block_rebroadcasts e then PATH_RESPONSE else CTX_NONE);
          q = new_packet None [] ANNOUNCE context MODE_TRANSPORT HEADER_2 (Option.bind (ts_identity s) id_hash)
                (at_attached_interface e) False (p_context_flag p)
      in update_hash (c_sha c)
           (q\<lparr>p_raw := relayed_announce s (p\<lparr>p_hops := at_hops e\<rparr>) dh context, p_hops := at_hops e, p_packed := True,
              p_receiving_interface := p_receiving_interface p\<rparr>))"

definition announce_done :: "announce_entry \<Rightarrow> bool" where
  "announce_done e \<longleftrightarrow> at_local_rebroadcasts e \<ge> LOCAL_REBROADCASTS_MAX \<or> at_retries e > PATHFINDER_R"

definition announce_due :: "real \<Rightarrow> announce_entry \<Rightarrow> bool" where
  "announce_due now e \<longleftrightarrow> \<not> announce_done e \<and> now > at_retransmit_timeout e"

definition retransmitted :: "real \<Rightarrow> announce_entry \<Rightarrow> announce_entry" where
  "retransmitted now e =
     e\<lparr>at_retransmit_timeout := now + PATHFINDER_G + PATHFINDER_RW,
       at_retries := (if at_retries e = 255 then 255 else at_retries e + 1)\<rparr>"

definition next_announce_entry :: "real \<Rightarrow> announce_entry \<Rightarrow> announce_entry option" where
  "next_announce_entry now e =
     (if announce_done e then None else if announce_due now e then Some (retransmitted now e) else Some e)"

definition announces_job :: "job_env \<Rightarrow> job_state \<Rightarrow> job_state \<times> packet list" where
  "announces_job E j =
     (let now = e_now (je_env E); s = js_transport j; table = ts_announce_table s in
      if now > js_announces_last_checked j + 1 then
        (j\<lparr>js_transport := s\<lparr>ts_announce_table := (\<lambda>h. Option.bind (table h) (next_announce_entry now))\<rparr>,
           js_announces_last_checked := now\<rparr>,
         concat (map (\<lambda>h. case table h of
             Some e \<Rightarrow> if announce_due now e then [announce_retransmit (e_crypto (je_env E)) s h e] else []
           | None \<Rightarrow> []) (je_announce_order E table)))
      else (j, []))"

section \<open>Paced announces\<close>

text \<open>At most one announce for each local client, and none to a client that was sent one a moment ago.\<close>

fun due_local_announces ::
  "real \<Rightarrow> (string \<rightharpoonup> real) \<Rightarrow> string set \<Rightarrow> (real \<times> string \<times> bytes) list \<Rightarrow> (real \<times> string \<times> bytes) list"
where
  "due_local_announces now last_sent seen [] = []"
| "due_local_announces now last_sent seen ((t, n, raw) # q) =
     (let last = (case last_sent n of None \<Rightarrow> 0 | Some t \<Rightarrow> t) in
      if t > now \<or> n \<in> seen \<or> last > 0 \<and> now - last < LOCAL_CLIENT_ANNOUNCE_PACE
      then due_local_announces now last_sent seen q
      else (t, n, raw) # due_local_announces now last_sent (insert n seen) q)"

fun remove_pending :: "real \<Rightarrow> string \<Rightarrow> (real \<times> string \<times> bytes) list \<Rightarrow> (real \<times> string \<times> bytes) list" where
  "remove_pending t n [] = []"
| "remove_pending t n ((t', n', raw) # q) =
     (if \<bar>t' - t\<bar> < 1 / 1000000000 \<and> n' = n then q else (t', n', raw) # remove_pending t n q)"

definition local_announces_job :: "real \<Rightarrow> job_state \<Rightarrow> job_state \<times> job_effect list" where
  "local_announces_job now j =
     (let s = js_transport j;
          pending = sort_key fst (ts_pending_local_announces s);
          due = due_local_announces now (js_client_announce_last_sent j) {} pending
      in (j\<lparr>js_transport := s\<lparr>ts_pending_local_announces := fold (\<lambda>(t, n, _). remove_pending t n) due pending\<rparr>,
            js_client_announce_last_sent := fold (\<lambda>(_, n, _) m. m(n \<mapsto> now)) due (js_client_announce_last_sent j)\<rparr>,
          map (\<lambda>(_, n, raw). JobEffect (effect.Dispatch n raw)) due))"

definition queued_announces_job :: "real \<Rightarrow> job_state \<Rightarrow> job_state \<times> job_effect list" where
  "queued_announces_job now j =
     (let s = js_transport j in
      case release_queued_announces now (ts_interfaces s) of
        (released, ifs) \<Rightarrow> (j\<lparr>js_transport := s\<lparr>ts_interfaces := ifs\<rparr>\<rparr>, map (\<lambda>(n, raw). JobEffect (effect.Dispatch n raw)) released))"

definition own_announces_job :: "real \<Rightarrow> job_state \<Rightarrow> job_state \<times> job_effect list" where
  "own_announces_job now j =
     (let s = js_transport j in
      case release_own_announces now (ts_interfaces s) (ts_announce_sent_at s) of
        (released, ifs, sent_at) \<Rightarrow>
          (j\<lparr>js_transport := s\<lparr>ts_interfaces := ifs, ts_announce_sent_at := sent_at\<rparr>\<rparr>,
           map (\<lambda>(n, raw). JobEffect (effect.Dispatch n raw)) released))"

section \<open>Published destinations\<close>

text \<open>\<^verbatim>\<open>Destination::announce\<close>, not sent. Registered destinations are incoming ones.\<close>

definition announce_packet ::
  "(destination \<Rightarrow> bytes option \<Rightarrow> error + bytes \<times> bool) \<Rightarrow> destination \<Rightarrow> bytes option \<Rightarrow> bool \<Rightarrow> string option \<Rightarrow> error + packet"
where
  "announce_packet announce_data d app_data path_response attached =
     (if d_dest_type d \<noteq> Single then Inl (Err ''Only SINGLE destination types can be announced'')
      else case announce_data d app_data of
        Inl e \<Rightarrow> Inl e
      | Inr (data, has_ratchet) \<Rightarrow>
        (case d_identity d of
           None \<Rightarrow> Inl (Err ''Cannot announce destination without identity'')
         | Some i \<Rightarrow>
           (case get_public_key i of
              Inl e \<Rightarrow> Inl e
            | Inr _ \<Rightarrow> Inr (new_packet (Some d) data ANNOUNCE (if path_response then PATH_RESPONSE else CTX_NONE) BROADCAST HEADER_1
                          None attached False (if has_ratchet then 1 else 0)))))"

definition sweep_interfaces :: "transport_state \<Rightarrow> string list" where
  "sweep_interfaces s = sort (map if_name (filter (\<lambda>i. if_online i \<and> if_mode i \<noteq> MODE_ACCESS_POINT) (ts_interfaces s)))"

text \<open>The pairs of a destination and an interface whose period is over, in the order they were published.\<close>

definition due_pairs :: "real \<Rightarrow> string set \<Rightarrow> transport_state \<Rightarrow> (bytes \<times> bytes option \<times> string) list" where
  "due_pairs now up_edge s =
     concat (map (\<lambda>(h, p). map (\<lambda>iface. (h, pd_app_data p, iface))
       (filter (\<lambda>iface. (pd_refresh_interval p \<noteq> None \<or> iface \<in> up_edge)
           \<and> auto_announce_due (ts_announce_sent_at s) h iface
               (case pd_refresh_interval p of Some t \<Rightarrow> t | None \<Rightarrow> AUTO_ANNOUNCE_HOLDOFF_SECS) now)
         (sweep_interfaces s))) (ts_published_destinations s))"

definition registered_single :: "transport_state \<Rightarrow> bytes \<Rightarrow> destination option" where
  "registered_single s h = find (\<lambda>d. d_hash d = h \<and> d_dest_type d = Single) (ts_destinations s)"

definition mark_announced :: "real \<Rightarrow> bytes \<Rightarrow> string \<Rightarrow> job_state \<Rightarrow> job_state" where
  "mark_announced now h iface j =
     (let s = js_transport j in
      j\<lparr>js_transport := s\<lparr>ts_announce_sent_at := (ts_announce_sent_at s)((h, iface) \<mapsto> now),
           ts_published_destinations :=
             update_first (\<lambda>e. fst e = h) (\<lambda>e. (fst e, (snd e)\<lparr>pd_last_announced_at := now\<rparr>)) (ts_published_destinations s)\<rparr>,
        js_published_last_announced_at := now\<rparr>)"

definition published_sweep :: "job_env \<Rightarrow> job_state \<Rightarrow> job_state \<times> packet option" where
  "published_sweep E j =
     (let now = e_now (je_env E); s = js_transport j in
      if ts_published_destinations s = [] \<or> now \<le> js_published_last_checked j + 30 then (j, None)
      else
        (let due = due_pairs now (js_up_edge_pending_interfaces j) s;
             j = j\<lparr>js_up_edge_pending_interfaces := {i \<in> js_up_edge_pending_interfaces j. \<exists>(_, _, iface)\<in>set due. iface = i}\<rparr>
         in if due = [] then (j\<lparr>js_published_last_checked := now\<rparr>, None)
            else if now - js_published_last_announced_at j < LOCAL_CLIENT_ANNOUNCE_PACE then (j, None)
            else
              (case find (\<lambda>(h, _, _). registered_single s h \<noteq> None) due of
                 None \<Rightarrow> (j\<lparr>js_published_last_checked := now, js_up_edge_pending_interfaces := {}\<rparr>, None)
               | Some (h, app_data, iface) \<Rightarrow>
                 (case registered_single s h of
                    None \<Rightarrow> (j, None)
                  | Some d \<Rightarrow>
                    (case announce_packet (je_announce_data E) d app_data False (Some iface) of
                       Inl _ \<Rightarrow> (j, None)
                     | Inr p \<Rightarrow> (mark_announced now h iface j, Some p))))))"

section \<open>Generations and culling\<close>

definition rotate_hashlist :: "transport_state \<Rightarrow> transport_state" where
  "rotate_hashlist s =
     (if card (ts_packet_hashlist s) > HASHLIST_MAXSIZE div 2
      then s\<lparr>ts_packet_hashlist_prev := ts_packet_hashlist s, ts_packet_hashlist := {},
             ts_validated_announce_hashes_prev := ts_validated_announce_hashes s, ts_validated_announce_hashes := {}\<rparr>
      else s)"

definition interface_known :: "transport_state \<Rightarrow> string option \<Rightarrow> bool" where
  "interface_known s n = (case n of None \<Rightarrow> False | Some name \<Rightarrow> \<exists>i\<in>set (ts_interfaces s). if_name i = name)"

definition pending_prs_job :: "real \<Rightarrow> job_state \<Rightarrow> job_state" where
  "pending_prs_job now j =
     (if now > js_pending_prs_last_checked j + 30
      then (let s = js_transport j in
            j\<lparr>js_transport := s\<lparr>ts_pending_local_path_requests :=
                 (\<lambda>h. case ts_pending_local_path_requests s h of
                    Some i \<Rightarrow> if interface_known s (Some (if_name i)) then Some i else None
                  | None \<Rightarrow> None)\<rparr>,
              js_pending_prs_last_checked := now\<rparr>)
      else j)"

definition cache_job :: "real \<Rightarrow> job_state \<Rightarrow> job_state \<times> job_effect list" where
  "cache_job now j =
     (if now > js_cache_last_cleaned j + 300 then (j\<lparr>js_cache_last_cleaned := now\<rparr>, [CleanCache]) else (j, []))"

definition save_paths_job :: "real \<Rightarrow> job_state \<Rightarrow> job_state \<times> job_effect list" where
  "save_paths_job now j =
     (let s = js_transport j in
      if ts_path_table_dirty s \<and> now > js_path_table_last_saved j + 300
      then (j\<lparr>js_transport := s\<lparr>ts_path_table_dirty := False\<rparr>, js_path_table_last_saved := now\<rparr>, [SavePathTable])
      else (j, []))"

definition reverse_stale :: "real \<Rightarrow> transport_state \<Rightarrow> reverse_entry \<Rightarrow> bool" where
  "reverse_stale now s e \<longleftrightarrow> now > rv_timestamp e + REVERSE_TIMEOUT
     \<or> \<not> interface_known s (rv_received_interface e) \<or> \<not> interface_known s (rv_outbound_interface e)"

definition link_stale :: "real \<Rightarrow> transport_state \<Rightarrow> link_entry \<Rightarrow> bool" where
  "link_stale now s e =
     (if lt_validated e
      then now > lt_timestamp e + LINK_TIMEOUT \<or> \<not> interface_known s (lt_next_hop_interface e)
        \<or> \<not> interface_known s (lt_received_interface e)
      else now > lt_proof_timeout e)"

text \<open>
  The path to look for when the proof of a link in transit did not come: the destination, the interface to avoid, whether
  to mark the path unresponsive, and whether to forget it.
\<close>

definition rediscovery :: "real \<Rightarrow> transport_state \<Rightarrow> link_entry \<Rightarrow> (bytes \<times> string option \<times> bool \<times> bool) option" where
  "rediscovery now s e =
     (if lt_validated e \<or> now \<le> lt_proof_timeout e \<or> lt_destination_hash e = [] then None
      else
        (let h = lt_destination_hash e;
             throttle = (now - last_path_request s h < PATH_REQUEST_MI);
             hops = (case select_path_for s now h of None \<Rightarrow> 0 | Some (_, p) \<Rightarrow> pe_hops p);
             expire = (\<not> ts_transport_enabled s);
             mark = (ts_transport_enabled s
               \<and> (case Option.bind (lt_received_interface e) (interface_modes (ts_interfaces s)) of None \<Rightarrow> False | Some m \<Rightarrow> m \<noteq> MODE_BOUNDARY))
         in if ts_path_table s h = None then Some (h, None, False, expire)
            else if throttle then None
            else if lt_taken_hops e = 0 then Some (h, None, False, expire)
            else if hops = 1 \<or> lt_taken_hops e = 1 then Some (h, lt_received_interface e, mark, expire)
            else None))"

definition rediscover :: "bytes \<times> string option \<times> bool \<times> bool \<Rightarrow> transport_state \<times> request_list \<Rightarrow> transport_state \<times> request_list" where
  "rediscover task sr =
     (case (task, sr) of ((h, blocked, mark, expire), (s, rs)) \<Rightarrow>
        (let rs = (if \<exists>r\<in>set rs. fst r = h then rs else rs @ [(h, blocked)]);
             s = (if mark then snd (mark_path_unresponsive h blocked s) else s);
             s = (if expire then snd (expire_path h s) else s)
         in (s, rs)))"

definition cull_tunnel :: "real \<Rightarrow> transport_state \<Rightarrow> tunnel_entry \<Rightarrow> tunnel_entry option" where
  "cull_tunnel now s t =
     (if now > tt_expires t then None
      else Some (t\<lparr>tt_interface := (if interface_known s (tt_interface t) then tt_interface t else None),
             tt_paths := (\<lambda>h. case tt_paths t h of
                 Some p \<Rightarrow> if now > tp_timestamp p + DESTINATION_TIMEOUT then None else Some p
               | None \<Rightarrow> None)\<rparr>))"

definition tables_job :: "job_env \<Rightarrow> job_state \<times> request_list \<Rightarrow> job_state \<times> request_list" where
  "tables_job E jr =
     (case jr of (j, rs) \<Rightarrow>
        (let now = e_now (je_env E); s = js_transport j in
         if now > js_tables_last_culled j + 5 then
           (let tasks = concat (map (\<lambda>k. case Option.bind (ts_link_table s k) (rediscovery now s) of None \<Rightarrow> [] | Some t \<Rightarrow> [t])
                    (je_link_order E (ts_link_table s)));
                (s', rs) = fold rediscover tasks (s, rs);
                s' = cull_path_table now s';
                s' = s'\<lparr>ts_discovery_path_requests := (\<lambda>h. case ts_discovery_path_requests s h of
                          Some e \<Rightarrow> if now > dp_timeout e then None else Some e | None \<Rightarrow> None),
                        ts_reverse_table := (\<lambda>h. case ts_reverse_table s h of
                          Some e \<Rightarrow> if reverse_stale now s e then None else Some e | None \<Rightarrow> None),
                        ts_link_table := (\<lambda>h. case ts_link_table s h of
                          Some e \<Rightarrow> if link_stale now s e then None else Some e | None \<Rightarrow> None),
                        ts_tunnels := (\<lambda>h. Option.bind (ts_tunnels s h) (cull_tunnel now s))\<rparr>
            in (j\<lparr>js_transport := s', js_tables_last_culled := now\<rparr>, rs))
         else (j, rs)))"

section \<open>The rest of the pass\<close>

text \<open>Fastest interfaces first; those without a bitrate come last.\<close>

definition prioritize_interfaces :: "interface_stub list \<Rightarrow> interface_stub list" where
  "prioritize_interfaces ifs =
     sort_key (\<lambda>i. - the (if_bitrate i)) (filter (\<lambda>i. if_bitrate i \<noteq> None) ifs) @ filter (\<lambda>i. if_bitrate i = None) ifs"

definition interfaces_job :: "real \<Rightarrow> job_state \<Rightarrow> job_state" where
  "interfaces_job now j =
     (if now > js_interface_last_jobs j + 5
      then (let s = js_transport j in
            j\<lparr>js_transport := s\<lparr>ts_interfaces := prioritize_interfaces (ts_interfaces s)\<rparr>, js_interface_last_jobs := now\<rparr>)
      else j)"

definition mgmt_job :: "job_env \<Rightarrow> job_state \<Rightarrow> job_state \<times> packet list" where
  "mgmt_job E j =
     (let now = e_now (je_env E) in
      if now > js_last_mgmt_announce j + 7200
      then (j\<lparr>js_last_mgmt_announce := now\<rparr>,
            concat (map (\<lambda>d. case announce_packet (je_announce_data E) d None False None of Inr p \<Rightarrow> [p] | Inl _ \<Rightarrow> []) (js_mgmt_destinations j)))
      else (j, []))"

definition blackhole_job :: "real \<Rightarrow> job_state \<Rightarrow> job_state" where
  "blackhole_job now j =
     (if now > js_blackhole_last_checked j + 60
      then (let s = js_transport j in
            j\<lparr>js_transport := s\<lparr>ts_blackholed_identities := (\<lambda>h. case ts_blackholed_identities s h of
                  Some e \<Rightarrow> (case bh_until e of Some t \<Rightarrow> if now > t then None else Some e | None \<Rightarrow> Some e)
                | None \<Rightarrow> None)\<rparr>,
              js_blackhole_last_checked := now\<rparr>)
      else j)"

text \<open>\<^verbatim>\<open>Packet::send\<close> and \<^verbatim>\<open>outbound\<close> on the state; announces make no receipt.\<close>

definition outbound_all :: "crypto \<Rightarrow> real \<Rightarrow> packet list \<Rightarrow> transport_state \<Rightarrow> transport_state \<times> effect list" where
  "outbound_all c now ps s = fold (\<lambda>p (s, es). case outbound c 0 now p s of (_, _, s, es') \<Rightarrow> (s, es @ es')) ps (s, [])"

definition sendable :: "job_env \<Rightarrow> packet \<Rightarrow> packet list" where
  "sendable E p =
     (if p_sent p \<or> p_destination p = None \<or> p_hops p \<ge> PATHFINDER_M then []
      else case (if p_packed p then (Inr (), p) else pack (c_sha (e_crypto (je_env E))) (je_encrypt E) p) of
        (Inl _, _) \<Rightarrow> [] | (Inr _, p) \<Rightarrow> [p])"

definition request_all :: "real \<Rightarrow> request_list \<Rightarrow> transport_state \<Rightarrow> transport_state \<times> effect list" where
  "request_all now rs s =
     fold (\<lambda>(h, blocked) (s, es). case request_path now h None blocked None s of (s, es') \<Rightarrow> (s, es @ es')) rs (s, [])"

definition jobs :: "job_env \<Rightarrow> job_state \<Rightarrow> job_state \<times> job_effect list" where
  "jobs E j =
     (let now = e_now (je_env E); c = e_crypto (je_env E);
          (j, requests) = check_links now j;
          (j, es1) = receipts_job now j;
          (j, outgoing) = announces_job E j;
          (j, es2) = local_announces_job now j;
          (j, es3) = queued_announces_job now j;
          (j, es4) = own_announces_job now j;
          (j, published) = published_sweep E j;
          j = j\<lparr>js_transport := rotate_hashlist (js_transport j)\<rparr>;
          j = pending_prs_job now j;
          j = j\<lparr>js_transport := rotate_pr_tags (js_transport j)\<rparr>;
          (j, es5) = cache_job now j;
          (j, es6) = save_paths_job now j;
          (j, requests) = tables_job E (j, requests);
          j = interfaces_job now j;
          (j, mgmt) = mgmt_job E j;
          j = blackhole_job now j;
          to_send = concat (map (sendable E) (mgmt @ (case published of None \<Rightarrow> [] | Some p \<Rightarrow> [p]))) @ outgoing;
          (s, es7) = outbound_all c now to_send (js_transport j);
          (s, es8) = request_all now requests s
      in (j\<lparr>js_transport := s\<rparr>, es1 @ es2 @ es3 @ es4 @ es5 @ es6 @ map JobEffect (es7 @ es8)))"

section \<open>Interfaces coming and going\<close>

definition register_interface_stub_config :: "interface_stub \<Rightarrow> job_state \<Rightarrow> job_state" where
  "register_interface_stub_config i j =
     (let s = js_transport j in
      if \<exists>k\<in>set (ts_interfaces s). if_name k = if_name i then j
      else
        (let j = (if if_online i
                  then j\<lparr>js_up_edge_pending_interfaces := insert (if_name i) (js_up_edge_pending_interfaces j), js_published_last_checked := 0\<rparr>
                  else j)
         in j\<lparr>js_transport := s\<lparr>ts_interfaces := ts_interfaces s @ [i]\<rparr>\<rparr>))"

text \<open>
  A peer of the automatic interface takes over, for every published destination, the time of its latest announce on any interface; the
  records are read as a list of their keys.
\<close>

definition latest_announce :: "(bytes \<times> string) list \<Rightarrow> announce_sent_at \<Rightarrow> bytes \<Rightarrow> real option" where
  "latest_announce keys m h =
     (case concat (map (\<lambda>k. if fst k = h then (case m k of Some t \<Rightarrow> [t] | None \<Rightarrow> []) else []) keys) of
        [] \<Rightarrow> None | t # ts \<Rightarrow> Some (fold max ts t))"

definition register_auto_interface_peer :: "(bytes \<times> string) list \<Rightarrow> interface_stub \<Rightarrow> job_state \<Rightarrow> job_state \<times> job_effect list" where
  "register_auto_interface_peer keys i j =
     (let s = js_transport j in
      if \<exists>k\<in>set (ts_interfaces s). if_name k = if_name i then (j, [])
      else
        (j\<lparr>js_transport := s\<lparr>ts_announce_sent_at :=
              (\<lambda>k. if snd k = if_name i \<and> ps_contains_key (ts_published_destinations s) (fst k)
                     \<and> latest_announce keys (ts_announce_sent_at s) (fst k) \<noteq> None
                   then latest_announce keys (ts_announce_sent_at s) (fst k) else ts_announce_sent_at s k),
            ts_interfaces := ts_interfaces s @ [i]\<rparr>\<rparr>,
         if if_online i then [InterfaceUp (if_name i)] else []))"

definition remove_interface_stub :: "string \<Rightarrow> job_state \<Rightarrow> bool \<times> job_state" where
  "remove_interface_stub name j =
     (let s = js_transport j; other = filter (\<lambda>i. if_name i \<noteq> name) in
      (\<exists>i\<in>set (ts_interfaces s @ ts_local_client_interfaces s). if_name i = name \<and> if_online i,
       j\<lparr>js_transport := s\<lparr>ts_interfaces := other (ts_interfaces s), ts_local_client_interfaces := other (ts_local_client_interfaces s),
            ts_client_announce_pacing := (ts_client_announce_pacing s)(name := None),
            ts_pending_local_announces := filter (\<lambda>(_, n, _). n \<noteq> name) (ts_pending_local_announces s)\<rparr>,
         js_client_announce_last_sent := (js_client_announce_last_sent j)(name := None),
         js_up_edge_pending_interfaces := js_up_edge_pending_interfaces j - {name}\<rparr>))"

definition deregister_interface_stub :: "string \<Rightarrow> job_state \<Rightarrow> job_state \<times> job_effect list" where
  "deregister_interface_stub name j =
     (case remove_interface_stub name j of
        (was_online, j) \<Rightarrow>
          (let s = js_transport j in
           (j\<lparr>js_transport := s\<lparr>ts_announce_sent_at := (\<lambda>k. if snd k = name then None else ts_announce_sent_at s k)\<rparr>\<rparr>,
            if was_online then [InterfaceDown name] else [])))"

definition deregister_auto_interface_peer :: "string \<Rightarrow> job_state \<Rightarrow> job_state \<times> job_effect list" where
  "deregister_auto_interface_peer name j =
     (case remove_interface_stub name j of
        (was_online, j) \<Rightarrow>
          (let s = js_transport j in
           (j\<lparr>js_transport := s\<lparr>ts_announce_sent_at :=
                (\<lambda>k. if snd k = name \<and> \<not> ps_contains_key (ts_published_destinations s) (fst k) then None else ts_announce_sent_at s k)\<rparr>\<rparr>,
            if was_online then [InterfaceDown name] else [])))"

definition set_interface_online :: "string \<Rightarrow> bool \<Rightarrow> job_state \<Rightarrow> job_state \<times> job_effect list" where
  "set_interface_online name online j =
     (let s = js_transport j; named = (\<lambda>i. if_name i = name);
          before = map if_online (case find named (ts_interfaces s) of Some i \<Rightarrow> [i] | None \<Rightarrow> [])
            @ map if_online (case find named (ts_local_client_interfaces s) of Some i \<Rightarrow> [i] | None \<Rightarrow> []);
          up = (online \<and> False \<in> set before); down = (\<not> online \<and> True \<in> set before);
          set_on = update_first named (\<lambda>i. i\<lparr>if_online := online\<rparr>);
          j = j\<lparr>js_transport := s\<lparr>ts_interfaces := set_on (ts_interfaces s), ts_local_client_interfaces := set_on (ts_local_client_interfaces s)\<rparr>\<rparr>;
          j = (if up then j\<lparr>js_up_edge_pending_interfaces := insert name (js_up_edge_pending_interfaces j), js_published_last_checked := 0\<rparr> else j)
      in (j, (if up then [InterfaceUp name] else []) @ (if down then [InterfaceDown name] else [])))"

end
