(* ===== verification/Inbound.thy ===== *)
theory Inbound
  imports Path_Request
begin

text \<open>
  \<^verbatim>\<open>Transport::inbound\<close> of \<^verbatim>\<open>src/transport.rs\<close>: one definition per block of the function, in its
  order, and \<open>inbound\<close> which composes them as the source does. Log lines, counters of the log
  and timing of the lock are not modelled; the clock is read once per packet.
\<close>

abbreviation (input) ANNOUNCE_RATE_LIMIT :: nat where "ANNOUNCE_RATE_LIMIT \<equiv> 10"
abbreviation (input) LOCAL_REBROADCASTS_MAX :: u8 where "LOCAL_REBROADCASTS_MAX \<equiv> 2"
abbreviation (input) PATHFINDER_RW :: real where "PATHFINDER_RW \<equiv> 1 / 2"
abbreviation (input) MAX_GLOBAL_BLOBS :: nat where "MAX_GLOBAL_BLOBS \<equiv> 16"
abbreviation (input) ESTABLISHMENT_TIMEOUT_PER_HOP :: real where "ESTABLISHMENT_TIMEOUT_PER_HOP \<equiv> 6"
abbreviation (input) PROVE_APP :: u8 where "PROVE_APP \<equiv> 0x22"
abbreviation (input) PROVE_ALL :: u8 where "PROVE_ALL \<equiv> 0x23"

section \<open>From the frame to the filter\<close>

text \<open>Frames that are too short, carry the access-code flag or do not unpack are dropped.\<close>

definition receive_frame :: "crypto \<Rightarrow> bytes \<Rightarrow> string option \<Rightarrow> packet option" where
  "receive_frame c raw iface =
     (if length raw > 2 \<and> raw ! 0 AND 0x80 = 0x80 then None
      else if length raw \<le> 2 then None
      else case unpack (c_sha c)
             ((new_packet None [] 0 0 BROADCAST HEADER_1 None None False 0)
                \<lparr>p_raw := raw, p_receiving_interface := iface\<rparr>) of
             (False, _) \<Rightarrow> None
           | (True, p) \<Rightarrow> Some p)"

definition note_inbound :: "real \<Rightarrow> packet \<Rightarrow> transport_state \<Rightarrow> transport_state" where
  "note_inbound now p s =
     (case p_receiving_interface p of
        None \<Rightarrow> s
      | Some name \<Rightarrow>
        s\<lparr>ts_interfaces := update_first (\<lambda>i. if_name i = name) (\<lambda>i. i\<lparr>if_last_inbound_at := now\<rparr>)
             (ts_interfaces s),
          ts_local_client_interfaces :=
            update_first (\<lambda>i. if_name i = name) (\<lambda>i. i\<lparr>if_last_inbound_at := now\<rparr>)
             (ts_local_client_interfaces s)\<rparr>)"

definition oversized_announce :: "packet \<Rightarrow> bool" where
  "oversized_announce p \<longleftrightarrow> p_packet_type p = ANNOUNCE \<and> length (p_raw p) > MTU"

definition announce_dropped_early :: "transport_state \<Rightarrow> packet \<Rightarrow> bool" where
  "announce_dropped_early s p \<longleftrightarrow>
     p_packet_type p = ANNOUNCE
     \<and> (if \<not> ts_drop_announces s then False
        else if p_context p = PATH_RESPONSE then False
        else case p_destination_hash p of
               Some h \<Rightarrow> h \<notin> ts_announce_watchlist s
             | None \<Rightarrow> True)"

definition packet_filter :: "transport_state \<Rightarrow> packet \<Rightarrow> bool" where
  "packet_filter s p =
     (if ts_is_connected_to_shared_instance s then True
      else if p_context p = KEEPALIVE \<or> p_context p = RESOURCE_REQ \<or> p_context p = RESOURCE_PRF
              \<or> p_context p = RESOURCE \<or> p_context p = CACHE_REQUEST \<or> p_context p = CHANNEL then True
      else if p_destination_type p = Some Plain then
        (if p_packet_type p \<noteq> ANNOUNCE then p_hops p \<le> 1 else False)
      else if p_destination_type p = Some Group then
        (if p_packet_type p \<noteq> ANNOUNCE then p_hops p \<le> 1 else False)
      else case p_packet_hash p of
             Some h \<Rightarrow>
               if h \<notin> ts_packet_hashlist s \<and> h \<notin> ts_packet_hashlist_prev s then True
               else p_packet_type p = ANNOUNCE \<and> p_destination_type p = Some Single
           | None \<Rightarrow>
               if p_packet_type p = ANNOUNCE then p_destination_type p \<noteq> Some Link else False)"

text \<open>The rate limiter: whether the announce passes, and the table with this arrival counted.\<close>

definition announce_rate_limit :: "real \<Rightarrow> packet \<Rightarrow> transport_state \<Rightarrow> bool \<times> transport_state" where
  "announce_rate_limit now p s =
     (case (if p_packet_type p = ANNOUNCE then p_destination_hash p else None) of
        None \<Rightarrow> (True, s)
      | Some h \<Rightarrow>
        (let entry = (case ts_announce_rate_table s h of
               Some e \<Rightarrow> e
             | None \<Rightarrow> \<lparr> ar_last = now, ar_rate_violations = 0, ar_blocked_until = 0, ar_timestamps = [] \<rparr>);
             stamps = filter (\<lambda>t. now - t < 1) (ar_timestamps entry @ [now]);
             entry = entry\<lparr>ar_timestamps := stamps\<rparr>
         in if length stamps > ANNOUNCE_RATE_LIMIT
            then (False, s\<lparr>ts_announce_rate_table := (ts_announce_rate_table s)(h \<mapsto>
                    entry\<lparr>ar_rate_violations := Suc (ar_rate_violations entry), ar_last := now\<rparr>)\<rparr>)
            else (True, s\<lparr>ts_announce_rate_table := (ts_announce_rate_table s)(h \<mapsto> entry)\<rparr>)))"

definition control_aspects :: "transport_state \<Rightarrow> packet \<Rightarrow> string list option" where
  "control_aspects s p =
     (case p_destination_hash p of
        None \<Rightarrow> None
      | Some dh \<Rightarrow>
        if dh \<in> ts_control_hashes s then
          (case find (\<lambda>d. d_hash d = dh \<and> d_app_name d = APP_NAME) (ts_control_destinations s) of
             Some d \<Rightarrow> Some (d_aspects d)
           | None \<Rightarrow> Some [])
        else None)"

text \<open>\<^verbatim>\<open>packet.hops.saturating_add(1)\<close>\<close>

definition sat_inc :: "u8 \<Rightarrow> u8" where
  "sat_inc h = (if h = 255 then 255 else h + 1)"

section \<open>Announce validation\<close>

definition validate_inbound_announce ::
  "crypto \<Rightarrow> packet \<Rightarrow> transport_state \<Rightarrow> bool \<times> transport_state"
where
  "validate_inbound_announce c p s =
     (if length (p_data p) \<ge> KEY_LEN then
        (let already_validated = (case p_packet_hash p of
               None \<Rightarrow> False
             | Some h \<Rightarrow> h \<in> ts_validated_announce_hashes s \<or> h \<in> ts_validated_announce_hashes_prev s);
             valid = (if already_validated then True
                      else validate_announce c (p_data p) (p_destination_hash p)
                             (Some (take KEY_LEN (p_data p))) (p_context_flag p))
         in if \<not> valid then (False, s)
            else (True,
                  if already_validated then s
                  else case p_packet_hash p of
                         None \<Rightarrow> s
                       | Some h \<Rightarrow> s\<lparr>ts_validated_announce_hashes := insert h (ts_validated_announce_hashes s)\<rparr>))
      else (True, s))"

text \<open>Remembering the announced key, application data and ratchet.\<close>

definition remember_announced :: "env \<Rightarrow> packet \<Rightarrow> transport_state \<Rightarrow> transport_state" where
  "remember_announced E p s =
     (case (p_destination_hash p, extract_announce_identity (e_crypto E) p) of
        (Some dh, Some i) \<Rightarrow>
          (case get_public_key i of
             Inl _ \<Rightarrow> s
           | Inr public_key \<Rightarrow>
             (let s = s\<lparr>ts_known_destinations := fst (remember_destination (e_unix_now E) dh public_key
                          (extract_announce_app_data p) (ts_known_destinations s))\<rparr>
              in case extract_announce_ratchet p of
                   None \<Rightarrow> s
                 | Some r \<Rightarrow>
                   s\<lparr>ts_known_ratchets := fst (snd (remember_ratchet
                        (ts_is_connected_to_shared_instance s) (e_unix_now E) dh r (ts_known_ratchets s)))\<rparr>))
      | _ \<Rightarrow> s)"

definition check_announce :: "env \<Rightarrow> packet \<Rightarrow> transport_state \<Rightarrow> bool \<times> transport_state" where
  "check_announce E p s =
     (if p_packet_type p = ANNOUNCE then
        (case validate_inbound_announce (e_crypto E) p s of
           (True, s) \<Rightarrow> (True, remember_announced E p s)
         | (False, s) \<Rightarrow> (False, s))
      else (False, s))"

text \<open>The call of the interface discovery handler, when the announce is for it.\<close>

definition interface_announce :: "env \<Rightarrow> bool \<Rightarrow> packet \<Rightarrow> transport_state \<Rightarrow> effect list" where
  "interface_announce E announce_should_add p s =
     (if p_packet_type p = ANNOUNCE \<and> announce_should_add \<and> p_context p \<noteq> PATH_RESPONSE then
        (case Option.bind (ts_interface_announce_filter s) (name_hash_for_aspect_filter (e_crypto E)) of
           None \<Rightarrow> []
         | Some filter_hash \<Rightarrow>
           (case (extract_announce_name_hash p, extract_announce_identity (e_crypto E) p,
                  extract_announce_app_data p) of
              (Some name_hash, Some i, Some app_data) \<Rightarrow>
                if name_hash = filter_hash
                then [InterfaceAnnounce (case p_destination_hash p of None \<Rightarrow> [] | Some h \<Rightarrow> h) i app_data]
                else []
            | _ \<Rightarrow> []))
      else [])"

section \<open>The hash list\<close>

definition remember_packet_hash :: "packet \<Rightarrow> transport_state \<Rightarrow> transport_state" where
  "remember_packet_hash p s =
     (let remember =
            (case p_destination_hash p of None \<Rightarrow> True | Some h \<Rightarrow> ts_link_table s h = None)
            \<and> p_destination_type p \<noteq> Some Link
            \<and> \<not> (p_packet_type p = PROOF \<and> p_context p = LRPROOF)
      in if remember then
           (case p_packet_hash p of
              None \<Rightarrow> s
            | Some h \<Rightarrow>
              if h \<notin> ts_packet_hashlist s \<and> h \<notin> ts_packet_hashlist_prev s
              then s\<lparr>ts_packet_hashlist := insert h (ts_packet_hashlist s)\<rparr> else s)
         else s)"

section \<open>Announces\<close>

text \<open>The announce handlers whose filter matches.\<close>

definition announce_handler_wants :: "crypto \<Rightarrow> packet \<Rightarrow> announce_handler \<Rightarrow> bool" where
  "announce_handler_wants c p ah =
     (if p_context p = PATH_RESPONSE \<and> \<not> ah_receive_path_responses ah then False
      else case ah_aspect_filter ah of
             None \<Rightarrow> True
           | Some f \<Rightarrow>
             (case name_hash_for_aspect_filter c f of
                None \<Rightarrow> True
              | Some filter_hash \<Rightarrow>
                (case extract_announce_name_hash p of
                   None \<Rightarrow> False
                 | Some name_hash \<Rightarrow> name_hash = filter_hash)))"

definition queue_announce_callbacks :: "env \<Rightarrow> packet \<Rightarrow> transport_state \<Rightarrow> deferred \<Rightarrow> deferred" where
  "queue_announce_callbacks E p s df =
     (case (p_destination_hash p, extract_announce_identity (e_crypto E) p) of
        (Some dh, Some i) \<Rightarrow>
          df\<lparr>df_announce_callbacks := df_announce_callbacks df @
              map (\<lambda>ah. (ah_callback ah, dh, i,
                         (case extract_announce_app_data p of None \<Rightarrow> [] | Some d \<Rightarrow> d),
                         p_packet_hash p, p_context p = PATH_RESPONSE))
                (filter (announce_handler_wants (e_crypto E) p) (ts_announce_handlers s))\<rparr>
      | _ \<Rightarrow> df)"

text \<open>
  A copy that travelled further than the one waiting in the announce table was rebroadcast by a
  neighbour: it is counted, and enough of them, or one after our own transmission, end ours.
\<close>

definition note_local_rebroadcast ::
  "real \<Rightarrow> packet \<Rightarrow> bytes \<Rightarrow> transport_state \<Rightarrow> transport_state"
where
  "note_local_rebroadcast now p dh s =
     (if ts_transport_enabled s \<and> p_transport_id p \<noteq> None then
        (case ts_announce_table s dh of
           None \<Rightarrow> s
         | Some e \<Rightarrow>
           (let further = (p_hops p > 0 \<and> p_hops p > at_hops e);
                e' = (if further then e\<lparr>at_local_rebroadcasts := sat_inc (at_local_rebroadcasts e)\<rparr> else e);
                remove = (further \<and> at_retries e > 0
                          \<and> (at_local_rebroadcasts e + 1 \<ge> LOCAL_REBROADCASTS_MAX
                             \<or> now < at_retransmit_timeout e))
            in if remove then s\<lparr>ts_announce_table := (ts_announce_table s)(dh := None)\<rparr>
               else s\<lparr>ts_announce_table := (ts_announce_table s)(dh \<mapsto> e')\<rparr>))
      else s)"

definition announce_blob :: "packet \<Rightarrow> bytes option" where
  "announce_blob p =
     (if length (p_data p) \<ge> KEY_LEN + NAME_HASH_LEN + 10
      then Some (byte_range (KEY_LEN + NAME_HASH_LEN) (KEY_LEN + NAME_HASH_LEN + 10) (p_data p))
      else None)"

definition note_global_blob :: "env \<Rightarrow> bytes option \<Rightarrow> transport_state \<Rightarrow> transport_state" where
  "note_global_blob E blob s =
     (case blob of
        None \<Rightarrow> s
      | Some b \<Rightarrow>
        (let bs = (if b \<in> set (ts_global_blobs s) then ts_global_blobs s
                   else e_blob_order E (b # ts_global_blobs s))
         in s\<lparr>ts_global_blobs := drop (length bs - MAX_GLOBAL_BLOBS) bs\<rparr>))"

text \<open>A path request that waited for this destination is answered with the announce.\<close>

definition answer_discovery ::
  "packet \<Rightarrow> bytes \<Rightarrow> transport_state \<times> deferred \<Rightarrow> transport_state \<times> deferred"
where
  "answer_discovery p dh = (\<lambda>(s, df).
     if ts_transport_enabled s then
       (case ts_discovery_path_requests s dh of
          None \<Rightarrow> (s, df)
        | Some d \<Rightarrow>
          (s\<lparr>ts_discovery_path_requests := (ts_discovery_path_requests s)(dh := None)\<rparr>,
           case dp_requesting_interface d of
             None \<Rightarrow> df
           | Some iface \<Rightarrow> send_on iface (relayed_announce s p dh PATH_RESPONSE) df))
     else (s, df))"

definition queue_rebroadcast ::
  "env \<Rightarrow> bool \<Rightarrow> packet \<Rightarrow> bytes \<Rightarrow> bytes \<Rightarrow> transport_state \<Rightarrow> transport_state"
where
  "queue_rebroadcast E is_new_emission p dh received_from s =
     (let from_local_client = (case p_receiving_interface p of
            None \<Rightarrow> False | Some name \<Rightarrow> is_local_client_interface s name);
          eligible = ((ts_transport_enabled s \<or> from_local_client) \<and> p_context p \<noteq> PATH_RESPONSE)
      in if eligible \<and> is_new_emission then
           s\<lparr>ts_announce_table := (ts_announce_table s)(dh \<mapsto>
               \<lparr> at_timestamp = e_now E,
                 at_retransmit_timeout = (if from_local_client then e_now E
                                          else e_now E + e_random E * PATHFINDER_RW),
                 at_retries = (if from_local_client then PATHFINDER_R else 0),
                 at_received_from = received_from, at_hops = p_hops p, at_packet = p,
                 at_local_rebroadcasts = 0, at_block_rebroadcasts = False,
                 at_attached_interface = None \<rparr>)\<rparr>
         else s)"

text \<open>Paced forwarding to the local clients, all but the one it came from.\<close>

fun forward_to_clients ::
  "real \<Rightarrow> bytes \<Rightarrow> string list \<Rightarrow> transport_state \<times> deferred \<Rightarrow> transport_state \<times> deferred"
where
  "forward_to_clients now raw [] sd = sd"
| "forward_to_clients now raw (name # names) (s, df) =
     (case pace_client now name raw s of
        (send_now, s) \<Rightarrow>
          forward_to_clients now raw names (s, if send_now then send_on name raw df else df))"

definition announce_to_clients ::
  "real \<Rightarrow> packet \<Rightarrow> bytes \<Rightarrow> transport_state \<times> deferred \<Rightarrow> transport_state \<times> deferred"
where
  "announce_to_clients now p dh = (\<lambda>(s, df).
     let raw = relayed_announce s p dh (if p_context p = PATH_RESPONSE then PATH_RESPONSE else CTX_NONE)
     in forward_to_clients now raw
          (map if_name (filter (\<lambda>i. p_receiving_interface p \<noteq> Some (if_name i)) (ts_local_client_interfaces s)))
          (s, df))"

text \<open>The route an announce advertises: through the relay it names, else straight to its origin.\<close>

definition announced_route :: "real \<Rightarrow> packet \<Rightarrow> bytes \<Rightarrow> path_entry" where
  "announced_route now p received_from =
     \<lparr> pe_timestamp = now, pe_next_hop = received_from, pe_hops = p_hops p,
       pe_expires = now + DESTINATION_TIMEOUT, pe_receiving_interface = p_receiving_interface p,
       pe_packet_hash = (case p_packet_hash p of None \<Rightarrow> [] | Some h \<Rightarrow> h) \<rparr>"

definition is_own_destination :: "transport_state \<Rightarrow> bytes \<Rightarrow> bool" where
  "is_own_destination s dh \<longleftrightarrow> (\<exists>d\<in>set (ts_destinations s). d_hash d = dh)"

definition accept_announce ::
  "env \<Rightarrow> packet \<Rightarrow> bytes \<Rightarrow> transport_state \<times> deferred \<Rightarrow> transport_state \<times> deferred"
where
  "accept_announce E p dh = (\<lambda>(s, df).
     let now = e_now E;
         s = note_local_rebroadcast now p dh s;
         blob = announce_blob p;
         s = note_global_blob E blob s;
         received_from = (case p_transport_id p of Some t \<Rightarrow> t | None \<Rightarrow> dh);
         expires = now + DESTINATION_TIMEOUT
     in if is_own_destination s dh then (s, df)
        else
          case learn_route now dh (announced_route now p received_from) blob s of
            (is_new, s) \<Rightarrow>
              let s = record_tunnel_path now (p_receiving_interface p) dh received_from (p_hops p) expires blob
                        (case p_packet_hash p of None \<Rightarrow> [] | Some h \<Rightarrow> h) s;
                  df = df\<lparr>df_cached := df_cached df @ [p]\<rparr>
              in case answer_discovery p dh (s, df) of
                   (s, df) \<Rightarrow>
                     announce_to_clients now p dh (queue_rebroadcast E is_new p dh received_from s, df))"

definition handle_announce ::
  "env \<Rightarrow> bool \<Rightarrow> packet \<Rightarrow> transport_state \<times> deferred \<Rightarrow> transport_state \<times> deferred"
where
  "handle_announce E announce_should_add p = (\<lambda>(s, df).
     if p_packet_type p = ANNOUNCE \<and> announce_should_add then
       (let df = queue_announce_callbacks E p s df in
        case p_destination_hash p of None \<Rightarrow> (s, df) | Some dh \<Rightarrow> accept_announce E p dh (s, df))
     else (s, df))"

section \<open>Transit\<close>

text \<open>
  A packet for a destination in the path table is taken as addressed to this node: its transport
  id becomes our identity hash.
\<close>

definition inject_transport_id :: "transport_state \<Rightarrow> packet \<Rightarrow> packet" where
  "inject_transport_id s p =
     (if p_packet_type p \<noteq> ANNOUNCE then
        (case p_destination_hash p of
           None \<Rightarrow> p
         | Some dh \<Rightarrow>
           if ts_path_table s dh \<noteq> None then
             (case Option.bind (ts_identity s) id_hash of
                None \<Rightarrow> p
              | Some h \<Rightarrow> p\<lparr>p_transport_id := Some h\<rparr>)
           else p)
      else p)"

text \<open>
  The frame a relay sends on: with more than one hop left the next hop is the transport id, with
  one hop left the transport header is stripped, and the hop count is the relay's. Where the
  source leaves the copy of the frame alone, so does the model.
\<close>

definition transit_frame :: "packet \<Rightarrow> bytes \<Rightarrow> u8 \<Rightarrow> bytes" where
  "transit_frame p hop remaining_hops =
     (let raw = p_raw p in
      if remaining_hops > 1 then
        (if p_header_type p = HEADER_2 then
           (if length raw > 2 + DST_LEN \<and> length hop = DST_LEN
            then take 2 (set_hops (p_hops p) raw) @ hop @ drop (2 + DST_LEN) raw
            else raw)
         else
           [push_bit 6 HEADER_2 OR push_bit 4 MODE_TRANSPORT OR (p_flags p AND 0b00001111), p_hops p]
             @ hop @ drop 2 raw)
      else if remaining_hops = 1 \<and> p_header_type p = HEADER_2 then
        (let raw = (push_bit 6 HEADER_1 OR push_bit 4 BROADCAST OR (p_flags p AND 0b00001111))
                   # p_hops p # drop 2 raw
         in if length raw > 2 + DST_LEN * 2 then take 2 raw @ drop (2 + DST_LEN) raw else raw)
      else if remaining_hops = 0 then (if length raw > 1 then set_hops (p_hops p) raw else raw)
      else raw)"

text \<open>
  The MTU signalled in a link request is clamped to what the two interfaces carry, or removed
  when the next one cannot negotiate it.
\<close>

definition clamped_mtu :: "transport_state \<Rightarrow> packet \<Rightarrow> interface_stub \<Rightarrow> nat \<Rightarrow> nat" where
  "clamped_mtu s p out_iface mtu =
     (let clamp = (case Option.bind (Option.bind (p_receiving_interface p) (find_interface (ts_interfaces s))) if_hw_mtu of
                     None \<Rightarrow> mtu | Some ph \<Rightarrow> min mtu ph)
      in case if_hw_mtu out_iface of None \<Rightarrow> clamp | Some nh \<Rightarrow> min clamp nh)"

definition transit_signalling :: "transport_state \<Rightarrow> packet \<Rightarrow> string option \<Rightarrow> bytes \<Rightarrow> bytes" where
  "transit_signalling s p outbound_name raw =
     (case Option.bind outbound_name (find_interface (ts_interfaces s)) of
        None \<Rightarrow> raw
      | Some out_iface \<Rightarrow>
        (case mtu_from_lr_packet (p_data p) of
           None \<Rightarrow> raw
         | Some mtu \<Rightarrow>
           if if_hw_mtu out_iface = None \<or> \<not> if_autoconfigure_mtu out_iface \<and> \<not> if_fixed_mtu out_iface
           then (if length raw \<ge> LINK_MTU_SIZE then take (length raw - LINK_MTU_SIZE) raw else raw)
           else if clamped_mtu s p out_iface mtu < mtu then
             (case signalling_bytes (clamped_mtu s p out_iface mtu) (mode_from_lr_packet (p_data p)) of
                Inl _ \<Rightarrow> raw
              | Inr sb \<Rightarrow> if length raw \<ge> LINK_MTU_SIZE
                           then take (length raw - LINK_MTU_SIZE) raw @ sb else raw)
           else raw))"

definition transit_proof_timeout :: "real \<Rightarrow> transport_state \<Rightarrow> packet \<Rightarrow> u8 \<Rightarrow> real" where
  "transit_proof_timeout now s p remaining_hops =
     extra_link_proof_timeout s (p_receiving_interface p)
     + (now + ESTABLISHMENT_TIMEOUT_PER_HOP * real (unat (max remaining_hops 1)))"

text \<open>Refreshing the time stamp of the first entry of the destination's routes.\<close>

definition refresh_front :: "real \<Rightarrow> bytes \<Rightarrow> transport_state \<Rightarrow> transport_state" where
  "refresh_front now dh s =
     (case ts_path_table s dh of
        Some (e # es) \<Rightarrow> s\<lparr>ts_path_table := (ts_path_table s)(dh \<mapsto> e\<lparr>pe_timestamp := now\<rparr> # es)\<rparr>
      | _ \<Rightarrow> s)"

definition forward_transit ::
  "env \<Rightarrow> packet \<Rightarrow> bytes \<Rightarrow> transport_state \<times> deferred \<Rightarrow> transport_state \<times> deferred"
where
  "forward_transit E p dh = (\<lambda>(s, df).
     let now = e_now E in
     case (case select_path_excluding (ts_path_table s) (ts_interfaces s) dh now (p_receiving_interface p) of
             None \<Rightarrow> ([], 0, None)
           | Some (_, e) \<Rightarrow> (pe_next_hop e, pe_hops e, pe_receiving_interface e)) of
       (hop, remaining_hops, outbound_name) \<Rightarrow>
         if hop \<noteq> [] \<or> ts_path_table s dh \<noteq> None then
           (let raw = transit_frame p hop remaining_hops;
                raw = (if p_packet_type p = LINKREQUEST then transit_signalling s p outbound_name raw else raw);
                s = (if p_packet_type p = LINKREQUEST then
                       s\<lparr>ts_link_table := (ts_link_table s)(link_id_from_lr_packet (c_sha (e_crypto E)) p \<mapsto>
                           \<lparr> lt_timestamp = now, lt_next_hop_transport = hop,
                             lt_next_hop_interface = outbound_name, lt_remaining_hops = remaining_hops,
                             lt_received_interface = p_receiving_interface p, lt_taken_hops = p_hops p,
                             lt_destination_hash = dh, lt_validated = False,
                             lt_proof_timeout = transit_proof_timeout now s p remaining_hops \<rparr>)\<rparr>
                     else
                       s\<lparr>ts_reverse_table := (ts_reverse_table s)(get_truncated_hash (c_sha (e_crypto E)) p \<mapsto>
                           \<lparr> rv_received_interface = p_receiving_interface p,
                             rv_outbound_interface = outbound_name, rv_timestamp = now \<rparr>)\<rparr>)
            in (refresh_front now dh s,
                case outbound_name of None \<Rightarrow> df | Some name \<Rightarrow> send_on name raw df))
         else (s, df))"

definition handle_transit ::
  "env \<Rightarrow> packet \<Rightarrow> transport_state \<times> deferred \<Rightarrow> transport_state \<times> deferred"
where
  "handle_transit E p = (\<lambda>(s, df).
     if p_packet_type p \<noteq> ANNOUNCE \<and> p_transport_id p \<noteq> None
        \<and> Option.bind (ts_identity s) id_hash = p_transport_id p
     then (case p_destination_hash p of
             None \<Rightarrow> (s, df) | Some dh \<Rightarrow> forward_transit E p dh (s, df))
     else (s, df))"

section \<open>Relayed links and plain path-table forwarding\<close>

text \<open>Where a packet of a relayed link goes: the other side, when its hop count is the expected one.\<close>

definition link_outbound :: "packet \<Rightarrow> link_entry \<Rightarrow> string option" where
  "link_outbound p e =
     (let nh_if = lt_next_hop_interface e; rcvd_if = lt_received_interface e in
      if nh_if = rcvd_if then
        (if p_hops p = lt_remaining_hops e \<or> p_hops p = lt_taken_hops e then nh_if else None)
      else if p_receiving_interface p = nh_if \<and> p_hops p = lt_remaining_hops e then rcvd_if
      else if p_receiving_interface p = rcvd_if \<and> p_hops p = lt_taken_hops e then nh_if
      else None)"

text \<open>
  The forwarding that looks only at the path table: the first unexpired entry with the fewest
  hops, whatever interface it is on.
\<close>

fun first_min_hops :: "path_entry list \<Rightarrow> path_entry option" where
  "first_min_hops [] = None"
| "first_min_hops (e # es) =
     (case first_min_hops es of
        None \<Rightarrow> Some e
      | Some x \<Rightarrow> if pe_hops e \<le> pe_hops x then Some e else Some x)"

definition plain_forward :: "real \<Rightarrow> transport_state \<Rightarrow> packet \<Rightarrow> bytes \<Rightarrow> (string \<times> bytes) option" where
  "plain_forward now s p dh =
     (case ts_path_table s dh of
        None \<Rightarrow> None
      | Some entries \<Rightarrow>
        (case first_min_hops (filter (\<lambda>e. \<not> is_expired e now) entries) of
           None \<Rightarrow> None
         | Some e \<Rightarrow>
           map_option (\<lambda>name. (name, if length (p_raw p) > 1 then set_hops (p_hops p) (p_raw p) else p_raw p))
             (pe_receiving_interface e)))"

definition handle_relayed ::
  "env \<Rightarrow> packet \<Rightarrow> transport_state \<times> deferred \<Rightarrow> transport_state \<times> deferred"
where
  "handle_relayed E p = (\<lambda>(s, df).
     if p_packet_type p \<noteq> ANNOUNCE \<and> p_packet_type p \<noteq> LINKREQUEST \<and> p_context p \<noteq> LRPROOF then
       (case p_destination_hash p of
          None \<Rightarrow> (s, df)
        | Some dh \<Rightarrow>
          (case Option.bind (ts_link_table s dh) (link_outbound p) of
             Some name \<Rightarrow>
               (let df = (case find_interface (ts_interfaces s) name of
                            None \<Rightarrow> df
                          | Some i \<Rightarrow> send_on (if_name i)
                              (if length (p_raw p) > 1 then set_hops (p_hops p) (p_raw p) else p_raw p) df);
                    s = (case p_packet_hash p of
                           None \<Rightarrow> s | Some h \<Rightarrow> s\<lparr>ts_packet_hashlist := insert h (ts_packet_hashlist s)\<rparr>)
                in (s\<lparr>ts_link_table := (ts_link_table s)(dh :=
                       map_option (\<lambda>e. e\<lparr>lt_timestamp := e_now E\<rparr>) (ts_link_table s dh))\<rparr>, df))
           | None \<Rightarrow>
               (case plain_forward (e_now E) s p dh of
                  None \<Rightarrow> (s, df)
                | Some (name, raw) \<Rightarrow> (s, send_on name raw df))))
     else (s, df))"

section \<open>Local delivery\<close>

definition matching_destinations :: "transport_state \<Rightarrow> bytes \<Rightarrow> destination list" where
  "matching_destinations s dh = filter (\<lambda>d. d_hash d = dh) (ts_destinations s)"

definition deliver :: "destination list \<Rightarrow> packet \<Rightarrow> deferred \<Rightarrow> deferred" where
  "deliver ds p df =
     df\<lparr>df_destination_receives := df_destination_receives df @ map (\<lambda>d. (d, p)) ds\<rparr>"

definition handle_link_request :: "packet \<Rightarrow> transport_state \<Rightarrow> deferred \<Rightarrow> deferred" where
  "handle_link_request p s df =
     (if p_packet_type p = LINKREQUEST then
        (case p_destination_hash p of
           None \<Rightarrow> df | Some dh \<Rightarrow> deliver (matching_destinations s dh) p df)
      else df)"

definition handle_data ::
  "env \<Rightarrow> packet \<Rightarrow> transport_state \<times> deferred \<Rightarrow> transport_state \<times> deferred"
where
  "handle_data E p = (\<lambda>(s, df).
     if p_packet_type p = DATA then
       (if p_destination_type p = Some Link then (s, df\<lparr>df_link_packets := df_link_packets df @ [p]\<rparr>)
        else case p_destination_hash p of
          None \<Rightarrow> (s, df)
        | Some dh \<Rightarrow>
          if matching_destinations s dh \<noteq> [] then (s, deliver (matching_destinations s dh) p df)
          else case plain_forward (e_now E) s p dh of
                 None \<Rightarrow> (s, df)
               | Some (name, raw) \<Rightarrow>
                 (s\<lparr>ts_path_table := (ts_path_table s)(dh :=
                      map_option (map (\<lambda>e. e\<lparr>pe_timestamp := e_now E\<rparr>)) (ts_path_table s dh))\<rparr>,
                  send_on name raw df))
     else (s, df))"

section \<open>Proofs\<close>

text \<open>
  A link-request proof on a relay: sent back towards the initiator, and the link marked
  validated, when its hop count and interface are those of the next hop and its signature is
  valid. The flag says whether it was sent.
\<close>

definition relay_lrproof ::
  "env \<Rightarrow> packet \<Rightarrow> transport_state \<times> deferred \<Rightarrow> bool \<times> transport_state \<times> deferred"
where
  "relay_lrproof E p = (\<lambda>(s, df).
     if p_context p \<noteq> LRPROOF then (False, s, df)
     else case p_destination_hash p of None \<Rightarrow> (False, s, df) | Some dh \<Rightarrow>
     (case ts_link_table s dh of None \<Rightarrow> (False, s, df) | Some e \<Rightarrow>
        if p_hops p \<noteq> lt_remaining_hops e then (False, s, df)
        else if p_receiving_interface p = lt_next_hop_interface e then
          (if validate_lrproof_signature (e_crypto E) (ts_known_destinations s) (p_data p) dh
                (lt_destination_hash e) then
             (case lt_received_interface e of
                None \<Rightarrow> (False, s, df)
              | Some name \<Rightarrow>
                (True, s\<lparr>ts_link_table := (ts_link_table s)(dh \<mapsto> e\<lparr>lt_validated := True\<rparr>)\<rparr>,
                 send_on name (if length (p_raw p) > 1 then set_hops (p_hops p) (p_raw p) else p_raw p) df))
           else (False, s, df))
        else (False, s, df)))"

text \<open>A packet proof on a relay: back along the reverse table, else along the path table.\<close>

definition relay_proof ::
  "env \<Rightarrow> packet \<Rightarrow> bytes \<Rightarrow> transport_state \<times> deferred \<Rightarrow> transport_state \<times> deferred"
where
  "relay_proof E p dh = (\<lambda>(s, df).
     let raw = (if length (p_raw p) > 1 then set_hops (p_hops p) (p_raw p) else p_raw p) in
     case ts_reverse_table s dh of
       Some e \<Rightarrow>
         (let s' = s\<lparr>ts_reverse_table := (ts_reverse_table s)(dh := None)\<rparr> in
          if p_receiving_interface p = rv_outbound_interface e then
            (s', case Option.bind (rv_received_interface e) (find_interface (ts_interfaces s)) of
                   None \<Rightarrow> df | Some i \<Rightarrow> send_on (if_name i) raw df)
          else if rv_outbound_interface e \<noteq> None then (s, df)
          else (s', df))
     | None \<Rightarrow>
         (s, case Option.bind (select_path (ts_path_table s) (ts_interfaces s) dh (e_now E))
                    (\<lambda>(_, e). pe_receiving_interface e) of
               None \<Rightarrow> df
             | Some name \<Rightarrow> if p_receiving_interface p \<noteq> Some name then send_on name raw df else df))"

definition handle_proof ::
  "env \<Rightarrow> packet \<Rightarrow> transport_state \<times> deferred \<Rightarrow> transport_state \<times> deferred"
where
  "handle_proof E p = (\<lambda>(s, df).
     if p_packet_type p = PROOF then
       (if p_context p = LRPROOF \<or> p_destination_type p = Some Link then
          (case relay_lrproof E p (s, df) of
             (True, s, df) \<Rightarrow> (s, df)
           | (False, s, df) \<Rightarrow> (s, df\<lparr>df_link_packets := df_link_packets df @ [p]\<rparr>))
        else
          (case (case p_destination_hash p of None \<Rightarrow> (s, df) | Some dh \<Rightarrow> relay_proof E p dh (s, df)) of
             (s, df) \<Rightarrow>
               (s, df\<lparr>df_proof_receipts := proof_candidates (ts_receipts s) (p_data p) (p_destination_hash p)\<rparr>)))
     else (s, df))"

section \<open>After the lock\<close>

definition conclude ::
  "(receipt \<Rightarrow> bool \<times> receipt \<times> callback_run list) \<Rightarrow> receipt list \<Rightarrow> transport_state
   \<Rightarrow> transport_state \<times> effect list"
where
  "conclude validate_one candidates s =
     (case conclude_proved_receipts validate_one candidates (ts_receipts s) of
        (_, tracked, _, es) \<Rightarrow> (s\<lparr>ts_receipts := tracked\<rparr>, map RunReceiptCallback es))"

text \<open>
  A destination gets its packet; a DATA packet it handled is proved when its strategy says so.
\<close>

definition destination_effects :: "env \<Rightarrow> destination \<times> packet \<Rightarrow> effect list" where
  "destination_effects E = (\<lambda>(d, p).
     DestinationReceive d p #
     (case e_destination_receive E d p of
        Inr True \<Rightarrow>
          if p_packet_type p = DATA then
            (if d_proof_strategy d = PROVE_ALL then [ProvePacket p d]
             else if d_proof_strategy d = PROVE_APP \<and> e_proof_requested E d p then [ProvePacket p d]
             else [])
          else []
      | _ \<Rightarrow> []))"

text \<open>A link gets its packet; a link proof the link handled concludes the receipts it proves.\<close>

definition link_packet_effects ::
  "env \<Rightarrow> packet \<Rightarrow> transport_state \<Rightarrow> transport_state \<times> effect list"
where
  "link_packet_effects E p s =
     (let handled = e_link_dispatch E p;
          is_link_proof = (p_packet_type p = PROOF \<and> p_destination_type p = Some Link)
      in if handled \<and> is_link_proof \<and> p_context p \<noteq> LRPROOF \<and> p_context p \<noteq> RESOURCE_PRF then
           (case p_destination_hash p of
              None \<Rightarrow> (s, [LinkDispatch p])
            | Some dh \<Rightarrow>
              (case conclude (validate_link_proof_with (e_link_validate E dh) (e_now E) (p_data p))
                      (proof_candidates (ts_receipts s) (p_data p) None) s of
                 (s, es) \<Rightarrow> (s, LinkDispatch p # es)))
         else (s, [LinkDispatch p]))"

fun link_packets_effects ::
  "env \<Rightarrow> packet list \<Rightarrow> transport_state \<Rightarrow> transport_state \<times> effect list"
where
  "link_packets_effects E [] s = (s, [])"
| "link_packets_effects E (p # ps) s =
     (case link_packet_effects E p s of
        (s, es) \<Rightarrow> (case link_packets_effects E ps s of (s, es') \<Rightarrow> (s, es @ es')))"

definition finish ::
  "env \<Rightarrow> packet \<Rightarrow> effect list \<Rightarrow> transport_state \<times> deferred \<Rightarrow> transport_state \<times> effect list"
where
  "finish E p iface_announce = (\<lambda>(s, df).
     case (if df_proof_receipts df = [] then (s, [])
           else conclude (validate_proof (e_crypto E) (e_now E) (p_data p)) (df_proof_receipts df) s) of
       (s, proof_effects) \<Rightarrow>
         (case link_packets_effects E (df_link_packets df) s of
            (s, link_effects) \<Rightarrow>
              (s, map CacheAnnounce (df_cached df)
                  @ map (\<lambda>(name, raw). Dispatch name raw) (df_outbound df)
                  @ proof_effects
                  @ concat (map (destination_effects E) (df_destination_receives df))
                  @ link_effects
                  @ iface_announce
                  @ map (\<lambda>(cb, dh, i, ad, ph, pr). AnnounceCallback cb dh i ad ph pr)
                      (df_announce_callbacks df))))"

section \<open>inbound\<close>

text \<open>The part of \<^verbatim>\<open>inbound\<close> that runs under the lock.\<close>

definition dispatch_packet ::
  "env \<Rightarrow> bool \<Rightarrow> packet \<Rightarrow> transport_state \<Rightarrow> packet \<times> transport_state \<times> deferred"
where
  "dispatch_packet E announce_should_add p s =
     (let s = remember_packet_hash p s;
          sd = handle_announce E announce_should_add p (s, no_deferred);
          p = inject_transport_id (fst sd) p;
          sd = handle_transit E p sd;
          sd = handle_relayed E p sd;
          sd = (fst sd, handle_link_request p (fst sd) (snd sd));
          sd = handle_data E p sd;
          sd = handle_proof E p sd
      in (p, sd))"

text \<open>Everything after the control destinations and the cache.\<close>

definition process_packet :: "env \<Rightarrow> packet \<Rightarrow> transport_state \<Rightarrow> bool \<times> transport_state \<times> effect list" where
  "process_packet E p s =
     (case check_announce E p s of
        (announce_should_add, s) \<Rightarrow>
          (let ia = interface_announce E announce_should_add p s in
           case dispatch_packet E announce_should_add p s of
             (p, sd) \<Rightarrow> (True, finish E p ia sd)))"

definition handle_control ::
  "env \<Rightarrow> string list \<Rightarrow> packet \<Rightarrow> transport_state \<Rightarrow> transport_state \<times> effect list"
where
  "handle_control E aspects p s =
     (if aspects = [''path'', ''request''] then path_request_handler E p s
      else if aspects = [''tunnel'', ''synthesize''] then (tunnel_synthesize_handler E p s, [])
      else (s, []))"

text \<open>
  What happens to a frame before the packet is acted on: the state afterwards, and the packet when
  no check dropped it.
\<close>

definition admit_frame ::
  "env \<Rightarrow> bytes \<Rightarrow> string option \<Rightarrow> transport_state \<Rightarrow> transport_state \<times> packet option"
where
  "admit_frame E raw iface s =
     (case receive_frame (e_crypto E) raw iface of
        None \<Rightarrow> (s, None)
      | Some p \<Rightarrow>
        (let s = note_inbound (e_now E) p s in
         if oversized_announce p then (s, None)
         else if announce_dropped_early s p then (s, None)
         else if \<not> packet_filter s p then (s, None)
         else case announce_rate_limit (e_now E) p s of
                (passed, s) \<Rightarrow> (s, if passed then Some p else None)))"

text \<open>The cached packet a request names, with the interface it had arrived on.\<close>

definition cache_request_packet :: "env \<Rightarrow> packet \<Rightarrow> (bytes \<times> string option) option" where
  "cache_request_packet E p =
     (if length (p_data p) = HASH_LEN
      then map_option (\<lambda>q. (p_raw q, p_receiving_interface q)) (get_cached_packet E False (p_data p))
      else None)"

text \<open>
  \<open>inbound n\<close>: a cache request that finds its packet hands it back to \<^verbatim>\<open>inbound\<close>, so the function
  is recursive; \<open>n\<close> bounds the nesting. At the bound the request is answered without the nested
  packet's effects.
\<close>

fun inbound ::
  "nat \<Rightarrow> env \<Rightarrow> bytes \<Rightarrow> string option \<Rightarrow> transport_state \<Rightarrow> bool \<times> transport_state \<times> effect list"
where
  "inbound n E raw iface s =
     (case admit_frame E raw iface s of
        (s, None) \<Rightarrow> (False, s, [])
      | (s, Some p) \<Rightarrow>
        (let ctrl = control_aspects s p; p = p\<lparr>p_hops := sat_inc (p_hops p)\<rparr> in
         case ctrl of
           Some aspects \<Rightarrow> (True, handle_control E aspects p s)
         | None \<Rightarrow>
           (case (if p_context p = CACHE_REQUEST then cache_request_packet E p else None) of
              None \<Rightarrow> process_packet E p s
            | Some (raw', iface') \<Rightarrow>
              (case n of
                 0 \<Rightarrow> (True, s, [])
               | Suc k \<Rightarrow> (case inbound k E raw' iface' s of (_, s, es) \<Rightarrow> (True, s, es))))))"

declare inbound.simps [simp del]

end
