(* ===== verification/Inbound_Correct.thy ===== *)
theory Inbound_Correct
  imports Inbound
begin

text \<open>
  Properties of inbound processing: what each step leaves alone, the paths a frame can take
  through \<^verbatim>\<open>inbound\<close>, and on top of them the theorems about rejected announces, the routing
  tables, duplicates, the rate limit, relayed links and the frames a relay sends on.
\<close>

section \<open>What each step leaves alone\<close>

lemma note_inbound_frame:
  "note_inbound now p s = s\<lparr>ts_interfaces := ts_interfaces (note_inbound now p s),
     ts_local_client_interfaces := ts_local_client_interfaces (note_inbound now p s)\<rparr>"
  unfolding note_inbound_def by (cases "p_receiving_interface p") simp_all

lemma announce_rate_limit_frame:
  "snd (announce_rate_limit now p s)
   = s\<lparr>ts_announce_rate_table := ts_announce_rate_table (snd (announce_rate_limit now p s))\<rparr>"
  unfolding announce_rate_limit_def Let_def
  by (cases "if p_packet_type p = ANNOUNCE then p_destination_hash p else None") simp_all

lemma remember_packet_hash_frame:
  "remember_packet_hash p s
   = s\<lparr>ts_packet_hashlist := ts_packet_hashlist (remember_packet_hash p s)\<rparr>"
  unfolding remember_packet_hash_def Let_def by (cases "p_packet_hash p") simp_all

text \<open>An announce whose signature does not check is forgotten, up to its hash.\<close>

lemma process_rejected_announce:
  assumes "p_packet_type p = ANNOUNCE" and "\<not> fst (validate_inbound_announce (e_crypto E) p s)"
  shows "process_packet E p s = (True, remember_packet_hash p s, [])"
  using assms
  apply (auto simp: process_packet_def check_announce_def dispatch_packet_def interface_announce_def
      handle_announce_def inject_transport_id_def handle_transit_def handle_relayed_def Let_def
      handle_link_request_def handle_data_def handle_proof_def finish_def no_deferred_def
      validate_inbound_announce_def split: prod.splits if_splits)
  done


section \<open>The paths through inbound\<close>

text \<open>What the steps before the packet is processed may change: arrival times and the rate table.\<close>

definition admitted :: "transport_state \<Rightarrow> transport_state \<Rightarrow> bool" where
  "admitted s t \<longleftrightarrow> (\<exists>ifs lcs ar. t = s\<lparr>ts_interfaces := ifs, ts_local_client_interfaces := lcs,
     ts_announce_rate_table := ar\<rparr>)"

lemma admittedD:
  assumes "admitted s t"
  shows "ts_path_table t = ts_path_table s" and "ts_path_random_blobs t = ts_path_random_blobs s"
    and "ts_packet_hashlist t = ts_packet_hashlist s"
    and "ts_packet_hashlist_prev t = ts_packet_hashlist_prev s"
    and "ts_destinations t = ts_destinations s" and "ts_identity t = ts_identity s"
    and "ts_is_connected_to_shared_instance t = ts_is_connected_to_shared_instance s"
    and "ts_link_table t = ts_link_table s"
    and "ts_validated_announce_hashes t = ts_validated_announce_hashes s"
    and "ts_validated_announce_hashes_prev t = ts_validated_announce_hashes_prev s"
    and "control_aspects t = control_aspects s" and "packet_filter t = packet_filter s"
    and "announce_dropped_early t = announce_dropped_early s"
  using assms
  by (auto simp: admitted_def control_aspects_def fun_eq_iff packet_filter_def announce_dropped_early_def
      cong: option.case_cong if_cong)

lemma admitted_refl: "admitted s s"
  unfolding admitted_def
  by (rule exI [of _ "ts_interfaces s"], rule exI [of _ "ts_local_client_interfaces s"],
      rule exI [of _ "ts_announce_rate_table s"]) simp

lemma admitted_rate_limit:
  assumes "admitted s t"
  shows "admitted s (snd (announce_rate_limit now p t))"
proof -
  obtain ifs lcs ar where t: "t = s\<lparr>ts_interfaces := ifs, ts_local_client_interfaces := lcs,
     ts_announce_rate_table := ar\<rparr>"
    using assms by (auto simp: admitted_def)
  obtain ar' where "snd (announce_rate_limit now p t) = t\<lparr>ts_announce_rate_table := ar'\<rparr>"
    by (rule that, rule announce_rate_limit_frame)
  then show ?thesis
    unfolding admitted_def t by (intro exI) simp
qed

lemma admitted_note_inbound: "admitted s (note_inbound now p s)"
proof -
  obtain ifs lcs where
    "note_inbound now p s = s\<lparr>ts_interfaces := ifs, ts_local_client_interfaces := lcs\<rparr>"
    by (rule that, rule note_inbound_frame)
  then have "note_inbound now p s = s\<lparr>ts_interfaces := ifs, ts_local_client_interfaces := lcs,
      ts_announce_rate_table := ts_announce_rate_table s\<rparr>"
    by simp
  then show ?thesis
    unfolding admitted_def by blast
qed

lemma admitted_before: "announce_rate_limit now p (note_inbound now' p' s) = (ok, t) \<Longrightarrow> admitted s t"
  using admitted_rate_limit [OF admitted_note_inbound [of s now' p'], of now p] by simp

lemma admit_frame_dropped: "admit_frame E raw iface s = (t, None) \<Longrightarrow> admitted s t"
  using admitted_note_inbound admitted_before admitted_refl
  unfolding admit_frame_def Let_def
  by (fastforce split: option.splits if_splits prod.splits)

lemma admit_frame_passed:
  assumes "admit_frame E raw iface s = (t, Some p)"
  shows "admitted s t" and "receive_frame (e_crypto E) raw iface = Some p"
    and "packet_filter s p" and "\<not> oversized_announce p" and "\<not> announce_dropped_early s p"
  using assms admitted_before admittedD(12,13) [OF admitted_note_inbound]
  unfolding admit_frame_def Let_def
  by (auto split: option.splits if_splits prod.splits)

abbreviation counted :: "packet \<Rightarrow> packet" where
  "counted p \<equiv> p\<lparr>p_hops := sat_inc (p_hops p)\<rparr>"

lemma cache_request_counted [simp]: "cache_request_packet E (counted p) = cache_request_packet E p"
  by (simp add: cache_request_packet_def)

lemma inbound_cases:
  assumes "inbound n E raw iface s = (r, s', es)"
  obtains
    (inert) "admitted s s'" "es = []"
      "r \<Longrightarrow> \<exists>p. receive_frame (e_crypto E) raw iface = Some p \<and> p_context p = CACHE_REQUEST"
  | (control) p t aspects where "admit_frame E raw iface s = (t, Some p)" "r"
      "control_aspects s p = Some aspects" "handle_control E aspects (counted p) t = (s', es)"
  | (cached) p t k raw' iface' r' where "admit_frame E raw iface s = (t, Some p)" "r" "n = Suc k"
      "p_context p = CACHE_REQUEST"
      "cache_request_packet E p = Some (raw', iface')" "inbound k E raw' iface' t = (r', s', es)"
  | (processed) p t where "admit_frame E raw iface s = (t, Some p)" "r"
      "control_aspects s p = None"
      "p_context p = CACHE_REQUEST \<Longrightarrow> cache_request_packet E p = None"
      "process_packet E (counted p) t = (r, s', es)"
proof (cases "admit_frame E raw iface s")
  case (Pair t po)
  have eq: "(case po of None \<Rightarrow> (False, t, [])
      | Some p \<Rightarrow> (case control_aspects t p of
           Some aspects \<Rightarrow> (True, handle_control E aspects (counted p) t)
         | None \<Rightarrow> (case (if p_context p = CACHE_REQUEST then cache_request_packet E p else None) of
              None \<Rightarrow> process_packet E (counted p) t
            | Some (raw', iface') \<Rightarrow>
              (case n of 0 \<Rightarrow> (True, t, [])
               | Suc k \<Rightarrow> (case inbound k E raw' iface' t of (_, s, es) \<Rightarrow> (True, s, es)))))) = (r, s', es)"
    using assms by (subst (asm) inbound.simps)
      (simp add: Pair Let_def cong: option.case_cong if_cong)
  show ?thesis
  proof (cases po)
    case None
    then show ?thesis
      using eq Pair admit_frame_dropped [of E raw iface s t] inert by simp
  next
    case (Some p)
    note ad = admit_frame_passed [OF Pair [unfolded Some]]
    note ctrl = admittedD(11) [OF ad(1)]
    consider aspects where "control_aspects s p = Some aspects"
      | "control_aspects s p = None" "(if p_context p = CACHE_REQUEST then cache_request_packet E p else None) = None"
      | raw' iface' where "control_aspects s p = None" "p_context p = CACHE_REQUEST"
          "cache_request_packet E p = Some (raw', iface')"
      by (cases "control_aspects s p"; cases "if p_context p = CACHE_REQUEST then cache_request_packet E p else None")
         (auto split: if_splits)
    then show ?thesis
    proof cases
      case 1
      then show ?thesis using eq Pair Some ctrl control [of t p aspects] by simp
    next
      case 2
      then show ?thesis
        using eq Pair Some ctrl processed [of t p]
        by (auto simp: process_packet_def split: prod.splits if_splits)
    next
      case 3
      then show ?thesis
        using eq Pair Some ctrl inert ad(1,2) cached [of t p _ raw' iface']
        by (cases n) (auto split: prod.splits)
    qed
  qed
qed


section \<open>Rejected announces\<close>

text \<open>
  C11. An announce of at least 64 bytes that was not validated before and whose signature or hash
  does not check changes nothing but the arrival times, the rate table and the list of packet
  hashes, and has no effect: no route, no known destination, no rebroadcast, no callback.
\<close>

theorem forged_announce_inert:
  assumes "receive_frame (e_crypto E) raw iface = Some p" and "p_packet_type p = ANNOUNCE"
    and "control_aspects s p = None" and "KEY_LEN \<le> length (p_data p)"
    and "\<And>h. p_packet_hash p = Some h
           \<Longrightarrow> h \<notin> ts_validated_announce_hashes s \<union> ts_validated_announce_hashes_prev s"
    and "\<not> validate_announce (e_crypto E) (p_data p) (p_destination_hash p)
              (Some (take KEY_LEN (p_data p))) (p_context_flag p)"
  shows "\<exists>r ifs lcs ar hs. inbound n E raw iface s =
     (r, s\<lparr>ts_interfaces := ifs, ts_local_client_interfaces := lcs, ts_announce_rate_table := ar,
           ts_packet_hashlist := hs\<rparr>, [])"
proof (cases "inbound n E raw iface s")
  case (fields r s' es)
  have same: ?thesis if "admitted s t" "s' = t\<lparr>ts_packet_hashlist := hs\<rparr>" "es = []" for t hs
    using that fields by (force simp: admitted_def)
  from fields show ?thesis
  proof (cases rule: inbound_cases)
    case inert
    then show ?thesis using same [of s' "ts_packet_hashlist s'"] by simp
  next
    case control
    then show ?thesis using assms(1,3) admit_frame_passed(2) by fastforce
  next
    case (cached q)
    then have "q = p"
      using assms(1) admit_frame_passed(2) by fastforce
    then show ?thesis
      using cached assms(4) by (simp add: cache_request_packet_def)
  next
    case (processed q t)
    then have [simp]: "q = p" and "admitted s t"
      using assms(1) admit_frame_passed by fastforce+
    have "\<not> fst (validate_inbound_announce (e_crypto E) (counted p) t)"
      using assms admittedD [OF \<open>admitted s t\<close>]
      by (auto simp: validate_inbound_announce_def Let_def split: option.splits)
    then have "process_packet E (counted p) t = (True, remember_packet_hash (counted p) t, [])"
      using assms(2) by (intro process_rejected_announce) simp_all
    then show ?thesis
      using processed same [OF \<open>admitted s t\<close>, of "ts_packet_hashlist s'"]
        remember_packet_hash_frame [of "counted p" t] by simp
  qed
qed

section \<open>Concrete inputs\<close>

definition plain_frame :: "u8 \<Rightarrow> u8 \<Rightarrow> bytes \<Rightarrow> u8 \<Rightarrow> bytes \<Rightarrow> bytes" where
  "plain_frame ptype hops dh context data = [ptype, hops] @ dh @ [context] @ data"

lemma receive_plain_frame:
  assumes "ptype \<in> {DATA, ANNOUNCE, LINKREQUEST, PROOF}" and "length dh = DST_LEN" and "data \<noteq> []"
    and "hops < PATHFINDER_M"
  obtains p where "receive_frame c (plain_frame ptype hops dh context data) iface = Some p"
    "p_packet_type p = ptype" "p_destination_hash p = Some dh" "p_destination_type p = Some Single"
    "p_context p = context" "p_context_flag p = 0" "p_data p = data" "p_transport_id p = None"
    "p_hops p = hops" "p_receiving_interface p = iface" "p_header_type p = HEADER_1" "p_flags p = ptype"
    "p_raw p = plain_frame ptype hops dh context data"
    "p_packet_hash p = Some (full_hash (c_sha c) (ptype # dh @ [context] @ data))"
proof (rule that)
  have len: "\<not> length data + 19 \<le> 2" by simp
  show "receive_frame c (plain_frame ptype hops dh context data) iface = Some (snd (unpack (c_sha c)
     ((new_packet None [] 0 0 BROADCAST HEADER_1 None None False 0)
                \<lparr>p_raw := plain_frame ptype hops dh context data, p_receiving_interface := iface\<rparr>)))"
    using assms
    by (auto simp: receive_frame_def plain_frame_def unpack_def unpack_addresses_def unpack_flags_def Let_def
        split: prod.splits)
qed (use assms in \<open>auto simp: plain_frame_def unpack_def unpack_addresses_def unpack_flags_def Let_def
      new_packet_def update_hash_def get_hash_def get_hashable_part_def byte_range_def nth_append
      dest_type_of_u8_def split: prod.splits\<close>)

text \<open>An announce nobody signed: the primitives accept no signature.\<close>

definition no_signature_env :: env where
  "no_signature_env = sample_env\<lparr>e_crypto := toy_crypto\<lparr>c_ed_verify := \<lambda>_ _ _. False\<rparr>\<rparr>"

definition sample_announce_data :: bytes where
  "sample_announce_data =
     announce_layout (replicate 64 1) (replicate 10 2) (replicate 10 3) [] (replicate 64 5) []"

theorem forged_announce_inert_witness:
  "\<exists>r ifs lcs ar hs. inbound 0 no_signature_env (plain_frame ANNOUNCE 3 (replicate 16 7) 0 sample_announce_data) None
       fresh_state = (r, fresh_state\<lparr>ts_interfaces := ifs, ts_local_client_interfaces := lcs,
         ts_announce_rate_table := ar, ts_packet_hashlist := hs\<rparr>, [])"
proof -
  let ?c = "e_crypto no_signature_env"
  obtain p where p: "receive_frame ?c (plain_frame ANNOUNCE 3 (replicate 16 7) 0 sample_announce_data) None = Some p"
    "p_packet_type p = ANNOUNCE" "p_destination_hash p = Some (replicate 16 7)"
    "p_data p = sample_announce_data" "p_context_flag p = FLAG_UNSET"
    by (rule receive_plain_frame [of ANNOUNCE "replicate 16 7" sample_announce_data 3 ?c 0 None])
       (auto simp: sample_announce_data_def announce_layout_def)
  have len: "announce_lengths (replicate 64 1) (replicate 10 2) (replicate 10 3) [] (replicate 64 5) FLAG_UNSET"
    by (simp add: announce_lengths_def)
  have "\<not> validate_announce ?c sample_announce_data (Some (replicate 16 7)) (Some (take KEY_LEN sample_announce_data)) FLAG_UNSET"
    unfolding sample_announce_data_def
    by (subst (2) announce_layout_def) (simp add: validate_announce_layout [OF len] no_signature_env_def)
  moreover have "KEY_LEN \<le> length sample_announce_data"
    by (simp add: sample_announce_data_def announce_layout_def)
  ultimately show ?thesis
    using p by (intro forged_announce_inert [where p = p])
      (auto simp: fresh_state_def control_aspects_def)
qed

section \<open>The routing tables\<close>

text \<open>The part of the state that holds routes, with the node's own destinations.\<close>

definition routing_of :: "transport_state \<Rightarrow> path_table \<times> (bytes \<rightharpoonup> bytes list) \<times> destination list
    \<times> (bytes \<rightharpoonup> tunnel_entry)" where
  "routing_of s = (ts_path_table s, ts_path_random_blobs s, ts_destinations s, ts_tunnels s)"

text \<open>
  The invariant of the routing tables: they are bounded and well formed, and neither the path
  table nor a tunnel has a route to one of the node's own destinations.
\<close>

definition transport_inv :: "transport_state \<Rightarrow> bool" where
  "transport_inv s \<longleftrightarrow> path_inv s
     \<and> (\<forall>d\<in>set (ts_destinations s). ts_path_table s (d_hash d) = None
          \<and> (\<forall>tid t. ts_tunnels s tid = Some t \<longrightarrow> tt_paths t (d_hash d) = None))"

text \<open>What decides whether a packet was seen before.\<close>

definition seen_of :: "transport_state \<Rightarrow> bytes set \<times> bytes set \<times> bool" where
  "seen_of s = (ts_packet_hashlist s, ts_packet_hashlist_prev s, ts_is_connected_to_shared_instance s)"

lemma transport_inv_cong: "routing_of t = routing_of s \<Longrightarrow> transport_inv t = transport_inv s"
  by (simp add: routing_of_def transport_inv_def path_inv_def)

lemma routing_core: "core_of t = core_of s \<Longrightarrow> routing_of t = routing_of s"
  by (simp add: core_of_def routing_of_def)

lemma routing_admitted: "admitted s t \<Longrightarrow> routing_of t = routing_of s"
  by (auto simp: admitted_def routing_of_def)

lemma routing_update [simp]:
  "routing_of (s\<lparr>ts_packet_hashlist := h\<rparr>) = routing_of s"
  "routing_of (s\<lparr>ts_link_table := l\<rparr>) = routing_of s"
  "routing_of (s\<lparr>ts_reverse_table := r\<rparr>) = routing_of s"
  "routing_of (s\<lparr>ts_receipts := rs\<rparr>) = routing_of s"
  "routing_of (s\<lparr>ts_announce_table := a\<rparr>) = routing_of s"
  "routing_of (s\<lparr>ts_known_destinations := k\<rparr>) = routing_of s"
  "routing_of (s\<lparr>ts_known_ratchets := kr\<rparr>) = routing_of s"
  "routing_of (s\<lparr>ts_validated_announce_hashes := v\<rparr>) = routing_of s"
  "routing_of (s\<lparr>ts_global_blobs := g\<rparr>) = routing_of s"
  "routing_of (s\<lparr>ts_discovery_path_requests := d\<rparr>) = routing_of s"
  by (simp_all add: routing_of_def)

lemma seen_update [simp]:
  "seen_of (s\<lparr>ts_link_table := x0\<rparr>) = seen_of s"
  "seen_of (s\<lparr>ts_reverse_table := x1\<rparr>) = seen_of s"
  "seen_of (s\<lparr>ts_receipts := x2\<rparr>) = seen_of s"
  "seen_of (s\<lparr>ts_announce_table := x3\<rparr>) = seen_of s"
  "seen_of (s\<lparr>ts_known_destinations := x4\<rparr>) = seen_of s"
  "seen_of (s\<lparr>ts_known_ratchets := x5\<rparr>) = seen_of s"
  "seen_of (s\<lparr>ts_validated_announce_hashes := x6\<rparr>) = seen_of s"
  "seen_of (s\<lparr>ts_global_blobs := x7\<rparr>) = seen_of s"
  "seen_of (s\<lparr>ts_discovery_path_requests := x8\<rparr>) = seen_of s"
  "seen_of (s\<lparr>ts_path_table := x9\<rparr>) = seen_of s"
  "seen_of (s\<lparr>ts_path_random_blobs := x10\<rparr>) = seen_of s"
  "seen_of (s\<lparr>ts_path_table_dirty := x11\<rparr>) = seen_of s"
  "seen_of (s\<lparr>ts_path_verified_this_session := x12\<rparr>) = seen_of s"
  "seen_of (s\<lparr>ts_tunnels := x13\<rparr>) = seen_of s"
  "seen_of (s\<lparr>ts_client_announce_pacing := x14\<rparr>) = seen_of s"
  "seen_of (s\<lparr>ts_pending_local_announces := x15\<rparr>) = seen_of s"
  "seen_of (s\<lparr>ts_interfaces := x16\<rparr>) = seen_of s"
  "seen_of (s\<lparr>ts_local_client_interfaces := x17\<rparr>) = seen_of s"
  "seen_of (s\<lparr>ts_announce_rate_table := x18\<rparr>) = seen_of s"
  by (simp_all add: seen_of_def)

lemma kept_check_announce [simp]:
  "routing_of (snd (check_announce E p s)) = routing_of s"
  "seen_of (snd (check_announce E p s)) = seen_of s"
  by (simp_all add: check_announce_def validate_inbound_announce_def remember_announced_def Let_def
      split: option.split sum.split prod.split)

lemma routing_remember_packet_hash [simp]: "routing_of (remember_packet_hash p s) = routing_of s"
  by (simp add: remember_packet_hash_def Let_def split: option.split)

lemma kept_note_local_rebroadcast [simp]:
  "routing_of (note_local_rebroadcast now p dh s) = routing_of s"
  "seen_of (note_local_rebroadcast now p dh s) = seen_of s"
  by (simp_all add: note_local_rebroadcast_def Let_def split: option.split)

lemma kept_note_global_blob [simp]:
  "routing_of (note_global_blob E b s) = routing_of s"
  "seen_of (note_global_blob E b s) = seen_of s"
  by (simp_all add: note_global_blob_def Let_def split: option.split)

lemma kept_answer_discovery [simp]:
  "routing_of (fst (answer_discovery p dh sd)) = routing_of (fst sd)"
  "seen_of (fst (answer_discovery p dh sd)) = seen_of (fst sd)"
  by (simp_all add: answer_discovery_def split_def split: option.split)

lemma kept_queue_rebroadcast [simp]:
  "routing_of (queue_rebroadcast E new p dh rf s) = routing_of s"
  "seen_of (queue_rebroadcast E new p dh rf s) = seen_of s"
  by (simp_all add: queue_rebroadcast_def Let_def)

lemma kept_pace_client [simp]:
  "routing_of (snd (pace_client now name raw s)) = routing_of s"
  "seen_of (snd (pace_client now name raw s)) = seen_of s"
  by (simp_all add: pace_client_def Let_def routing_of_def)

lemma routing_forward_to_clients [simp]:
  "routing_of (fst (forward_to_clients now raw names sd)) = routing_of (fst sd)"
  by (induction now raw names sd rule: forward_to_clients.induct) (simp_all add: split_def)

lemma seen_forward_to_clients [simp]:
  "seen_of (fst (forward_to_clients now raw names sd)) = seen_of (fst sd)"
  by (induction now raw names sd rule: forward_to_clients.induct) (simp_all add: split_def)

lemma kept_announce_to_clients [simp]:
  "routing_of (fst (announce_to_clients now p dh sd)) = routing_of (fst sd)"
  "seen_of (fst (announce_to_clients now p dh sd)) = seen_of (fst sd)"
  by (simp_all add: announce_to_clients_def split_def Let_def)

lemma routing_handle_relayed [simp]: "routing_of (fst (handle_relayed E p sd)) = routing_of (fst sd)"
  by (simp add: handle_relayed_def split_def Let_def split: option.split)

lemma kept_relay_lrproof [simp]:
  "routing_of (fst (snd (relay_lrproof E p sd))) = routing_of (fst sd)"
  "seen_of (fst (snd (relay_lrproof E p sd))) = seen_of (fst sd)"
  by (simp_all add: relay_lrproof_def split_def Let_def split: option.split)

lemma kept_relay_proof [simp]:
  "routing_of (fst (relay_proof E p dh sd)) = routing_of (fst sd)"
  "seen_of (fst (relay_proof E p dh sd)) = seen_of (fst sd)"
  by (simp_all add: relay_proof_def split_def Let_def split: option.split)

lemma kept_handle_proof [simp]:
  "routing_of (fst (handle_proof E p sd)) = routing_of (fst sd)"
  "seen_of (fst (handle_proof E p sd)) = seen_of (fst sd)"
  using kept_relay_lrproof [of E p sd]
  by (simp_all add: handle_proof_def split_def Let_def split: option.split bool.split)

lemma kept_conclude [simp]:
  "routing_of (fst (conclude v cs s)) = routing_of s"
  "seen_of (fst (conclude v cs s)) = seen_of s"
  by (simp_all add: conclude_def split_def)

lemma kept_link_packet_effects [simp]:
  "routing_of (fst (link_packet_effects E p s)) = routing_of s"
  "seen_of (fst (link_packet_effects E p s)) = seen_of s"
  by (simp_all add: link_packet_effects_def split_def Let_def split: option.split)

lemma routing_link_packets_effects [simp]: "routing_of (fst (link_packets_effects E ps s)) = routing_of s"
  by (induction ps arbitrary: s) (simp_all add: split_def)

lemma seen_link_packets_effects [simp]: "seen_of (fst (link_packets_effects E ps s)) = seen_of s"
  by (induction ps arbitrary: s) (simp_all add: split_def)

lemma kept_finish [simp]:
  "routing_of (fst (finish E p ia sd)) = routing_of (fst sd)"
  "seen_of (fst (finish E p ia sd)) = seen_of (fst sd)"
  by (simp_all add: finish_def split_def)

section \<open>The steps that touch routes\<close>

text \<open>Refreshing time stamps keeps a list of routes well formed.\<close>

lemma wf_routes_retimed: "map route_key es' = map route_key es \<Longrightarrow> wf_routes es' = wf_routes es"
  by (metis length_map wf_routes_key)

lemma route_key_retimed [simp]: "route_key (e\<lparr>pe_timestamp := t\<rparr>) = route_key e"
  by (simp add: route_key_def)

lemma transport_inv_retimed:
  assumes "transport_inv s" and "ts_path_table s dh = Some es" and "map route_key es' = map route_key es"
  shows "transport_inv (s\<lparr>ts_path_table := (ts_path_table s)(dh \<mapsto> es')\<rparr>)"
proof -
  have "wf_routes es" "es \<noteq> []"
    using assms(1,2) by (auto simp: transport_inv_def path_inv_def routes.table_wf_def)
  then have "wf_routes es'" "es' \<noteq> []"
    using assms(3) wf_routes_retimed by (metis, metis list.map_disc_iff)
  then show ?thesis
    using assms(1,2) unfolding transport_inv_def path_inv_def
    by (auto simp: routes.table_wf_update)
qed

lemma transport_inv_refresh_front: "transport_inv s \<Longrightarrow> transport_inv (refresh_front now dh s)"
  by (auto simp: refresh_front_def transport_inv_retimed split: option.split list.split)

lemma transport_inv_forward_transit:
  assumes "transport_inv (fst sd)" shows "transport_inv (fst (forward_transit E p dh sd))"
proof -
  have inv: "transport_inv (refresh_front now dh t)" if "routing_of t = routing_of (fst sd)" for now t
    using that assms transport_inv_cong transport_inv_refresh_front by blast
  show ?thesis
    using assms by (auto simp: forward_transit_def split_def Let_def intro!: inv)
qed

lemma transport_inv_handle_transit:
  "transport_inv (fst sd) \<Longrightarrow> transport_inv (fst (handle_transit E p sd))"
  by (auto simp: handle_transit_def split_def transport_inv_forward_transit split: option.split)

lemma transport_inv_handle_data:
  "transport_inv (fst sd) \<Longrightarrow> transport_inv (fst (handle_data E p sd))"
proof -
  assume inv: "transport_inv (fst sd)"
  have "transport_inv ((fst sd)\<lparr>ts_path_table := (ts_path_table (fst sd))(dh :=
      map_option (map (\<lambda>e. e\<lparr>pe_timestamp := t\<rparr>)) (ts_path_table (fst sd) dh))\<rparr>)" for dh t
    using inv transport_inv_retimed [OF inv, of dh _ "map (\<lambda>e. e\<lparr>pe_timestamp := t\<rparr>) _"]
    by (cases "ts_path_table (fst sd) dh") (auto simp: fun_upd_idem comp_def)
  with inv show ?thesis
    by (auto simp: handle_data_def split_def split: option.split)
qed

text \<open>Learning a route, and recording it in the tunnel, for a destination that is not ours.\<close>

lemma transport_inv_learn_route:
  assumes "transport_inv s" and "\<not> is_own_destination s dh"
  shows "transport_inv (snd (learn_route now dh e blob s))"
  using assms path_inv_learn [of s now dh e blob]
  by (auto simp: transport_inv_def is_own_destination_def learn_route_def Let_def)

lemma transport_inv_record_tunnel_path:
  assumes "transport_inv s" and "\<not> is_own_destination s dh"
  shows "transport_inv (record_tunnel_path now iface dh hop hops ex blob ph s)"
proof -
  have "path_inv (record_tunnel_path now iface dh hop hops ex blob ph s)"
    using assms(1) by (simp add: transport_inv_def record_tunnel_path_def path_inv_def split: option.split)
  then show ?thesis
    using assms unfolding transport_inv_def is_own_destination_def record_tunnel_path_def
    by (auto split: option.split)
qed

lemma own_learn_route [simp]: "is_own_destination (snd (learn_route now d e blob s)) dh = is_own_destination s dh"
  by (simp add: is_own_destination_def learn_route_def Let_def)

text \<open>What accepting an announce does to the routing tables.\<close>

lemma routing_accept_announce:
  fixes E p dh sd
  defines "t \<equiv> note_global_blob E (announce_blob p) (note_local_rebroadcast (e_now E) p dh (fst sd))"
  defines "rf \<equiv> (case p_transport_id p of Some t \<Rightarrow> t | None \<Rightarrow> dh)"
  shows "routing_of (fst (accept_announce E p dh sd)) = routing_of
    (if is_own_destination t dh then t
     else record_tunnel_path (e_now E) (p_receiving_interface p) dh rf (p_hops p) (e_now E + DESTINATION_TIMEOUT)
            (announce_blob p) (case p_packet_hash p of None \<Rightarrow> [] | Some h \<Rightarrow> h)
            (snd (learn_route (e_now E) dh (announced_route (e_now E) p rf) (announce_blob p) t)))"
  unfolding t_def rf_def by (simp add: accept_announce_def split_def Let_def)

lemma transport_inv_accept_announce:
  assumes "transport_inv (fst sd)" shows "transport_inv (fst (accept_announce E p dh sd))"
proof -
  have "transport_inv (note_global_blob E (announce_blob p) (note_local_rebroadcast (e_now E) p dh (fst sd)))"
    using assms transport_inv_cong [of "note_global_blob _ _ (note_local_rebroadcast _ _ _ (fst sd))" "fst sd"]
    by simp
  then show ?thesis
    by (simp add: transport_inv_cong [OF routing_accept_announce] transport_inv_record_tunnel_path
        transport_inv_learn_route)
qed

lemma transport_inv_handle_announce:
  "transport_inv (fst sd) \<Longrightarrow> transport_inv (fst (handle_announce E add p sd))"
  by (simp add: handle_announce_def split_def Let_def transport_inv_accept_announce split: option.split)

text \<open>The stages of processing, named.\<close>

lemma process_packet_stages:
  assumes "process_packet E p s = (r, s', es)"
  obtains s1 sd q sd2 sd3 ia where
    "s1 = remember_packet_hash p (snd (check_announce E p s))"
    "sd = handle_announce E (fst (check_announce E p s)) p (s1, no_deferred)"
    "q = inject_transport_id (fst sd) p"
    "sd2 = handle_relayed E q (handle_transit E q sd)"
    "sd3 = handle_data E q (fst sd2, handle_link_request q (fst sd2) (snd sd2))"
    "ia = interface_announce E (fst (check_announce E p s)) p (snd (check_announce E p s))"
    "finish E q ia (handle_proof E q sd3) = (s', es)"
  using assms
  by (intro that [OF refl refl refl refl refl refl])
     (simp add: process_packet_def dispatch_packet_def Let_def split_def)

lemma transport_inv_process_packet:
  assumes "transport_inv s" and "process_packet E p s = (r, s', es)"
  shows "transport_inv s'"
  using assms(2)
proof (rule process_packet_stages)
  fix s1 sd q sd2 sd3 ia
  assume s1: "s1 = remember_packet_hash p (snd (check_announce E p s))"
    and sd: "sd = handle_announce E (fst (check_announce E p s)) p (s1, no_deferred)"
    and sd2: "sd2 = handle_relayed E q (handle_transit E q sd)"
    and sd3: "sd3 = handle_data E q (fst sd2, handle_link_request q (fst sd2) (snd sd2))"
    and fin: "finish E q ia (handle_proof E q sd3) = (s', es)"
  have "transport_inv s1"
    using assms(1) by (simp add: s1 transport_inv_cong [OF routing_remember_packet_hash]
        transport_inv_cong [OF kept_check_announce(1)])
  then have "transport_inv (fst sd)"
    unfolding sd by (intro transport_inv_handle_announce) simp
  then have "transport_inv (fst sd2)"
    unfolding sd2 by (simp add: transport_inv_cong [OF routing_handle_relayed] transport_inv_handle_transit)
  then have "transport_inv (fst sd3)"
    unfolding sd3 by (intro transport_inv_handle_data) simp
  moreover have "routing_of s' = routing_of (fst sd3)"
    using kept_finish(1) [of E q ia "handle_proof E q sd3"] fin by simp
  ultimately show "transport_inv s'"
    using transport_inv_cong by blast
qed

text \<open>The control destinations.\<close>

lemma transport_inv_path_request_handler:
  "transport_inv s \<Longrightarrow> transport_inv (fst (path_request_handler E p s))"
  by (auto simp: path_request_handler_def path_request_keeps transport_inv_def path_inv_def Let_def
      split: option.split)

lemma restore_tunnel_paths_keeps:
  "ts_destinations (snd (restore_tunnel_paths iface now rs s)) = ts_destinations s"
  "ts_tunnels (snd (restore_tunnel_paths iface now rs s)) = ts_tunnels s"
  by (induction iface now rs s rule: restore_tunnel_paths.induct) (simp_all add: split_def)

lemma transport_inv_restore_tunnel_paths:
  assumes "transport_inv s" and "\<And>dh tp. (dh, tp) \<in> set rs \<Longrightarrow> \<not> is_own_destination s dh"
  shows "transport_inv (snd (restore_tunnel_paths iface now rs s))"
  using assms
proof (induction iface now rs s rule: restore_tunnel_paths.induct)
  case (2 iface now dh tp rs s)
  show ?case
  proof (cases "restorable now (ts_path_table s) dh tp")
    case False
    then show ?thesis using 2(2) [OF False 2(3)] 2(4) by (force simp: split_def)
  next
    case True
    let ?e = "\<lparr> pe_timestamp = now, pe_next_hop = tp_next_hop tp, pe_hops = tp_hops tp,
                   pe_expires = tp_expires tp, pe_receiving_interface = Some iface,
                   pe_packet_hash = tp_packet_hash tp \<rparr>"
    let ?s = "s\<lparr>ts_path_table := (ts_path_table s)(dh \<mapsto> admit_route ?e
                 (case ts_path_table s dh of None \<Rightarrow> [] | Some es \<Rightarrow> es)), ts_path_table_dirty := True\<rparr>"
    have "routes.table_wf (ts_path_table s)"
      using 2(3) by (simp add: transport_inv_def path_inv_def)
    from routes.table_wf_admit [OF this, of dh ?e] have "routes.table_wf (ts_path_table ?s)"
      by simp
    then have "transport_inv ?s"
      using 2(3) 2(4) [of dh tp] unfolding transport_inv_def path_inv_def is_own_destination_def
      by auto
    moreover have "\<And>d tp. (d, tp) \<in> set rs \<Longrightarrow> \<not> is_own_destination ?s d"
      using 2(4) by (auto simp: is_own_destination_def)
    ultimately show ?thesis
      using 2(1) [OF True] True by simp
  qed
qed simp

text \<open>What the code relies on when it iterates over a tunnel's paths: it sees the entries of the map.\<close>

definition tunnel_order_ok :: "env \<Rightarrow> bool" where
  "tunnel_order_ok E \<longleftrightarrow> (\<forall>m dh tp. (dh, tp) \<in> set (e_tunnel_order E m) \<longrightarrow> m dh = Some tp)"

lemma transport_inv_handle_tunnel:
  assumes "transport_inv s" and "tunnel_order_ok E"
  shows "transport_inv (handle_tunnel E tid iface s)"
proof -
  let ?s = "s\<lparr>ts_interfaces := update_first (\<lambda>i. if_name i = iface)
                 (\<lambda>i. i\<lparr>if_tunnel_id := Some tid\<rparr>) (ts_interfaces s)\<rparr>"
  have inv: "transport_inv ?s"
    using assms(1) by (subst transport_inv_cong [of _ s]) (simp_all add: routing_of_def)
  show ?thesis
  proof (cases "ts_tunnels s tid")
    case None
    then show ?thesis
      using inv unfolding transport_inv_def path_inv_def by (auto simp: handle_tunnel_def Let_def)
  next
    case (Some t)
    let ?r = "restore_tunnel_paths iface (e_now E) (e_tunnel_order E (tt_paths t)) ?s"
    have "\<not> is_own_destination ?s dh" if "(dh, tp) \<in> set (e_tunnel_order E (tt_paths t))" for dh tp
      using that assms Some unfolding is_own_destination_def transport_inv_def tunnel_order_ok_def by fastforce
    then have "transport_inv (snd ?r)"
      by (rule transport_inv_restore_tunnel_paths [OF inv])
    moreover have "tt_paths t (d_hash d) = None" if "d \<in> set (ts_destinations s)" for d
      using that assms(1) Some by (auto simp: transport_inv_def)
    ultimately show ?thesis
      using Some unfolding transport_inv_def path_inv_def
      by (auto simp: handle_tunnel_def Let_def split_def restore_tunnel_paths_keeps)
  qed
qed

lemma transport_inv_handle_control:
  "transport_inv s \<Longrightarrow> tunnel_order_ok E \<Longrightarrow> transport_inv (fst (handle_control E aspects p s))"
  by (simp add: handle_control_def transport_inv_path_request_handler tunnel_synthesize_handler_def
      transport_inv_handle_tunnel Let_def split: option.split)

section \<open>Sequences of frames\<close>

lemma transport_inv_inbound:
  assumes "transport_inv s" and "tunnel_order_ok E" and "inbound n E raw iface s = (r, s', es)"
  shows "transport_inv s'"
  using assms
proof (induction n arbitrary: raw iface s r rule: less_induct)
  case (less n)
  have step: "transport_inv t" if "admit_frame E raw iface s = (t, Some p)" for t p
    using that less(2) transport_inv_cong [OF routing_admitted] admit_frame_passed(1) by blast
  from less(4) show ?case
  proof (cases rule: inbound_cases)
    case inert
    then show ?thesis using less(2) transport_inv_cong [OF routing_admitted] by blast
  next
    case (control p t aspects)
    then show ?thesis
      using step transport_inv_handle_control [OF _ less(3), of t aspects "counted p"] by simp
  next
    case cached
    then show ?thesis using step less.IH [OF _ _ less(3)] by blast
  next
    case processed
    then show ?thesis using step transport_inv_process_packet by blast
  qed
qed

text \<open>A frame with the nesting bound and the environment it is received in.\<close>

type_synonym arrival = "nat \<times> env \<times> bytes \<times> string option"

definition receive_all :: "arrival list \<Rightarrow> transport_state \<Rightarrow> transport_state" where
  "receive_all fs s = fold (\<lambda>(n, E, raw, iface) s. fst (snd (inbound n E raw iface s))) fs s"

text \<open>
  The routing tables stay sound whatever arrives. After any sequence of frames, on any
  interfaces, every destination has at least one and at most three routes, no two through the
  same interface and next hop, the emission memory is bounded, and neither the path table nor a
  tunnel has a route to one of the node's own destinations.
\<close>

theorem routing_tables_invariant:
  assumes "transport_inv s" and "\<forall>(n, E, raw, iface)\<in>set fs. tunnel_order_ok E"
  shows "transport_inv (receive_all fs s)"
  using assms
proof (induction fs arbitrary: s)
  case (Cons f fs)
  obtain n E raw iface where f: "f = (n, E, raw, iface)" by (cases f)
  have "transport_inv (fst (snd (inbound n E raw iface s)))"
    using Cons.prems transport_inv_inbound [of s E n raw iface]
    by (cases "inbound n E raw iface s") (simp add: f)
  with Cons show ?case by (simp add: receive_all_def f)
qed (simp add: receive_all_def)

lemma transport_inv_fresh: "transport_inv fresh_state"
  by (simp add: transport_inv_def path_inv_def fresh_state_def routes.table_wf_def)

theorem routing_tables_invariant_witness:
  "transport_inv (receive_all [(0, sample_env, plain_frame ANNOUNCE 3 (replicate 16 7) 0 [1], Some ''eth''),
     (0, sample_env, plain_frame DATA 0 (replicate 16 7) 0 [1, 2], Some ''eth'')] fresh_state)"
  by (rule routing_tables_invariant [OF transport_inv_fresh]) (simp add: tunnel_order_ok_def sample_env_def)

section \<open>Duplicates\<close>

lemma seen_learn_route [simp]: "seen_of (snd (learn_route now dh e b s)) = seen_of s"
  by (simp add: learn_route_def seen_of_def Let_def)

lemma seen_record_tunnel_path [simp]: "seen_of (record_tunnel_path now i dh hop hops ex b ph s) = seen_of s"
  by (simp add: record_tunnel_path_def split: option.split)

lemma seen_handle_announce [simp]: "seen_of (fst (handle_announce E add p sd)) = seen_of (fst sd)"
  by (simp add: handle_announce_def accept_announce_def split_def Let_def split: option.split)

lemma seen_handle_transit [simp]: "seen_of (fst (handle_transit E p sd)) = seen_of (fst sd)"
  by (simp add: handle_transit_def forward_transit_def refresh_front_def split_def Let_def
      split: option.split list.split)

lemma seen_handle_data [simp]: "seen_of (fst (handle_data E p sd)) = seen_of (fst sd)"
  by (simp add: handle_data_def split_def split: option.split)

text \<open>Packet hashes are only ever added.\<close>

definition seen_grows :: "transport_state \<Rightarrow> transport_state \<Rightarrow> bool" where
  "seen_grows s t \<longleftrightarrow> ts_packet_hashlist s \<subseteq> ts_packet_hashlist t
     \<and> ts_packet_hashlist_prev t = ts_packet_hashlist_prev s
     \<and> ts_is_connected_to_shared_instance t = ts_is_connected_to_shared_instance s"

lemma seen_grows_same: "seen_of t = seen_of s \<Longrightarrow> seen_grows s t"
  by (simp add: seen_of_def seen_grows_def)

lemma seen_grows_trans: "seen_grows s t \<Longrightarrow> seen_grows t u \<Longrightarrow> seen_grows s u"
  by (auto simp: seen_grows_def)

lemma seen_grows_remember: "seen_grows s (remember_packet_hash p s)"
  by (auto simp: seen_grows_def remember_packet_hash_def Let_def split: option.split)

lemma seen_grows_relayed: "seen_grows (fst sd) (fst (handle_relayed E p sd))"
  by (auto simp: seen_grows_def handle_relayed_def split_def Let_def split: option.split)

lemma process_packet_seen:
  assumes "process_packet E p s = (r, s', es)"
  shows "seen_grows (remember_packet_hash p (snd (check_announce E p s))) s'"
  using assms
proof (rule process_packet_stages)
  fix s1 sd q sd2 sd3 ia
  assume s1: "s1 = remember_packet_hash p (snd (check_announce E p s))"
    and sd: "sd = handle_announce E (fst (check_announce E p s)) p (s1, no_deferred)"
    and sd2: "sd2 = handle_relayed E q (handle_transit E q sd)"
    and sd3: "sd3 = handle_data E q (fst sd2, handle_link_request q (fst sd2) (snd sd2))"
    and fin: "finish E q ia (handle_proof E q sd3) = (s', es)"
  have "seen_grows s1 (fst (handle_transit E q sd))"
    by (rule seen_grows_same) (simp add: sd)
  moreover have "seen_grows (fst (handle_transit E q sd)) (fst sd2)"
    unfolding sd2 by (rule seen_grows_relayed)
  moreover have "seen_grows (fst sd2) s'"
    by (rule seen_grows_same) (metis fin fst_conv kept_finish(2) kept_handle_proof(2) sd3 seen_handle_data)
  ultimately show ?thesis
    using seen_grows_trans s1 by blast
qed

text \<open>The contexts that are never filtered by hash.\<close>

definition repeatable :: "packet \<Rightarrow> bool" where
  "repeatable p \<longleftrightarrow> p_context p \<in> {KEEPALIVE, RESOURCE_REQ, RESOURCE_PRF, RESOURCE, CACHE_REQUEST, CHANNEL}"

text \<open>
  C20. No packet is processed twice. Once a DATA packet or link request for a single destination has
  been processed, a packet with the same hash that is not an announce, whatever interface it
  arrives on and whatever its hop count, is dropped with no effect but the arrival time. The
  statement is about the next frame handled: a hash is forgotten when its list has been rotated twice.
  Packets of the repeatable contexts and packets for a destination in the link table are exempt.
\<close>

theorem duplicate_dropped:
  assumes "receive_frame (e_crypto E) raw iface = Some p" and "p_packet_type p \<in> {DATA, LINKREQUEST}"
    and "p_destination_type p = Some Single" and "\<not> repeatable p" and "control_aspects s p = None"
    and "\<And>dh. p_destination_hash p = Some dh \<Longrightarrow> ts_link_table s dh = None"
    and "\<not> ts_is_connected_to_shared_instance s" and "inbound n E raw iface s = (True, s', es)"
    and "receive_frame (e_crypto E') raw' iface' = Some q" and "p_packet_hash q = p_packet_hash p"
    and "p_packet_type q \<noteq> ANNOUNCE" and "p_destination_type q = Some Single" and "\<not> repeatable q"
  shows "inbound n' E' raw' iface' s' = (False, note_inbound (e_now E') q s', [])"
proof -
  obtain h where h: "p_packet_hash p = Some h"
    using assms(1) by (auto simp: receive_frame_def unpack_def unpack_addresses_def update_hash_def Let_def
        split: if_splits prod.splits bool.splits)
  from assms(8) have "h \<in> ts_packet_hashlist s' \<union> ts_packet_hashlist_prev s'
      \<and> \<not> ts_is_connected_to_shared_instance s'"
  proof (cases rule: inbound_cases)
    case inert
    then show ?thesis using assms(1,4) by (auto simp: repeatable_def)
  next
    case (processed p' t)
    then have [simp]: "p' = p" and t: "admitted s t"
      using assms(1) admit_frame_passed by fastforce+
    have "check_announce E (counted p) t = (False, t)"
      using assms(2) by (auto simp: check_announce_def)
    then have "seen_grows (remember_packet_hash (counted p) t) s'"
      using process_packet_seen processed by fastforce
    moreover have "h \<in> ts_packet_hashlist (remember_packet_hash (counted p) t) \<union> ts_packet_hashlist_prev t"
      using assms(2,3,6) h admittedD(8) [OF t]
      by (auto simp: remember_packet_hash_def Let_def split: option.splits)
    ultimately show ?thesis
      using assms(7) admittedD(7) [OF t] by (auto simp: seen_grows_def remember_packet_hash_def Let_def split: option.splits)
  qed (use assms(1,4,5) admit_frame_passed(2) in \<open>fastforce simp: repeatable_def\<close>)+
  then have "\<not> packet_filter (note_inbound now q s') q" for now
    using assms(9-13) h admittedD(3,4,7) [OF admitted_note_inbound [of s' now q]]
    by (auto simp: packet_filter_def repeatable_def)
  moreover have "\<not> oversized_announce q" "\<not> announce_dropped_early u q" for u
    using assms(11) by (auto simp: oversized_announce_def announce_dropped_early_def)
  ultimately show ?thesis
    using assms(9) by (simp add: inbound.simps admit_frame_def Let_def)
qed

lemma fst_process_packet [simp]: "fst (process_packet E p s)"
  by (simp add: process_packet_def Let_def split_def)

lemma inbound_processed:
  assumes "admit_frame E raw iface s = (t, Some p)" and "control_aspects t p = None"
    and "p_context p \<noteq> CACHE_REQUEST"
  shows "inbound n E raw iface s = process_packet E (counted p) t"
  using assms by (subst inbound.simps) simp

lemma admit_frame_plain:
  assumes "receive_frame (e_crypto E) raw iface = Some p" and "p_packet_type p \<noteq> ANNOUNCE" and "packet_filter s p"
  shows "admit_frame E raw iface s = (note_inbound (e_now E) p s, Some p)"
  using assms admittedD(12) [OF admitted_note_inbound [of s "e_now E" p]]
  by (simp add: admit_frame_def Let_def oversized_announce_def announce_dropped_early_def announce_rate_limit_def)

theorem duplicate_dropped_witness:
  "\<exists>s' es t. inbound 0 sample_env (plain_frame DATA 0 (replicate 16 7) 0 [1, 2]) (Some ''a'') fresh_state = (True, s', es)
     \<and> inbound 0 sample_env (plain_frame DATA 5 (replicate 16 7) 0 [1, 2]) (Some ''b'') s' = (False, t, [])"
proof -
  have toy [simp]: "e_crypto sample_env = toy_crypto" by (simp add: sample_env_def)
  obtain p where p: "receive_frame toy_crypto (plain_frame DATA 0 (replicate 16 7) 0 [1, 2]) (Some ''a'') = Some p"
    "p_packet_type p = DATA" "p_destination_hash p = Some (replicate 16 7)" "p_destination_type p = Some Single"
    "p_context p = 0" "p_packet_hash p = Some (full_hash (c_sha toy_crypto) (DATA # replicate 16 7 @ [0] @ [1, 2]))"
    by (rule receive_plain_frame [of DATA "replicate 16 7" "[1, 2]" 0 toy_crypto 0 "Some ''a''"]) auto
  obtain q where q: "receive_frame toy_crypto (plain_frame DATA 5 (replicate 16 7) 0 [1, 2]) (Some ''b'') = Some q"
    "p_packet_type q = DATA" "p_destination_type q = Some Single"
    "p_context q = 0" "p_packet_hash q = Some (full_hash (c_sha toy_crypto) (DATA # replicate 16 7 @ [0] @ [1, 2]))"
    by (rule receive_plain_frame [of DATA "replicate 16 7" "[1, 2]" 5 toy_crypto 0 "Some ''b''"]) auto
  let ?t = "note_inbound 100 p fresh_state"
  have adm: "admit_frame sample_env (plain_frame DATA 0 (replicate 16 7) 0 [1, 2]) (Some ''a'') fresh_state = (?t, Some p)"
    using p by (subst admit_frame_plain) (auto simp: packet_filter_def fresh_state_def sample_env_def)
  have "control_aspects ?t p = None"
    using p by (auto simp: admittedD(11) [OF admitted_note_inbound] control_aspects_def fresh_state_def)
  from inbound_processed [OF adm this, of 0] obtain s' es where first:
    "inbound 0 sample_env (plain_frame DATA 0 (replicate 16 7) 0 [1, 2]) (Some ''a'') fresh_state = (True, s', es)"
    using p fst_process_packet [of sample_env "counted p" ?t]
    by (cases "process_packet sample_env (counted p) ?t") auto
  have "inbound 0 sample_env (plain_frame DATA 5 (replicate 16 7) 0 [1, 2]) (Some ''b'') s'
      = (False, note_inbound (e_now sample_env) q s', [])"
    by (rule duplicate_dropped [where p = p and q = q, OF _ _ _ _ _ _ _ first])
       (use p q in \<open>auto simp: repeatable_def control_aspects_def fresh_state_def\<close>)
  with first show ?thesis by blast
qed

section \<open>The announce rate limit\<close>

text \<open>How many of a sequence of arrivals pass the limiter as announces of one destination.\<close>

fun announces_passed :: "bytes \<Rightarrow> (packet \<times> real) list \<Rightarrow> transport_state \<Rightarrow> nat" where
  "announces_passed h [] s = 0"
| "announces_passed h ((p, now) # arrivals) s =
     (case announce_rate_limit now p s of
        (ok, s) \<Rightarrow> (if ok \<and> p_packet_type p = ANNOUNCE \<and> p_destination_hash p = Some h then 1 else 0)
                   + announces_passed h arrivals s)"

text \<open>The arrivals of a destination that the limiter still counts at a time.\<close>

definition counted_at :: "real \<Rightarrow> bytes \<Rightarrow> transport_state \<Rightarrow> nat" where
  "counted_at T h s = (case ts_announce_rate_table s h of
     None \<Rightarrow> 0 | Some e \<Rightarrow> length (filter (\<lambda>t. T - t < 1) (ar_timestamps e)))"

lemma filter_window: "now \<le> T \<Longrightarrow> filter (\<lambda>t. T - t < 1) (filter (\<lambda>t. now - t < 1) xs) = filter (\<lambda>t. T - t < (1::real)) xs"
  by (simp only: filter_filter) (rule filter_cong, auto)

lemma rate_limit_other:
  assumes "\<not> (p_packet_type p = ANNOUNCE \<and> p_destination_hash p = Some h)"
  shows "counted_at T h (snd (announce_rate_limit now p s)) = counted_at T h s"
  using assms
  by (auto simp: announce_rate_limit_def counted_at_def Let_def split: option.split)

lemma rate_limit_counts:
  assumes "p_packet_type p = ANNOUNCE" and "p_destination_hash p = Some h" and "now \<le> T" and "T - now < 1"
  shows "counted_at T h (snd (announce_rate_limit now p s)) = Suc (counted_at T h s)"
    and "fst (announce_rate_limit now p s) \<Longrightarrow> Suc (counted_at T h s) \<le> ANNOUNCE_RATE_LIMIT"
proof -
  define old where "old = (case ts_announce_rate_table s h of None \<Rightarrow> [] | Some e \<Rightarrow> ar_timestamps e)"
  define new where "new = filter (\<lambda>t. now - t < 1) (old @ [now])"
  have c: "counted_at T h s = length (filter (\<lambda>t. T - t < 1) old)"
    by (simp add: counted_at_def old_def split: option.split)
  have n: "length (filter (\<lambda>t. T - t < 1) new) = Suc (length (filter (\<lambda>t. T - t < 1) old))"
    using assms(3,4) unfolding new_def filter_window [OF assms(3)] by simp
  have "ts_announce_rate_table (snd (announce_rate_limit now p s)) h = Some e \<Longrightarrow> ar_timestamps e = new" for e
    using assms(1,2) unfolding announce_rate_limit_def new_def old_def Let_def
    by (auto split: option.splits if_splits)
  moreover have "ts_announce_rate_table (snd (announce_rate_limit now p s)) h \<noteq> None"
    using assms(1,2) by (simp add: announce_rate_limit_def Let_def split: option.split)
  ultimately show "counted_at T h (snd (announce_rate_limit now p s)) = Suc (counted_at T h s)"
    by (auto simp: counted_at_def [of T h "snd _"] n c)
  assume "fst (announce_rate_limit now p s)"
  then have "length new \<le> ANNOUNCE_RATE_LIMIT"
    using assms(1,2) unfolding announce_rate_limit_def new_def old_def Let_def
    by (auto split: option.splits if_splits)
  then show "Suc (counted_at T h s) \<le> ANNOUNCE_RATE_LIMIT"
    using length_filter_le [of "\<lambda>t. T - t < 1" new] by (simp add: c n)
qed

lemma announces_passed_bound:
  assumes "\<forall>(p, now)\<in>set arrivals. now \<le> T \<and> T - now < 1"
  shows "announces_passed h arrivals s \<le> ANNOUNCE_RATE_LIMIT - counted_at T h s"
  using assms
proof (induction arrivals arbitrary: s)
  case (Cons a arrivals)
  obtain p now where a: "a = (p, now)" by (cases a)
  let ?r = "announce_rate_limit now p s"
  have IH: "announces_passed h arrivals (snd ?r) \<le> ANNOUNCE_RATE_LIMIT - counted_at T h (snd ?r)"
    using Cons by simp
  show ?case
  proof (cases "p_packet_type p = ANNOUNCE \<and> p_destination_hash p = Some h")
    case False
    then show ?thesis
      using IH rate_limit_other [OF False, of T now s] by (auto simp: a split_def)
  next
    case True
    then show ?thesis
      using IH Cons.prems rate_limit_counts [of p h now T s] by (auto simp: a split_def)
  qed
qed simp

text \<open>
  C27. The announce rate limit holds in every window. Of the packets that arrive within one second,
  in whatever order and mixed with whatever others, at most ten announces of one destination pass
  the limiter.
\<close>

theorem announce_rate_bounded:
  assumes "\<forall>(p, now)\<in>set arrivals. now \<le> T \<and> T - now < 1"
  shows "announces_passed h arrivals s \<le> ANNOUNCE_RATE_LIMIT"
  using announces_passed_bound [OF assms, of h s] by simp

theorem announce_rate_bounded_witness:
  "announces_passed (replicate 16 7) (replicate 30 (sample_packet\<lparr>p_destination_hash := Some (replicate 16 7)\<rparr>, 5)) fresh_state
     \<le> ANNOUNCE_RATE_LIMIT"
  by (rule announce_rate_bounded [where T = 5]) simp

section \<open>Relayed links\<close>

text \<open>The steps that leave the link table and the known destinations alone.\<close>

definition links_of :: "transport_state \<Rightarrow> (bytes \<rightharpoonup> link_entry) \<times> known_map" where
  "links_of s = (ts_link_table s, ts_known_destinations s)"

lemma links_announce_steps [simp]:
  "links_of (note_local_rebroadcast now p dh s) = links_of s"
  "links_of (note_global_blob E b s) = links_of s"
  "links_of (snd (learn_route now dh e b s)) = links_of s"
  "links_of (record_tunnel_path now i dh hop hops ex b ph s) = links_of s"
  "links_of (fst (answer_discovery p dh sd)) = links_of (fst sd)"
  "links_of (queue_rebroadcast E new p dh rf s) = links_of s"
  "links_of (snd (pace_client now name raw s)) = links_of s"
  by (simp_all add: links_of_def note_local_rebroadcast_def note_global_blob_def learn_route_def
      record_tunnel_path_def answer_discovery_def queue_rebroadcast_def pace_client_def split_def Let_def
      split: option.split)

lemma links_forward_to_clients [simp]:
  "links_of (fst (forward_to_clients now raw names sd)) = links_of (fst sd)"
  by (induction now raw names sd rule: forward_to_clients.induct) (simp_all add: split_def)

lemma links_handle_announce [simp]: "links_of (fst (handle_announce E add p sd)) = links_of (fst sd)"
  by (simp add: handle_announce_def accept_announce_def announce_to_clients_def split_def Let_def
      split: option.split)

lemma links_other_steps [simp]:
  "links_of (remember_packet_hash p s) = links_of s"
  "links_of (refresh_front now dh s) = links_of s"
  "links_of (fst (handle_data E p sd)) = links_of (fst sd)"
  "links_of (fst (relay_proof E p dh sd)) = links_of (fst sd)"
  "links_of (fst (conclude v cs s)) = links_of s"
  by (simp_all add: links_of_def remember_packet_hash_def refresh_front_def handle_data_def relay_proof_def
      conclude_def split_def Let_def split: option.split list.split)

lemma links_link_packet_effects [simp]: "links_of (fst (link_packet_effects E p s)) = links_of s"
  by (simp add: link_packet_effects_def split_def Let_def split: option.split)

lemma links_link_packets_effects [simp]: "links_of (fst (link_packets_effects E ps s)) = links_of s"
  by (induction ps arbitrary: s) (simp_all add: split_def)

lemma links_finish [simp]: "links_of (fst (finish E p ia sd)) = links_of (fst sd)"
  by (simp add: finish_def split_def)

text \<open>A validated entry of the link table.\<close>

definition validated :: "transport_state \<Rightarrow> bytes \<Rightarrow> bool" where
  "validated s lid \<longleftrightarrow> (\<exists>e. ts_link_table s lid = Some e \<and> lt_validated e)"

lemma validated_cong: "links_of t = links_of s \<Longrightarrow> validated t lid = validated s lid"
  by (simp add: links_of_def validated_def)

lemma validated_transit: "validated (fst (handle_transit E p sd)) lid \<Longrightarrow> validated (fst sd) lid"
proof -
  have "links_of (refresh_front now dh t) = links_of t" for now dh t by simp
  then have "validated (refresh_front now dh t) lid = validated t lid" for now dh t
    by (rule validated_cong)
  then show "validated (fst (handle_transit E p sd)) lid \<Longrightarrow> validated (fst sd) lid"
    by (auto simp: handle_transit_def forward_transit_def split_def Let_def validated_def
        split: option.splits if_splits)
qed

lemma validated_relayed: "validated (fst (handle_relayed E p sd)) lid \<Longrightarrow> validated (fst sd) lid"
  by (auto simp: handle_relayed_def split_def Let_def validated_def split: option.splits if_splits)

lemma links_transit_plain:
  "p_packet_type p \<noteq> LINKREQUEST \<Longrightarrow> links_of (fst (handle_transit E p sd)) = links_of (fst sd)"
proof -
  assume "p_packet_type p \<noteq> LINKREQUEST"
  then have "links_of (fst (forward_transit E p dh sd)) = links_of (fst sd)" for dh
    by (simp add: forward_transit_def split_def Let_def) (simp add: links_of_def)
  then show ?thesis
    by (simp add: handle_transit_def split_def split: option.split)
qed

lemma relayed_lrproof [simp]: "p_context p = LRPROOF \<Longrightarrow> handle_relayed E p sd = sd"
  by (simp add: handle_relayed_def split_def)

text \<open>The conditions under which a relay passes a link proof on.\<close>

definition lrproof_accepted :: "env \<Rightarrow> packet \<Rightarrow> bytes \<Rightarrow> transport_state \<Rightarrow> link_entry \<Rightarrow> string \<Rightarrow> bool" where
  "lrproof_accepted E p lid s e name \<longleftrightarrow>
     p_packet_type p = PROOF \<and> p_context p = LRPROOF \<and> p_destination_hash p = Some lid
     \<and> ts_link_table s lid = Some e \<and> p_hops p = lt_remaining_hops e
     \<and> p_receiving_interface p = lt_next_hop_interface e \<and> lt_received_interface e = Some name
     \<and> validate_lrproof_signature (e_crypto E) (ts_known_destinations s) (p_data p) lid (lt_destination_hash e)"

lemma relay_lrproof_outcome:
  assumes "p_packet_type p = PROOF"
  shows "relay_lrproof E p sd = (False, sd)
    \<or> (\<exists>lid e name. lrproof_accepted E p lid (fst sd) e name
        \<and> relay_lrproof E p sd = (True, (fst sd)\<lparr>ts_link_table := (ts_link_table (fst sd))(lid \<mapsto> e\<lparr>lt_validated := True\<rparr>)\<rparr>,
             send_on name (if length (p_raw p) > 1 then set_hops (p_hops p) (p_raw p) else p_raw p) (snd sd)))"
  using assms unfolding relay_lrproof_def lrproof_accepted_def split_def
  by (auto split: option.split)

lemma finish_dispatches:
  "(name, raw) \<in> set (df_outbound (snd sd)) \<Longrightarrow> Dispatch name raw \<in> set (snd (finish E p ia sd))"
  unfolding finish_def split_def by (force simp: image_iff)

lemma validated_handle_proof:
  assumes "validated (fst (handle_proof E p sd)) lid" and "\<not> validated (fst sd) lid"
  shows "\<exists>e name. lrproof_accepted E p lid (fst sd) e name
     \<and> (name, if length (p_raw p) > 1 then set_hops (p_hops p) (p_raw p) else p_raw p)
        \<in> set (df_outbound (snd (handle_proof E p sd)))"
proof -
  have "validated (fst (relay_proof E p dh sd)) lid = validated (fst sd) lid" for dh
    by (rule validated_cong) simp
  then have lr: "p_packet_type p = PROOF" "validated (fst (snd (relay_lrproof E p sd))) lid"
    and hp: "fst (relay_lrproof E p sd) \<Longrightarrow> handle_proof E p sd = snd (relay_lrproof E p sd)"
    using assms by (auto simp: handle_proof_def split_def split: if_splits option.splits bool.splits)
  from relay_lrproof_outcome [OF lr(1), of E sd] show ?thesis
  proof (elim disjE exE conjE)
    assume "relay_lrproof E p sd = (False, sd)"
    then show ?thesis using assms(2) lr(2) by simp
  next
    fix lid' e name
    assume relayed: "lrproof_accepted E p lid' (fst sd) e name"
      "relay_lrproof E p sd = (True, (fst sd)\<lparr>ts_link_table := (ts_link_table (fst sd))(lid' \<mapsto> e\<lparr>lt_validated := True\<rparr>)\<rparr>,
         send_on name (if length (p_raw p) > 1 then set_hops (p_hops p) (p_raw p) else p_raw p) (snd sd))"
    then have "lid' = lid"
      using assms(2) lr(2) by (auto simp: validated_def split: if_splits)
    then show ?thesis
      using relayed hp by (auto simp: send_on_def)
  qed
qed

text \<open>
  C12. A relayed link is validated only by its proof. When processing a packet turns an entry of the
  link table into a validated one, the packet is a link-request proof for that link, with the hop
  count and on the interface of the link's next hop, signed by the destination the link was
  requested for; and the proof is sent on, with the new hop count, towards the initiator.
\<close>

theorem link_validated_only_by_proof:
  assumes "process_packet E p s = (r, s', es)" and "validated s' lid" and "\<not> validated s lid"
  shows "\<exists>e name. lrproof_accepted E p lid s e name
     \<and> Dispatch name (if length (p_raw p) > 1 then set_hops (p_hops p) (p_raw p) else p_raw p) \<in> set es"
  using assms(1)
proof (rule process_packet_stages)
  fix s1 sd q sd2 sd3 ia
  assume s1: "s1 = remember_packet_hash p (snd (check_announce E p s))"
    and sd: "sd = handle_announce E (fst (check_announce E p s)) p (s1, no_deferred)"
    and q: "q = inject_transport_id (fst sd) p"
    and sd2: "sd2 = handle_relayed E q (handle_transit E q sd)"
    and sd3: "sd3 = handle_data E q (fst sd2, handle_link_request q (fst sd2) (snd sd2))"
    and fin: "finish E q ia (handle_proof E q sd3) = (s', es)"
  have same: "p_packet_type q = p_packet_type p" "p_context q = p_context p" "p_raw q = p_raw p"
    "p_destination_hash q = p_destination_hash p" "p_hops q = p_hops p" "p_data q = p_data p"
    "p_receiving_interface q = p_receiving_interface p"
    by (auto simp: q inject_transport_id_def split: option.split)
  have "ts_link_table (snd (check_announce E p s)) = ts_link_table s"
    by (simp add: check_announce_def validate_inbound_announce_def remember_announced_def Let_def
      split: option.split sum.split prod.split)
  then have v: "validated (fst sd) lid' = validated s lid'" for lid'
    using validated_cong [of "fst sd" "snd (check_announce E p s)" lid']
    by (simp add: sd s1 validated_def)
  have "validated (fst (handle_proof E q sd3)) lid"
    using assms(2) validated_cong [OF links_finish] fin by (metis fst_conv)
  moreover have "\<not> validated (fst sd3) lid"
    using assms(3) v validated_transit [of E q sd] validated_relayed [of E q "handle_transit E q sd"]
      validated_cong [OF links_other_steps(3)] by (auto simp: sd3 sd2)
  ultimately obtain e name where acc: "lrproof_accepted E q lid (fst sd3) e name"
    and out: "(name, if length (p_raw q) > 1 then set_hops (p_hops q) (p_raw q) else p_raw q)
        \<in> set (df_outbound (snd (handle_proof E q sd3)))"
    using validated_handle_proof by blast
  have "links_of (fst sd3) = links_of (fst sd)"
    using acc links_transit_plain [of q E sd] by (simp add: sd3 sd2 lrproof_accepted_def)
  moreover have "links_of (fst sd) = links_of s"
    using acc same(1) by (simp add: sd s1 check_announce_def lrproof_accepted_def)
  ultimately have "lrproof_accepted E p lid s e name"
    using acc same by (simp add: lrproof_accepted_def links_of_def)
  moreover have "Dispatch name (if length (p_raw p) > 1 then set_hops (p_hops p) (p_raw p) else p_raw p) \<in> set es"
    using finish_dispatches [OF out, of E q ia] fin same by (simp cong: if_cong)
  ultimately show ?thesis by blast
qed

text \<open>A link relayed between two interfaces, and the proof of its destination.\<close>

definition sample_link_entry :: link_entry where
  "sample_link_entry = \<lparr> lt_timestamp = 0, lt_next_hop_transport = [], lt_next_hop_interface = Some ''far'',
     lt_remaining_hops = 2, lt_received_interface = Some ''near'', lt_taken_hops = 1,
     lt_destination_hash = [1], lt_validated = False, lt_proof_timeout = 0 \<rparr>"

definition relay_state :: transport_state where
  "relay_state = fresh_state\<lparr>ts_link_table := [[6] \<mapsto> sample_link_entry], ts_known_destinations := sample_known\<rparr>"

definition sample_lrproof :: packet where
  "sample_lrproof = sample_packet\<lparr>p_packet_type := PROOF, p_context := LRPROOF, p_destination_hash := Some [6],
     p_hops := 2, p_receiving_interface := Some ''far'', p_raw := [3, 1, 6],
     p_data := replicate 64 0 @ replicate 32 3\<rparr>"

theorem link_validated_only_by_proof_witness:
  "\<exists>r s' es e name. process_packet sample_env sample_lrproof relay_state = (r, s', es) \<and> validated s' [6]
     \<and> lrproof_accepted sample_env sample_lrproof [6] relay_state e name"
proof (cases "process_packet sample_env sample_lrproof relay_state")
  case (fields r s' es)
  have sig: "validate_lrproof_signature toy_crypto sample_known (replicate 64 0 @ replicate 32 3) [6] [1]"
    by (simp add: validate_lrproof_signature_def sample_known_def recall_def from_public_key_def
        load_public_key_def toy_crypto_def update_hashes_def get_public_key_def validate_def Let_def)
  have "validated s' [6]"
    using fields
  proof (rule process_packet_stages)
    let ?p = sample_lrproof and ?s = relay_state
    fix s1 sd q sd2 sd3 ia
    assume "s1 = remember_packet_hash ?p (snd (check_announce sample_env ?p ?s))"
      and "sd = handle_announce sample_env (fst (check_announce sample_env ?p ?s)) ?p (s1, no_deferred)"
      and "q = inject_transport_id (fst sd) ?p"
      and "sd2 = handle_relayed sample_env q (handle_transit sample_env q sd)"
      and "sd3 = handle_data sample_env q (fst sd2, handle_link_request q (fst sd2) (snd sd2))"
      and fin: "finish sample_env q ia (handle_proof sample_env q sd3) = (s', es)"
    then have "q = ?p" "sd3 = (?s, no_deferred)"
      by (simp_all add: check_announce_def remember_packet_hash_def handle_announce_def inject_transport_id_def
          handle_transit_def handle_data_def handle_link_request_def sample_lrproof_def relay_state_def
          fresh_state_def sample_packet_def new_packet_def)
    moreover have "validated (fst (handle_proof sample_env ?p (?s, no_deferred))) [6]"
      using sig by (simp add: handle_proof_def relay_lrproof_def sample_lrproof_def relay_state_def
          sample_link_entry_def sample_env_def validated_def)
    ultimately show "validated s' [6]"
      using validated_cong [OF links_finish, of sample_env q ia] fin by (metis fst_conv)
  qed
  moreover have "\<not> validated relay_state [6]"
    by (simp add: validated_def relay_state_def sample_link_entry_def)
  ultimately show ?thesis
    using link_validated_only_by_proof [OF fields] fields by blast
qed

section \<open>Frames in transit\<close>

lemma receive_frameD:
  assumes "receive_frame c raw iface = Some p"
  obtains dst where "p_raw p = raw" "p_destination_hash p = Some dst" "length dst = DST_LEN"
    "raw = frame (p_flags p) (p_hops p) (p_transport_id p) dst (p_context p) (p_data p)"
    "case p_transport_id p of None \<Rightarrow> p_header_type p = HEADER_1
       | Some t \<Rightarrow> length t = DST_LEN \<and> p_header_type p = HEADER_2"
    "p_data p \<noteq> []" "p_hops p < PATHFINDER_M" "p_flags p AND 0x80 \<noteq> 0x80"
    "p_packet_hash p = Some (full_hash (c_sha c) ((p_flags p AND 15) # dst @ [p_context p] @ p_data p))"
    "p_packet_type p = p_flags p AND 3" "p_destination_type p = dest_type_of_u8 (drop_bit 2 (p_flags p AND 12))"
    "p_header_type p = drop_bit 6 (p_flags p AND 64)"
proof -
  let ?P = "(new_packet None [] 0 0 BROADCAST HEADER_1 None None False 0)
                \<lparr>p_raw := raw, p_receiving_interface := iface\<rparr>"
  have u: "unpack (c_sha c) ?P = (True, p)" and len: "2 < length raw" and "raw ! 0 AND 0x80 \<noteq> 0x80"
    using assms by (auto simp: receive_frame_def split: if_splits prod.splits bool.splits)
  obtain dst where d: "p_destination_hash p = Some dst" "length dst = DST_LEN"
    "raw = frame (p_flags p) (p_hops p) (p_transport_id p) dst (p_context p) (p_data p)"
    "case p_transport_id p of None \<Rightarrow> p_header_type p = HEADER_1
       | Some t \<Rightarrow> length t = DST_LEN \<and> p_header_type p = HEADER_2"
    using unpack_TrueD(2) [OF u] by auto
  have fl: "raw ! 0 = p_flags p" by (subst d(3)) (simp add: frame_def)
  have bits: "p_packet_type p = p_flags p AND 3 \<and> p_destination_type p = dest_type_of_u8 (drop_bit 2 (p_flags p AND 12))
      \<and> p_header_type p = drop_bit 6 (p_flags p AND 64)"
    using u by (auto simp: unpack_def unpack_addresses_def unpack_flags_def Let_def update_hash_def
        split: if_splits prod.splits bool.splits)
  have "get_hashable_part p = (p_flags p AND 15) # dst @ [p_context p] @ p_data p"
    using unpack_hashable [OF u] d(1) by auto
  then show thesis
    using that [of dst] d unpack_TrueD(1,3,4,5) [OF u] fl bits \<open>raw ! 0 AND 0x80 \<noteq> 0x80\<close>
    by (simp add: get_hash_def)
qed

lemma receive_of_frame:
  assumes "f AND 0x80 \<noteq> 0x80" and "drop_bit 6 (f AND 64) = (case tid of None \<Rightarrow> HEADER_1 | Some _ \<Rightarrow> HEADER_2)"
    and "length dst = DST_LEN" and "case tid of None \<Rightarrow> True | Some t \<Rightarrow> length t = DST_LEN"
    and "data \<noteq> []" and "h < PATHFINDER_M"
  obtains q where "receive_frame c (frame f h tid dst ctx data) iface = Some q" "p_flags q = f" "p_hops q = h"
    "p_transport_id q = tid" "p_destination_hash q = Some dst" "p_context q = ctx" "p_data q = data"
proof -
  let ?P = "(new_packet None [] 0 0 BROADCAST HEADER_1 None None False 0)
                \<lparr>p_raw := frame f h tid dst ctx data, p_receiving_interface := iface\<rparr>"
  let ?base = "unpack_flags (?P\<lparr>p_flags := f, p_hops := h\<rparr>)"
  have head: "frame f h tid dst ctx data ! 0 = f" "frame f h tid dst ctx data ! 1 = h"
    "2 < length (frame f h tid dst ctx data)"
    using assms(3) by (simp_all add: frame_def split: option.split)
  have ua: "unpack_addresses ?base = (True, ?base\<lparr>p_transport_id := tid, p_destination_hash := Some dst,
     p_context := ctx, p_data := data\<rparr>)"
    by (rule unpack_addresses_frame [where f = f and h = h])
       (use assms(2,3,4) in \<open>auto simp: unpack_flags_def Let_def split: option.splits\<close>)
  let ?q = "snd (unpack (c_sha c) ?P)"
  have u: "unpack (c_sha c) ?P = (True, update_hash (c_sha c) (?base\<lparr>p_transport_id := tid, p_destination_hash := Some dst,
     p_context := ctx, p_data := data, p_packed := False\<rparr>))"
    using head ua assms(5,6) by (simp add: unpack_def Let_def)
  show thesis
    by (rule that [of ?q]) (use head u assms(1) in
      \<open>simp_all add: receive_frame_def update_hash_def unpack_flags_def Let_def\<close>)
qed

lemma transit_flags:
  fixes f :: u8
  shows "(push_bit 6 HEADER_2 OR push_bit 4 MODE_TRANSPORT OR (f AND 15)) AND 0x80 \<noteq> 0x80"
    and "drop_bit 6 ((push_bit 6 HEADER_2 OR push_bit 4 MODE_TRANSPORT OR (f AND 15)) AND 64) = HEADER_2"
    and "(push_bit 6 HEADER_2 OR push_bit 4 MODE_TRANSPORT OR (f AND 15)) AND 15 = f AND 15"
    and "(push_bit 6 HEADER_1 OR push_bit 4 BROADCAST OR (f AND 15)) AND 0x80 \<noteq> 0x80"
    and "drop_bit 6 ((push_bit 6 HEADER_1 OR push_bit 4 BROADCAST OR (f AND 15)) AND 64) = HEADER_1"
    and "(push_bit 6 HEADER_1 OR push_bit 4 BROADCAST OR (f AND 15)) AND 15 = f AND 15"
  by (simp_all add: bit.conj_disj_distrib2 and.assoc)

lemma receive_frame_context_flag:
  assumes "receive_frame c raw iface = Some p"
  shows "p_context_flag p = drop_bit 5 (p_flags p AND 32)"
  using assms
  by (auto simp: receive_frame_def unpack_def unpack_addresses_def unpack_flags_def Let_def update_hash_def
      split: if_splits prod.splits bool.splits)

lemma transit_context_bit:
  fixes f :: u8
  shows "(push_bit 6 HEADER_2 OR push_bit 4 MODE_TRANSPORT OR (f AND 15)) AND 32 = 0"
    and "(push_bit 6 HEADER_1 OR push_bit 4 BROADCAST OR (f AND 15)) AND 32 = 0"
  by (simp_all add: bit.conj_disj_distrib2 and.assoc)

text \<open>Where the relay writes the flags anew, adding or stripping the transport header, the context flag is lost.\<close>

definition flags_rewritten :: "u8 \<Rightarrow> u8 \<Rightarrow> bool" where
  "flags_rewritten rem header_type \<longleftrightarrow> rem > 1 \<and> header_type \<noteq> HEADER_2 \<or> rem = 1 \<and> header_type = HEADER_2"

lemma transit_frame_shape:
  assumes "receive_frame c raw iface = Some p0" and "p = p0\<lparr>p_hops := h, p_transport_id := tid\<rparr>"
    and "length hop = DST_LEN" and "p_destination_hash p0 = Some dst"
  obtains f tid' where
    "transit_frame p hop rem = frame f (if rem = 1 \<and> p_header_type p0 = HEADER_1 then p_hops p0 else h)
        tid' dst (p_context p0) (p_data p0)"
    "tid' = (if rem > 1 then Some hop else if rem = 1 then None else p_transport_id p0)"
    "f AND 15 = p_flags p0 AND 15" "f AND 0x80 \<noteq> 0x80"
    "drop_bit 6 (f AND 64) = (case tid' of None \<Rightarrow> HEADER_1 | Some _ \<Rightarrow> HEADER_2)"
    "f AND 32 = (if flags_rewritten rem (p_header_type p0) then 0 else p_flags p0 AND 32)"
  using assms(1)
proof (rule receive_frameD)
  fix dst'
  assume raw: "p_raw p0 = raw" "raw = frame (p_flags p0) (p_hops p0) (p_transport_id p0) dst' (p_context p0) (p_data p0)"
    and d: "p_destination_hash p0 = Some dst'" "length dst' = DST_LEN"
    and t: "case p_transport_id p0 of None \<Rightarrow> p_header_type p0 = HEADER_1
       | Some t \<Rightarrow> length t = DST_LEN \<and> p_header_type p0 = HEADER_2"
    and data: "p_data p0 \<noteq> []" and ifac: "p_flags p0 AND 0x80 \<noteq> 0x80"
    and hd: "p_header_type p0 = drop_bit 6 (p_flags p0 AND 64)"
  have [simp]: "dst' = dst" using d assms(4) by simp
  have pf: "p_raw p = raw" "p_header_type p = p_header_type p0" "p_hops p = h" "p_flags p = p_flags p0"
    using raw(1) assms(2) by simp_all
  have "rem = 0 \<or> rem = 1 \<or> rem > 1" by unat_arith
  then show thesis
  proof (elim disjE)
    assume "rem = 0"
    then show thesis
      using pf t ifac hd
      by (intro that [of "p_flags p0" "p_transport_id p0"])
         (auto simp: transit_frame_def raw(2) frame_def set_hops_def Let_def flags_rewritten_def split: option.splits)
  next
    assume "rem = 1"
    then show thesis
      using pf t ifac hd d transit_flags [of "p_flags p0"] transit_context_bit [of "p_flags p0"] data
      by (intro that [of "if p_header_type p0 = HEADER_2 then push_bit 6 HEADER_1 OR push_bit 4 BROADCAST OR (p_flags p0 AND 15)
            else p_flags p0" None])
         (auto simp: transit_frame_def raw(2) frame_def set_hops_def Let_def flags_rewritten_def split: option.splits)
  next
    assume "rem > 1"
    then show thesis
      using pf t ifac hd d transit_flags [of "p_flags p0"] transit_context_bit [of "p_flags p0"] assms(3) data
      by (intro that [of "if p_header_type p0 = HEADER_2 then p_flags p0
            else push_bit 6 HEADER_2 OR push_bit 4 MODE_TRANSPORT OR (p_flags p0 AND 15)" "Some hop"])
         (auto simp: transit_frame_def raw(2) frame_def set_hops_def Let_def flags_rewritten_def split: option.splits)
  qed
qed

text \<open>What a relay may do to the data of a link request: remove the signalled MTU or lower it.\<close>

definition resignalled :: "bytes \<Rightarrow> bytes \<Rightarrow> bool" where
  "resignalled d d' \<longleftrightarrow>
     d' = d \<or> length d = ECPUBSIZE + LINK_MTU_SIZE
       \<and> (d' = take ECPUBSIZE d
          \<or> (\<exists>sb m m'. d' = take ECPUBSIZE d @ sb \<and> mtu_from_lr_packet d = Some m \<and> m' < m
               \<and> signalling_bytes m' (mode_from_lr_packet d) = Inr sb))"

lemma frame_append: "frame f h tid dst ctx (d @ d') = frame f h tid dst ctx d @ d'"
  by (simp add: frame_def split: option.split)

lemma frame_take:
  assumes "length d = n + k"
  shows "take (length (frame f h tid dst ctx d) - k) (frame f h tid dst ctx d) = frame f h tid dst ctx (take n d)"
  using frame_append [of f h tid dst ctx "[]" d] frame_append [of f h tid dst ctx "[]" "take n d"] assms by simp

lemma transit_signalling_frame:
  "\<exists>data. transit_signalling s p name (frame f h tid dst ctx (p_data p)) = frame f h tid dst ctx data \<and> resignalled (p_data p) data"
proof (cases "transit_signalling s p name (frame f h tid dst ctx (p_data p)) = frame f h tid dst ctx (p_data p)")
  case True
  then show ?thesis by (auto simp: resignalled_def)
next
  case False
  then obtain i mtu where m: "mtu_from_lr_packet (p_data p) = Some mtu" and i: "Option.bind name (find_interface (ts_interfaces s)) = Some i"
    by (auto simp: transit_signalling_def split: option.splits)
  have l: "length (p_data p) = ECPUBSIZE + LINK_MTU_SIZE" using m by (auto simp: mtu_from_lr_packet_def mtu_at_def split: if_splits)
  note tk = frame_take [OF l, of f h tid dst ctx]
  show ?thesis
  proof (cases "if_hw_mtu i = None \<or> \<not> if_autoconfigure_mtu i \<and> \<not> if_fixed_mtu i")
    case True
    then have "transit_signalling s p name (frame f h tid dst ctx (p_data p)) = frame f h tid dst ctx (take ECPUBSIZE (p_data p))"
      using False m i tk by (simp add: transit_signalling_def split: if_splits)
    then show ?thesis using l by (auto simp: resignalled_def)
  next
    case a: False
    then obtain sb where sb: "clamped_mtu s p i mtu < mtu" "signalling_bytes (clamped_mtu s p i mtu) (mode_from_lr_packet (p_data p)) = Inr sb"
      "transit_signalling s p name (frame f h tid dst ctx (p_data p)) = frame f h tid dst ctx (take ECPUBSIZE (p_data p)) @ sb"
      using False m i tk by (auto simp: transit_signalling_def split: if_splits sum.splits)
    then show ?thesis
      using l m by (intro exI [of _ "take ECPUBSIZE (p_data p) @ sb"]) (auto simp: resignalled_def frame_append)
  qed
qed

lemma resignalled_mtu:
  assumes "resignalled d d'" "mtu_from_lr_packet d' = Some m'"
  shows "\<exists>m\<ge>m'. mtu_from_lr_packet d = Some m"
proof (cases "d' = d")
  case False
  then have l: "length d = ECPUBSIZE + LINK_MTU_SIZE" and "d' \<noteq> take ECPUBSIZE d"
    using assms by (auto simp: resignalled_def mtu_from_lr_packet_def mtu_at_def split: if_splits)
  then obtain sb m n where sb: "d' = take ECPUBSIZE d @ sb" "mtu_from_lr_packet d = Some m" "n < m"
    "signalling_bytes n (mode_from_lr_packet d) = Inr sb"
    using assms(1) False by (auto simp: resignalled_def)
  have mask: "MTU_BYTEMASK = mask 21" by (simp add: mask_eq_exp_minus_1)
  have "unat (x AND MTU_BYTEMASK) < 2 ^ 21" for x :: u32
    unfolding mask take_bit_eq_mask [symmetric] using take_bit_nat_less_exp [of 21 "unat x"] by (simp add: unsigned_take_bit_eq)
  then have "m < 2 ^ 21" using sb(2) l by (auto simp: mtu_from_lr_packet_def mtu_at_def)
  then have n: "n < 2 ^ 21" using sb(3) by simp
  have mode: "mode_from_lr_packet d = MODE_AES128_CBC \<or> mode_from_lr_packet d = MODE_AES256_CBC"
    using sb(4) by (auto simp: signalling_bytes_def split: if_splits)
  have "mtu_from_lr_packet d' = Some n"
    using signalling_roundtrip [OF mode n, of "take ECPUBSIZE d" "replicate 96 0"] sb(1,4) l by auto
  then show ?thesis using sb(2,3) assms(2) by auto
qed (use assms in auto)

lemma resignalled_keys: "resignalled d d' \<Longrightarrow> take ECPUBSIZE d' = take ECPUBSIZE d"
  by (auto simp: resignalled_def)

lemma resignalled_nonempty: "resignalled d d' \<Longrightarrow> d \<noteq> [] \<Longrightarrow> d' \<noteq> []"
  by (auto simp: resignalled_def)

lemma receive_frame_unpack:
  assumes "receive_frame c raw iface = Some p"
  shows "\<exists>P. unpack (c_sha c) P = (True, p)"
  using assms by (auto simp: receive_frame_def split: if_splits prod.splits bool.splits)

text \<open>
  C26. A relay sends on the packet it received. When the transit code of \<^verbatim>\<open>inbound\<close> has a route, exactly one frame is
  handed to the interface of the route; it is again a valid frame, and what the next node reads from it has the same destination,
  context, packet type and destination type. The transport id is the next hop while more than one hop remains and is gone
  on the last one. For anything but a link request, payload and packet hash are the same. Of a link request, the keys
  and the link id are the same; the signalled MTU may be lowered or removed, and is never raised or added. Two things are not
  kept. The context flag is cleared where the relay writes the flags anew, adding or stripping the transport header. The
  hop count is the relay's own, but a frame without transport header whose destination is one hop away keeps the
  hop count it arrived with.
\<close>

theorem transit_preserves_packet:
  assumes rx: "receive_frame c raw iface = Some p0" and p: "p = p0\<lparr>p_hops := h, p_transport_id := tid\<rparr>" and h: "h < PATHFINDER_M"
    and route: "select_path_excluding (ts_path_table s) (ts_interfaces s) dh (e_now E) (p_receiving_interface p) = Some (k, e)"
      "pe_receiving_interface e = Some name" "length (pe_next_hop e) = DST_LEN"
  shows "\<exists>out q. df_outbound (snd (forward_transit E p dh (s, df))) = df_outbound df @ [(name, out)]
     \<and> receive_frame c out iface' = Some q
     \<and> p_destination_hash q = p_destination_hash p0 \<and> p_context q = p_context p0 \<and> p_packet_type q = p_packet_type p0
     \<and> p_destination_type q = p_destination_type p0
     \<and> p_transport_id q = (if pe_hops e > 1 then Some (pe_next_hop e) else if pe_hops e = 1 then None else p_transport_id p0)
     \<and> p_hops q = (if pe_hops e = 1 \<and> p_header_type p0 = HEADER_1 then p_hops p0 else h)
     \<and> p_context_flag q = (if flags_rewritten (pe_hops e) (p_header_type p0) then FLAG_UNSET else p_context_flag p0)
     \<and> (if p_packet_type p0 = LINKREQUEST
        then take ECPUBSIZE (p_data q) = take ECPUBSIZE (p_data p0)
          \<and> link_id_from_lr_packet (c_sha c) q = link_id_from_lr_packet (c_sha c) p0
          \<and> (mtu_from_lr_packet (p_data p0) = None \<longrightarrow> p_data q = p_data p0)
          \<and> (\<forall>m'. mtu_from_lr_packet (p_data q) = Some m' \<longrightarrow> (\<exists>m\<ge>m'. mtu_from_lr_packet (p_data p0) = Some m))
        else p_data q = p_data p0 \<and> p_packet_hash q = p_packet_hash p0)"
  using rx
proof (rule receive_frameD)
  fix dst
  let ?hop = "pe_next_hop e" and ?rem = "pe_hops e"
  assume d: "p_destination_hash p0 = Some dst" "length dst = DST_LEN"
    and t: "case p_transport_id p0 of None \<Rightarrow> p_header_type p0 = HEADER_1
       | Some t \<Rightarrow> length t = DST_LEN \<and> p_header_type p0 = HEADER_2"
    and data: "p_data p0 \<noteq> []" and hops: "p_hops p0 < PATHFINDER_M"
    and hash: "p_packet_hash p0 = Some (full_hash (c_sha c) ((p_flags p0 AND 15) # dst @ [p_context p0] @ p_data p0))"
    and ty: "p_packet_type p0 = p_flags p0 AND 3" "p_destination_type p0 = dest_type_of_u8 (drop_bit 2 (p_flags p0 AND 12))"
  let ?h = "if ?rem = 1 \<and> p_header_type p0 = HEADER_1 then p_hops p0 else h"
  obtain f tid' where fr: "transit_frame p ?hop ?rem = frame f ?h tid' dst (p_context p0) (p_data p0)"
    "tid' = (if ?rem > 1 then Some ?hop else if ?rem = 1 then None else p_transport_id p0)"
    "f AND 15 = p_flags p0 AND 15" "f AND 0x80 \<noteq> 0x80"
    "drop_bit 6 (f AND 64) = (case tid' of None \<Rightarrow> HEADER_1 | Some _ \<Rightarrow> HEADER_2)"
    "f AND 32 = (if flags_rewritten ?rem (p_header_type p0) then 0 else p_flags p0 AND 32)"
    by (rule transit_frame_shape [OF rx p route(3) d(1)])
  have pd: "p_data p = p_data p0" "p_packet_type p = p_packet_type p0" using p by simp_all
  let ?lr = "p_packet_type p0 = LINKREQUEST"
  have sig: "\<exists>data'. (if ?lr then transit_signalling s p (Some name) x else x) = frame f' h' t' dst ctx data'
      \<and> (if ?lr then resignalled (p_data p0) data' else data' = p_data p0)" if "x = frame f' h' t' dst ctx (p_data p0)" for x f' h' t' ctx
    using transit_signalling_frame [of s p "Some name" f' h' t' dst ctx] that pd(1) by (cases ?lr) auto
  obtain data' where out: "(if ?lr then transit_signalling s p (Some name) (transit_frame p ?hop ?rem) else transit_frame p ?hop ?rem)
      = frame f ?h tid' dst (p_context p0) data'" "if ?lr then resignalled (p_data p0) data' else data' = p_data p0"
    using sig [OF fr(1)] by blast
  have ne: "?hop \<noteq> []" using route(3) by auto
  have send: "df_outbound (snd (forward_transit E p dh (s, df))) = df_outbound df @ [(name, frame f ?h tid' dst (p_context p0) data')]"
    using route(1,2) ne out(1) pd(2) by (simp add: forward_transit_def Let_def send_on_def split: if_splits)
  have data': "data' \<noteq> []" using out(2) data resignalled_nonempty [of "p_data p0" data'] by (auto split: if_splits)
  have lt: "case tid' of None \<Rightarrow> True | Some t \<Rightarrow> length t = DST_LEN"
    using t route(3) by (auto simp: fr(2) split: option.splits)
  have lh: "?h < PATHFINDER_M" using hops h by simp
  obtain q where q: "receive_frame c (frame f ?h tid' dst (p_context p0) data') iface' = Some q" "p_flags q = f"
    "p_hops q = ?h" "p_transport_id q = tid'" "p_destination_hash q = Some dst" "p_context q = p_context p0" "p_data q = data'"
    by (rule receive_of_frame [OF fr(4,5) d(2) lt data' lh])
  have m: "f AND 3 = p_flags p0 AND 3" "f AND 12 = p_flags p0 AND 12"
    using arg_cong [OF fr(3), of "\<lambda>x. x AND 3"] arg_cong [OF fr(3), of "\<lambda>x. x AND 12"]
    by (simp_all add: and.assoc)
  have r: "p_packet_type q = p_flags q AND 3 \<and> p_destination_type q = dest_type_of_u8 (drop_bit 2 (p_flags q AND 12))
      \<and> p_packet_hash q = Some (full_hash (c_sha c) ((p_flags q AND 15) # dst @ [p_context q] @ p_data q))"
    using q(5) by (rule_tac receive_frameD [OF q(1)]) simp
  then have k: "p_packet_type q = p_packet_type p0" "p_destination_type q = p_destination_type p0"
    "data' = p_data p0 \<Longrightarrow> p_packet_hash q = p_packet_hash p0"
    by (simp_all only: q(2,6,7) m ty hash fr(3))
  have flag: "p_context_flag q = (if flags_rewritten ?rem (p_header_type p0) then FLAG_UNSET else p_context_flag p0)"
    using receive_frame_context_flag [OF q(1)] receive_frame_context_flag [OF rx] fr(6) q(2) by simp
  have lr: "take ECPUBSIZE (p_data q) = take ECPUBSIZE (p_data p0)
      \<and> link_id_from_lr_packet (c_sha c) q = link_id_from_lr_packet (c_sha c) p0
      \<and> (mtu_from_lr_packet (p_data p0) = None \<longrightarrow> p_data q = p_data p0)
      \<and> (\<forall>m'. mtu_from_lr_packet (p_data q) = Some m' \<longrightarrow> (\<exists>m\<ge>m'. mtu_from_lr_packet (p_data p0) = Some m))" if "?lr"
  proof -
    have rs: "resignalled (p_data p0) data'" using out(2) that by simp
    have keys: "take ECPUBSIZE (p_data q) = take ECPUBSIZE (p_data p0)" using resignalled_keys [OF rs] q(7) by simp
    obtain P P' where u: "unpack (c_sha c) P = (True, q)" "unpack (c_sha c) P' = (True, p0)"
      using receive_frame_unpack [OF q(1)] receive_frame_unpack [OF rx] by blast
    have "link_id_from_lr_packet (c_sha c) q = link_id_from_lr_packet (c_sha c) p0"
      by (rule link_id_ignores_signalling [OF u]) (use q d(1) fr(3) keys in simp_all)
    moreover have "mtu_from_lr_packet (p_data p0) = None \<longrightarrow> p_data q = p_data p0"
      using rs q(7) by (auto simp: resignalled_def mtu_from_lr_packet_def mtu_at_def)
    ultimately show ?thesis using keys resignalled_mtu [OF rs] q(7) by simp
  qed
  show ?thesis
    by (rule exI [of _ "frame f ?h tid' dst (p_context p0) data'"], rule exI [of _ q])
      (use send q d(1) k flag lr out(2) fr(2) in \<open>simp split: if_splits\<close>)
qed

text \<open>A node with one route, of three hops.\<close>

definition three_hop_route :: path_entry where
  "three_hop_route = sample_route 3 100\<lparr>pe_receiving_interface := Some ''far'', pe_expires := 200, pe_next_hop := replicate 16 8\<rparr>"

definition three_hop_state :: transport_state where
  "three_hop_state = fresh_state\<lparr>ts_path_table := [replicate 16 7 \<mapsto> [three_hop_route]],
     ts_interfaces := [sample_iface\<lparr>if_name := ''far'', if_online := True\<rparr>]\<rparr>"

theorem transit_preserves_packet_witness:
  "\<exists>p0 out q. receive_frame toy_crypto (plain_frame DATA 3 (replicate 16 7) 0 [1, 2]) None = Some p0
     \<and> df_outbound (snd (forward_transit sample_env (p0\<lparr>p_hops := 4, p_transport_id := None\<rparr>) (replicate 16 7) (three_hop_state, no_deferred)))
         = df_outbound no_deferred @ [(''far'', out)]
     \<and> receive_frame toy_crypto out None = Some q
     \<and> p_packet_hash q = p_packet_hash p0 \<and> p_transport_id q = Some (replicate 16 8) \<and> p_hops q = 4"
proof -
  obtain p0 where p: "receive_frame toy_crypto (plain_frame DATA 3 (replicate 16 7) 0 [1, 2]) None = Some p0"
    "p_packet_type p0 = DATA" "p_receiving_interface p0 = None"
    by (rule receive_plain_frame [of DATA "replicate 16 7" "[1, 2]" 3 toy_crypto 0 None]) auto
  have sel: "select_path_excluding (ts_path_table three_hop_state) (ts_interfaces three_hop_state) (replicate 16 7) (e_now sample_env)
      (p_receiving_interface (p0\<lparr>p_hops := 4, p_transport_id := None\<rparr>)) = Some (0, three_hop_route)"
    using p(3) by (simp add: select_path_excluding_def three_hop_state_def three_hop_route_def sample_env_def is_expired_def route_online_def
        find_interface_def)
  have r: "pe_receiving_interface three_hop_route = Some ''far''" "length (pe_next_hop three_hop_route) = DST_LEN" "pe_hops three_hop_route = 3"
    "pe_next_hop three_hop_route = replicate 16 8"
    by (simp_all add: three_hop_route_def sample_route_def)
  from transit_preserves_packet [OF p(1) refl _ sel r(1,2), of no_deferred None] show ?thesis
    using p r(3,4) by auto
qed

section \<open>Where a packet goes\<close>

text \<open>
  A DATA packet for a destination one usable route away is dispatched three times: by the
  transit code, by the forwarding that looks only at the path table, and by the DATA branch. The
  last two send the frame without the transport header the first one adds, and on the interface of
  the route even when the packet arrived there.
\<close>

theorem data_dispatched_three_times:
  assumes "p_packet_type p = DATA" and "p_destination_type p = Some Single" and "p_destination_hash p = Some dh"
    and "Option.bind (ts_identity s) id_hash \<noteq> None" and "ts_path_table s dh = Some [e]"
    and "\<not> is_expired e (e_now E)" and "pe_receiving_interface e = Some name" and "route_online (ts_interfaces s) e"
    and "p_receiving_interface p \<noteq> Some name"
    and "ts_link_table s dh = None" and "\<not> is_own_destination s dh" and "1 < length (p_raw p)"
    and "process_packet E p s = (r, s', es)" and "p_context p \<noteq> LRPROOF"
  shows "es = [Dispatch name (transit_frame p (pe_next_hop e) (pe_hops e)),
      Dispatch name (set_hops (p_hops p) (p_raw p)), Dispatch name (set_hops (p_hops p) (p_raw p))]"
proof -
  obtain h where h: "Option.bind (ts_identity s) id_hash = Some h" using assms(4) by auto
  let ?q = "p\<lparr>p_transport_id := Some h\<rparr>"
  let ?s = "remember_packet_hash p s"
  have keep: "ts_path_table ?s = ts_path_table s" "ts_identity ?s = ts_identity s" "ts_interfaces ?s = ts_interfaces s"
    "ts_link_table ?s = ts_link_table s" "ts_destinations ?s = ts_destinations s"
    by (simp_all add: remember_packet_hash_def Let_def split: option.split)
  have sel: "select_path_excluding (ts_path_table s) (ts_interfaces s) dh (e_now E) (p_receiving_interface p) = Some (0, e)"
    using assms by (simp add: select_path_excluding_def)
  show ?thesis
    using assms(13)
  proof (rule process_packet_stages)
    fix s1 sd q sd2 sd3 ia
    assume s1: "s1 = remember_packet_hash p (snd (check_announce E p s))"
      and sd: "sd = handle_announce E (fst (check_announce E p s)) p (s1, no_deferred)"
      and q: "q = inject_transport_id (fst sd) p"
      and sd2: "sd2 = handle_relayed E q (handle_transit E q sd)"
      and sd3: "sd3 = handle_data E q (fst sd2, handle_link_request q (fst sd2) (snd sd2))"
      and ia: "ia = interface_announce E (fst (check_announce E p s)) p (snd (check_announce E p s))"
      and fin: "finish E q ia (handle_proof E q sd3) = (s', es)"
    let ?raw = "set_hops (p_hops p) (p_raw p)" and ?first = "transit_frame p (pe_next_hop e) (pe_hops e)"
    have sdq: "sd = (?s, no_deferred)" "q = ?q"
      using assms h keep by (simp_all add: sd s1 q check_announce_def handle_announce_def inject_transport_id_def)
    obtain t where t: "handle_transit E ?q (?s, no_deferred) = (t, send_on name ?first no_deferred)"
        "ts_path_table t = (ts_path_table s)(dh \<mapsto> [e\<lparr>pe_timestamp := e_now E\<rparr>])"
        "ts_link_table t = ts_link_table s" "ts_destinations t = ts_destinations s"
      using assms h keep sel
      by (simp add: handle_transit_def forward_transit_def refresh_front_def transit_frame_def Let_def)
    have fwd: "plain_forward (e_now E) t ?q dh = Some (name, ?raw)"
      using assms(6,7,12) t(2) by (simp add: plain_forward_def is_expired_def)
    have own: "matching_destinations t dh = []"
      using assms(11) t(4) by (auto simp: matching_destinations_def is_own_destination_def filter_empty_conv)
    have rel: "sd2 = (t, send_on name ?raw (send_on name ?first no_deferred))"
      unfolding sd2 sdq t(1) handle_relayed_def using assms(1,2,3,10,14) t(3) fwd by simp
    have dat: "snd sd3 = send_on name ?raw (send_on name ?raw (send_on name ?first no_deferred))"
      unfolding sd3 sdq rel handle_data_def handle_link_request_def using assms(1,2,3) fwd own by simp
    have "handle_proof E q sd3 = sd3"
      using assms(1) by (simp add: sdq handle_proof_def split_def)
    then show ?thesis
      using fin dat assms(1) by (simp add: ia interface_announce_def finish_def send_on_def no_deferred_def split_def)
  qed
qed

text \<open>A node with one route, over an interface, and a DATA packet for its destination.\<close>

definition one_route_state :: transport_state where
  "one_route_state = fresh_state\<lparr>ts_identity := Some (empty_identity\<lparr>id_hash := Some (replicate 16 5)\<rparr>),
     ts_path_table := [replicate 16 7 \<mapsto> [sample_route 2 100\<lparr>pe_receiving_interface := Some ''far'', pe_expires := 200\<rparr>]],
     ts_interfaces := [sample_iface\<lparr>if_name := ''far'', if_online := True\<rparr>]\<rparr>"

theorem data_dispatched_three_times_witness:
  "\<exists>r s' a b. process_packet sample_env (sample_packet\<lparr>p_packet_type := DATA, p_destination_type := Some Single,
       p_destination_hash := Some (replicate 16 7), p_raw := sample_frame\<rparr>) one_route_state
     = (r, s', [Dispatch ''far'' a, Dispatch ''far'' b, Dispatch ''far'' b])"
proof -
  let ?p = "sample_packet\<lparr>p_packet_type := DATA, p_destination_type := Some Single,
       p_destination_hash := Some (replicate 16 7), p_raw := sample_frame\<rparr>"
  obtain r s' es where run: "process_packet sample_env ?p one_route_state = (r, s', es)"
    by (cases "process_packet sample_env ?p one_route_state")
  let ?e = "sample_route 2 100\<lparr>pe_receiving_interface := Some ''far'', pe_expires := 200\<rparr>"
  have "es = [Dispatch ''far'' (transit_frame ?p (pe_next_hop ?e) (pe_hops ?e)),
     Dispatch ''far'' (set_hops (p_hops ?p) (p_raw ?p)), Dispatch ''far'' (set_hops (p_hops ?p) (p_raw ?p))]"
    by (rule data_dispatched_three_times [OF _ _ _ _ _ _ _ _ _ _ _ _ run, where dh = "replicate 16 7"])
       (simp_all add: one_route_state_def fresh_state_def sample_packet_def new_packet_def is_expired_def
          sample_env_def route_online_def find_interface_def is_own_destination_def sample_frame_def)
  with run show ?thesis by blast
qed

section \<open>What validation does not cover\<close>

text \<open>
  C35. An announce too short to hold a key is not validated and still installs a route: with fewer
  than 64 bytes of data and no route known, the path table gets a route to the destination of the
  sender's choosing, through the next hop and interface of the packet.
\<close>

theorem short_announce_installs_route:
  assumes "p_packet_type p = ANNOUNCE" and "length (p_data p) < KEY_LEN" and "p_destination_hash p = Some dh"
    and "\<not> is_own_destination s dh" and "ts_path_table s dh = None" and "process_packet E p s = (r, s', es)"
  shows "ts_path_table s' dh = Some [announced_route (e_now E) p (case p_transport_id p of Some t \<Rightarrow> t | None \<Rightarrow> dh)]"
  using assms(6)
proof (rule process_packet_stages)
  fix s1 sd q sd2 sd3 ia
  assume s1: "s1 = remember_packet_hash p (snd (check_announce E p s))"
    and sd: "sd = handle_announce E (fst (check_announce E p s)) p (s1, no_deferred)"
    and q: "q = inject_transport_id (fst sd) p"
    and sd2: "sd2 = handle_relayed E q (handle_transit E q sd)"
    and sd3: "sd3 = handle_data E q (fst sd2, handle_link_request q (fst sd2) (snd sd2))"
    and fin: "finish E q ia (handle_proof E q sd3) = (s', es)"
  let ?df = "queue_announce_callbacks E p s1 no_deferred"
  let ?t = "note_global_blob E (announce_blob p) (note_local_rebroadcast (e_now E) p dh s1)"
  have [simp]: "q = p" using assms(1) by (simp add: q inject_transport_id_def)
  have "routing_of s' = routing_of (fst sd3)"
    by (metis fin fst_conv kept_finish(1) kept_handle_proof(1))
  also have "routing_of (fst sd3) = routing_of (fst sd)"
    using assms(1) by (simp add: sd3 sd2 handle_data_def handle_transit_def split_def)
  also have "sd = accept_announce E p dh (s1, ?df)"
    using assms(1,2,3) by (simp add: sd handle_announce_def check_announce_def validate_inbound_announce_def)
  finally have r: "routing_of s' = routing_of (fst (accept_announce E p dh (s1, ?df)))" .
  have "routing_of ?t = routing_of s"
    by (simp add: s1)
  then have t: "ts_path_table ?t dh = None" "\<not> is_own_destination ?t dh"
    using assms(4,5) by (simp_all add: routing_of_def is_own_destination_def)
  have "ts_path_table (record_tunnel_path now i d hop hops ex b ph u) = ts_path_table u" for now i d hop hops ex b ph u
    by (simp add: record_tunnel_path_def split: option.split)
  then show ?thesis
    using r t unfolding routing_accept_announce
    by (simp add: routing_of_def learn_route_def Let_def admit_route_def evict_worst.simps)
qed

theorem short_announce_installs_route_witness:
  "\<exists>r s' es. process_packet sample_env (sample_packet\<lparr>p_data := [1], p_destination_hash := Some (replicate 16 7),
        p_transport_id := Some (replicate 16 6)\<rparr>) fresh_state = (r, s', es)
     \<and> (\<exists>e. ts_path_table s' (replicate 16 7) = Some [e] \<and> pe_next_hop e = replicate 16 6)"
proof -
  let ?p = "sample_packet\<lparr>p_data := [1], p_destination_hash := Some (replicate 16 7), p_transport_id := Some (replicate 16 6)\<rparr>"
  obtain r s' es where run: "process_packet sample_env ?p fresh_state = (r, s', es)"
    by (cases "process_packet sample_env ?p fresh_state")
  show ?thesis
    using short_announce_installs_route [OF _ _ _ _ _ run, of "replicate 16 7"] run
    by (simp add: sample_packet_def new_packet_def fresh_state_def is_own_destination_def announced_route_def)
qed

lemma flipped_flags:
  fixes f :: u8
  shows "(f XOR 0x20) AND 0x80 = f AND 0x80" "(f XOR 0x20) AND 64 = f AND 64" "(f XOR 0x20) AND 15 = f AND 15"
    and "drop_bit 5 ((f XOR 0x20) AND 0x20) \<noteq> drop_bit 5 (f AND 0x20)"
proof -
  show "(f XOR 0x20) AND 0x80 = f AND 0x80" "(f XOR 0x20) AND 64 = f AND 64" "(f XOR 0x20) AND 15 = f AND 15"
    by (simp_all add: bit.conj_xor_distrib2)
  have "x XOR 1 \<noteq> x" for x :: u8
  proof
    assume "x XOR 1 = x"
    then have "x XOR (x XOR 1) = 0" by simp
    then show False by (simp flip: xor.assoc)
  qed
  then show "drop_bit 5 ((f XOR 0x20) AND 0x20) \<noteq> drop_bit 5 (f AND 0x20)"
    by (simp add: bit.conj_xor_distrib2 drop_bit_xor)
qed

lemma receive_context_flag:
  "receive_frame c raw iface = Some p \<Longrightarrow> p_context_flag p = drop_bit 5 (p_flags p AND 0x20)"
  by (auto simp: receive_frame_def unpack_def unpack_addresses_def unpack_flags_def Let_def update_hash_def
        split: if_splits prod.splits bool.splits)

text \<open>
  The memory of validated announces does not see the context flag, which decides where in the
  data the signature is. For every announce that was validated, the frame with the flag inverted
  is accepted as validated too: it has the same hash and data, so no signature is checked, though
  its ratchet, signature and application data are read from other places.
\<close>

theorem inverted_flag_accepted:
  assumes "receive_frame c raw iface = Some p" and "KEY_LEN \<le> length (p_data p)"
    and "fst (validate_inbound_announce c p s)"
  shows "\<exists>q. receive_frame c ((p_flags p XOR 0x20) # tl raw) iface' = Some q
     \<and> p_context_flag q \<noteq> p_context_flag p \<and> p_packet_type q = p_packet_type p
     \<and> p_destination_hash q = p_destination_hash p \<and> p_data q = p_data p
     \<and> fst (validate_inbound_announce c q (snd (validate_inbound_announce c p s)))"
  using assms(1)
proof (rule receive_frameD)
  fix dst
  assume d: "p_destination_hash p = Some dst" "length dst = DST_LEN"
    and raw: "raw = frame (p_flags p) (p_hops p) (p_transport_id p) dst (p_context p) (p_data p)"
    and t: "case p_transport_id p of None \<Rightarrow> p_header_type p = HEADER_1
       | Some t \<Rightarrow> length t = DST_LEN \<and> p_header_type p = HEADER_2"
    and data: "p_data p \<noteq> []" and hops: "p_hops p < PATHFINDER_M" and ifac: "p_flags p AND 0x80 \<noteq> 0x80"
    and hash: "p_packet_hash p = Some (full_hash (c_sha c) ((p_flags p AND 15) # dst @ [p_context p] @ p_data p))"
    and ty: "p_packet_type p = p_flags p AND 3" and hd: "p_header_type p = drop_bit 6 (p_flags p AND 64)"
  have "(p_flags p XOR 0x20) # tl raw = frame (p_flags p XOR 0x20) (p_hops p) (p_transport_id p) dst (p_context p) (p_data p)"
    by (subst raw) (simp add: frame_def)
  moreover have "drop_bit 6 ((p_flags p XOR 0x20) AND 64) = (case p_transport_id p of None \<Rightarrow> HEADER_1 | Some _ \<Rightarrow> HEADER_2)"
    using t hd unfolding flipped_flags by (simp split: option.splits)
  moreover have "case p_transport_id p of None \<Rightarrow> True | Some t \<Rightarrow> length t = DST_LEN"
    using t by (simp split: option.splits)
  moreover have "(p_flags p XOR 0x20) AND 0x80 \<noteq> 0x80"
    using ifac unfolding flipped_flags .
  ultimately obtain q where q: "receive_frame c ((p_flags p XOR 0x20) # tl raw) iface' = Some q"
    "p_flags q = p_flags p XOR 0x20" "p_destination_hash q = Some dst" "p_context q = p_context p" "p_data q = p_data p"
    using receive_of_frame [of "p_flags p XOR 0x20" "p_transport_id p" dst "p_data p" "p_hops p" c "p_context p" iface']
      d(2) data hops by metis
  have "p_packet_hash q = Some (full_hash (c_sha c) ((p_flags q AND 15) # dst @ [p_context q] @ p_data q))
      \<and> p_packet_type q = p_flags q AND 3"
    using q(3) by (rule_tac receive_frameD [OF q(1)]) simp
  then have hq: "p_packet_hash q = p_packet_hash p" "p_packet_type q = p_packet_type p"
    unfolding hash ty q(2,4,5) flipped_flags by (simp_all add: bit.conj_xor_distrib2)
  have "p_context_flag q \<noteq> p_context_flag p"
    using flipped_flags(4) [of "p_flags p"] by (simp add: receive_context_flag [OF assms(1)] receive_context_flag [OF q(1)] q(2))
  moreover have "fst (validate_inbound_announce c q (snd (validate_inbound_announce c p s)))"
    using assms(2,3) hash hq(1) q(5)
    by (auto simp: validate_inbound_announce_def Let_def split: if_splits)
  ultimately show ?thesis
    using q hq d(1) by auto
qed

theorem inverted_flag_accepted_witness:
  "\<exists>c p q. receive_frame c (plain_frame ANNOUNCE 3 (replicate 16 4) 0 sample_announce_data) None = Some p
     \<and> receive_frame c (0x21 # tl (plain_frame ANNOUNCE 3 (replicate 16 4) 0 sample_announce_data)) None = Some q
     \<and> p_context_flag q \<noteq> p_context_flag p
     \<and> fst (validate_inbound_announce c q (snd (validate_inbound_announce c p fresh_state)))"
proof -
  let ?c = "toy_crypto\<lparr>c_sha := \<lambda>_. replicate 16 4\<rparr>"
  obtain p where p: "receive_frame ?c (plain_frame ANNOUNCE 3 (replicate 16 4) 0 sample_announce_data) None = Some p"
    "p_flags p = ANNOUNCE" "p_destination_hash p = Some (replicate 16 4)" "p_data p = sample_announce_data"
    "p_context_flag p = FLAG_UNSET"
    by (rule receive_plain_frame [of ANNOUNCE "replicate 16 4" sample_announce_data 3 ?c 0 None])
       (auto simp: sample_announce_data_def announce_layout_def)
  have len: "announce_lengths (replicate 64 1) (replicate 10 2) (replicate 10 3) [] (replicate 64 5) FLAG_UNSET"
    by (simp add: announce_lengths_def)
  have "validate_announce ?c sample_announce_data (Some (replicate 16 4)) (Some (take KEY_LEN sample_announce_data)) FLAG_UNSET"
    unfolding sample_announce_data_def
    by (subst (2) announce_layout_def)
       (simp add: validate_announce_layout [OF len] toy_crypto_def truncated_hash_def full_hash_def)
  moreover have l: "KEY_LEN \<le> length sample_announce_data"
    by (simp add: sample_announce_data_def announce_layout_def)
  ultimately have "fst (validate_inbound_announce ?c p fresh_state)"
    using p by (simp add: validate_inbound_announce_def Let_def)
  from inverted_flag_accepted [OF p(1) _ this, of None] p l show ?thesis
    by (rule_tac exI [of _ ?c], rule_tac exI [of _ p]) auto
qed

end
