(* ===== verification/Outbound_Correct.thy ===== *)
theory Outbound_Correct
  imports Outbound Inbound_Correct
begin

text \<open>
  What leaves a node: the packet that was packed, on the best path or on the interfaces that the rules allow, and
  an own announce on all of them, now or later.
\<close>

section \<open>Frames on the way\<close>

lemma unpack_wire_frame:
  assumes "raw = frame f h tid dst ctx data" "length dst = DST_LEN" "data \<noteq> []" "h < PATHFINDER_M"
    and "drop_bit 6 (f AND 64) = (case tid of None \<Rightarrow> HEADER_1 | Some _ \<Rightarrow> HEADER_2)"
    and "case tid of None \<Rightarrow> True | Some t \<Rightarrow> length t = DST_LEN"
  shows "\<exists>r. unpack sha (new_packet None raw pt cx tt ht ti ai cr cf) = (True, r)
    \<and> p_flags r = f \<and> p_hops r = h \<and> p_transport_id r = tid \<and> p_destination_hash r = Some dst \<and> p_context r = ctx \<and> p_data r = data
    \<and> p_packet_type r = f AND 3 \<and> p_destination_type r = dest_type_of_u8 (drop_bit 2 (f AND 12))
    \<and> p_packet_hash r = Some (full_hash sha ((f AND 15) # dst @ [ctx] @ data))"
proof -
  let ?n = "new_packet None raw pt cx tt ht ti ai cr cf"
  let ?f = "unpack_flags (?n\<lparr>p_flags := f, p_hops := h\<rparr>)"
  let ?r = "?f\<lparr>p_transport_id := tid, p_destination_hash := Some dst, p_context := ctx, p_data := data\<rparr>"
  have raw: "raw ! 0 = f" "raw ! Suc 0 = h" "2 \<le> length raw" "p_raw ?n = raw"
    using assms(1) by (simp_all add: frame_def new_packet_def)
  have ff: "p_raw ?f = raw" "p_header_type ?f = (case tid of None \<Rightarrow> HEADER_1 | Some _ \<Rightarrow> HEADER_2)"
    "p_packet_type ?f = f AND 3" "p_destination_type ?f = dest_type_of_u8 (drop_bit 2 (f AND 12))" "p_flags ?f = f" "p_hops ?f = h"
    using assms(5) raw(4) by (simp_all add: unpack_flags_def Let_def)
  have "unpack_addresses ?f = (True, ?r)"
    by (rule unpack_addresses_frame [OF trans [OF ff(1) assms(1)] assms(2) ff(2) assms(6)])
  then have "unpack sha ?n = (True, update_hash sha (?r\<lparr>p_packed := False\<rparr>))"
    using raw assms(3,4) by (simp add: unpack_def Let_def linorder_not_le [symmetric])
  moreover have "get_hashable_part ?r = (f AND 15) # dst @ [ctx] @ data"
    using ff(1,2) assms(1) by (intro hashable_frame [OF _ _ assms(6)]) simp_all
  ultimately show ?thesis using ff by (simp add: update_hash_def get_hash_def)
qed

lemma transport_flags:
  fixes x :: u8
  defines "f \<equiv> push_bit 6 HEADER_2 OR push_bit 4 MODE_TRANSPORT OR (x AND 0b00001111)"
  shows "f AND 3 = x AND 3" "f AND 12 = x AND 12" "f AND 15 = x AND 15" "drop_bit 6 (f AND 64) = 1"
  unfolding f_def by (simp_all add: word_ao_dist word_bw_assocs)

text \<open>A packed packet under a plain header, as \<^verbatim>\<open>pack\<close> leaves it.\<close>

definition packed_plain :: "(bytes \<Rightarrow> bytes) \<Rightarrow> packet \<Rightarrow> bytes \<Rightarrow> bytes \<Rightarrow> bool" where
  "packed_plain sha p dst data \<longleftrightarrow>
     p_raw p = frame (p_flags p) (p_hops p) None dst (p_context p) data \<and> p_header_type p = HEADER_1
     \<and> length dst = DST_LEN \<and> data \<noteq> [] \<and> p_hops p < PATHFINDER_M \<and> drop_bit 6 (p_flags p AND 64) = 0
     \<and> p_packet_hash p = Some (get_hash sha p)"

lemma pack_leaves_plain:
  assumes "pack sha enc p = (Inr (), q)" "canonical p" "p_header_type p = HEADER_1" "p_ciphertext q = Some data" "data \<noteq> []"
  shows "\<exists>d. p_destination p = Some d \<and> packed_plain sha q (d_hash d) data"
proof -
  obtain d c where d: "p_destination p = Some d" "p_ciphertext q = Some c"
    and raw: "p_raw q = frame (p_flags p) (p_hops p) (wire_transport_id p) (d_hash d) (p_context p) c"
    and hash: "p_packet_hash q = Some (get_hash sha q)" and ht: "p_header_type q = p_header_type p"
    using pack_InrD [OF assms(1,2)] by blast
  have q: "p_flags q = p_flags p \<and> p_hops q = p_hops p \<and> p_context q = p_context p"
    using assms(1) by (auto simp: pack_def pack_header_def Let_def update_hash_def split: option.splits sum.splits prod.splits if_splits)
  have "p_header_type (unpack_flags (p\<lparr>p_flags := get_packed_flags p\<rparr>)) = p_header_type p"
    using assms(2) unpack_flags_packed [of p p] by (simp add: canonical_def)
  then have "drop_bit 6 (p_flags p AND 64) = p_header_type p"
    using assms(2) by (simp add: unpack_flags_def canonical_def Let_def)
  then show ?thesis using assms d raw hash ht q
    by (auto simp: packed_plain_def canonical_def wire_transport_id_def)
qed

text \<open>What the next hop reads of the frame for a path: the packet itself, up to the header.\<close>

lemma path_frame_reads_back:
  assumes "packed_plain sha p dst data" "length (pe_next_hop e) = DST_LEN"
  shows "\<exists>r. unpack sha (new_packet None (path_frame shared p dh e) pt cx tt ht ti ai cr cf) = (True, r)
    \<and> p_hops r = p_hops p \<and> p_destination_hash r = Some dst \<and> p_context r = p_context p \<and> p_data r = data
    \<and> p_packet_type r = p_flags p AND 3 \<and> p_destination_type r = dest_type_of_u8 (drop_bit 2 (p_flags p AND 12))
    \<and> p_packet_hash r = p_packet_hash p
    \<and> p_transport_id r = (if pe_hops e > 1 \<and> pe_next_hop e \<noteq> dh \<or> pe_hops e = 1 \<and> shared then Some (pe_next_hop e) else None)"
proof -
  let ?in_transport = "pe_hops e > 1 \<and> pe_next_hop e \<noteq> dh \<or> pe_hops e = 1 \<and> shared"
  let ?f = "if ?in_transport then push_bit 6 HEADER_2 OR push_bit 4 MODE_TRANSPORT OR (p_flags p AND 0b00001111) else p_flags p"
  let ?tid = "if ?in_transport then Some (pe_next_hop e) else None"
  have f: "?f AND 3 = p_flags p AND 3" "?f AND 12 = p_flags p AND 12" "?f AND 15 = p_flags p AND 15"
    "drop_bit 6 (?f AND 64) = (case ?tid of None \<Rightarrow> HEADER_1 | Some _ \<Rightarrow> HEADER_2)"
    using assms(1) transport_flags [of "p_flags p"] by (simp_all add: packed_plain_def)
  have raw: "path_frame shared p dh e = frame ?f (p_hops p) ?tid dst (p_context p) data"
    using assms by (auto simp: path_frame_def transport_frame_def packed_plain_def frame_def)
  have hash: "p_packet_hash p = Some (full_hash sha ((?f AND 15) # dst @ [p_context p] @ data))"
    using assms(1) hashable_frame [of p "p_flags p" "p_hops p" None] f(3) by (simp add: packed_plain_def get_hash_def)
  have p: "length dst = DST_LEN" "data \<noteq> []" "p_hops p < PATHFINDER_M" using assms(1) by (simp_all add: packed_plain_def)
  have "case ?tid of None \<Rightarrow> True | Some t \<Rightarrow> length t = DST_LEN" using assms(2) by simp
  from unpack_wire_frame [OF raw p f(4) this, of sha pt cx tt ht ti ai cr cf] show ?thesis
    unfolding f(1,2) hash by auto
qed

section \<open>A known path\<close>

definition dispatches :: "effect list \<Rightarrow> (string \<times> bytes) list" where
  "dispatches es = concat (map (\<lambda>x. case x of Dispatch n raw \<Rightarrow> [(n, raw)] | _ \<Rightarrow> []) es)"

lemma dispatches_simps [simp]:
  "dispatches [] = []" "dispatches (xs @ ys) = dispatches xs @ dispatches ys"
  "dispatches (map (\<lambda>(name, raw). Dispatch name raw) tx) = tx"
  by (induction tx) (auto simp: dispatches_def)

lemma in_dispatches: "Dispatch n raw \<in> set es \<longleftrightarrow> (n, raw) \<in> set (dispatches es)"
  by (auto simp: dispatches_def split: effect.splits)

lemma select_all_online: "(k, sc, e) \<in> set (select_all_paths t ifs h now) \<Longrightarrow> route_online ifs e \<and> \<not> is_expired e now"
  by (auto simp: select_all_paths_def split: option.splits)

lemma outbound_paths_best:
  assumes "path_routable p" "outbound_dest p = Some h" "select_path_for s now h = Some (k, e)"
  shows "\<exists>sc rest. outbound_paths now p s = (k, sc, e) # rest"
  using assms select_path_is_first_of_all [of "ts_path_table s" "ts_interfaces s" h now]
  by (auto simp: outbound_paths_def select_path_for_def split: list.splits)

lemma shorten_expiry_keeps [simp]:
  "ts_interfaces (shorten_expiry t h e s) = ts_interfaces s"
  "ts_local_client_interfaces (shorten_expiry t h e s) = ts_local_client_interfaces s"
  "ts_receipts (shorten_expiry t h e s) = ts_receipts s"
  by (auto simp: shorten_expiry_def Let_def split: option.split)

lemma request_stale_paths_keeps:
  assumes "request_stale_paths now h stale s = (s', es)"
  shows "ts_interfaces s' = ts_interfaces s \<and> ts_local_client_interfaces s' = ts_local_client_interfaces s \<and> ts_receipts s' = ts_receipts s
    \<and> dispatches es = []"
  using assms
proof (induction stale arbitrary: s s' es)
  case (Cons i rest)
  then show ?case by (fastforce simp: request_path_def dispatches_def split: prod.splits)
qed simp

lemma finish_outbound_dispatches:
  assumes "finish_outbound c rid now tx queued p s = (sent, p', s', es)"
  shows "dispatches es = filter (\<lambda>(name, _). transmission_online s name) tx" "sent \<longleftrightarrow> dispatches es \<noteq> [] \<or> queued \<noteq> []"
    "sent \<and> should_generate_receipt p \<and> p_receipt p = None \<Longrightarrow>
      p_receipt p' = Some (new_with_timeout (c_sha c) rid now p (receipt_timeout now p s)) \<and> ts_receipts s' = ts_receipts s @ [the (p_receipt p')]"
    "p_sent p' = p_sent p"
  using assms by (auto simp: finish_outbound_def Let_def split: if_splits)

lemma outbound_on_best_path:
  assumes "path_routable p" "outbound_dest p = Some h" "select_path_for s now h = Some (k, e)" "pe_receiving_interface e = Some name"
    and "outbound c rid now p s = (sent, p', s', es)"
  shows "dispatches es = [(name, path_frame (ts_is_connected_to_shared_instance s) p h e)] \<and> sent \<and> p_sent p'
    \<and> (should_generate_receipt p \<and> p_receipt p = None \<longrightarrow>
        (\<exists>r. p_receipt p' = Some r \<and> r_hash r = get_hash (c_sha c) p \<and> r_status r = SENT \<and> ts_receipts s' = ts_receipts s @ [r]))"
proof -
  obtain sc rest where paths: "outbound_paths now p s = (k, sc, e) # rest" using outbound_paths_best [OF assms(1-3)] by blast
  then have "(k, sc, e) \<in> set (select_all_paths (ts_path_table s) (ts_interfaces s) h now)"
    using assms(1,2) by (simp add: outbound_paths_def)
  then have "route_online (ts_interfaces s) e" using select_all_online by blast
  then obtain i where i: "find_interface (ts_interfaces s) name = Some i" "if_online i"
    using assms(4) by (auto simp: route_online_def split: option.splits)
  then have ex: "\<exists>i\<in>set (ts_interfaces s). if_name i = name"
    unfolding find_interface_def by (meson find_Some_iff nth_mem)
  let ?tx = "[(name, path_frame (ts_is_connected_to_shared_instance s) p h e)]"
  have "send_on_paths now p h ((k, sc, e) # rest) s =
      (if pe_hops e \<ge> 2 \<and> now - pe_timestamp e > PATH_STALE_THRESHOLD then (?tx, [pe_receiving_interface e], shorten_expiry now h e s)
       else (?tx, [], s))"
    using ex assms(4) by (auto simp: Let_def)
  then have "\<exists>stale s1. send_on_paths now p h ((k, sc, e) # rest) s = (?tx, stale, s1) \<and> ts_interfaces s1 = ts_interfaces s
      \<and> ts_receipts s1 = ts_receipts s"
    by (simp del: send_on_paths.simps)
  then obtain stale s1 where s1: "send_on_paths now p h ((k, sc, e) # rest) s = (?tx, stale, s1)"
    "ts_interfaces s1 = ts_interfaces s" "ts_receipts s1 = ts_receipts s" by blast
  obtain s2 reqs where s2: "request_stale_paths now h stale s1 = (s2, reqs)" by fastforce
  have k: "ts_interfaces s2 = ts_interfaces s" "ts_receipts s2 = ts_receipts s" "dispatches reqs = []"
    using request_stale_paths_keeps [OF s2] s1 by auto
  obtain es' where f: "finish_outbound c rid now ?tx [] (mark_packet_sent now p) s2 = (sent, p', s', es')" "es = reqs @ es'"
    using assms(2,5) paths s1(1) s2 by (auto simp: outbound_def split: prod.splits)
  have on: "transmission_online s2 name" using i k(1) by (simp add: transmission_online_def)
  have d: "dispatches es' = ?tx" using finish_outbound_dispatches(1) [OF f(1)] on by simp
  have m: "should_generate_receipt (mark_packet_sent now p) = should_generate_receipt p" "p_receipt (mark_packet_sent now p) = p_receipt p"
    "p_sent (mark_packet_sent now p)" "get_hash sha (mark_packet_sent now p) = get_hash sha p" for sha
    by (simp_all add: mark_packet_sent_def should_generate_receipt_def get_hash_def get_hashable_part_def split: list.split)
  show ?thesis
    using finish_outbound_dispatches(2-4) [OF f(1)] d f(2) k(2,3) m by (auto simp: new_with_timeout_def from_parts_def)
qed

text \<open>C9. A packet for a destination with a usable path leaves once, on the interface of the best path, and the next hop reads
  from the frame the packet that was packed: same destination, type, context, hop count and ciphertext, addressed to the next hop of the
  path when it goes into transport. Its hash is the one that the receipt made on sending waits for.\<close>

theorem outbound_reaches_next_hop:
  assumes packed: "pack (c_sha c) enc p0 = (Inr (), p)" "canonical p0" "p_header_type p0 = HEADER_1" "p_ciphertext p = Some data" "data \<noteq> []"
    and path: "path_routable p" "outbound_dest p = Some h" "select_path_for s now h = Some (k, e)" "pe_receiving_interface e = Some name"
      "length (pe_next_hop e) = DST_LEN"
    and out: "outbound c rid now p s = (sent, p', s', es)"
  shows "\<exists>raw r d. dispatches es = [(name, raw)] \<and> sent \<and> p_sent p'
    \<and> unpack (c_sha c) (new_packet None raw pt cx tt ht ti ai cr cf) = (True, r)
    \<and> p_destination p0 = Some d \<and> p_destination_hash r = Some (d_hash d) \<and> p_context r = p_context p0 \<and> p_hops r = p_hops p0
    \<and> p_data r = data \<and> p_packet_type r = p_flags p AND 3
    \<and> p_transport_id r = (if pe_hops e > 1 \<and> pe_next_hop e \<noteq> h \<or> pe_hops e = 1 \<and> ts_is_connected_to_shared_instance s
                           then Some (pe_next_hop e) else None)
    \<and> (should_generate_receipt p \<and> p_receipt p = None \<longrightarrow>
        (\<exists>rc. p_receipt p' = Some rc \<and> p_packet_hash r = Some (r_hash rc) \<and> rc \<in> set (ts_receipts s')))"
proof -
  obtain d where d: "p_destination p0 = Some d" "packed_plain (c_sha c) p (d_hash d) data"
    using pack_leaves_plain [OF packed] by blast
  have pq: "p_context p = p_context p0 \<and> p_hops p = p_hops p0"
    using packed(1) by (auto simp: pack_def pack_header_def Let_def update_hash_def split: option.splits sum.splits prod.splits if_splits)
  have hash: "p_packet_hash p = Some (get_hash (c_sha c) p)" using d(2) by (simp add: packed_plain_def)
  show ?thesis
    using outbound_on_best_path [OF path(1-4) out] d pq hash
      path_frame_reads_back [OF d(2) path(5), of "ts_is_connected_to_shared_instance s" h pt cx tt ht ti ai cr cf]
    by auto
qed

definition demo_send :: packet where
  "demo_send = new_packet (Some sample_destination) [1, 2, 3] DATA CTX_NONE BROADCAST HEADER_1 None None True 0"

definition demo_sent :: packet where
  "demo_sent = demo_send\<lparr>p_destination_hash := Some (replicate 16 7), p_ciphertext := Some [1, 2, 3],
     p_raw := [0, 0] @ replicate 16 7 @ [0, 1, 2, 3], p_packed := True, p_packet_hash := Some (0 # replicate 16 7 @ [0, 1, 2, 3])\<rparr>"

definition demo_path :: path_entry where
  "demo_path = (sample_route 2 90)\<lparr>pe_next_hop := replicate 16 9, pe_receiving_interface := Some ''up'', pe_expires := 1000\<rparr>"

definition demo_state :: transport_state where
  "demo_state = fresh_state\<lparr>ts_interfaces := [sample_iface\<lparr>if_name := ''up''\<rparr>],
     ts_path_table := (\<lambda>_. None)(replicate 16 7 \<mapsto> [demo_path])\<rparr>"

theorem outbound_reaches_next_hop_witness:
  "\<exists>raw r rc. dispatches (snd (snd (snd (outbound (toy_crypto\<lparr>c_sha := (\<lambda>x. x)\<rparr>) 1 100 demo_sent demo_state)))) = [(''up'', raw)]
    \<and> unpack (\<lambda>x. x) (new_packet None raw DATA CTX_NONE BROADCAST HEADER_1 None None False 0) = (True, r)
    \<and> p_transport_id r = Some (replicate 16 9) \<and> p_data r = [1, 2, 3]
    \<and> p_receipt (fst (snd (outbound (toy_crypto\<lparr>c_sha := (\<lambda>x. x)\<rparr>) 1 100 demo_sent demo_state))) = Some rc
    \<and> p_packet_hash r = Some (r_hash rc)"
proof -
  let ?c = "toy_crypto\<lparr>c_sha := (\<lambda>x. x)\<rparr>"
  have packed: "pack (c_sha ?c) (\<lambda>d x. Inr (x, None)) demo_send = (Inr (), demo_sent)"
    by (simp add: demo_send_def demo_sent_def sample_destination_def new_packet_def pack_def pack_header_def sent_in_clear_def
        get_packed_flags_def flag_byte_def Let_def update_hash_def get_hash_def full_hash_def get_hashable_part_def)
  have p: "canonical demo_send" "p_header_type demo_send = HEADER_1" "p_ciphertext demo_sent = Some [1, 2, 3]" "[1, 2, 3::u8] \<noteq> []"
    by (simp_all add: canonical_def wf_header_def demo_send_def demo_sent_def new_packet_def sample_destination_def Let_def get_packed_flags_def)
  have r: "path_routable demo_sent" "outbound_dest demo_sent = Some (replicate 16 7)"
    "should_generate_receipt demo_sent" "p_receipt demo_sent = None"
    by (simp_all add: path_routable_def outbound_dest_def demo_sent_def demo_send_def new_packet_def sample_destination_def should_generate_receipt_def)
  have s: "select_path_for demo_state 100 (replicate 16 7) = Some (0, demo_path)" "pe_receiving_interface demo_path = Some ''up''"
    "length (pe_next_hop demo_path) = DST_LEN"
    by (simp_all add: select_path_for_def select_path_def select_path_excluding_def demo_state_def demo_path_def is_expired_def
        route_online_def find_interface_def sample_route_def sample_iface_def)
  obtain sent p' s' es where out: "outbound ?c 1 100 demo_sent demo_state = (sent, p', s', es)" by (metis prod_cases4)
  show ?thesis
    using outbound_reaches_next_hop [OF packed p r(1,2) s out, of DATA CTX_NONE BROADCAST HEADER_1 None None False 0] out r(3,4)
    by (auto simp: demo_path_def sample_route_def)
qed

section \<open>Every interface\<close>

lemma admit_announce_keeps: "if_name (snd (admit_announce d h em raw t i)) = if_name i \<and> if_online (snd (admit_announce d h em raw t i)) = if_online i
    \<and> if_own_announce_queue (snd (admit_announce d h em raw t i)) = if_own_announce_queue i"
  by (simp add: admit_announce_def split: option.split)

lemma admit_own_announce_keeps: "if_name (snd (admit_own_announce d raw t i)) = if_name i \<and> if_online (snd (admit_own_announce d raw t i)) = if_online i"
  by (simp add: admit_own_announce_def)

lemma announce_allowed_keeps: "if_name (snd (announce_allowed t bi p i)) = if_name i \<and> if_online (snd (announce_allowed t bi p i)) = if_online i
    \<and> if_own_announce_queue (snd (announce_allowed t bi p i)) = if_own_announce_queue i"
  by (simp add: announce_allowed_def admit_announce_keeps split: option.split)

lemma broadcast_on_keeps: "if_name (snd (broadcast_on t bi p i)) = if_name i \<and> if_online (snd (broadcast_on t bi p i)) = if_online i"
proof -
  obtain b j where a: "(if untargeted_announce p then announce_allowed t bi p i else (True, i)) = (b, j)" by fastforce
  have j: "if_name j = if_name i \<and> if_online j = if_online i"
    using announce_allowed_keeps [of t bi p i] a by (cases "untargeted_announce p") auto
  have "if_name k = if_name i \<and> if_online k = if_online i" if "admit_own_announce d (p_raw p) t j = (r, k)" for d r k
    using admit_own_announce_keeps [of d "p_raw p" t j] that j by simp
  then show ?thesis using j
    by (auto simp: broadcast_on_def a split: bool.split option.split prod.split own_announce.split)
qed

text \<open>What has to hold for a packet to be transmitted on an interface.\<close>

lemma broadcast_on_Transmitted:
  assumes "fst (broadcast_on t bi p i) = Transmitted"
  shows "open_interface p i \<and> may_transmit bi p i \<and> (untargeted_announce p \<longrightarrow> fst (announce_allowed t bi p i))"
proof -
  obtain b j where a: "announce_allowed t bi p i = (b, j)" by fastforce
  show ?thesis using assms by (auto simp: broadcast_on_def a split: bool.splits option.splits prod.splits if_splits)
qed

lemma broadcast_packet_state:
  assumes "broadcast_packet t p s = (tx, queued, p', s')"
  shows "ts_interfaces s' = map (\<lambda>i. snd (broadcast_on t (broadcast_info_of t p s) p i)) (ts_interfaces s)"
    "ts_local_client_interfaces s' = ts_local_client_interfaces s"
    "tx = map (\<lambda>n. (n, p_raw p)) (broadcast_names Transmitted t (broadcast_info_of t p s) p (ts_interfaces s))"
    "queued = broadcast_names QueuedOwn t (broadcast_info_of t p s) p (ts_interfaces s)"
    "own_announce_dest p = Some d \<Longrightarrow> ts_announce_sent_at s' = fold (\<lambda>n m. m((d, n) \<mapsto> t))
       (broadcast_names Transmitted t (broadcast_info_of t p s) p (ts_interfaces s)
        @ broadcast_names QueuedOwn t (broadcast_info_of t p s) p (ts_interfaces s)) (ts_announce_sent_at s)"
  using assms by (auto simp: broadcast_packet_def Let_def split: option.splits)

lemma outbound_broadcast:
  assumes "outbound_paths now p s = []" "outbound c rid now p s = (sent, p', s', es)"
  obtains tx queued q s1 where "broadcast_packet now p s = (tx, queued, q, s1)"
    "finish_outbound c rid now tx queued q s1 = (sent, p', s', es)"
  using assms by (auto simp: outbound_def split: prod.splits)

text \<open>C10. A packet without a path goes out unchanged, and only where it may: on interfaces that are registered and online; a packet
  of a link only on the interface of the link; a packet bound to an interface only there; an announce never back where it came from, and one
  that is not bound to an interface neither to local clients, which get it directly, nor on an access point. Whether it was sent is
  whether something left or was queued.\<close>

theorem broadcast_rules:
  assumes "outbound_paths now p s = []" "outbound c rid now p s = (sent, p', s', es)" "Dispatch name raw \<in> set es"
  shows "raw = p_raw p \<and> sent
    \<and> (\<exists>i\<in>set (ts_interfaces s). if_name i = name \<and> if_online i \<and> (if_out i \<or> p_packet_type p = ANNOUNCE)
         \<and> (untargeted_announce p \<longrightarrow> if_mode i \<noteq> MODE_ACCESS_POINT))
    \<and> (\<forall>attached is_closed. link_outbound_info p = Some (attached, is_closed) \<longrightarrow>
         \<not> is_closed \<and> (attached = None \<or> attached = Some name))
    \<and> (p_attached_interface p = None \<or> p_attached_interface p = Some name)
    \<and> (p_packet_type p = ANNOUNCE \<longrightarrow> p_receiving_interface p \<noteq> Some name)
    \<and> (untargeted_announce p \<longrightarrow> name \<notin> if_name ` set (ts_local_client_interfaces s))"
proof -
  obtain tx queued q s1 where b: "broadcast_packet now p s = (tx, queued, q, s1)"
    and f: "finish_outbound c rid now tx queued q s1 = (sent, p', s', es)" using outbound_broadcast [OF assms(1,2)] .
  let ?bi = "broadcast_info_of now p s"
  have d: "(name, raw) \<in> set tx" "sent"
    using finish_outbound_dispatches(1,2) [OF f] assms(3) unfolding in_dispatches by (auto, metis empty_iff empty_set)
  then obtain i where i: "i \<in> set (ts_interfaces s)" "if_name i = name" "raw = p_raw p"
    "fst (broadcast_on now ?bi p i) = Transmitted"
    unfolding broadcast_packet_state(3) [OF b] broadcast_names_def by auto
  have o: "open_interface p i" "may_transmit ?bi p i" "untargeted_announce p \<longrightarrow> fst (announce_allowed now ?bi p i)"
    using broadcast_on_Transmitted [OF i(4)] by auto
  have "untargeted_announce p \<longrightarrow> if_mode i \<noteq> MODE_ACCESS_POINT" using o(3) by (auto simp: announce_allowed_def)
  moreover have "bi_link ?bi = link_outbound_info p" "bi_local_clients ?bi = map if_name (ts_local_client_interfaces s)"
    by (simp_all add: broadcast_info_of_def Let_def)
  ultimately show ?thesis using i o(1,2) d(2)
    by (auto simp: open_interface_def may_transmit_def split: option.splits)
qed

definition demo_announce :: packet where
  "demo_announce = sample_packet\<lparr>p_destination_hash := Some (replicate 16 7), p_ciphertext := Some [1, 2, 3],
     p_raw := sample_frame, p_packed := True, p_packet_hash := Some (1 # drop 2 sample_frame)\<rparr>"

lemma demo_announce_fields:
  "p_packet_type demo_announce = ANNOUNCE" "p_attached_interface demo_announce = None" "p_receiving_interface demo_announce = None"
  "p_hops demo_announce = 0" "p_context demo_announce = CTX_NONE" "p_destination_hash demo_announce = Some (replicate 16 7)"
  "p_destination_type demo_announce = Some Single" "p_raw demo_announce = sample_frame" "p_create_receipt demo_announce = False"
  "p_packet_hash demo_announce = Some (1 # drop 2 sample_frame)"
  by (simp_all add: demo_announce_def sample_packet_def new_packet_def sample_destination_def)

lemma demo_announce_paths: "outbound_paths now demo_announce s = []"
  by (simp add: outbound_paths_def path_routable_def demo_announce_fields)

lemma demo_announce_out:
  "outbound c 1 100 demo_announce demo_state = (sent, p', s', es) \<Longrightarrow> Dispatch ''up'' sample_frame \<in> set es"
  by (auto simp: outbound_def demo_announce_paths broadcast_packet_def broadcast_names_def broadcast_on_def open_interface_def
      may_transmit_def announce_allowed_def own_announce_dest_def admit_own_announce_def untargeted_announce_def link_outbound_info_def
      broadcast_info_of_def announce_wire_fields_def get_range_def sample_frame_def demo_announce_fields demo_state_def sample_iface_def
      fresh_state_def finish_outbound_def transmission_online_def find_interface_def should_generate_receipt_def Let_def
      split: if_splits)

theorem broadcast_rules_witness:
  "\<exists>sent p' s' es. outbound toy_crypto 1 100 demo_announce demo_state = (sent, p', s', es) \<and> Dispatch ''up'' sample_frame \<in> set es
    \<and> sent \<and> p_receiving_interface demo_announce \<noteq> Some ''up''"
proof -
  obtain sent p' s' es where out: "outbound toy_crypto 1 100 demo_announce demo_state = (sent, p', s', es)" by (metis prod_cases4)
  show ?thesis
    using out demo_announce_out [OF out] broadcast_rules [OF demo_announce_paths out demo_announce_out [OF out]] by (auto simp: demo_announce_fields)
qed

lemma find_interface_map:
  assumes "\<And>i. if_name (f i) = if_name i"
  shows "find_interface (map f ifs) name = map_option f (find_interface ifs name)"
  by (induction ifs) (simp_all add: find_interface_def assms)

lemma find_interface_distinct:
  "distinct (map if_name ifs) \<Longrightarrow> i \<in> set ifs \<Longrightarrow> find_interface ifs (if_name i) = Some i"
  by (induction ifs) (auto simp: find_interface_def)

lemma fold_upd_in: "n \<in> set ns \<Longrightarrow> fold (\<lambda>n m. m((d, n) \<mapsto> t)) ns m (d, n) = Some t"
proof (induction ns rule: rev_induct)
  case (snoc x xs)
  then show ?case by auto
qed simp

lemma admit_own_announce_cases:
  "fst (admit_own_announce d raw t i) = Sent \<or>
   fst (admit_own_announce d raw t i) = Queued \<and> (d, raw) \<in> set (if_own_announce_queue (snd (admit_own_announce d raw t i)))"
proof -
  have "(d, raw) \<in> set (update_first (\<lambda>e. fst e = d) (\<lambda>e. (fst e, raw)) q)" if "\<exists>e\<in>set q. fst e = d" for q
    using that by (induction q) auto
  then show ?thesis by (auto simp: admit_own_announce_def)
qed

text \<open>C22. An announce of one's own destination is not lost on any interface that it may go out on: it is on its way, or it waits in
  the queue of the interface with its latest form, and in both cases the period until the next automatic announce has started
  and the sender is told that it was sent.\<close>

theorem own_announce_not_lost:
  assumes own: "own_announce_dest p = Some d" and out: "outbound c rid now p s = (sent, p', s', es)"
    and i: "i \<in> set (ts_interfaces s)" "distinct (map if_name (ts_interfaces s))" "if_online i"
    and may: "may_transmit (broadcast_info_of now p s) p i"
    and mode: "untargeted_announce p \<Longrightarrow> if_mode i \<notin> {MODE_ACCESS_POINT, MODE_ROAMING, MODE_BOUNDARY}
      \<or> if_mode i \<noteq> MODE_ACCESS_POINT \<and> bi_is_local_destination (broadcast_info_of now p s)"
  shows "sent \<and> ts_announce_sent_at s' (d, if_name i) = Some now
    \<and> (Dispatch (if_name i) (p_raw p) \<in> set es
       \<or> (\<exists>j\<in>set (ts_interfaces s'). if_name j = if_name i \<and> (d, p_raw p) \<in> set (if_own_announce_queue j)))"
proof -
  let ?bi = "broadcast_info_of now p s"
  let ?b = "broadcast_on now ?bi p"
  have an: "p_packet_type p = ANNOUNCE" "p_hops p = 0" using own by (auto simp: own_announce_dest_def split: if_splits)
  then have np: "outbound_paths now p s = []" by (simp add: outbound_paths_def path_routable_def)
  obtain tx queued q s1 where b: "broadcast_packet now p s = (tx, queued, q, s1)"
    and f: "finish_outbound c rid now tx queued q s1 = (sent, p', s', es)" using outbound_broadcast [OF np out] .
  note st = broadcast_packet_state [OF b]
  have s': "ts_interfaces s' = ts_interfaces s1 \<and> ts_announce_sent_at s' = ts_announce_sent_at s1"
    using f by (auto simp: finish_outbound_def Let_def split: if_splits)
  have al: "(if untargeted_announce p then announce_allowed now ?bi p i else (True, i)) = (True, i)"
    using mode an(2) by (auto simp: announce_allowed_def)
  have "?b i = (case admit_own_announce d (p_raw p) now i of (Queued, i) \<Rightarrow> (QueuedOwn, i) | (Sent, i) \<Rightarrow> (Transmitted, i))"
    using i(3) may an(1) al own by (simp add: broadcast_on_def open_interface_def del: if_split)
  then have cases: "fst (?b i) = Transmitted \<or> fst (?b i) = QueuedOwn \<and> (d, p_raw p) \<in> set (if_own_announce_queue (snd (?b i)))"
    using admit_own_announce_cases [of d "p_raw p" now i] by (auto split: prod.splits own_announce.splits)
  have "find_interface (ts_interfaces s1) (if_name i) = Some (snd (?b i))"
    unfolding st(1) using find_interface_map [of "\<lambda>i. snd (?b i)"] find_interface_distinct [OF i(2,1)] broadcast_on_keeps by simp
  then have on: "transmission_online s1 (if_name i)" using broadcast_on_keeps i(3) by (simp add: transmission_online_def)
  have j: "snd (?b i) \<in> set (ts_interfaces s')" "if_name (snd (?b i)) = if_name i"
    using s' st(1) i(1) broadcast_on_keeps by auto
  have "if_name i \<in> set (broadcast_names Transmitted now ?bi p (ts_interfaces s) @ broadcast_names QueuedOwn now ?bi p (ts_interfaces s))"
    using cases i(1) by (auto simp: broadcast_names_def)
  then have at: "ts_announce_sent_at s' (d, if_name i) = Some now"
    using s' st(5) [OF own] fold_upd_in by metis
  show ?thesis
  proof (cases "fst (?b i) = Transmitted")
    case True
    then have "(if_name i, p_raw p) \<in> set tx" unfolding st(3) using i(1) by (auto simp: broadcast_names_def)
    then have "(if_name i, p_raw p) \<in> set (dispatches es)" using finish_outbound_dispatches(1) [OF f] on by simp
    then show ?thesis using at finish_outbound_dispatches(2) [OF f] in_dispatches by (metis empty_iff empty_set)
  next
    case False
    then have "queued \<noteq> []" unfolding st(4) using cases i(1) by (auto simp: broadcast_names_def filter_empty_conv)
    then show ?thesis using at finish_outbound_dispatches(2) [OF f] cases False j by blast
  qed
qed

theorem own_announce_not_lost_witness:
  "ts_announce_sent_at (fst (snd (snd (outbound toy_crypto 1 100 demo_announce demo_state)))) (replicate 16 7, ''up'') = Some 100"
proof -
  obtain sent p' s' es where out: "outbound toy_crypto 1 100 demo_announce demo_state = (sent, p', s', es)" by (metis prod_cases4)
  have own: "own_announce_dest demo_announce = Some (replicate 16 7)" by (simp add: own_announce_dest_def demo_announce_fields)
  have i: "sample_iface\<lparr>if_name := ''up''\<rparr> \<in> set (ts_interfaces demo_state)" "distinct (map if_name (ts_interfaces demo_state))"
    "if_online (sample_iface\<lparr>if_name := ''up''\<rparr>)" by (simp_all add: demo_state_def sample_iface_def)
  have may: "may_transmit (broadcast_info_of 100 demo_announce demo_state) demo_announce (sample_iface\<lparr>if_name := ''up''\<rparr>)"
    by (simp add: may_transmit_def broadcast_info_of_def link_outbound_info_def demo_announce_fields demo_state_def fresh_state_def Let_def)
  show ?thesis using own_announce_not_lost [OF own out i may] out by (simp add: sample_iface_def)
qed

end
