(* ===== verification/Jobs_Correct.thy ===== *)
theory Jobs_Correct
  imports Jobs Outbound_Correct
begin

text \<open>
  The node as a whole: the routing tables under any interleaving of its operations, receipts that all conclude, announces that are
  repeated twice, and the path request that goes out where it should not.
\<close>

section \<open>The routing tables under every operation\<close>

lemma transport_inv_routing: "transport_inv s \<Longrightarrow> routing_of t = routing_of s \<Longrightarrow> transport_inv t"
  using transport_inv_cong by blast

lemma transport_inv_shorten: "transport_inv s \<Longrightarrow> transport_inv (shorten_expiry t h e s)"
proof -
  assume inv: "transport_inv s"
  have k: "map route_key (update_first P (\<lambda>f. f\<lparr>pe_expires := x\<rparr>) es) = map route_key es" for P x es
    by (rule map_update_first) (simp add: route_key_def)
  have "transport_inv (s\<lparr>ts_path_table := (ts_path_table s)(h \<mapsto> update_first P (\<lambda>f. f\<lparr>pe_expires := x\<rparr>) es), ts_path_table_dirty := True\<rparr>)"
    if "ts_path_table s h = Some es" for P x es
    by (rule transport_inv_routing [OF transport_inv_retimed [OF inv that k]]) (simp add: routing_of_def)
  then show ?thesis using inv by (auto simp: shorten_expiry_def Let_def split: option.split)
qed

lemma transport_inv_send_on_paths:
  "transport_inv s \<Longrightarrow> transport_inv (snd (snd (send_on_paths now p h es s)))"
  by (induction es arbitrary: s) (auto simp: Let_def split_def transport_inv_shorten)

lemma routing_request_path: "routing_of (fst (request_path now h t a b s)) = routing_of s"
  by (simp add: request_path_def routing_of_def)

lemma routing_request_stale_paths: "routing_of (fst (request_stale_paths now h ifs s)) = routing_of s"
  by (induction ifs arbitrary: s) (simp_all add: split_def routing_request_path)

lemma routing_broadcast: "routing_of (snd (snd (snd (broadcast_packet now p s)))) = routing_of s"
  by (simp add: broadcast_packet_def Let_def routing_of_def split: option.split)

lemma routing_finish_outbound: "routing_of (fst (snd (snd (finish_outbound c rid now tx q p s)))) = routing_of s"
  by (simp add: finish_outbound_def Let_def routing_of_def)

lemma transport_inv_outbound:
  assumes "transport_inv s" shows "transport_inv (fst (snd (snd (outbound c rid now p s))))"
proof (cases "\<exists>path paths h. outbound_paths now p s = path # paths \<and> outbound_dest p = Some h")
  case True
  then obtain path paths h where a: "outbound_paths now p s = path # paths" "outbound_dest p = Some h" by blast
  let ?r = "send_on_paths now p h (path # paths) s"
  let ?q = "request_stale_paths now h (fst (snd ?r)) (snd (snd ?r))"
  have "fst (snd (snd (outbound c rid now p s))) = fst (snd (snd (finish_outbound c rid now (fst ?r) [] (mark_packet_sent now p) (fst ?q))))"
    using a by (simp add: outbound_def split_def)
  moreover have "transport_inv (snd (snd ?r))" by (rule transport_inv_send_on_paths [OF assms])
  ultimately show ?thesis
    using transport_inv_routing [of "snd (snd ?r)"] by (simp add: routing_finish_outbound routing_request_stale_paths)
next
  case False
  let ?b = "broadcast_packet now p s"
  have "fst (snd (snd (outbound c rid now p s))) =
      fst (snd (snd (finish_outbound c rid now (fst ?b) (fst (snd ?b)) (fst (snd (snd ?b))) (snd (snd (snd ?b))))))"
    using False by (auto simp: outbound_def split_def split: list.split option.split)
  then show ?thesis using transport_inv_routing [OF assms] by (simp add: routing_finish_outbound routing_broadcast)
qed

lemma transport_inv_unresponsive: "transport_inv s \<Longrightarrow> transport_inv (snd (mark_path_unresponsive h b s))"
  using path_inv_unresponsive [of s h b]
  by (auto simp: transport_inv_def mark_path_unresponsive_def Let_def split: option.splits)

lemma transport_inv_expire: "transport_inv s \<Longrightarrow> transport_inv (snd (expire_path h s))"
  using path_inv_expire [of s h] by (auto simp: transport_inv_def expire_path_def Let_def)

lemma transport_inv_cull: "transport_inv s \<Longrightarrow> transport_inv (cull_path_table now s)"
  using path_inv_cull [of s now] by (auto simp: transport_inv_def cull_path_table_def Let_def)

definition job_inv :: "job_state \<Rightarrow> bool" where
  "job_inv j \<longleftrightarrow> transport_inv (js_transport j)"

lemma job_inv_routing: "job_inv j \<Longrightarrow> routing_of (js_transport k) = routing_of (js_transport j) \<Longrightarrow> job_inv k"
  unfolding job_inv_def by (rule transport_inv_routing)

text \<open>The jobs that leave the routing tables alone.\<close>

lemma routing_jobs:
  "routing_of (js_transport (fst (receipts_job now j))) = routing_of (js_transport j)"
  "routing_of (js_transport (fst (announces_job E j))) = routing_of (js_transport j)"
  "routing_of (js_transport (fst (local_announces_job now j))) = routing_of (js_transport j)"
  "routing_of (js_transport (fst (queued_announces_job now j))) = routing_of (js_transport j)"
  "routing_of (js_transport (fst (own_announces_job now j))) = routing_of (js_transport j)"
  "routing_of (js_transport (pending_prs_job now j)) = routing_of (js_transport j)"
  "routing_of (js_transport (fst (cache_job now j))) = routing_of (js_transport j)"
  "routing_of (js_transport (fst (save_paths_job now j))) = routing_of (js_transport j)"
  "routing_of (js_transport (interfaces_job now j)) = routing_of (js_transport j)"
  "routing_of (js_transport (fst (mgmt_job E j))) = routing_of (js_transport j)"
  "routing_of (js_transport (blackhole_job now j)) = routing_of (js_transport j)"
  "routing_of (rotate_hashlist s) = routing_of s"
  "routing_of (rotate_pr_tags s) = routing_of s"
  by (simp_all add: receipts_job_def announces_job_def local_announces_job_def queued_announces_job_def own_announces_job_def
      pending_prs_job_def cache_job_def save_paths_job_def interfaces_job_def mgmt_job_def blackhole_job_def rotate_hashlist_def
      rotate_pr_tags_def routing_of_def Let_def split_def)

lemma routing_published_sweep: "routing_of (js_transport (fst (published_sweep E j))) = routing_of (js_transport j)"
  by (simp add: published_sweep_def mark_announced_def routing_of_def Let_def split: option.split prod.split sum.split)

lemma transport_inv_retire_link:
  "transport_inv (js_transport (fst jr)) \<Longrightarrow> transport_inv (js_transport (fst (retire_link now l jr)))"
  by (auto simp: retire_link_def Let_def split_def transport_inv_retimed split: option.split list.split)

lemma job_inv_check_links: "job_inv j \<Longrightarrow> job_inv (fst (check_links now j))"
proof -
  assume inv: "job_inv j"
  have "transport_inv (js_transport (fst (fold (retire_link now) ls jr)))" if "transport_inv (js_transport (fst jr))" for ls jr
    using that by (induction ls arbitrary: jr) (simp_all add: transport_inv_retire_link)
  from this [of "(j, [])"] show ?thesis using inv by (simp add: check_links_def job_inv_def split_def)
qed

lemma transport_inv_rediscover: "transport_inv (fst sr) \<Longrightarrow> transport_inv (fst (fold rediscover tasks sr))"
  by (induction tasks arbitrary: sr)
    (auto simp: rediscover_def Let_def split_def transport_inv_unresponsive transport_inv_expire)

lemma transport_inv_tunnels:
  assumes "transport_inv s" and "\<And>h t. m h = Some t \<Longrightarrow> \<exists>t'. ts_tunnels s h = Some t' \<and> dom (tt_paths t) \<subseteq> dom (tt_paths t')"
  shows "transport_inv (s\<lparr>ts_tunnels := m\<rparr>)"
  using assms unfolding transport_inv_def path_inv_def by (fastforce simp: dom_def subset_iff)

lemma tunnels_rediscover: "ts_tunnels (fst (fold rediscover tasks sr)) = ts_tunnels (fst sr)"
  by (induction tasks arbitrary: sr)
    (simp_all add: rediscover_def Let_def split_def mark_path_unresponsive_def expire_path_def split: option.split)

lemma job_inv_tables: "job_inv (fst jr) \<Longrightarrow> job_inv (fst (tables_job E jr))"
proof -
  assume inv: "job_inv (fst jr)"
  obtain j rs where jr: "jr = (j, rs)" by (cases jr)
  let ?now = "e_now (je_env E)"
  let ?s = "js_transport j"
  let ?tasks = "concat (map (\<lambda>k. case Option.bind (ts_link_table ?s k) (rediscovery ?now ?s) of None \<Rightarrow> [] | Some t \<Rightarrow> [t])
                    (je_link_order E (ts_link_table ?s)))"
  let ?c = "cull_path_table ?now (fst (fold rediscover ?tasks (?s, rs)))"
  have c: "transport_inv ?c" using inv jr by (simp add: job_inv_def transport_inv_cull transport_inv_rediscover)
  have t: "ts_tunnels ?c = ts_tunnels ?s" by (simp add: cull_path_table_def Let_def tunnels_rediscover)
  have "\<exists>t'. ts_tunnels ?c h = Some t' \<and> dom (tt_paths x) \<subseteq> dom (tt_paths t')"
    if "Option.bind (ts_tunnels ?s h) (cull_tunnel ?now ?s) = Some x" for h x
    using that unfolding t by (cases "ts_tunnels ?s h") (auto simp: cull_tunnel_def dom_def split: if_splits option.splits)
  from transport_inv_tunnels [OF c this]
  have inv2: "transport_inv (?c\<lparr>ts_tunnels := (\<lambda>h. Option.bind (ts_tunnels ?s h) (cull_tunnel ?now ?s))\<rparr>)" .
  show ?thesis
  proof (cases "?now > js_tables_last_culled j + 5")
    case True
    then have "routing_of (js_transport (fst (tables_job E jr))) =
        routing_of (?c\<lparr>ts_tunnels := (\<lambda>h. Option.bind (ts_tunnels ?s h) (cull_tunnel ?now ?s))\<rparr>)"
      by (simp add: jr tables_job_def Let_def split_def routing_of_def)
    then show ?thesis using inv2 transport_inv_routing unfolding job_inv_def by blast
  qed (use inv jr in \<open>simp add: tables_job_def Let_def\<close>)
qed

lemma transport_inv_outbound_all: "transport_inv s \<Longrightarrow> transport_inv (fst (outbound_all c now ps s))"
proof -
  have "transport_inv (fst (fold (\<lambda>p (s, es). case outbound c 0 now p s of (_, _, s, es') \<Rightarrow> (s, es @ es')) ps se))"
    if "transport_inv (fst se)" for se
    using that by (induction ps arbitrary: se) (simp_all add: split_def transport_inv_outbound)
  from this [of "(s, [])"] show "transport_inv s \<Longrightarrow> transport_inv (fst (outbound_all c now ps s))" by (simp add: outbound_all_def)
qed

lemma routing_request_all: "routing_of (fst (request_all now rs s)) = routing_of s"
proof -
  have "routing_of (fst (fold (\<lambda>(h, blocked) (s, es). case request_path now h None blocked None s of (s, es') \<Rightarrow> (s, es @ es')) rs se)) = routing_of (fst se)" for se
    by (induction rs arbitrary: se) (simp_all add: split_def routing_request_path)
  from this [of "(s, [])"] show ?thesis by (simp add: request_all_def)
qed

text \<open>A pass in stages: before the tables are culled, until the packets go out, and to the end.\<close>

definition jobs_before :: "job_env \<Rightarrow> job_state \<Rightarrow> job_state" where
  "jobs_before E j =
     (let now = e_now (je_env E);
          j = fst (check_links now j);
          j = fst (receipts_job now j);
          j = fst (announces_job E j);
          j = fst (local_announces_job now j);
          j = fst (queued_announces_job now j);
          j = fst (own_announces_job now j);
          j = fst (published_sweep E j);
          j = j\<lparr>js_transport := rotate_hashlist (js_transport j)\<rparr>;
          j = pending_prs_job now j;
          j = j\<lparr>js_transport := rotate_pr_tags (js_transport j)\<rparr>;
          j = fst (cache_job now j)
      in fst (save_paths_job now j))"

definition jobs_culled :: "job_env \<Rightarrow> job_state \<Rightarrow> job_state" where
  "jobs_culled E j =
     (let now = e_now (je_env E)
      in blackhole_job now (fst (mgmt_job E (interfaces_job now
           (fst (tables_job E (jobs_before E j, snd (check_links now j))))))))"

lemma jobs_stages:
  "\<exists>ps rs. js_transport (fst (jobs E j)) =
     fst (request_all (e_now (je_env E)) rs
       (fst (outbound_all (e_crypto (je_env E)) (e_now (je_env E)) ps (js_transport (jobs_culled E j)))))"
  by (simp add: jobs_def jobs_culled_def jobs_before_def Let_def split_def) blast

lemma job_inv_before: "job_inv j \<Longrightarrow> job_inv (jobs_before E j)"
  by (rule job_inv_routing [OF job_inv_check_links]) (simp_all add: jobs_before_def Let_def routing_jobs routing_published_sweep)

lemma job_inv_jobs: "job_inv j \<Longrightarrow> job_inv (fst (jobs E j))"
proof -
  assume "job_inv j"
  then have "job_inv (fst (tables_job E (jobs_before E j, snd (check_links (e_now (je_env E)) j))))"
    by (intro job_inv_tables) (simp add: job_inv_before)
  then have "job_inv (jobs_culled E j)"
    by (rule job_inv_routing) (simp add: jobs_culled_def Let_def routing_jobs)
  then show ?thesis
    using jobs_stages [of E j] transport_inv_outbound_all transport_inv_routing [OF _ routing_request_all]
    unfolding job_inv_def by metis
qed

lemma routing_interface_ops:
  "routing_of (js_transport (register_interface_stub_config i j)) = routing_of (js_transport j)"
  "routing_of (js_transport (fst (register_auto_interface_peer ks i j))) = routing_of (js_transport j)"
  "routing_of (js_transport (fst (deregister_interface_stub n j))) = routing_of (js_transport j)"
  "routing_of (js_transport (fst (deregister_auto_interface_peer n j))) = routing_of (js_transport j)"
  "routing_of (js_transport (fst (set_interface_online n b j))) = routing_of (js_transport j)"
  by (simp_all add: register_interface_stub_config_def register_auto_interface_peer_def deregister_interface_stub_def
      deregister_auto_interface_peer_def remove_interface_stub_def set_interface_online_def routing_of_def Let_def)

section \<open>The whole node\<close>

datatype node_event =
    NodeInbound nat env bytes "string option"
  | NodeOutbound crypto nat real packet
  | NodeJobs job_env
  | NodeRegister interface_stub
  | NodeRegisterPeer "(bytes \<times> string) list" interface_stub
  | NodeDeregister string
  | NodeDeregisterPeer string
  | NodeOnline string bool

fun node_step :: "node_event \<Rightarrow> job_state \<Rightarrow> job_state" where
  "node_step (NodeInbound n E raw iface) j = j\<lparr>js_transport := fst (snd (inbound n E raw iface (js_transport j)))\<rparr>"
| "node_step (NodeOutbound c rid now p) j = j\<lparr>js_transport := fst (snd (snd (outbound c rid now p (js_transport j))))\<rparr>"
| "node_step (NodeJobs E) j = fst (jobs E j)"
| "node_step (NodeRegister i) j = register_interface_stub_config i j"
| "node_step (NodeRegisterPeer ks i) j = fst (register_auto_interface_peer ks i j)"
| "node_step (NodeDeregister n) j = fst (deregister_interface_stub n j)"
| "node_step (NodeDeregisterPeer n) j = fst (deregister_auto_interface_peer n j)"
| "node_step (NodeOnline n b) j = fst (set_interface_online n b j)"

fun event_ok :: "node_event \<Rightarrow> bool" where
  "event_ok (NodeInbound n E raw iface) = tunnel_order_ok E"
| "event_ok _ = True"

lemma job_inv_node_step:
  assumes "job_inv j" "event_ok ev" shows "job_inv (node_step ev j)"
proof (cases ev)
  case (NodeInbound n E raw iface)
  then show ?thesis
    using assms transport_inv_inbound [of "js_transport j" E n raw iface]
    by (cases "inbound n E raw iface (js_transport j)") (simp add: job_inv_def)
next
  case (NodeOutbound c rid now p)
  then show ?thesis using assms transport_inv_outbound by (simp add: job_inv_def)
next
  case (NodeJobs E)
  then show ?thesis using assms job_inv_jobs by simp
qed (use job_inv_routing [OF assms(1)] routing_interface_ops in simp_all)

text \<open>C8. The routing tables of a node stay sound whatever it does: after any interleaving of frames received, packets sent, passes of the
  periodic jobs, and interfaces that come, go and change state, every destination has at least one and at most three routes, no two
  through the same interface and next hop, the emission memory is bounded and belongs to known routes, and neither the path table nor a
  tunnel has a route to one of the node's own destinations.\<close>

theorem node_invariant:
  assumes "transport_inv (js_transport j)" and "\<forall>ev\<in>set evs. event_ok ev"
  shows "transport_inv (js_transport (fold node_step evs j))"
  using assms
proof (induction evs arbitrary: j)
  case (Cons ev evs)
  then show ?case using job_inv_node_step [of j ev] by (simp add: job_inv_def)
qed simp

definition fresh_jobs :: job_state where
  "fresh_jobs = \<lparr> js_transport = fresh_state, js_pending_links = [], js_active_links = [], js_links_last_checked = 0,
     js_receipts_last_checked = 0, js_announces_last_checked = 0, js_pending_prs_last_checked = 0, js_cache_last_cleaned = 0,
     js_path_table_last_saved = 0, js_tables_last_culled = 0, js_interface_last_jobs = 0, js_blackhole_last_checked = 0,
     js_last_mgmt_announce = 0, js_mgmt_destinations = [], js_client_announce_last_sent = (\<lambda>_. None),
     js_up_edge_pending_interfaces = {}, js_published_last_checked = 0, js_published_last_announced_at = 0 \<rparr>"

definition demo_jobs_env :: job_env where
  "demo_jobs_env = \<lparr> je_env = sample_env, je_announce_order = (\<lambda>_. []), je_link_order = (\<lambda>_. []),
     je_announce_data = (\<lambda>d a. Inr ([1], False)), je_encrypt = (\<lambda>d x. Inr (x, None)) \<rparr>"

theorem node_invariant_witness:
  "transport_inv (js_transport (fold node_step [NodeRegister sample_iface, NodeOutbound toy_crypto 1 100 demo_announce,
     NodeInbound 0 sample_env sample_frame (Some ''eth''), NodeJobs demo_jobs_env, NodeDeregister ''eth''] fresh_jobs))"
  by (rule node_invariant) (simp_all add: fresh_jobs_def transport_inv_fresh tunnel_order_ok_def sample_env_def)

section \<open>Receipts\<close>

lemma nth_in_take_drop: "k < length xs \<Longrightarrow> if k < m then xs ! k \<in> set (take m xs) else xs ! k \<in> set (drop m xs)"
  by (auto simp: in_set_conv_nth) (metis add_diff_inverse_nat diff_less_mono linorder_not_less)

text \<open>C23. The receipts a node tracks stay within their limit, and none leaves the list unconcluded: after a check every receipt
  that was in the list is still in it, or has been delivered, has timed out or was culled; one that timed out or was culled in this check has had
  its timeout callback run, and one whose time has not come is only culled when the list was over the limit.\<close>

theorem receipts_concluded:
  assumes "check_receipts now rs = (kept, after, runs)" and "\<forall>r\<in>set rs. r_sent_at r \<le> now"
  shows "length kept \<le> MAX_RECEIPTS \<and> length after = length rs
    \<and> (\<forall>k<length rs. after ! k \<in> set kept \<or> r_status (after ! k) \<noteq> SENT)
    \<and> (\<forall>k<length rs. r_status (rs ! k) = SENT \<and> r_status (after ! k) \<noteq> SENT \<longrightarrow>
         set (callbacks RunTimeout (r_timeout_callback (rs ! k))) \<subseteq> set runs \<and>
         (r_status (after ! k) = FAILED \<and> r_sent_at (rs ! k) + r_timeout (rs ! k) < now
          \<or> r_status (after ! k) = CULLED \<and> (k + MAX_RECEIPTS < length rs \<or> r_timeout (rs ! k) = -1)))"
proof -
  let ?ex = "length rs - MAX_RECEIPTS"
  let ?cull = "\<lambda>r. check_timeout now (set_timeout (-1) r)"
  let ?f = "\<lambda>k r. if k < ?ex then ?cull r else check_timeout now r"
  have split: "kept = filter provable (map (\<lambda>r. fst (check_timeout now r)) (drop ?ex rs))"
    "after = map (\<lambda>r. fst (?cull r)) (take ?ex rs) @ map (\<lambda>r. fst (check_timeout now r)) (drop ?ex rs)"
    "runs = concat (map (\<lambda>r. snd (?cull r)) (take ?ex rs)) @ concat (map (\<lambda>r. snd (check_timeout now r)) (drop ?ex rs))"
    using assms(1) by (auto simp: check_receipts_def Let_def comp_def)
  have len: "length kept \<le> MAX_RECEIPTS" "length after = length rs"
    unfolding split using length_filter_le [of provable "map (\<lambda>r. fst (check_timeout now r)) (drop ?ex rs)"] by auto
  have nth: "after ! k = fst (?f k (rs ! k))" "set (snd (?f k (rs ! k))) \<subseteq> set runs" if "k < length rs" for k
  proof -
    show "after ! k = fst (?f k (rs ! k))" using that unfolding split by (auto simp: nth_append)
    show "set (snd (?f k (rs ! k))) \<subseteq> set runs"
      using nth_in_take_drop [OF that, of ?ex] unfolding split by (cases "k < ?ex") auto
  qed
  have a: "after ! k \<in> set kept \<or> r_status (after ! k) \<noteq> SENT" if k: "k < length rs" for k
  proof (cases "k < ?ex")
    case True
    moreover have "r_sent_at (rs ! k) \<le> now" using assms(2) k by simp
    ultimately show ?thesis using nth(1) [OF k] by (simp add: check_timeout_def set_timeout_def)
  next
    case False
    then have "after ! k \<in> set (map (\<lambda>r. fst (check_timeout now r)) (drop ?ex rs))"
      using nth(1) [OF k] nth_in_take_drop [OF k, of ?ex] by simp
    then show ?thesis unfolding split(1) by (auto simp: provable_def)
  qed
  have b: "set (callbacks RunTimeout (r_timeout_callback (rs ! k))) \<subseteq> set runs \<and>
         (r_status (after ! k) = FAILED \<and> r_sent_at (rs ! k) + r_timeout (rs ! k) < now
          \<or> r_status (after ! k) = CULLED \<and> (k + MAX_RECEIPTS < length rs \<or> r_timeout (rs ! k) = -1))"
    if k: "k < length rs" and s: "r_status (rs ! k) = SENT" "r_status (after ! k) \<noteq> SENT" for k
    using s nth [OF k] by (cases "k < ?ex") (auto simp: check_timeout_def set_timeout_def split: if_splits)
  show ?thesis using len a b by blast
qed

theorem receipts_concluded_witness:
  "check_receipts 100 [from_parts 1 50 [1] [1] default_destination 10, from_parts 2 95 [2] [2] default_destination 10] =
     ([(from_parts 1 50 [1] [1] default_destination 10)\<lparr>r_status := FAILED, r_concluded_at := Some 100\<rparr>,
       from_parts 2 95 [2] [2] default_destination 10],
      [(from_parts 1 50 [1] [1] default_destination 10)\<lparr>r_status := FAILED, r_concluded_at := Some 100\<rparr>,
       from_parts 2 95 [2] [2] default_destination 10], [])
   \<and> length [(from_parts 1 50 [1] [1] default_destination 10)\<lparr>r_status := FAILED, r_concluded_at := Some 100\<rparr>,
       from_parts 2 95 [2] [2] default_destination 10] \<le> MAX_RECEIPTS"
proof -
  have c: "check_receipts 100 [from_parts 1 50 [1] [1] default_destination 10, from_parts 2 95 [2] [2] default_destination 10] =
     ([(from_parts 1 50 [1] [1] default_destination 10)\<lparr>r_status := FAILED, r_concluded_at := Some 100\<rparr>,
       from_parts 2 95 [2] [2] default_destination 10],
      [(from_parts 1 50 [1] [1] default_destination 10)\<lparr>r_status := FAILED, r_concluded_at := Some 100\<rparr>,
       from_parts 2 95 [2] [2] default_destination 10], [])"
    by (simp add: check_receipts_def check_timeout_def from_parts_def provable_def callbacks_def Let_def)
  show ?thesis using c receipts_concluded [OF c] by (simp add: from_parts_def)
qed

section \<open>Announces are repeated twice\<close>

text \<open>An entry of the announce table over the times of the passes: when it was sent, and what became of it.\<close>

fun announce_run :: "real list \<Rightarrow> announce_entry \<Rightarrow> real list \<times> announce_entry option" where
  "announce_run [] e = ([], Some e)"
| "announce_run (t # ts) e =
     (case next_announce_entry t e of
        None \<Rightarrow> ([], None)
      | Some e' \<Rightarrow> (case announce_run ts e' of (sent, r) \<Rightarrow> (if announce_due t e then t # sent else sent, r)))"

lemma retries_step: "at_retries e \<le> 1 \<Longrightarrow> unat (at_retries (retransmitted t e)) = unat (at_retries e) + 1"
  by (auto simp: retransmitted_def word_le_nat_alt unat_word_ariths)

lemma announce_run_retries:
  assumes "announce_run ts e = (sent, r)" "at_retries e \<le> 2"
  shows "length sent + unat (at_retries e) \<le> 2 \<and> (\<forall>t\<in>set sent. t > at_retransmit_timeout e)
    \<and> (\<forall>i. Suc i < length sent \<longrightarrow> sent ! Suc i > sent ! i + PATHFINDER_G + PATHFINDER_RW)
    \<and> (\<forall>e'. r = Some e' \<longrightarrow> at_retries e' \<le> 2 \<and> unat (at_retries e') = unat (at_retries e) + length sent)"
  using assms
proof (induction ts arbitrary: e sent r)
  case Nil
  then show ?case by (auto simp: word_le_nat_alt)
next
  case (Cons t ts)
  show ?case
  proof (cases "announce_due t e")
    case False
    then show ?thesis
      using Cons.prems Cons.IH [of e] by (auto simp: next_announce_entry_def word_le_nat_alt split: if_splits prod.splits)
  next
    case True
    then have r: "at_retries e \<le> 1" "t > at_retransmit_timeout e" "next_announce_entry t e = Some (retransmitted t e)"
      by (auto simp: announce_due_def announce_done_def next_announce_entry_def not_less)
    obtain sent' where s: "announce_run ts (retransmitted t e) = (sent', r)" "sent = t # sent'"
      using Cons.prems(1) r(3) True by (auto split: prod.splits)
    have n: "unat (at_retries (retransmitted t e)) = unat (at_retries e) + 1" by (rule retries_step [OF r(1)])
    moreover have "at_retries (retransmitted t e) \<le> 2" using n r(1) by (simp add: word_le_nat_alt)
    ultimately have ih: "length sent' + unat (at_retries e) + 1 \<le> 2" "\<forall>x\<in>set sent'. x > t + PATHFINDER_G + PATHFINDER_RW"
      "\<forall>i. Suc i < length sent' \<longrightarrow> sent' ! Suc i > sent' ! i + PATHFINDER_G + PATHFINDER_RW"
      "\<forall>e'. r = Some e' \<longrightarrow> at_retries e' \<le> 2 \<and> unat (at_retries e') = unat (at_retries e) + 1 + length sent'"
      using Cons.IH [OF s(1)] by (simp_all add: retransmitted_def)
    have "sent ! Suc i > sent ! i + PATHFINDER_G + PATHFINDER_RW" if "Suc i < length sent" for i
      using that ih(2,3) s(2) by (cases i) auto
    then show ?thesis using ih(1,2,4) s(2) r(2) by auto
  qed
qed

lemma announce_run_append:
  "announce_run (ts @ us) e =
     (case announce_run ts e of
        (sent, None) \<Rightarrow> (sent, None)
      | (sent, Some e') \<Rightarrow> (case announce_run us e' of (sent', r) \<Rightarrow> (sent @ sent', r)))"
  by (induction ts arbitrary: e) (auto split: prod.splits option.splits)

text \<open>C24. An announce that a node relays is repeated at most twice, the second time at least five and a half seconds after the first, and
  then forgotten: whatever the times of the passes, and when it has been sent twice the next pass removes it.\<close>

theorem announce_repeats_end:
  assumes "announce_run ts e = (sent, r)" "at_retries e = 0"
  shows "length sent \<le> 2
    \<and> (\<forall>i. Suc i < length sent \<longrightarrow> sent ! Suc i > sent ! i + PATHFINDER_G + PATHFINDER_RW)
    \<and> (length sent = 2 \<longrightarrow> snd (announce_run (ts @ [t]) e) = None)"
proof -
  note a = announce_run_retries [OF assms(1)]
  have "snd (announce_run (ts @ [t]) e) = None" if l: "length sent = 2"
  proof (cases r)
    case (Some e')
    then have "unat (at_retries e') = 2" using a assms(2) l by simp
    then have "next_announce_entry t e' = None" by (simp add: next_announce_entry_def announce_done_def word_less_nat_alt)
    then show ?thesis using assms(1) Some by (simp add: announce_run_append)
  qed (simp add: announce_run_append assms(1))
  then show ?thesis using a assms(2) by simp
qed

definition demo_entry :: announce_entry where
  "demo_entry = \<lparr> at_timestamp = 0, at_retransmit_timeout = 1, at_retries = 0, at_received_from = [], at_hops = 1,
     at_packet = demo_announce, at_local_rebroadcasts = 0, at_block_rebroadcasts = False, at_attached_interface = None \<rparr>"

theorem announce_repeats_end_witness:
  "fst (announce_run [2, 3, 9] demo_entry) = [2, 9] \<and> snd (announce_run ([2, 3, 9] @ [10]) demo_entry) = None"
proof -
  have run: "announce_run [2, 3, 9] demo_entry = ([2, 9], Some (retransmitted 9 (retransmitted 2 demo_entry)))"
    by (simp add: next_announce_entry_def announce_due_def announce_done_def retransmitted_def demo_entry_def)
  have "at_retries demo_entry = 0" by (simp add: demo_entry_def)
  then show ?thesis using run announce_repeats_end [OF run, of 10] by simp
qed

section \<open>Looking for a path again\<close>

lemma attached_only:
  assumes "p_packet_type p = DATA" "p_destination_type p = Some Plain" "p_attached_interface p = Some n"
    and "outbound c rid now p s = (sent, p', s', es)" "effect.Dispatch name raw \<in> set es"
  shows "name = n"
proof -
  have "outbound_paths now p s = []" using assms(2) by (simp add: outbound_paths_def path_routable_def)
  then obtain tx queued q s1 where b: "broadcast_packet now p s = (tx, queued, q, s1)"
    and f: "finish_outbound c rid now tx queued q s1 = (sent, p', s', es)" using outbound_broadcast assms(4) by metis
  then have "(name, raw) \<in> set tx" using finish_outbound_dispatches(1) [OF f] assms(5) unfolding in_dispatches by auto
  then obtain i where "if_name i = name" "fst (broadcast_on now (broadcast_info_of now p s) p i) = Transmitted"
    unfolding broadcast_packet_state(3) [OF b] broadcast_names_def by auto
  then show ?thesis using broadcast_on_Transmitted assms(3) by (fastforce simp: may_transmit_def)
qed

text \<open>C40. When the proof of a link in transit does not come and the initiator is one hop away, the pass means to look for another path, leaving
  out the interface the request came from. The path request it makes is bound to that very interface, and a path request packet bound to an
  interface goes out on no other.\<close>

theorem rediscovery_on_blocked_interface:
  assumes j: "e_now (je_env E) > js_tables_last_culled j + 5" "je_link_order E (ts_link_table (js_transport j)) = [k]"
    and e: "ts_link_table (js_transport j) k = Some e" "\<not> lt_validated e" "e_now (je_env E) > lt_proof_timeout e" "lt_destination_hash e = h" "h \<noteq> []"
      "lt_taken_hops e = 1" "lt_received_interface e = Some blocked"
    and path: "ts_path_table (js_transport j) h \<noteq> None" "e_now (je_env E) - last_path_request (js_transport j) h \<ge> PATH_REQUEST_MI"
  shows "snd (tables_job E (j, [])) = [(h, Some blocked)]
    \<and> snd (request_all now (snd (tables_job E (j, []))) s) = [SendPathRequest h None (Some blocked)]
    \<and> (\<forall>d s tag sent p' s' es name raw. d_dest_type d = Plain \<and>
         outbound c rid now (path_request_packet (je_env E) (Some d) s h tag (Some blocked)) s = (sent, p', s', es)
         \<and> effect.Dispatch name raw \<in> set es \<longrightarrow> name = blocked)"
proof -
  let ?now = "e_now (je_env E)"
  have "\<exists>mark expire. rediscovery ?now (js_transport j) e = Some (h, Some blocked, mark, expire)"
    using e path by (simp add: rediscovery_def Let_def)
  then have t: "snd (tables_job E (j, [])) = [(h, Some blocked)]"
    using j e(1) by (auto simp: tables_job_def Let_def split_def rediscover_def)
  have "name = blocked" if "d_dest_type d = Plain"
    "outbound c rid now (path_request_packet (je_env E) (Some d) s h tag (Some blocked)) s = (sent, p', s', es)" "effect.Dispatch name raw \<in> set es"
    for d s tag sent p' s' es name raw
    using that(1) by (intro attached_only [OF _ _ _ that(2,3)]) (simp_all add: path_request_packet_def new_packet_def)
  then show ?thesis using t by (auto simp: request_all_def request_path_def)
qed

definition demo_link_entry :: link_entry where
  "demo_link_entry = \<lparr> lt_timestamp = 0, lt_next_hop_transport = [], lt_next_hop_interface = None, lt_remaining_hops = 3,
     lt_received_interface = Some ''radio'', lt_taken_hops = 1, lt_destination_hash = replicate 16 7, lt_validated = False, lt_proof_timeout = 50 \<rparr>"

theorem rediscovery_on_blocked_interface_witness:
  "snd (tables_job (demo_jobs_env\<lparr>je_link_order := (\<lambda>_. [[1]])\<rparr>)
     (fresh_jobs\<lparr>js_transport := demo_state\<lparr>ts_link_table := [[1] \<mapsto> demo_link_entry]\<rparr>\<rparr>, [])) = [(replicate 16 7, Some ''radio'')]"
  using rediscovery_on_blocked_interface [of "fresh_jobs\<lparr>js_transport := demo_state\<lparr>ts_link_table := [[1] \<mapsto> demo_link_entry]\<rparr>\<rparr>"
      "demo_jobs_env\<lparr>je_link_order := (\<lambda>_. [[1]])\<rparr>" "[1]" demo_link_entry "replicate 16 7" "''radio''"]
  by (simp add: fresh_jobs_def demo_jobs_env_def sample_env_def demo_link_entry_def demo_state_def fresh_state_def last_path_request_def)

end
