(* ===== verification/Destination.thy ===== *)
theory Destination
  imports Link
begin

text \<open>
  \<^verbatim>\<open>src/destination.rs\<close>: the destinations of this node. The first part is the state: \<open>local_destination\<close> is the struct
  \<^verbatim>\<open>Destination\<close>, and \<open>dest_store\<close> what lies outside of it (the cells that all clones of a destination share, the files, the
  ratchets of peers). Then the ratchet file with its signature, construction, settings and request handlers, rotation and
  reloading of ratchets, announces, keys of group destinations, encryption and decryption for the four types of destination,
  and the reception of packets and link requests.
\<close>

section \<open>State\<close>

abbreviation (input) PROVE_NONE :: u8 where "PROVE_NONE \<equiv> 0x21"
abbreviation (input) PROVE_APP :: u8 where "PROVE_APP \<equiv> 0x22"
abbreviation (input) PROVE_ALL :: u8 where "PROVE_ALL \<equiv> 0x23"
abbreviation (input) PR_TAG_WINDOW :: u64 where "PR_TAG_WINDOW \<equiv> 30"

datatype direction = IN | OUT

record shared_ratchet_state =
  sr_ratchets :: "bytes list option"
  sr_latest_ratchet_time :: nat
  sr_generation :: nat

text \<open>
  \<^verbatim>\<open>Destination\<close>, with the fields of \<open>destination\<close> first. Two of its fields are shared by all clones: they hold the
  address of a cell of the store.
\<close>

record local_destination = destination +
  ld_hexhash :: string
  ld_name_hash :: bytes
  ld_direction :: direction
  ld_name :: string
  ld_mtu :: nat
  ld_accept_link_requests :: bool
  ld_ratchets :: "bytes list option"
  ld_latest_ratchet_time :: nat
  ld_ratchet_interval :: nat
  ld_retained_ratchets :: nat
  ld_path_responses :: "bytes \<rightharpoonup> u64 \<times> bytes"
  ld_default_app_data :: "bytes option"
  ld_ratchets_path :: "string option"
  ld_ratchets_mirror_path :: "string option"
  ld_ratchets_frozen :: bool
  ld_ratchet_shared :: nat
  ld_ratchet_generation :: nat
  ld_enforce_ratchets :: bool
  ld_cb_packet :: bool
  ld_cb_link_established :: bool
  ld_cb_proof_requested :: bool
  ld_request_handlers :: "(bytes \<times> request_handler) list"
  ld_max_request_size :: "nat option"
  ld_links :: "link list"
  ld_prv_bytes :: "bytes option"
  ld_token :: nat

text \<open>The store: the shared cells, the files, and the ratchets remembered of peers.\<close>

record dest_store =
  ds_next :: nat
  ds_cells :: "nat \<Rightarrow> shared_ratchet_state"
  ds_tokens :: "nat \<Rightarrow> token option"
  ds_files :: "string \<rightharpoonup> bytes"
  ds_known_ratchets :: known_ratchets

text \<open>The values of MessagePack that the ratchet files are made of.\<close>

datatype mp_value =
    MpInteger int
  | MpString string
  | MpBinary bytes
  | MpArray "mp_value list"
  | MpMap "(mp_value \<times> mp_value) list"

text \<open>
  The environment of one operation: what a link needs (with the cryptography, the signing, the clock and the vectors),
  MessagePack, the outcome of file operations (what the first and the second reading of a file give, given its content), the
  files of the peers' ratchets, the links in the runtime registry and their encryption, the outcome of sending, the answer of
  the application to the question whether to prove, and the random bytes drawn.
\<close>

record dest_env =
  de_link :: link_env
  de_write_mp :: "mp_value \<Rightarrow> bytes"
  de_read_mp :: "bytes \<Rightarrow> mp_value option"
  de_read :: "nat \<Rightarrow> bytes option \<Rightarrow> bytes option"
  de_write_ok :: "string \<Rightarrow> bool"
  de_partial :: "bytes option"
  de_rename_ok :: "string \<Rightarrow> bool"
  de_peer_files :: "bytes \<rightharpoonup> ratchet_entry"
  de_shared_instance :: bool
  de_runtime_links :: "bytes list"
  de_link_encrypt :: "bytes \<Rightarrow> bytes \<Rightarrow> error + bytes"
  de_link_decrypt :: "bytes \<Rightarrow> bytes \<Rightarrow> error + bytes"
  de_send :: "packet \<Rightarrow> error + unit"
  de_proof_requested :: "packet \<Rightarrow> bool"
  de_ratchet_prv :: bytes
  de_random :: bytes
  de_eph_prv :: bytes
  de_placeholder :: bytes

datatype dest_effect =
    SendPacket packet
  | SpawnPacketCallback bytes packet
  | OfLink link_effect
  | AskProof packet
  | ProvePacket packet

abbreviation (input) de_crypto :: "dest_env \<Rightarrow> crypto" where "de_crypto E \<equiv> le_crypto (de_link E)"
abbreviation (input) de_now :: "dest_env \<Rightarrow> nat" where "de_now E \<equiv> current_time (de_link E)"

section \<open>The ratchet file\<close>

definition pack_ratchets :: "dest_env \<Rightarrow> bytes list \<Rightarrow> bytes" where
  "pack_ratchets E ratchets = de_write_mp E (MpArray (map MpBinary ratchets))"

text \<open>A ratchet is a binary or, in files of earlier versions, an array of integers below 256.\<close>

fun ratchet_byte :: "mp_value \<Rightarrow> u8 option" where
  "ratchet_byte (MpInteger n) = (if 0 \<le> n \<and> n \<le> 255 then Some (of_int n) else None)"
| "ratchet_byte _ = None"

fun ratchet_item :: "mp_value \<Rightarrow> bytes option" where
  "ratchet_item (MpBinary b) = Some b"
| "ratchet_item (MpArray ints) = those (map ratchet_byte ints)"
| "ratchet_item _ = None"

definition unpack_ratchets :: "dest_env \<Rightarrow> bytes \<Rightarrow> error + bytes list" where
  "unpack_ratchets E packed =
     (case de_read_mp E packed of
        None \<Rightarrow> Inl (Err ''Failed to deserialize ratchet keys'')
      | Some (MpArray items) \<Rightarrow>
          (case those (map ratchet_item items) of
             None \<Rightarrow> Inl (Err ''Ratchet key is neither bin nor a byte array'')
           | Some rs \<Rightarrow> Inr rs)
      | Some _ \<Rightarrow> Inl (Err ''Ratchet keys are not an array''))"

definition pack_ratchet_file :: "dest_env \<Rightarrow> bytes \<Rightarrow> bytes \<Rightarrow> bytes" where
  "pack_ratchet_file E signature packed_ratchets =
     de_write_mp E (MpMap [(MpString ''signature'', MpBinary signature), (MpString ''ratchets'', MpBinary packed_ratchets)])"

text \<open>\<^verbatim>\<open>as_slice\<close> takes binaries and strings.\<close>

fun mp_as_slice :: "mp_value \<Rightarrow> bytes option" where
  "mp_as_slice (MpBinary b) = Some b"
| "mp_as_slice (MpString s) = Some (string_bytes s)"
| "mp_as_slice _ = None"

definition mp_field :: "(mp_value \<times> mp_value) list \<Rightarrow> string \<Rightarrow> bytes option" where
  "mp_field m name = Option.bind (List.find (\<lambda>(k, _). k = MpString name) m) (\<lambda>(_, v). mp_as_slice v)"

definition unpack_ratchet_file :: "dest_env \<Rightarrow> bytes \<Rightarrow> error + bytes \<times> bytes" where
  "unpack_ratchet_file E file_data =
     (case de_read_mp E file_data of
        None \<Rightarrow> Inl (Err ''Failed to deserialize ratchet file'')
      | Some (MpMap m) \<Rightarrow>
          (case mp_field m ''signature'' of
             None \<Rightarrow> Inl (Err ''Missing signature in ratchet file'')
           | Some signature \<Rightarrow>
             (case mp_field m ''ratchets'' of
                None \<Rightarrow> Inl (Err ''Missing ratchets in ratchet file'')
              | Some packed \<Rightarrow> Inr (signature, packed)))
      | Some _ \<Rightarrow> Inl (Err ''Ratchet file is not a map''))"

text \<open>Written beside the file, then renamed over it. A failed write may leave something in the temporary file.\<close>

definition write_ratchet_file_atomically ::
  "dest_env \<Rightarrow> string \<Rightarrow> bytes \<Rightarrow> (string \<rightharpoonup> bytes) \<Rightarrow> (error + unit) \<times> (string \<rightharpoonup> bytes)"
where
  "write_ratchet_file_atomically E path data files =
     (let tmp_path = path @ ''.tmp'' in
      if \<not> de_write_ok E tmp_path then (Inl (Err ''Failed to write ratchet file''), files(tmp_path := de_partial E))
      else
        let files = files(tmp_path \<mapsto> data) in
        if \<not> de_rename_ok E path then (Inl (Err ''Failed to rename ratchet file''), files)
        else (Inr (), (files(tmp_path := None))(path \<mapsto> data)))"

definition persist_ratchets :: "dest_env \<Rightarrow> local_destination \<Rightarrow> dest_store \<Rightarrow> (error + unit) \<times> dest_store" where
  "persist_ratchets E d st =
     (if ld_ratchets_frozen d then (Inl (Err ''Ratchets are frozen (read-only); not persisting''), st)
      else case ld_ratchets_path d of
        None \<Rightarrow> (Inl (Err ''No ratchets path set''), st)
      | Some path \<Rightarrow>
        (case ld_ratchets d of
           None \<Rightarrow> (Inl (Err ''No ratchets to persist''), st)
         | Some ratchets \<Rightarrow>
           (let packed = pack_ratchets E ratchets in
            case d_identity d of
              None \<Rightarrow> (Inl (Err ''No identity for signing ratchets''), st)
            | Some i \<Rightarrow>
              (case identity_sign (de_link E) i packed of
                 Inl e \<Rightarrow> (Inl e, st)
               | Inr signature \<Rightarrow>
                 (let file_data = pack_ratchet_file E signature packed in
                  case write_ratchet_file_atomically E path file_data (ds_files st) of
                    (Inl e, files) \<Rightarrow> (Inl e, st\<lparr>ds_files := files\<rparr>)
                  | (Inr _, files) \<Rightarrow>
                    (Inr (), st\<lparr>ds_files :=
                       (case ld_ratchets_mirror_path d of
                          None \<Rightarrow> files
                        | Some mirror \<Rightarrow> snd (write_ratchet_file_atomically E mirror file_data files))\<rparr>))))))"

text \<open>One attempt at the file: \<open>k\<close> counts the readings.\<close>

definition load_attempt :: "dest_env \<Rightarrow> nat \<Rightarrow> bytes option \<Rightarrow> identity \<Rightarrow> error + bytes list" where
  "load_attempt E k content i =
     (case de_read E k content of
        None \<Rightarrow> Inl (Err ''Failed to read ratchet file'')
      | Some file_data \<Rightarrow>
        (case unpack_ratchet_file E file_data of
           Inl e \<Rightarrow> Inl e
         | Inr (signature, packed) \<Rightarrow>
           if \<not> validate (de_crypto E) i signature packed then Inl (Err ''Invalid ratchet file signature'')
           else unpack_ratchets E packed))"

definition reload_ratchets ::
  "dest_env \<Rightarrow> string \<Rightarrow> local_destination \<Rightarrow> dest_store \<Rightarrow> (error + unit) \<times> local_destination \<times> dest_store"
where
  "reload_ratchets E path d st =
     (case ds_files st path of
        Some content \<Rightarrow>
          (case d_identity d of
             None \<Rightarrow> (Inl (Err ''No identity for ratchet validation''), d, st)
           | Some i \<Rightarrow>
             (let rs = (case load_attempt E 0 (Some content) i of
                          Inr rs \<Rightarrow> rs
                        | Inl _ \<Rightarrow> (case load_attempt E 1 (Some content) i of Inr rs \<Rightarrow> rs | Inl _ \<Rightarrow> []))
              in (Inr (), d\<lparr>ld_ratchets := Some rs, ld_ratchets_path := Some path\<rparr>, st)))
      | None \<Rightarrow>
          (let d = d\<lparr>ld_ratchets := Some [], ld_ratchets_path := Some path\<rparr> in
           case persist_ratchets E d st of
             (Inl Panic, st) \<Rightarrow> (Inl Panic, d, st)
           | (_, st) \<Rightarrow> (Inr (), d, st)))"

section \<open>Construction\<close>

definition hex_lower :: "nat \<Rightarrow> char" where
  "hex_lower n = ''0123456789abcdef'' ! n"

definition hexrep :: "bytes \<Rightarrow> string" where
  "hexrep data = concat (map (\<lambda>b. [hex_lower (unat b div 16), hex_lower (unat b mod 16)]) data)"

definition default_shared :: shared_ratchet_state where
  "default_shared = \<lparr> sr_ratchets = None, sr_latest_ratchet_time = 0, sr_generation = 0 \<rparr>"

text \<open>The part that \<^verbatim>\<open>new_outbound\<close> and \<^verbatim>\<open>new_inbound\<close> share, from the hash of the identity on.\<close>

definition make_destination ::
  "dest_env \<Rightarrow> direction \<Rightarrow> identity option \<Rightarrow> destination_type \<Rightarrow> string \<Rightarrow> string list \<Rightarrow> dest_store
   \<Rightarrow> (error + local_destination) \<times> dest_store"
where
  "make_destination E dir ident dest_type app_name aspects st =
     (case (if dest_type \<noteq> Plain then map_option Some (Option.bind ident id_hash) else Some None) of
        None \<Rightarrow> (Inl (Err ''Identity hash not available''), st)
      | Some identity_hash \<Rightarrow>
        (case (expand_name (map_option hexrep identity_hash) app_name aspects,
               name_hash_of (de_crypto E) app_name aspects,
               destination_hash_of (de_crypto E) identity_hash app_name aspects) of
           (Some name, Some name_hash, Some h) \<Rightarrow>
             (Inr \<lparr> d_hash = h, d_dest_type = dest_type, d_identity = ident, d_latest_ratchet_id = None, d_link = None,
                    d_app_name = app_name, d_aspects = aspects, d_proof_strategy = PROVE_NONE,
                    ld_hexhash = hexrep h, ld_name_hash = name_hash, ld_direction = dir, ld_name = name, ld_mtu = MTU,
                    ld_accept_link_requests = True, ld_ratchets = None, ld_latest_ratchet_time = 0,
                    ld_ratchet_interval = RATCHET_INTERVAL, ld_retained_ratchets = RATCHET_COUNT,
                    ld_path_responses = Map.empty, ld_default_app_data = None, ld_ratchets_path = None,
                    ld_ratchets_mirror_path = None, ld_ratchets_frozen = False, ld_ratchet_shared = ds_next st,
                    ld_ratchet_generation = 0, ld_enforce_ratchets = False, ld_cb_packet = False,
                    ld_cb_link_established = False, ld_cb_proof_requested = False, ld_request_handlers = [],
                    ld_max_request_size = None, ld_links = [], ld_prv_bytes = None, ld_token = ds_next st \<rparr>,
              st\<lparr>ds_next := Suc (ds_next st), ds_cells := (ds_cells st)(ds_next st := default_shared),
                 ds_tokens := (ds_tokens st)(ds_next st := None)\<rparr>)
         | _ \<Rightarrow> (Inl Panic, st)))"

definition dest_new_outbound ::
  "dest_env \<Rightarrow> identity option \<Rightarrow> destination_type \<Rightarrow> string \<Rightarrow> string list \<Rightarrow> dest_store
   \<Rightarrow> (error + local_destination) \<times> dest_store"
where
  "dest_new_outbound E ident dest_type app_name aspects st =
     (if CHR ''.'' \<in> set app_name then (Inl (Err ''Dots can't be used in app names''), st)
      else if dest_type \<noteq> Plain \<and> ident = None
      then (Inl (Err ''Can't create outbound SINGLE/GROUP/LINK destination without an identity''), st)
      else if dest_type = Plain \<and> ident \<noteq> None
      then (Inl (Err ''Selected destination type PLAIN cannot hold an identity''), st)
      else make_destination E OUT ident dest_type app_name aspects st)"

text \<open>\<open>keys\<close> are the random keys of the identity that is minted when none is given.\<close>

definition dest_new_inbound ::
  "dest_env \<Rightarrow> bytes \<times> bytes \<Rightarrow> identity option \<Rightarrow> destination_type \<Rightarrow> string \<Rightarrow> string list \<Rightarrow> dest_store
   \<Rightarrow> (error + local_destination) \<times> dest_store"
where
  "dest_new_inbound E keys ident dest_type app_name aspects st =
     (if CHR ''.'' \<in> set app_name then (Inl (Err ''Dots can't be used in app names''), st)
      else
        let (ident, aspects) =
          (if dest_type \<noteq> Plain \<and> ident = None then
             (let minted = new_identity (de_crypto E) (Some keys)
              in (Some minted, aspects @ (case id_hash minted of None \<Rightarrow> [] | Some h \<Rightarrow> [hexrep h])))
           else (ident, aspects))
        in if dest_type = Plain \<and> ident \<noteq> None
           then (Inl (Err ''Selected destination type PLAIN cannot hold an identity''), st)
           else make_destination E IN ident dest_type app_name aspects st)"

text \<open>The recalled key as it is, then with its halves swapped. \<open>None\<close> in place of a result is a panic of the constructor.\<close>

definition swap_halves :: "bytes \<Rightarrow> bytes" where
  "swap_halves k = (if length k = 64 then drop 32 k @ take 32 k else k)"

fun try_candidates ::
  "dest_env \<Rightarrow> bytes \<Rightarrow> string \<Rightarrow> string list \<Rightarrow> bytes list \<Rightarrow> dest_store \<Rightarrow> (error + local_destination) \<times> dest_store"
where
  "try_candidates E dest_hash app_name aspects [] st =
     (Inl (Err ''Recalled public key did not match destination hash''), st)"
| "try_candidates E dest_hash app_name aspects (k # ks) st =
     (case from_public_key (de_crypto E) k of
        Inl Panic \<Rightarrow> (Inl Panic, st)
      | Inl (Err _) \<Rightarrow> try_candidates E dest_hash app_name aspects ks st
      | Inr i \<Rightarrow>
        (case dest_new_outbound E (Some i) Single app_name aspects st of
           (Inl Panic, st) \<Rightarrow> (Inl Panic, st)
         | (Inl (Err _), st) \<Rightarrow> try_candidates E dest_hash app_name aspects ks st
         | (Inr d, st) \<Rightarrow>
             if d_hash d = dest_hash then (Inr d, st) else try_candidates E dest_hash app_name aspects ks st))"

definition from_destination_hash ::
  "dest_env \<Rightarrow> known_map \<Rightarrow> bytes \<Rightarrow> string \<Rightarrow> string list \<Rightarrow> dest_store \<Rightarrow> (error + local_destination) \<times> dest_store"
where
  "from_destination_hash E known dest_hash app_name aspects st =
     (case recall_public_key known dest_hash of
        None \<Rightarrow> (Inl (Err ''Destination public key not found in known destinations''), st)
      | Some k \<Rightarrow> try_candidates E dest_hash app_name aspects [k, swap_halves k] st)"

section \<open>Settings and request handlers\<close>

definition set_accept_links :: "bool \<Rightarrow> local_destination \<Rightarrow> local_destination" where
  "set_accept_links b d = d\<lparr>ld_accept_link_requests := b\<rparr>"

definition set_proof_strategy :: "u8 \<Rightarrow> local_destination \<Rightarrow> (error + unit) \<times> local_destination" where
  "set_proof_strategy strategy d =
     (if strategy = PROVE_NONE \<or> strategy = PROVE_APP \<or> strategy = PROVE_ALL
      then (Inr (), d\<lparr>d_proof_strategy := strategy\<rparr>)
      else (Inl (Err ''Invalid proof strategy''), d))"

definition dest_set_packet_callback :: "bool \<Rightarrow> local_destination \<Rightarrow> local_destination" where
  "dest_set_packet_callback callback d = d\<lparr>ld_cb_packet := callback\<rparr>"

definition set_link_established_callback :: "bool \<Rightarrow> local_destination \<Rightarrow> local_destination" where
  "set_link_established_callback callback d = d\<lparr>ld_cb_link_established := callback\<rparr>"

definition set_proof_requested_callback :: "bool \<Rightarrow> local_destination \<Rightarrow> local_destination" where
  "set_proof_requested_callback callback d = d\<lparr>ld_cb_proof_requested := callback\<rparr>"

definition allow_policy_ok :: "u8 \<Rightarrow> bool" where
  "allow_policy_ok allow \<longleftrightarrow> allow = ALLOW_NONE \<or> allow = ALLOW_ALL \<or> allow = ALLOW_LIST"

definition put_handler :: "bytes \<Rightarrow> request_handler \<Rightarrow> (bytes \<times> request_handler) list \<Rightarrow> (bytes \<times> request_handler) list" where
  "put_handler k h hs = (k, h) # filter (\<lambda>(k', _). k' \<noteq> k) hs"

definition register_request_handler ::
  "crypto \<Rightarrow> string \<Rightarrow> bool \<Rightarrow> u8 \<Rightarrow> bytes list option \<Rightarrow> bool \<Rightarrow> local_destination
   \<Rightarrow> (error + unit) \<times> local_destination"
where
  "register_request_handler c path callback allow allowed_list auto_compress d =
     (if \<not> allow_policy_ok allow then (Inl (Err ''Invalid allow policy''), d)
      else (Inr (), d\<lparr>ld_request_handlers :=
              put_handler (truncated_hash (c_sha c) (string_bytes path))
                \<lparr> rh_path = path, rh_allow_policy = allow, rh_allowed_list = allowed_list, rh_callback = callback,
                  rh_proven_callback = False, rh_auto_compress = auto_compress \<rparr> (ld_request_handlers d)\<rparr>))"

definition register_proven_request_handler ::
  "crypto \<Rightarrow> string \<Rightarrow> u8 \<Rightarrow> bytes list option \<Rightarrow> bool \<Rightarrow> local_destination \<Rightarrow> (error + unit) \<times> local_destination"
where
  "register_proven_request_handler c path allow allowed_list auto_compress d =
     (if \<not> allow_policy_ok allow then (Inl (Err ''Invalid allow policy''), d)
      else (Inr (), d\<lparr>ld_request_handlers :=
              put_handler (truncated_hash (c_sha c) (string_bytes path))
                \<lparr> rh_path = path, rh_allow_policy = allow, rh_allowed_list = allowed_list, rh_callback = False,
                  rh_proven_callback = True, rh_auto_compress = auto_compress \<rparr> (ld_request_handlers d)\<rparr>))"

definition set_max_request_size :: "nat option \<Rightarrow> local_destination \<Rightarrow> local_destination" where
  "set_max_request_size n d = d\<lparr>ld_max_request_size := n\<rparr>"

definition deregister_request_handler :: "crypto \<Rightarrow> string \<Rightarrow> local_destination \<Rightarrow> bool \<times> local_destination" where
  "deregister_request_handler c path d =
     (let k = truncated_hash (c_sha c) (string_bytes path)
      in (map_of (ld_request_handlers d) k \<noteq> None,
          d\<lparr>ld_request_handlers := filter (\<lambda>(k', _). k' \<noteq> k) (ld_request_handlers d)\<rparr>))"

definition set_default_app_data :: "bytes option \<Rightarrow> local_destination \<Rightarrow> local_destination" where
  "set_default_app_data app_data d = d\<lparr>ld_default_app_data := app_data\<rparr>"

definition clear_default_app_data :: "local_destination \<Rightarrow> local_destination" where
  "clear_default_app_data d = d\<lparr>ld_default_app_data := None\<rparr>"

section \<open>Ratchets\<close>

text \<open>The shared cell is a fresh one; clones made from now on share it.\<close>

definition enable_ratchets ::
  "dest_env \<Rightarrow> string \<Rightarrow> local_destination \<Rightarrow> dest_store \<Rightarrow> (error + unit) \<times> local_destination \<times> dest_store"
where
  "enable_ratchets E path d st =
     (case reload_ratchets E path (d\<lparr>ld_latest_ratchet_time := 0\<rparr>) st of
        (Inl e, d, st) \<Rightarrow> (Inl e, d, st)
      | (Inr _, d, st) \<Rightarrow>
        (let cell = \<lparr> sr_ratchets = ld_ratchets d, sr_latest_ratchet_time = ld_latest_ratchet_time d, sr_generation = 0 \<rparr>
         in (Inr (), d\<lparr>ld_ratchet_generation := 0, ld_ratchet_shared := ds_next st\<rparr>,
             st\<lparr>ds_next := Suc (ds_next st), ds_cells := (ds_cells st)(ds_next st := cell),
                ds_tokens := (ds_tokens st)(ds_next st := None)\<rparr>)))"

definition enforce_ratchets :: "local_destination \<Rightarrow> (error + unit) \<times> local_destination" where
  "enforce_ratchets d =
     (if ld_ratchets d \<noteq> None then (Inr (), d\<lparr>ld_enforce_ratchets := True\<rparr>) else (Inl (Err ''Ratchets not enabled''), d))"

definition set_retained_ratchets :: "nat \<Rightarrow> local_destination \<Rightarrow> (error + unit) \<times> local_destination" where
  "set_retained_ratchets count d =
     (if count > 0 then (Inr (), d\<lparr>ld_retained_ratchets := count\<rparr>) else (Inl (Err ''Retained ratchets must be > 0''), d))"

definition set_ratchet_interval :: "nat \<Rightarrow> local_destination \<Rightarrow> (error + unit) \<times> local_destination" where
  "set_ratchet_interval interval d =
     (if interval > 0 then (Inr (), d\<lparr>ld_ratchet_interval := interval\<rparr>) else (Inl (Err ''Ratchet interval must be > 0''), d))"

definition set_ratchets_mirror_path :: "string option \<Rightarrow> local_destination \<Rightarrow> local_destination" where
  "set_ratchets_mirror_path path d = d\<lparr>ld_ratchets_mirror_path := path\<rparr>"

definition set_ratchets_frozen :: "bool \<Rightarrow> local_destination \<Rightarrow> local_destination" where
  "set_ratchets_frozen b d = d\<lparr>ld_ratchets_frozen := b\<rparr>"

definition adopt_shared_ratchets :: "shared_ratchet_state \<Rightarrow> local_destination \<Rightarrow> local_destination" where
  "adopt_shared_ratchets shared d =
     (if sr_generation shared \<noteq> ld_ratchet_generation d \<and> sr_ratchets shared \<noteq> None
      then d\<lparr>ld_ratchets := sr_ratchets shared, ld_latest_ratchet_time := sr_latest_ratchet_time shared,
             ld_ratchet_generation := sr_generation shared\<rparr>
      else d)"

definition clean_ratchets :: "local_destination \<Rightarrow> local_destination" where
  "clean_ratchets d =
     (case ld_ratchets d of
        None \<Rightarrow> d
      | Some rs \<Rightarrow> if length rs > ld_retained_ratchets d then d\<lparr>ld_ratchets := Some (take (ld_retained_ratchets d) rs)\<rparr> else d)"

text \<open>The sum is that of \<^verbatim>\<open>u64\<close>.\<close>

definition ratchet_due :: "nat \<Rightarrow> nat \<Rightarrow> nat \<Rightarrow> bool" where
  "ratchet_due now latest interval \<longleftrightarrow> now > (latest + interval) mod 2 ^ 64"

text \<open>A failure to persist is ignored; a panic there leaves the shared cell as it was.\<close>

definition rotate_ratchets ::
  "dest_env \<Rightarrow> local_destination \<Rightarrow> dest_store \<Rightarrow> (error + bool) \<times> local_destination \<times> dest_store"
where
  "rotate_ratchets E d st =
     (if ld_ratchets d \<noteq> None \<and> ld_ratchets_frozen d then (Inr False, d, st)
      else if ld_ratchets d = None then (Inl (Err ''Cannot rotate ratchet, ratchets are not enabled''), d, st)
      else
        let shared = ds_cells st (ld_ratchet_shared d); d = adopt_shared_ratchets shared d; now = de_now E in
        if ratchet_due now (ld_latest_ratchet_time d) (ld_ratchet_interval d) then
          (let d = clean_ratchets (d\<lparr>ld_ratchets := map_option (\<lambda>rs. de_ratchet_prv E # rs) (ld_ratchets d),
                                      ld_latest_ratchet_time := now\<rparr>)
           in case persist_ratchets E d st of
                (Inl Panic, st) \<Rightarrow> (Inl Panic, d, st)
              | (_, st) \<Rightarrow>
                (let shared = \<lparr> sr_ratchets = ld_ratchets d, sr_latest_ratchet_time = now,
                                sr_generation = sr_generation shared + 1 \<rparr>
                 in (Inr True, d\<lparr>ld_ratchet_generation := sr_generation shared\<rparr>,
                     st\<lparr>ds_cells := (ds_cells st)(ld_ratchet_shared d := shared)\<rparr>)))
        else (Inr False, d, st))"

section \<open>Announces\<close>

definition ratchet_public_bytes :: "crypto \<Rightarrow> bytes \<Rightarrow> error + bytes" where
  "ratchet_public_bytes c ratchet_prv =
     (if length ratchet_prv \<noteq> 32 then Inl (Err ''Invalid ratchet private key length'') else Inr (c_x_pub c ratchet_prv))"

text \<open>The first half of \<^verbatim>\<open>generate_announce_data\<close>: rotation, and the public key of the newest ratchet.\<close>

definition announce_ratchet ::
  "dest_env \<Rightarrow> local_destination \<Rightarrow> dest_store \<Rightarrow> (error + bytes) \<times> local_destination \<times> dest_store"
where
  "announce_ratchet E d st =
     (if ld_ratchets d = None then (Inr [], d, st)
      else case rotate_ratchets E d st of
        (Inl e, d, st) \<Rightarrow> (Inl e, d, st)
      | (Inr _, d, st) \<Rightarrow>
        (case ld_ratchets d of
           Some (r # _) \<Rightarrow>
             (case ratchet_public_bytes (de_crypto E) r of
                Inl e \<Rightarrow> (Inl e, d, st)
              | Inr pub \<Rightarrow>
                (Inr pub, d, st\<lparr>ds_known_ratchets :=
                   fst (snd (remember_ratchet (de_shared_instance E) (de_now E) (d_hash d) pub (ds_known_ratchets st)))\<rparr>))
         | _ \<Rightarrow> (Inr [], d, st)))"

definition dest_generate_announce_data ::
  "dest_env \<Rightarrow> bytes option \<Rightarrow> u64 \<Rightarrow> bytes option \<Rightarrow> local_destination \<Rightarrow> dest_store
   \<Rightarrow> (error + bytes) \<times> local_destination \<times> dest_store"
where
  "dest_generate_announce_data E app_data now tag d st =
     (case announce_ratchet E d st of
        (Inl e, d, st) \<Rightarrow> (Inl e, d, st)
      | (Inr ratchet, d, st) \<Rightarrow>
        (case d_identity d of
           None \<Rightarrow> (Inl (Err ''Cannot announce destination without identity''), d, st)
         | Some i \<Rightarrow>
           (case (get_public_key i, signing_prv_key i) of
              (Inl e, _) \<Rightarrow> (Inl e, d, st)
            | (Inr _, None) \<Rightarrow> (Inl Panic, d, st)
            | (Inr _, Some prv) \<Rightarrow>
              (case generate_announce_data (le_sign (de_link E) prv) (d_hash d) (ld_name_hash d) ratchet (ld_default_app_data d) i
                      (de_random E) app_data now tag (ld_path_responses d) of
                 (r, pr) \<Rightarrow> (r, d\<lparr>ld_path_responses := pr\<rparr>, st)))))"

text \<open>The subtraction is that of \<^verbatim>\<open>u64\<close>: an entry from the future is dropped.\<close>

definition retain_path_responses :: "u64 \<Rightarrow> (bytes \<rightharpoonup> u64 \<times> bytes) \<Rightarrow> (bytes \<rightharpoonup> u64 \<times> bytes)" where
  "retain_path_responses now pr =
     (\<lambda>t. case pr t of None \<Rightarrow> None | Some (ts, data) \<Rightarrow> if now - ts < PR_TAG_WINDOW then Some (ts, data) else None)"

definition cached_announce :: "bool \<Rightarrow> bytes option \<Rightarrow> local_destination \<Rightarrow> bytes option" where
  "cached_announce path_response tag d =
     (if path_response then Option.bind tag (\<lambda>t. map_option snd (ld_path_responses d t)) else None)"

definition dest_announce ::
  "dest_env \<Rightarrow> bytes option \<Rightarrow> bool \<Rightarrow> string option \<Rightarrow> bytes option \<Rightarrow> bool \<Rightarrow> local_destination \<Rightarrow> dest_store
   \<Rightarrow> (error + packet option) \<times> dest_effect list \<times> local_destination \<times> dest_store"
where
  "dest_announce E app_data path_response attached_interface tag to_send d st =
     (if d_dest_type d \<noteq> Single then (Inl (Err ''Only SINGLE destination types can be announced''), [], d, st)
      else if ld_direction d \<noteq> IN then (Inl (Err ''Only IN destination types can be announced''), [], d, st)
      else
        let now = of_nat (de_now E) :: u64; d = d\<lparr>ld_path_responses := retain_path_responses now (ld_path_responses d)\<rparr> in
        case (case cached_announce path_response tag d of
                Some data \<Rightarrow> (Inr data, d, st)
              | None \<Rightarrow> dest_generate_announce_data E app_data now tag d st) of
          (Inl e, d, st) \<Rightarrow> (Inl e, [], d, st)
        | (Inr announce_data, d, st) \<Rightarrow>
          (case d_identity d of
             None \<Rightarrow> (Inl (Err ''Cannot announce destination without identity''), [], d, st)
           | Some i \<Rightarrow>
             (case get_public_key i of
                Inl e \<Rightarrow> (Inl e, [], d, st)
              | Inr _ \<Rightarrow>
                (let has_ratchet = (case ld_ratchets d of None \<Rightarrow> False | Some rs \<Rightarrow> rs \<noteq> []);
                     p = new_packet (Some (destination.truncate d)) announce_data ANNOUNCE
                           (if path_response then PATH_RESPONSE else CTX_NONE) BROADCAST HEADER_1 None attached_interface
                           False (if has_ratchet then FLAG_SET else FLAG_UNSET)
                 in if to_send then
                      (case de_send E p of Inl e \<Rightarrow> (Inl e, [SendPacket p], d, st) | Inr _ \<Rightarrow> (Inr None, [SendPacket p], d, st))
                    else (Inr (Some p), [], d, st)))))"

section \<open>Keys\<close>

definition group_key :: bytes where
  "group_key = map (\<lambda>i. of_nat ((i * 13 + 7) mod 256)) [0..<64]"

text \<open>The token lies in a cell that clones share, the key bytes in the clone.\<close>

definition dest_create_keys :: "local_destination \<Rightarrow> dest_store \<Rightarrow> (error + unit) \<times> local_destination \<times> dest_store" where
  "dest_create_keys d st =
     (case d_dest_type d of
        Plain \<Rightarrow> (Inl (Err ''Plain destination cannot hold keys''), d, st)
      | Single \<Rightarrow> (Inl (Err ''Single destination holds keys through Identity''), d, st)
      | Group \<Rightarrow>
        (let d = d\<lparr>ld_prv_bytes := Some group_key\<rparr> in
         case Token_new group_key of
           Inl e \<Rightarrow> (Inl e, d, st)
         | Inr t \<Rightarrow> (Inr (), d, st\<lparr>ds_tokens := (ds_tokens st)(ld_token d := Some t)\<rparr>))
      | Link \<Rightarrow> (Inl (Err ''Link destination manages keys internally''), d, st))"

definition dest_get_private_key :: "local_destination \<Rightarrow> error + bytes" where
  "dest_get_private_key d =
     (case d_dest_type d of
        Plain \<Rightarrow> Inl (Err ''Plain destination cannot hold keys'')
      | Single \<Rightarrow> Inl (Err ''Single destination holds keys through Identity'')
      | Group \<Rightarrow> (case ld_prv_bytes d of Some k \<Rightarrow> Inr k | None \<Rightarrow> Inl (Err ''No private key. Did you create or load one?''))
      | Link \<Rightarrow> Inl (Err ''Link destination manages keys internally''))"

definition dest_load_private_key ::
  "bytes \<Rightarrow> local_destination \<Rightarrow> dest_store \<Rightarrow> (error + unit) \<times> local_destination \<times> dest_store"
where
  "dest_load_private_key key d st =
     (case d_dest_type d of
        Plain \<Rightarrow> (Inl (Err ''Plain destination cannot hold keys''), d, st)
      | Single \<Rightarrow> (Inl (Err ''Single destination holds keys through Identity''), d, st)
      | Group \<Rightarrow>
        (if length key \<noteq> 32 \<and> length key \<noteq> 64 then (Inl (Err ''Symmetric key must be 32 or 64 bytes''), d, st)
         else
           let d = d\<lparr>ld_prv_bytes := Some key\<rparr> in
           case Token_new key of
             Inl e \<Rightarrow> (Inl e, d, st)
           | Inr t \<Rightarrow> (Inr (), d, st\<lparr>ds_tokens := (ds_tokens st)(ld_token d := Some t)\<rparr>))
      | Link \<Rightarrow> (Inl (Err ''Link destination manages keys internally''), d, st))"

definition dest_load_public_key :: "local_destination \<Rightarrow> error + unit" where
  "dest_load_public_key d =
     (if d_dest_type d \<noteq> Single then Inl (Err ''Only the 'single' destination type can hold a public key'')
      else Inl (Err ''A single destination holds keys through an Identity instance''))"

section \<open>Encryption\<close>

definition ratchet_id_from_pub :: "crypto \<Rightarrow> bytes \<Rightarrow> bytes" where
  "ratchet_id_from_pub c pub = take NAME_HASH_LEN (full_hash (c_sha c) pub)"

definition dest_encrypt ::
  "dest_env \<Rightarrow> bytes \<Rightarrow> local_destination \<Rightarrow> dest_store \<Rightarrow> (error + bytes) \<times> local_destination \<times> dest_store"
where
  "dest_encrypt E plaintext d st =
     (case d_dest_type d of
        Plain \<Rightarrow> (Inr plaintext, d, st)
      | Single \<Rightarrow>
        (case d_identity d of
           None \<Rightarrow> (Inl (Err ''No identity for encryption''), d, st)
         | Some i \<Rightarrow>
           (case get_ratchet (de_peer_files E) (de_now E) (d_hash d) (ds_known_ratchets st) of
              (selected, known, _) \<Rightarrow>
                (encrypt_with_ratchet (de_crypto E) (de_eph_prv E) (le_iv (de_link E)) i plaintext selected,
                 (case selected of None \<Rightarrow> d | Some r \<Rightarrow> d\<lparr>d_latest_ratchet_id := Some (ratchet_id_from_pub (de_crypto E) r)\<rparr>),
                 st\<lparr>ds_known_ratchets := known\<rparr>)))
      | Group \<Rightarrow>
        (case ds_tokens st (ld_token d) of
           Some t \<Rightarrow> (Token_encrypt (de_crypto E) (le_iv (de_link E)) t plaintext, d, st)
         | None \<Rightarrow> (Inl (Err ''No private key held by GROUP destination. Did you create or load one?''), d, st))
      | Link \<Rightarrow> (de_link_encrypt E (d_hash d) plaintext, d, st))"

text \<open>
  \<^verbatim>\<open>decrypt\<close>: with the newest list of any clone, then once more after the file has been read again.
\<close>

definition dest_decrypt ::
  "dest_env \<Rightarrow> bytes \<Rightarrow> local_destination \<Rightarrow> dest_store \<Rightarrow> (error + bytes) \<times> local_destination \<times> dest_store"
where
  "dest_decrypt E ciphertext d st =
     (case d_dest_type d of
        Plain \<Rightarrow> (Inr ciphertext, d, st)
      | Single \<Rightarrow>
        (let d = (if ld_ratchets d \<noteq> None then adopt_shared_ratchets (ds_cells st (ld_ratchet_shared d)) d else d) in
         case d_identity d of
           None \<Rightarrow> (Inl (Err ''No identity for decryption''), d, st)
         | Some i \<Rightarrow>
           (let first_result = decrypt_with_ratchets (de_crypto E) i ciphertext (ld_ratchets d) in
            if (\<exists>p. first_result = Inr p) \<or> first_result = Inl Panic \<or> ld_ratchets d = None then (first_result, d, st)
            else
              case (case ld_ratchets_path d of None \<Rightarrow> (Inr (), d, st) | Some path \<Rightarrow> reload_ratchets E path d st) of
                (Inl Panic, d, st) \<Rightarrow> (Inl Panic, d, st)
              | (_, d, st) \<Rightarrow> (decrypt_with_ratchets (de_crypto E) i ciphertext (ld_ratchets d), d, st)))
      | Group \<Rightarrow>
        (case ds_tokens st (ld_token d) of
           Some t \<Rightarrow> (Token_decrypt (de_crypto E) t ciphertext, d, st)
         | None \<Rightarrow> (Inl (Err ''No private key held by GROUP destination. Did you create or load one?''), d, st))
      | Link \<Rightarrow> (de_link_decrypt E (d_hash d) ciphertext, d, st))"

definition dest_sign :: "dest_env \<Rightarrow> bytes \<Rightarrow> local_destination \<Rightarrow> error + bytes" where
  "dest_sign E data d =
     (if d_dest_type d = Single then
        (case d_identity d of Some i \<Rightarrow> identity_sign (de_link E) i data | None \<Rightarrow> Inr [])
      else Inr [])"

definition dest_validate :: "dest_env \<Rightarrow> bytes \<Rightarrow> bytes \<Rightarrow> local_destination \<Rightarrow> bool" where
  "dest_validate E signature data d \<longleftrightarrow>
     d_dest_type d = Single
     \<and> (case d_identity d of Some i \<Rightarrow> validate (de_crypto E) i signature data | None \<Rightarrow> False)"

section \<open>Received packets\<close>

text \<open>
  Requests for a link that exists already are ignored: as a live link of this copy, or in the runtime registry. The request
  is then validated by \<^verbatim>\<open>Link::validate_request\<close>; a refusal is only logged.
\<close>

definition incoming_link_request ::
  "dest_env \<Rightarrow> bytes \<Rightarrow> packet \<Rightarrow> local_destination \<Rightarrow> (error + unit) \<times> dest_effect list \<times> local_destination"
where
  "incoming_link_request E data p d =
     (if \<not> ld_accept_link_requests d then (Inr (), [], d)
      else
        let link_id = link_id_from_lr_packet (c_sha (de_crypto E)) p in
        if \<exists>l\<in>set (ld_links d). ln_link_id l = link_id \<and> ln_status l \<noteq> STATE_CLOSED then (Inr (), [], d)
        else if link_id \<in> set (de_runtime_links E) then (Inr (), [], d)
        else
          case validate_request (de_link E) (de_placeholder E) (de_eph_prv E) (destination.truncate d) (ld_request_handlers d)
                 (ld_max_request_size d) (ld_cb_link_established d) (ld_cb_packet d) data p of
            (Inr l, es) \<Rightarrow> (Inr (), map OfLink es, d\<lparr>ld_links := ld_links d @ [l]\<rparr>)
          | (Inl Panic, es) \<Rightarrow> (Inl Panic, map OfLink es, d)
          | (Inl (Err _), es) \<Rightarrow> (Inr (), map OfLink es, d))"

definition dest_receive ::
  "dest_env \<Rightarrow> packet \<Rightarrow> local_destination \<Rightarrow> dest_store
   \<Rightarrow> (error + bool) \<times> dest_effect list \<times> local_destination \<times> dest_store"
where
  "dest_receive E p d st =
     (if p_packet_type p = LINKREQUEST then
        (case incoming_link_request E (p_data p) p d of
           (Inl e, es, d) \<Rightarrow> (Inl e, es, d, st)
         | (Inr _, es, d) \<Rightarrow> (Inr True, es, d, st))
      else case dest_decrypt E (p_data p) d st of
        (Inl e, d, st) \<Rightarrow> (Inl e, [], d, st)
      | (Inr plaintext, d, st) \<Rightarrow>
        (let d = (case p_ratchet_id p of None \<Rightarrow> d | Some r \<Rightarrow> d\<lparr>d_latest_ratchet_id := Some r\<rparr>) in
         if p_packet_type p = DATA then
           (Inr True, (if ld_cb_packet d then [SpawnPacketCallback plaintext p] else []), d, st)
         else (Inr False, [], d, st)))"

text \<open>
  What \<^verbatim>\<open>Transport::inbound\<close> does with a packet it hands to a registered destination, once its lock is released: a clone
  receives it, and a data packet it has taken is proved as its strategy says. The clone is dropped.
\<close>

definition deliver_to_destination ::
  "dest_env \<Rightarrow> packet \<Rightarrow> local_destination \<Rightarrow> dest_store \<Rightarrow> dest_effect list \<times> dest_store"
where
  "deliver_to_destination E p d st =
     (case dest_receive E p d st of
        (Inr True, es, d, st) \<Rightarrow>
          (es @ (if p_packet_type p = DATA then
                   if d_proof_strategy d = PROVE_ALL then [ProvePacket p]
                   else if d_proof_strategy d = PROVE_APP \<and> ld_cb_proof_requested d then
                     AskProof p # (if de_proof_requested E p then [ProvePacket p] else [])
                   else []
                 else []), st)
      | (_, es, _, st) \<Rightarrow> (es, st))"

end
