(* ===== verification/Link_Actor.thy ===== *)
theory Link_Actor
  imports Link
begin

text \<open>
  The actor of a link (\<^verbatim>\<open>link.rs\<close>): received packets by context, the Resources of the link, the watchdog, and the
  mailbox. Messages that only read the state are left out. A thread the actor starts is an effect, and what
  it later does to the link is an operation of its own.
\<close>

section \<open>Resources of the link\<close>

definition resource_link_context :: "link \<Rightarrow> link_context" where
  "resource_link_context l =
     \<lparr> lc_mtu = ln_mtu l, lc_rtt = ln_rtt l, lc_traffic_timeout_factor = ln_traffic_timeout_factor l,
       lc_establishment_cost = ln_establishment_cost l, lc_last_resource_window = ln_last_resource_window l,
       lc_last_resource_eifr = ln_last_resource_eifr l \<rparr>"

definition register_outgoing_resource :: "resource \<Rightarrow> link \<Rightarrow> link" where
  "register_outgoing_resource r l = l\<lparr>ln_outgoing := ln_outgoing l @ [r]\<rparr>"

definition register_incoming_resource :: "resource \<Rightarrow> link \<Rightarrow> link" where
  "register_incoming_resource r l = l\<lparr>ln_incoming := ln_incoming l @ [r]\<rparr>"

definition has_incoming_resource_hash :: "bytes \<Rightarrow> link \<Rightarrow> bool" where
  "has_incoming_resource_hash h l = (\<exists>r \<in> set (ln_incoming l). rs_hash r = h)"

definition cancel_outgoing_resource :: "resource \<Rightarrow> link \<Rightarrow> link" where
  "cancel_outgoing_resource r l =
     (if rs_hash r = [] then l else l\<lparr>ln_outgoing := filter (\<lambda>q. rs_hash q \<noteq> rs_hash r) (ln_outgoing l)\<rparr>)"

definition cancel_incoming_resource :: "resource \<Rightarrow> link \<Rightarrow> link" where
  "cancel_incoming_resource r l =
     (if rs_hash r = [] then l else l\<lparr>ln_incoming := filter (\<lambda>q. rs_hash q \<noteq> rs_hash r) (ln_incoming l)\<rparr>)"

definition resource_concluded :: "resource \<Rightarrow> link \<Rightarrow> link" where
  "resource_concluded r l =
     cancel_incoming_resource r
       (cancel_outgoing_resource r (l\<lparr>ln_last_resource_window := Some (rs_window r), ln_last_resource_eifr := rs_eifr r\<rparr>))"

definition ready_for_new_resource :: "link \<Rightarrow> bool" where
  "ready_for_new_resource l = (ln_outgoing l = [])"

definition set_expected_rate :: "real \<Rightarrow> link \<Rightarrow> link" where
  "set_expected_rate rate l = l\<lparr>ln_expected_rate := Some rate, ln_last_resource_eifr := Some rate\<rparr>"

definition unpack_adv :: "link_env \<Rightarrow> bytes \<Rightarrow> advertisement option" where
  "unpack_adv E plaintext =
     (case le_read_adv E plaintext of
        None \<Rightarrow> None
      | Some a \<Rightarrow> (case adv_unpack a of Inl _ \<Rightarrow> None | Inr adv \<Rightarrow> Some adv))"

definition is_request :: "advertisement \<Rightarrow> bool" where
  "is_request adv = (ad_q adv \<noteq> None \<and> adv_flag 3 adv)"

definition is_response :: "advertisement \<Rightarrow> bool" where
  "is_response adv = (ad_q adv \<noteq> None \<and> adv_flag 4 adv)"

text \<open>
  \<^verbatim>\<open>Resource::reject\<close> answers to the destination of the advertisement's packet, and cannot send where it has none.
\<close>

definition resource_reject :: "packet \<Rightarrow> advertisement \<Rightarrow> link_effect list" where
  "resource_reject p adv = (case p_destination p of None \<Rightarrow> [] | Some _ \<Rightarrow> [RejectAdvertisement (ad_h adv)])"

definition accept_advertised_resource ::
  "link_env \<Rightarrow> advertisement \<Rightarrow> bool \<Rightarrow> bool \<Rightarrow> bytes option \<Rightarrow> link \<Rightarrow> resource option \<times> link_effect list \<times> link"
where
  "accept_advertised_resource E adv cb pcb request_id l =
     (if has_incoming_resource_hash (ad_h adv) l then (None, [], l)
      else case accept (resource_link_context l) adv request_id cb pcb (le_now E) of
        None \<Rightarrow> (None, [], l)
      | Some r \<Rightarrow>
        (Some r,
         [ResourceRequestNext (rs_hash r), ResourceStartWatchdog (rs_hash r)]
           @ (if ln_cb_resource_started l then [ResourceStarted (rs_hash r)] else []),
         register_incoming_resource r l))"

text \<open>
  Every Resource of a list through an operation that leaves its own effects and what is put off
  until all of them are done.
\<close>

fun on_resources ::
  "(resource \<Rightarrow> link_effect list \<times> link_effect list \<times> resource) \<Rightarrow> resource list
   \<Rightarrow> link_effect list \<times> link_effect list \<times> resource list"
where
  "on_resources f [] = ([], [], [])"
| "on_resources f (r # rs) =
     (case f r of (es, ds, r') \<Rightarrow> (case on_resources f rs of (es', ds', rs') \<Rightarrow> (es @ es', ds @ ds', r' # rs')))"

definition receive_resource_part :: "link_env \<Rightarrow> packet \<Rightarrow> link \<Rightarrow> link_effect list \<times> link" where
  "receive_resource_part E p l =
     (case on_resources
             (\<lambda>r. case receive_part (le_resource E) (resource_link_context l) (p_data p) (length (p_raw p)) (le_now E) r of
                    ((next_due, watchdog_due), es, r') \<Rightarrow>
                      (map (OnResource (rs_hash r)) es,
                       (if watchdog_due then [ResourceStartWatchdog (rs_hash r)] else [])
                         @ (if next_due then [ResourceRequestNext (rs_hash r)] else []), r'))
             (ln_incoming l) of
        (es, ds, rs) \<Rightarrow> (es @ ds, l\<lparr>ln_incoming := rs\<rparr>))"

text \<open>An update of the hash map; only the last Resource that is due a request makes one.\<close>

definition receive_hashmap_update :: "link_env \<Rightarrow> bytes \<Rightarrow> link \<Rightarrow> link_effect list \<times> link" where
  "receive_hashmap_update E plaintext l =
     (if length plaintext < HASH_BYTES then ([], l)
      else case on_resources
             (\<lambda>r. if rs_hash r = take HASH_BYTES plaintext then
                    (case hashmap_update_packet (le_resource E) plaintext (le_now E) r of
                       (next_due, es, r') \<Rightarrow>
                         (map (OnResource (rs_hash r)) es, if next_due then [ResourceRequestNext (rs_hash r)] else [], r'))
                  else ([], [], r))
             (ln_incoming l) of
        (es, ds, rs) \<Rightarrow> (es @ (if ds = [] then [] else [last ds]), l\<lparr>ln_incoming := rs\<rparr>))"

text \<open>The Resource a request of parts is for.\<close>

definition requested_resource :: "bytes \<Rightarrow> bytes option" where
  "requested_resource plaintext =
     (if length plaintext < 1 + HASH_BYTES then None
      else
        (let offset = (if plaintext ! 0 = HASHMAP_IS_EXHAUSTED then 1 + MAPHASH_LEN else 1) in
         if length plaintext < offset + HASH_BYTES then None
         else Some (byte_range offset (offset + HASH_BYTES) plaintext)))"

text \<open>What the threads for requests, cancellations, rejections and proofs then do to the Resources of the link.\<close>

fun serve_first :: "link_env \<Rightarrow> bytes \<Rightarrow> bytes \<Rightarrow> resource list \<Rightarrow> link_effect list \<times> resource list" where
  "serve_first E h plaintext [] = ([], [])"
| "serve_first E h plaintext (r # rs) =
     (if rs_hash r = h then
        (case serve_request (le_resource E) plaintext (le_now E) r of (es, r') \<Rightarrow> (map (OnResource h) es, r' # rs))
      else (case serve_first E h plaintext rs of (es, rs') \<Rightarrow> (es, r # rs')))"

definition serve_resource :: "link_env \<Rightarrow> bytes \<Rightarrow> bytes \<Rightarrow> link \<Rightarrow> link_effect list \<times> link" where
  "serve_resource E h plaintext l =
     (case serve_first E h plaintext (ln_outgoing l) of (es, rs) \<Rightarrow> (es, l\<lparr>ln_outgoing := rs\<rparr>))"

definition on_matching :: "bytes \<Rightarrow> (resource \<Rightarrow> resource_effect list \<times> resource) \<Rightarrow> resource list \<Rightarrow> link_effect list \<times> resource list" where
  "on_matching h f rs =
     (case on_resources (\<lambda>r. if rs_hash r = h then (case f r of (es, r') \<Rightarrow> (map (OnResource h) es, [], r')) else ([], [], r)) rs of
        (es, _, rs') \<Rightarrow> (es, rs'))"

definition cancel_matching :: "link_env \<Rightarrow> bytes \<Rightarrow> link \<Rightarrow> link_effect list \<times> link" where
  "cancel_matching E h l =
     (case on_matching h (cancel (le_resource E)) (ln_incoming l) of (es, rs) \<Rightarrow> (es, l\<lparr>ln_incoming := rs\<rparr>))"

definition reject_matching :: "bytes \<Rightarrow> link \<Rightarrow> link_effect list \<times> link" where
  "reject_matching h l = (case on_matching h rejected (ln_outgoing l) of (es, rs) \<Rightarrow> (es, l\<lparr>ln_outgoing := rs\<rparr>))"

definition prove_matching :: "bool \<Rightarrow> bytes \<Rightarrow> bytes \<Rightarrow> link \<Rightarrow> link_effect list \<times> link" where
  "prove_matching made h proof_data l =
     (case on_matching h (resource_validate_proof made proof_data) (ln_outgoing l) of (es, rs) \<Rightarrow> (es, l\<lparr>ln_outgoing := rs\<rparr>))"

section \<open>Advertisements\<close>

definition handle_request_adv :: "link_env \<Rightarrow> packet \<Rightarrow> advertisement \<Rightarrow> link \<Rightarrow> link_effect list \<times> link" where
  "handle_request_adv E p adv l =
     (if ln_request_handlers l = [] then ([], l)
      else if \<not> size_ok (ln_max_request_size l) (ad_d adv) then (resource_reject p adv, l)
      else snd (accept_advertised_resource E adv True False (ad_q adv) l))"

text \<open>A request Resource that is complete is handled as a request whose id is the hash of its data.\<close>

definition request_resource_received :: "link_env \<Rightarrow> resource \<Rightarrow> link \<Rightarrow> link_effect list" where
  "request_resource_received E r l =
     (if rs_status r \<noteq> RsComplete then []
      else case rs_data r of
        None \<Rightarrow> []
      | Some d \<Rightarrow> handle_request_packet E (truncated_hash (c_sha (le_crypto E)) d) d l)"

definition handle_response_adv :: "link_env \<Rightarrow> packet \<Rightarrow> advertisement \<Rightarrow> link \<Rightarrow> link_effect list \<times> link" where
  "handle_response_adv E p adv l =
     (case ad_q adv of
        None \<Rightarrow> ([], l)
      | Some request_id \<Rightarrow>
        (case take_request request_id (ln_pending_requests l) of
           None \<Rightarrow> ([], l)
         | Some (r, rs) \<Rightarrow>
           if \<not> size_ok (pr_max_response_size r) (ad_d adv)
           then (resource_reject p adv @ fail_request r, l\<lparr>ln_pending_requests := rs\<rparr>)
           else
             (let l = l\<lparr>ln_pending_requests := update_request request_id
                        (\<lambda>r. r\<lparr>pr_receiving_response := True, pr_status := ReqReceiving,
                                 pr_response_size := (case pr_response_size r of None \<Rightarrow> Some (ad_d adv) | Some n \<Rightarrow> Some n),
                                 pr_response_transfer_size :=
                                   Some ((case pr_response_transfer_size r of None \<Rightarrow> 0 | Some n \<Rightarrow> n) + ad_t adv),
                                 pr_started_at := (case pr_started_at r of None \<Rightarrow> Some (le_now E) | Some t \<Rightarrow> Some t)\<rparr>)
                        (ln_pending_requests l)\<rparr>
              in case accept_advertised_resource E adv True True (Some request_id) l of
                   (None, es, l) \<Rightarrow> (es, l)
                 | (Some r, es, l) \<Rightarrow> (es @ [ResourceProgress (rs_hash r)], l))))"

definition handle_resource_adv :: "link_env \<Rightarrow> packet \<Rightarrow> link \<Rightarrow> link_effect list \<times> link" where
  "handle_resource_adv E p l =
     (case link_decrypt E l (p_data p) of
        Inl _ \<Rightarrow> ([], l)
      | Inr plaintext \<Rightarrow>
        (case unpack_adv E plaintext of
           None \<Rightarrow> teardown E l
         | Some adv \<Rightarrow>
           if is_request adv then handle_request_adv E p adv l
           else if is_response adv then handle_response_adv E p adv l
           else if ln_resource_strategy l = ACCEPT_APP then (if ln_cb_resource l then [AskApp adv] else [], l)
           else if ln_resource_strategy l = ACCEPT_ALL
           then snd (accept_advertised_resource E adv (ln_cb_resource_concluded l) False None l)
           else ([], l)))"

text \<open>The application's answer to an advertisement.\<close>

definition advertised_resource_decision :: "link_env \<Rightarrow> packet \<Rightarrow> advertisement \<Rightarrow> bool \<Rightarrow> link \<Rightarrow> link_effect list \<times> link" where
  "advertised_resource_decision E p adv accepted l =
     (if accepted then snd (accept_advertised_resource E adv (ln_cb_resource_concluded l) False None l)
      else (resource_reject p adv, l))"

section \<open>Received packets\<close>

text \<open>A callback set late gets the packets that came before it, each proved first.\<close>

definition set_packet_callback :: "link_env \<Rightarrow> bool \<Rightarrow> link \<Rightarrow> link_effect list \<times> link" where
  "set_packet_callback E cb l =
     (let l = l\<lparr>ln_cb_packet := cb\<rparr> in
      if cb then
        (concat (map (\<lambda>(_, p). prove_packet E p l) (ln_early_packets l)) @ map (\<lambda>(plaintext, _). RunPacket plaintext) (ln_early_packets l),
         l\<lparr>ln_early_packets := []\<rparr>)
      else ([], l))"

definition prepare_keepalive :: "link_env \<Rightarrow> link \<Rightarrow> link" where
  "prepare_keepalive E l = had_outbound E True l"

text \<open>The answer to a keepalive: only when nothing went out for the initiator's keepalive period.\<close>

definition handle_keepalive :: "link_env \<Rightarrow> packet \<Rightarrow> link \<Rightarrow> link_effect list \<times> link" where
  "handle_keepalive E p l =
     (let period = (case ln_initiator_keepalive l of Some k \<Rightarrow> k | None \<Rightarrow> ln_keepalive l);
          pong_due = (current_time E \<ge> ln_last_outbound l + as_u64 period)
      in if \<not> ln_initiator l \<and> p_data p = [0xFF] \<and> pong_due
         then ([SendLinkPacket DATA KEEPALIVE [0xFE]], had_outbound E True (prepare_keepalive E l))
         else ([], l))"

definition ok_result :: "link_effect list \<times> link \<Rightarrow> link_result" where
  "ok_result x = (Inr (), x)"

text \<open>A packet that decrypts, by its context.\<close>

definition handle_plaintext :: "link_env \<Rightarrow> packet \<Rightarrow> bytes \<Rightarrow> link \<Rightarrow> link_result" where
  "handle_plaintext E p plaintext l =
     (if p_context p = CTX_REQUEST then
        (if size_ok (ln_max_request_size l) (length plaintext)
         then (Inr (), handle_request_packet E (get_truncated_hash (c_sha (le_crypto E)) p) plaintext l, l)
         else (Inr (), [], l))
      else if p_context p = CTX_RESPONSE then ok_result (handle_response_packet E plaintext l)
      else if p_context p = LINKIDENTIFY then (case handle_linkidentify_packet E plaintext l of (r, l) \<Rightarrow> (r, [], l))
      else if p_context p = LINKCLOSE then ok_result (teardown_packet plaintext l)
      else if p_context p = RESOURCE_REQ then
        (Inr (), (case requested_resource plaintext of None \<Rightarrow> [] | Some h \<Rightarrow> [ResourceServe h plaintext]), l)
      else if p_context p = RESOURCE_HMU then ok_result (receive_hashmap_update E plaintext l)
      else if p_context p = RESOURCE_ICL then
        (Inr (), (if length plaintext \<ge> HASH_BYTES then [ResourceCancelled (take HASH_BYTES plaintext)] else []), l)
      else if p_context p = RESOURCE_RCL then
        (Inr (), (if length plaintext \<ge> HASH_BYTES then [ResourceRejected (take HASH_BYTES plaintext)] else []), l)
      else if ln_cb_packet l then (Inr (), prove_packet E p l @ [RunPacket plaintext], l)
      else (Inr (), [], l\<lparr>ln_early_packets := ln_early_packets l @ [(plaintext, p)]\<rparr>))"

definition handle_data_packet :: "link_env \<Rightarrow> packet \<Rightarrow> link \<Rightarrow> link_result" where
  "handle_data_packet E p l =
     (if p_context p = RESOURCE then ok_result (receive_resource_part E p l)
      else if p_context p = RESOURCE_ADV then ok_result (handle_resource_adv E p l)
      else if p_context p = LRRTT then
        (case link_decrypt E l (p_data p) of
           Inl _ \<Rightarrow> (Inr (), [], l)
         | Inr plaintext \<Rightarrow> handle_lrrtt_packet E plaintext l)
      else if p_context p = KEEPALIVE then ok_result (handle_keepalive E p l)
      else case link_decrypt E l (p_data p) of
        Inl _ \<Rightarrow> (Inr (), [], l)
      | Inr plaintext \<Rightarrow> handle_plaintext E p plaintext l)"

definition handle_proof_packet :: "link_env \<Rightarrow> packet \<Rightarrow> link \<Rightarrow> link_result" where
  "handle_proof_packet E p l =
     (if p_context p = RESOURCE_PRF then
        (Inr (), (if length (p_data p) \<ge> HASH_BYTES then [ResourceProof (take HASH_BYTES (p_data p)) (p_data p)] else []), l)
      else handle_link_proof E p l)"

text \<open>The watchdog's lock is taken first and given back only by a packet that is handled without error.\<close>

definition link_receive :: "link_env \<Rightarrow> packet \<Rightarrow> link \<Rightarrow> link_result" where
  "link_receive E p l =
     (let l = l\<lparr>ln_watchdog_lock := True\<rparr> in
      if ln_state l = STATE_CLOSED then (Inr (), [], l\<lparr>ln_watchdog_lock := False\<rparr>)
      else
        (let l = had_inbound E (p_context p \<noteq> KEEPALIVE) l;
             l = l\<lparr>ln_rx := ln_rx l + 1, ln_rxbytes := ln_rxbytes l + length (p_data p)\<rparr>;
             l = (if ln_state l = STATE_STALE
                  then l\<lparr>ln_state := STATE_ACTIVE, ln_status := STATE_ACTIVE, ln_stale_since := None\<rparr> else l)
         in case (if p_packet_type p = DATA then handle_data_packet E p l
                  else if p_packet_type p = PROOF then handle_proof_packet E p l
                  else (Inr (), [], l)) of
              (Inl e, es, l) \<Rightarrow> (Inl e, es, l)
            | (Inr _, es, l) \<Rightarrow> (Inr (), es, l\<lparr>ln_watchdog_lock := False\<rparr>)))"

section \<open>The watchdog\<close>

definition tick_establishing :: "link_env \<Rightarrow> link \<Rightarrow> link_effect list \<times> link" where
  "tick_establishing E l =
     (case ln_request_time l of
        Some t \<Rightarrow> if le_now E \<ge> t + ln_establishment_timeout l then teardown E (l\<lparr>ln_teardown_reason := REASON_TIMEOUT\<rparr>) else ([], l)
      | None \<Rightarrow> ([], l))"

definition heard_at :: "link \<Rightarrow> nat" where
  "heard_at l = max (max (ln_last_inbound l) (ln_last_proof l)) (case ln_activated_at l of Some t \<Rightarrow> t | None \<Rightarrow> 0)"

definition tick_active :: "link_env \<Rightarrow> link \<Rightarrow> link_effect list \<times> link" where
  "tick_active E l =
     (let now = current_time E; last_inbound = heard_at l; keepalive_secs = as_u64 (ln_keepalive l) in
      if now \<ge> last_inbound + keepalive_secs \<or> now \<ge> ln_last_outbound l + keepalive_secs then
        (let (es, l) =
               (if ln_initiator l \<and> now \<ge> ln_last_keepalive l + keepalive_secs
                then ([SendLinkPacket DATA KEEPALIVE [0xFF]], prepare_keepalive E l) else ([], l))
         in if now \<ge> last_inbound + as_u64 (ln_stale_time l)
            then (es, l\<lparr>ln_state := STATE_STALE, ln_status := STATE_STALE, ln_stale_since := Some now,
                        ln_stale_grace := (case ln_rtt l of Some rtt \<Rightarrow> rtt | None \<Rightarrow> 0) * ln_keepalive_timeout_factor l + STALE_GRACE\<rparr>)
            else (es, l))
      else ([], l))"

definition tick_stale :: "link_env \<Rightarrow> link \<Rightarrow> link_effect list \<times> link" where
  "tick_stale E l =
     (if current_time E \<ge> (case ln_stale_since l of Some t \<Rightarrow> t | None \<Rightarrow> 0) + max (as_u64 (ln_stale_grace l)) 1
      then teardown E (l\<lparr>ln_teardown_reason := REASON_TIMEOUT\<rparr>) else ([], l))"

definition actor_watchdog_tick :: "link_env \<Rightarrow> link \<Rightarrow> link_effect list \<times> link" where
  "actor_watchdog_tick E l =
     (if ln_state l = STATE_PENDING \<or> ln_state l = STATE_HANDSHAKE then tick_establishing E l
      else if ln_state l = STATE_ACTIVE then tick_active E l
      else if ln_state l = STATE_STALE then tick_stale E l
      else ([], l))"

section \<open>The mailbox\<close>

text \<open>
  The messages that change the link. The keys of \<^verbatim>\<open>Initiate\<close> are those it draws, with the transport's hops
  and timeout; callbacks are flags.
\<close>

datatype link_msg =
    MReceive packet
  | MRequest bytes bytes "nat option" "nat option" "nat option" "real option" "nat option"
  | MSendPacket bytes
  | MIdentify identity
  | MInitiate bytes bytes nat real
  | MRegisterOutgoing resource
  | MRegisterIncoming resource
  | MResourceConcluded resource
  | MCancelOutgoing resource
  | MCancelIncoming resource
  | MSetExpectedRate real
  | MTeardown
  | MSetEstablishedCallback bool
  | MSetClosedCallback bool
  | MSetRecoveredCallback bool
  | MSetPacketCallback bool
  | MSetRemoteIdentifiedCallback bool
  | MSetResourceStrategy u8
  | MSetResourceCallbacks bool bool bool
  | MAdvertisedResourceDecision packet advertisement bool
  | MSendResponse bytes bytes
  | MSendProvenResponse bytes bytes
  | MHandleRequestPacket bytes bytes
  | MRequestResourceConcluded bytes bool

definition initiate :: "link_env \<Rightarrow> bytes \<Rightarrow> bytes \<Rightarrow> nat \<Rightarrow> real \<Rightarrow> link \<Rightarrow> link_effect list \<times> link" where
  "initiate E prv sig_prv hops first_hop_timeout l =
     (case initiate_prepare E prv sig_prv hops first_hop_timeout l of
        (Inl _, es, l) \<Rightarrow> (es, l)
      | (Inr p, es, l) \<Rightarrow> (case initiate_send E p l of (_, es', l) \<Rightarrow> (es @ es', l)))"

text \<open>Every message but a received packet.\<close>

fun handle_message :: "link_env \<Rightarrow> link_msg \<Rightarrow> link \<Rightarrow> link_effect list \<times> link" where
  "handle_message E (MReceive p) l = ([], l)"
| "handle_message E (MRequest path d rcb fcb pcb timeout max_size) l =
     snd (link_request E path d rcb fcb pcb timeout max_size l)"
| "handle_message E (MSendPacket d) l = (snd (send_packet E d l), l)"
| "handle_message E (MIdentify i) l = snd (link_identify E i l)"
| "handle_message E (MInitiate prv sig_prv hops fht) l = initiate E prv sig_prv hops fht l"
| "handle_message E (MRegisterOutgoing r) l = ([], register_outgoing_resource r l)"
| "handle_message E (MRegisterIncoming r) l = ([], register_incoming_resource r l)"
| "handle_message E (MResourceConcluded r) l = ([], resource_concluded r l)"
| "handle_message E (MCancelOutgoing r) l = ([], cancel_outgoing_resource r l)"
| "handle_message E (MCancelIncoming r) l = ([], cancel_incoming_resource r l)"
| "handle_message E (MSetExpectedRate rate) l = ([], set_expected_rate rate l)"
| "handle_message E MTeardown l = teardown E l"
| "handle_message E (MSetEstablishedCallback cb) l = ([], l\<lparr>ln_cb_established := cb\<rparr>)"
| "handle_message E (MSetClosedCallback cb) l = ([], l\<lparr>ln_cb_closed := cb\<rparr>)"
| "handle_message E (MSetRecoveredCallback cb) l = ([], l\<lparr>ln_cb_recovered := cb\<rparr>)"
| "handle_message E (MSetPacketCallback cb) l = set_packet_callback E cb l"
| "handle_message E (MSetRemoteIdentifiedCallback cb) l = ([], l\<lparr>ln_cb_identified := cb\<rparr>)"
| "handle_message E (MSetResourceStrategy s) l = ([], l\<lparr>ln_resource_strategy := s\<rparr>)"
| "handle_message E (MSetResourceCallbacks cb started concluded) l =
     ([], l\<lparr>ln_cb_resource := cb, ln_cb_resource_started := started, ln_cb_resource_concluded := concluded\<rparr>)"
| "handle_message E (MAdvertisedResourceDecision p adv accepted) l = advertised_resource_decision E p adv accepted l"
| "handle_message E (MSendResponse request_id response) l = send_response E request_id response l"
| "handle_message E (MSendProvenResponse request_id response) l =
     (fst (send_proven_request_response E request_id response), l)"
| "handle_message E (MHandleRequestPacket request_id plaintext) l = (handle_request_packet E request_id plaintext l, l)"
| "handle_message E (MRequestResourceConcluded request_id delivered) l = request_resource_concluded E request_id delivered l"

fun is_receive :: "link_msg \<Rightarrow> bool" where
  "is_receive (MReceive p) = True"
| "is_receive _ = False"

text \<open>
  While the established callback runs, the messages that come are handled but for received packets, which are
  then sent to the mailbox again.
\<close>

fun service_mailbox :: "link_env \<Rightarrow> link_msg list \<Rightarrow> link \<Rightarrow> link_effect list \<times> link_msg list \<times> link" where
  "service_mailbox E [] l = ([], [], l)"
| "service_mailbox E (m # ms) l =
     (if is_receive m then (case service_mailbox E ms l of (es, deferred, l) \<Rightarrow> (es, m # deferred, l))
      else (case handle_message E m l of (es, l) \<Rightarrow>
             (case service_mailbox E ms l of (es', deferred, l) \<Rightarrow> (es @ es', deferred, l))))"

text \<open>
  A received packet at the actor. \<open>during\<close> is what arrives in the mailbox while the established callback runs, if it
  runs; the result has the packets put off.
\<close>

definition actor_receive :: "link_env \<Rightarrow> link_msg list \<Rightarrow> packet \<Rightarrow> link \<Rightarrow> link_effect list \<times> link_msg list \<times> link" where
  "actor_receive E during p l =
     (let was_establishing = (ln_state l = STATE_PENDING \<or> ln_state l = STATE_HANDSHAKE);
          was_stale = (ln_state l = STATE_STALE);
          (_, es, l) = link_receive E p l;
          now_active = (ln_state l = STATE_ACTIVE);
          (es1, deferred, l) =
            (if was_establishing \<and> now_active \<and> ln_cb_established l then
               (case service_mailbox E during (l\<lparr>ln_cb_established := False\<rparr>) of
                  (es', deferred, l) \<Rightarrow> (RunEstablished # es', deferred, l))
             else ([], [], l));
          es2 = (if was_stale \<and> now_active \<and> ln_cb_recovered l then [RunRecovered] else []);
          es3 = (if ln_pending_remote_identified l \<and> ln_cb_identified l
                 then (case ln_remote_identity l of Some i \<Rightarrow> [RunIdentified i] | None \<Rightarrow> []) else [])
      in (es @ es1 @ es2 @ es3, deferred, l\<lparr>ln_pending_remote_identified := False\<rparr>))"

definition actor_handle_message :: "link_env \<Rightarrow> link_msg list \<Rightarrow> link_msg \<Rightarrow> link \<Rightarrow> link_effect list \<times> link_msg list \<times> link" where
  "actor_handle_message E during m l =
     (case m of
        MReceive p \<Rightarrow> actor_receive E during p l
      | _ \<Rightarrow> (case handle_message E m l of (es, l) \<Rightarrow> (es, [], l)))"

text \<open>
  One turn of the actor's loop, with the message it received or none; the first component says whether the
  actor goes on.
\<close>

definition actor_housekeeping :: "link_env \<Rightarrow> link \<Rightarrow> link_effect list \<times> link" where
  "actor_housekeeping E l =
     (case (if ln_watchdog_lock l then ([], l) else actor_watchdog_tick E l) of
        (es, l) \<Rightarrow> (case check_request_timeouts E l of (es', l) \<Rightarrow> (es @ es', l)))"

definition actor_turn ::
  "link_env \<Rightarrow> link_msg list \<Rightarrow> link_msg option \<Rightarrow> link \<Rightarrow> bool \<times> link_effect list \<times> link_msg list \<times> link"
where
  "actor_turn E during m l =
     (if ln_state l = STATE_CLOSED \<and> m = None then (False, [], [], l)
      else
        (let (es, deferred, l) = (case m of None \<Rightarrow> ([], [], l) | Some m \<Rightarrow> actor_handle_message E during m l) in
         if m = Some MTeardown \<or> ln_state l = STATE_CLOSED then (False, es, deferred, l)
         else (case actor_housekeeping E l of (es', l) \<Rightarrow> (True, es @ es', deferred, l))))"

text \<open>The mailbox after a turn: what was put off is sent to the end of it.\<close>

definition mailbox_after :: "link_msg list \<Rightarrow> link_msg list \<Rightarrow> link_msg list" where
  "mailbox_after rest deferred = rest @ deferred"

end
