(* ===== verification/Link_Correct.thy ===== *)
theory Link_Correct
  imports Link_Actor
begin

text \<open>
  Links: what every step keeps, and that the exchange of request, proof and round-trip time leaves one session.
  The security of a link rests on a few of its fields, its core; operations that leave the core alone are dealt with by one
  lemma each.
\<close>

section \<open>What an operation leaves alone\<close>

text \<open>
  The part of a link that its security rests on: most operations leave it as it is.
\<close>

type_synonym link_core =
  "u8 \<times> u8 \<times> bool \<times> destination \<times> bytes option \<times> bytes option \<times> token option \<times> identity option"

definition core :: "link \<Rightarrow> link_core" where
  "core l = (ln_state l, ln_status l, ln_initiator l, ln_destination l, ln_shared_key l, ln_derived_key l, ln_token l,
             ln_remote_identity l)"

named_theorems core_simps

lemma core_had [core_simps]: "core (had_outbound E b l) = core l" "core (had_inbound E b l) = core l"
  by (simp_all add: core_def had_outbound_def had_inbound_def Let_def)

lemma core_update_keepalive [core_simps]: "core (update_keepalive l) = core l"
  by (simp add: core_def update_keepalive_def split: option.split)

lemma core_resources [core_simps]:
  "core (register_outgoing_resource r l) = core l" "core (register_incoming_resource r l) = core l"
  "core (cancel_outgoing_resource r l) = core l" "core (cancel_incoming_resource r l) = core l"
  "core (resource_concluded r l) = core l" "core (set_expected_rate x l) = core l"
  by (simp_all add: core_def register_outgoing_resource_def register_incoming_resource_def cancel_outgoing_resource_def
      cancel_incoming_resource_def resource_concluded_def set_expected_rate_def)

lemma core_accept_advertised [core_simps]: "core (snd (snd (accept_advertised_resource E adv cb pcb i l))) = core l"
  by (simp add: accept_advertised_resource_def core_simps split: option.split)

lemma core_receive_resource_part [core_simps]: "core (snd (receive_resource_part E p l)) = core l"
  by (simp add: receive_resource_part_def core_def split_def)

lemma core_receive_hashmap_update [core_simps]: "core (snd (receive_hashmap_update E d l)) = core l"
  by (simp add: receive_hashmap_update_def core_def split_def)

lemma core_matching [core_simps]:
  "core (snd (serve_resource E h d l)) = core l" "core (snd (cancel_matching E h l)) = core l"
  "core (snd (reject_matching h l)) = core l" "core (snd (prove_matching made h d l)) = core l"
  by (simp_all add: serve_resource_def cancel_matching_def reject_matching_def prove_matching_def core_def split_def)

lemma core_pending [core_simps]: "core (l\<lparr>ln_pending_requests := ps\<rparr>) = core l"
  by (simp add: core_def)

lemma core_requests [core_simps]:
  "core (snd (handle_response_packet E d l)) = core l" "core (snd (request_resource_concluded E i b l)) = core l"
  "core (snd (response_resource_progress i x l)) = core l" "core (snd (response_resource_concluded E i' completed data_opt l)) = core l"
  "core (snd (check_request_timeouts E l)) = core l"
  by (simp_all add: handle_response_packet_def request_resource_concluded_def response_resource_progress_def
      response_resource_concluded_def check_request_timeouts_def core_def Let_def split: option.split prod.split)

lemma core_link_request [core_simps]: "core (snd (snd (link_request E path d rcb fcb pcb t n l))) = core l"
  by (simp add: link_request_def request_as_resource_def core_def Let_def split: sum.split option.split)

lemma core_request_adv [core_simps]: "core (snd (handle_request_adv E p adv l)) = core l"
  by (simp add: handle_request_adv_def core_simps)

lemma core_response_adv [core_simps]: "core (snd (handle_response_adv E p adv l)) = core l"
proof -
  have "core l' = core l" if "accept_advertised_resource E adv cb pcb i (l\<lparr>ln_pending_requests := ps\<rparr>) = (r, es, l')"
    for cb pcb i ps r es l'
    using core_accept_advertised [of E adv cb pcb i "l\<lparr>ln_pending_requests := ps\<rparr>"] that by (simp add: core_simps)
  then show ?thesis
    by (auto simp add: handle_response_adv_def core_simps Let_def split: option.split prod.split)
qed

lemma core_keepalive [core_simps]: "core (snd (handle_keepalive E p l)) = core l"
  by (simp add: handle_keepalive_def prepare_keepalive_def core_simps Let_def)

lemma core_send_response [core_simps]: "core (snd (send_response E i d l)) = core l"
  by (simp add: send_response_def send_request_response_def core_simps Let_def split: sum.split option.split)

lemma core_identify [core_simps]: "core (snd (snd (link_identify E i l))) = core l"
  by (simp add: link_identify_def core_simps split: sum.split)

lemma core_set_packet_callback [core_simps]: "core (snd (set_packet_callback E b l)) = core l"
  by (simp add: set_packet_callback_def core_def Let_def)

lemma core_initiate [core_simps]: "core (snd (initiate E prv sprv h t l)) = core l"
  by (simp add: initiate_def initiate_prepare_def initiate_send_def had_outbound_def core_def Let_def split: sum.split)

section \<open>The invariant\<close>

text \<open>
  The key of an initiator's link comes from a handshake that the destination's identity signed; a remote identity
  has signed a link id with its own public key.
\<close>

definition authenticated :: "crypto \<Rightarrow> destination \<Rightarrow> bytes option \<Rightarrow> bool" where
  "authenticated c d key \<longleftrightarrow>
     (\<exists>i pub signature link_id peer_pub signalling prv n.
        d_identity d = Some i \<and> get_public_key i = Inr pub
        \<and> validate c i signature (link_id @ peer_pub @ byte_range 32 64 pub @ signalling)
        \<and> key = Some (derive_key_hkdf c link_id (c_dh c prv peer_pub) n))"

lemma authenticatedI:
  "d_identity d = Some i \<Longrightarrow> get_public_key i = Inr pub
   \<Longrightarrow> validate c i signature (link_id @ peer_pub @ byte_range 32 64 pub @ signalling)
   \<Longrightarrow> authenticated c d (Some (derive_key_hkdf c link_id (c_dh c prv peer_pub) n))"
  unfolding authenticated_def by blast

definition identified :: "crypto \<Rightarrow> identity \<Rightarrow> bool" where
  "identified c i \<longleftrightarrow> (\<exists>pub link_id signature. from_public_key c pub = Inr i \<and> validate c i signature (link_id @ pub))"

fun core_ok :: "crypto \<Rightarrow> link_core \<Rightarrow> bool" where
  "core_ok c (state, status, initiator, d, shared, key, tok, remote) \<longleftrightarrow>
     state \<in> {STATE_PENDING, STATE_HANDSHAKE, STATE_ACTIVE, STATE_STALE, STATE_CLOSED}
     \<and> status = (if state = STATE_HANDSHAKE then STATE_PENDING else state)
     \<and> (state \<in> {STATE_PENDING, STATE_CLOSED} \<longrightarrow> shared = None \<and> key = None \<and> tok = None)
     \<and> (initiator \<and> state \<in> {STATE_ACTIVE, STATE_STALE} \<longrightarrow> authenticated c d key)
     \<and> (\<forall>i. remote = Some i \<longrightarrow> identified c i)"

definition link_ok :: "crypto \<Rightarrow> link \<Rightarrow> bool" where
  "link_ok c l = core_ok c (core l)"

lemma link_ok_core: "core l' = core l \<Longrightarrow> link_ok c l' = link_ok c l"
  by (simp add: link_ok_def)

lemma link_closed_core:
  "core (snd (link_closed l)) = (ln_state l, ln_status l, ln_initiator l, ln_destination l, None, None, None, ln_remote_identity l)"
  by (simp add: link_closed_def core_def Let_def)

lemma teardown_core:
  "core (snd (teardown E l)) = (STATE_CLOSED, STATE_CLOSED, ln_initiator l, ln_destination l, None, None, None, ln_remote_identity l)"
  by (simp add: teardown_def Let_def split_def link_closed_core had_outbound_def)

lemma teardown_packet_core:
  "core (snd (teardown_packet d l)) = core l
   \<or> core (snd (teardown_packet d l)) = (STATE_CLOSED, STATE_CLOSED, ln_initiator l, ln_destination l, None, None, None, ln_remote_identity l)"
  by (simp add: teardown_packet_def Let_def split_def link_closed_core)

lemma link_ok_closed:
  assumes "link_ok c l"
    and "core l' = (STATE_CLOSED, STATE_CLOSED, ln_initiator l, ln_destination l, None, None, None, ln_remote_identity l)"
  shows "link_ok c l'"
  using assms by (simp add: link_ok_def core_def)

lemma link_ok_teardown: "link_ok c l \<Longrightarrow> link_ok c (snd (teardown E l))"
  by (rule link_ok_closed [OF _ teardown_core])

lemma link_ok_teardown_packet: "link_ok c l \<Longrightarrow> link_ok c (snd (teardown_packet d l))"
  using teardown_packet_core [of d l] link_ok_closed link_ok_core by blast

lemma handshake_core:
  assumes "handshake c l = (r, l')"
  shows "core l' = core l
    \<or> (ln_state l = STATE_PENDING
       \<and> (\<exists>sh k t. core l' = (STATE_HANDSHAKE, ln_status l, ln_initiator l, ln_destination l, sh, k, t, ln_remote_identity l)))"
proof (cases "ln_state l = STATE_PENDING \<and> ln_prv_bytes l \<noteq> None \<and> ln_peer_pub_bytes l \<noteq> None")
  case False
  with assms have "l' = l" by (auto simp add: handshake_def split: if_splits option.splits)
  then show ?thesis by simp
next
  case True
  then obtain prv peer where "ln_prv_bytes l = Some prv" "ln_peer_pub_bytes l = Some peer" "ln_state l = STATE_PENDING"
    by auto
  with assms have "ln_state l' = STATE_HANDSHAKE \<and> ln_status l' = ln_status l \<and> ln_initiator l' = ln_initiator l
      \<and> ln_destination l' = ln_destination l \<and> ln_remote_identity l' = ln_remote_identity l"
    by (auto simp add: handshake_def Let_def split: if_splits sum.splits)
  with True show ?thesis by (simp add: core_def)
qed

lemma handshake_InrD:
  assumes "handshake c l = (Inr u, l')"
  obtains prv peer n t where "ln_state l = STATE_PENDING" "ln_prv_bytes l = Some prv" "ln_peer_pub_bytes l = Some peer"
    "n = (if ln_mode l = MODE_AES128_CBC then 32 else 64)" "Token_new (derive_key_hkdf c (ln_link_id l) (c_dh c prv peer) n) = Inr t"
    "l' = l\<lparr>ln_state := STATE_HANDSHAKE, ln_shared_key := Some (c_dh c prv peer),
             ln_derived_key := Some (derive_key_hkdf c (ln_link_id l) (c_dh c prv peer) n), ln_token := Some t\<rparr>"
proof -
  from assms obtain prv peer where k: "ln_prv_bytes l = Some prv" "ln_peer_pub_bytes l = Some peer" "ln_state l = STATE_PENDING"
    by (auto simp add: handshake_def split: if_splits option.splits)
  show ?thesis
    using assms k by (auto simp add: handshake_def Let_def split: if_splits sum.splits intro: that)
qed

lemma link_ok_handshake:
  assumes "link_ok c l" and "handshake c l = (r, l')"
  shows "link_ok c l'"
  using handshake_core [OF assms(2)]
proof (elim disjE conjE exE)
  assume "core l' = core l" then show ?thesis using assms(1) link_ok_core by blast
next
  fix sh k t
  assume "ln_state l = STATE_PENDING"
    and "core l' = (STATE_HANDSHAKE, ln_status l, ln_initiator l, ln_destination l, sh, k, t, ln_remote_identity l)"
  then show ?thesis using assms(1) by (simp add: link_ok_def core_def)
qed

lemma activate_core:
  "core (snd (snd (activate E p l)))
     = (STATE_ACTIVE, STATE_ACTIVE, ln_initiator l, ln_destination l, ln_shared_key l, ln_derived_key l, ln_token l, ln_remote_identity l)"
proof -
  have send: "core (snd (snd (send_lrrtt E l))) = core l" for l
    by (simp add: send_lrrtt_def core_simps split: option.split sum.split)
  have "core (case x of None \<Rightarrow> l | Some m \<Rightarrow> update_mdu (l\<lparr>ln_mtu := m\<rparr>)) = core l" for x l
    by (simp add: update_mdu_def core_def split: option.split)
  then show ?thesis
    unfolding activate_def Let_def send core_update_keepalive by (simp add: core_def)
qed

text \<open>A link proof either leaves the link in its place, or fails after the handshake, or activates the link with a signed key.\<close>

lemma handle_link_proof_cases:
  assumes "handle_link_proof E p l = (r, es, l')" and "c = le_crypto E"
  obtains "core l' = core l"
  | l1 r1 where "ln_initiator l" "ln_state l = STATE_PENDING" "core l1 = core l" "handshake c l1 = (r1, l')" "r \<noteq> Inr ()"
  | l1 l2 i pub peer sb where "ln_initiator l" "ln_state l = STATE_PENDING" "core l1 = core l" "ln_peer_pub_bytes l1 = Some peer"
      "handshake c l1 = (Inr (), l2)" "d_identity (ln_destination l) = Some i" "get_public_key i = Inr pub"
      "validate c i (take SIG_LEN (p_data p)) (ln_link_id l2 @ peer @ byte_range 32 64 pub @ sb)"
      "(r, es, l') = activate E p l2"
proof (cases "core l' = core l")
  case False
  let ?data = "p_data p"
  from False assms(1) have 1: "ln_initiator l" "ln_state l = STATE_PENDING"
    by (auto simp add: handle_link_proof_def Let_def split: if_splits)
  from False assms(1) 1 obtain i pub where 2: "d_identity (ln_destination l) = Some i" "get_public_key i = Inr pub"
    by (auto simp add: handle_link_proof_def Let_def split: if_splits option.splits sum.splits)
  let ?peer = "byte_range SIG_LEN (SIG_LEN + 32) ?data" and ?sig = "byte_range 32 64 pub"
  let ?l1 = "l\<lparr>ln_peer_pub_bytes := Some ?peer, ln_peer_sig_pub_bytes := Some ?sig\<rparr>"
  have c1: "core ?l1 = core l" by (simp add: core_def)
  obtain r1 l2 where h: "handshake c ?l1 = (r1, l2)" by fastforce
  have *: "(r, es, l') = (case r1 of Inl e \<Rightarrow> (Inl e, [], l2) | Inr _ \<Rightarrow> (case proof_signalling ?data of
             Inl e \<Rightarrow> (Inl e, [], l2)
           | Inr sb \<Rightarrow> if \<not> validate c i (take SIG_LEN ?data) (ln_link_id l2 @ ?peer @ ?sig @ sb)
                       then (Inl (Err ''Invalid link proof signature''), [], l2) else activate E p l2))"
    using False assms 1 2 h by (auto simp add: handle_link_proof_def Let_def load_peer_def split: if_splits sum.splits)
  show ?thesis
  proof (cases r1)
    case (Inl e)
    with * h c1 show ?thesis using that(2) [OF 1] by auto
  next
    case (Inr u)
    show ?thesis
    proof (cases "proof_signalling ?data")
      case (Inl e)
      with * Inr h c1 show ?thesis using that(2) [OF 1] by auto
    next
      case sb: (Inr sb)
      show ?thesis
      proof (cases "validate c i (take SIG_LEN ?data) (ln_link_id l2 @ ?peer @ ?sig @ sb)")
        case True
        with * sb Inr have "(r, es, l') = activate E p l2" by simp
        with True h Inr 2 c1 show ?thesis using that(3) [OF 1, of ?l1 ?peer l2 i pub sb] by simp
      next
        case F: False
        with * sb Inr h c1 show ?thesis using that(2) [OF 1] by auto
      qed
    qed
  qed
qed (use that(1) in blast)

lemma link_ok_link_proof:
  assumes "link_ok c l" and "c = le_crypto E" and "handle_link_proof E p l = (r, es, l')"
  shows "link_ok c l'"
  using assms(3,2)
proof (rule handle_link_proof_cases)
  assume "core l' = core l" then show ?thesis using assms(1) link_ok_core by blast
next
  fix l1 r1 assume "core l1 = core l" "handshake c l1 = (r1, l')"
  then show ?thesis using assms(1) link_ok_core link_ok_handshake by blast
next
  fix l1 l2 i pub peer sb
  assume 1: "ln_initiator l" "core l1 = core l" "ln_peer_pub_bytes l1 = Some peer" "handshake c l1 = (Inr (), l2)"
    "d_identity (ln_destination l) = Some i" "get_public_key i = Inr pub"
    "validate c i (take SIG_LEN (p_data p)) (ln_link_id l2 @ peer @ byte_range 32 64 pub @ sb)"
    "(r, es, l') = activate E p l2"
  from 1(4) obtain prv n t where l2: "l2 = l1\<lparr>ln_state := STATE_HANDSHAKE, ln_shared_key := Some (c_dh c prv peer),
       ln_derived_key := Some (derive_key_hkdf c (ln_link_id l1) (c_dh c prv peer) n), ln_token := Some t\<rparr>"
    by (rule handshake_InrD) (use 1(3) in auto)
  have "authenticated c (ln_destination l) (ln_derived_key l2)"
    using authenticatedI [OF 1(5-7)] l2 by simp
  moreover have "core l' = (STATE_ACTIVE, STATE_ACTIVE, ln_initiator l2, ln_destination l2, ln_shared_key l2, ln_derived_key l2,
      ln_token l2, ln_remote_identity l2)"
    using activate_core [of E p l2] 1(8) by (metis snd_conv)
  ultimately show ?thesis
    using 1(2) assms(1) l2 by (simp add: link_ok_def core_def)
qed

text \<open>
  What every step keeps: the invariant, a closed link closed, who initiated it and to where, and an identified
  peer.
\<close>

definition advances :: "crypto \<Rightarrow> link \<Rightarrow> link \<Rightarrow> bool" where
  "advances c l l' \<longleftrightarrow>
     (link_ok c l \<longrightarrow> link_ok c l' \<and> (ln_state l = STATE_CLOSED \<longrightarrow> ln_state l' = STATE_CLOSED))
     \<and> ln_initiator l' = ln_initiator l \<and> ln_destination l' = ln_destination l
     \<and> (ln_remote_identity l \<noteq> None \<longrightarrow> ln_remote_identity l' = ln_remote_identity l)"

named_theorems advancing

lemma advances_core: "core l' = core l \<Longrightarrow> advances c l l'"
  by (auto simp add: advances_def link_ok_def core_def)

lemma advances_refl [simp]: "advances c l l"
  by (simp add: advances_core)

lemma advances_trans: "advances c l l1 \<Longrightarrow> advances c l1 l2 \<Longrightarrow> advances c l l2"
  by (auto simp add: advances_def)

lemma advances_core_trans: "advances c l l1 \<Longrightarrow> core l2 = core l1 \<Longrightarrow> advances c l l2"
  using advances_trans advances_core by blast

lemma advances_closed:
  "core l' = (STATE_CLOSED, STATE_CLOSED, ln_initiator l, ln_destination l, None, None, None, ln_remote_identity l)
   \<Longrightarrow> advances c l l'"
  by (auto simp add: advances_def intro: link_ok_closed) (auto simp add: core_def)

lemma advances_teardown [advancing]: "advances c l (snd (teardown E l))"
  by (rule advances_closed [OF teardown_core])

lemma advances_teardown_packet [advancing]: "advances c l (snd (teardown_packet d l))"
  using teardown_packet_core [of d l] advances_closed advances_core by blast

lemma advances_teardown_timeout [advancing]: "advances c l (snd (teardown E (l\<lparr>ln_teardown_reason := x\<rparr>)))"
  by (rule advances_closed) (simp add: teardown_core)

lemma advances_link_proof [advancing]:
  assumes "le_crypto E = c"
  shows "advances c l (snd (snd (handle_link_proof E p l)))"
proof -
  obtain r es l' where h: "handle_link_proof E p l = (r, es, l')" by (cases "handle_link_proof E p l") auto
  have ok: "link_ok c l \<longrightarrow> link_ok c l'" using link_ok_link_proof [OF _ assms [symmetric] h] by blast
  have "advances c l l'"
    using h assms [symmetric]
  proof (rule handle_link_proof_cases)
    assume "core l' = core l" then show ?thesis by (rule advances_core)
  next
    fix l1 r1 assume "core l1 = core l" "handshake c l1 = (r1, l')" "ln_state l = STATE_PENDING"
    then show ?thesis using ok handshake_core [of c l1 r1 l'] by (auto simp add: advances_def core_def)
  next
    fix l1 l2 i pub peer sb
    assume 1: "core l1 = core l" "handshake c l1 = (Inr (), l2)" "ln_state l = STATE_PENDING" "(r, es, l') = activate E p l2"
    have "core l' = (STATE_ACTIVE, STATE_ACTIVE, ln_initiator l2, ln_destination l2, ln_shared_key l2, ln_derived_key l2,
        ln_token l2, ln_remote_identity l2)"
      using activate_core [of E p l2] 1(4) by (metis snd_conv)
    with 1(1-3) show ?thesis using ok handshake_core [of c l1 "Inr ()" l2] by (auto simp add: advances_def core_def)
  qed
  with h show ?thesis by simp
qed

lemma advances_lrrtt [advancing]:
  assumes "ln_derived_key l \<noteq> None"
  shows "advances c l (snd (snd (handle_lrrtt_packet E d l)))"
  using assms
  by (auto simp add: handle_lrrtt_packet_def advances_def link_ok_def core_def update_keepalive_def Let_def split: option.split)

lemma link_decrypt_key: "link_decrypt E l d = Inr m \<Longrightarrow> ln_derived_key l \<noteq> None"
  by (auto simp add: link_decrypt_def split: option.splits)

lemma advances_linkidentify [advancing]:
  assumes "le_crypto E = c"
  shows "advances c l (snd (handle_linkidentify_packet E d l))"
proof -
  have "identified c i" if "from_public_key c pub = Inr i" "validate c i s (ln_link_id l @ pub)" for i pub s
    using that by (auto simp add: identified_def)
  with assms show ?thesis
    by (auto simp add: handle_linkidentify_packet_def advances_def link_ok_def core_def Let_def split: sum.split)
qed

lemma advances_resource_adv [advancing]: "advances c l (snd (handle_resource_adv E p l))"
  by (auto simp add: handle_resource_adv_def core_simps advancing intro!: advances_core split: sum.split option.split)

lemma snd_ok_result [simp]: "snd (snd (ok_result x)) = snd x" "fst (snd (ok_result x)) = fst x" "fst (ok_result x) = Inr ()"
  by (simp_all add: ok_result_def)

lemma advances_plaintext [advancing]:
  assumes "le_crypto E = c"
  shows "advances c l (snd (snd (handle_plaintext E p d l)))"
proof -
  have "core (l\<lparr>ln_early_packets := x\<rparr>) = core l" for x by (simp add: core_def)
  with assms show ?thesis
    by (simp add: handle_plaintext_def split_def advancing core_simps advances_core)
qed

lemma advances_data_packet [advancing]:
  assumes "le_crypto E = c"
  shows "advances c l (snd (snd (handle_data_packet E p l)))"
  using assms link_decrypt_key
  by (simp add: handle_data_packet_def advancing core_simps advances_core split: sum.split)

lemma advances_proof_packet [advancing]:
  "le_crypto E = c \<Longrightarrow> advances c l (snd (snd (handle_proof_packet E p l)))"
  by (simp add: handle_proof_packet_def advancing)

text \<open>The state in which a received packet is handled.\<close>

definition received :: "link_env \<Rightarrow> packet \<Rightarrow> link \<Rightarrow> link" where
  "received E p l =
     (let l = had_inbound E (p_context p \<noteq> KEEPALIVE) (l\<lparr>ln_watchdog_lock := True\<rparr>);
          l = l\<lparr>ln_rx := ln_rx l + 1, ln_rxbytes := ln_rxbytes l + length (p_data p)\<rparr>
      in if ln_state l = STATE_STALE
         then l\<lparr>ln_state := STATE_ACTIVE, ln_status := STATE_ACTIVE, ln_stale_since := None\<rparr> else l)"

definition handle_packet :: "link_env \<Rightarrow> packet \<Rightarrow> link \<Rightarrow> link_result" where
  "handle_packet E p l =
     (if p_packet_type p = DATA then handle_data_packet E p l
      else if p_packet_type p = PROOF then handle_proof_packet E p l else (Inr (), [], l))"

lemma link_receive_open:
  assumes "ln_state l \<noteq> STATE_CLOSED"
  shows "link_receive E p l =
    (case handle_packet E p (received E p l) of
       (Inl e, es, l) \<Rightarrow> (Inl e, es, l) | (Inr _, es, l) \<Rightarrow> (Inr (), es, l\<lparr>ln_watchdog_lock := False\<rparr>))"
  using assms by (simp add: link_receive_def received_def handle_packet_def Let_def)

lemma link_receive_closed: "ln_state l = STATE_CLOSED \<Longrightarrow> link_receive E p l = (Inr (), [], l\<lparr>ln_watchdog_lock := False\<rparr>)"
  by (simp add: link_receive_def)

lemma advances_received [advancing]: "advances c l (received E p l)"
proof (cases "ln_state l = STATE_STALE")
  case True
  then show ?thesis
    by (auto simp add: received_def had_inbound_def advances_def link_ok_def core_def Let_def)
next
  case False
  then show ?thesis
    by (intro advances_core) (simp add: received_def had_inbound_def core_def Let_def)
qed

lemma core_watchdog_lock [core_simps]: "core (l\<lparr>ln_watchdog_lock := b\<rparr>) = core l"
  by (simp add: core_def)

lemma advances_receive [advancing]:
  assumes "le_crypto E = c"
  shows "advances c l (snd (snd (link_receive E p l)))"
proof (cases "ln_state l = STATE_CLOSED")
  case True
  then show ?thesis by (simp add: link_receive_closed advances_core core_simps)
next
  case False
  have "advances c (received E p l) (snd (snd (handle_packet E p (received E p l))))"
    using assms by (simp add: handle_packet_def advancing)
  then have *: "advances c l (snd (snd (handle_packet E p (received E p l))))"
    by (rule advances_trans [OF advances_received])
  show ?thesis
  proof (cases "handle_packet E p (received E p l)")
    case (fields r es l')
    with * False show ?thesis
      by (cases r) (auto simp add: link_receive_open core_simps intro: advances_core_trans)
  qed
qed

lemma advances_tick [advancing]: "advances c l (snd (actor_watchdog_tick E l))"
proof -
  have "advances c l (snd (tick_active E l))" if "ln_state l = STATE_ACTIVE"
    using that
    by (auto simp add: tick_active_def prepare_keepalive_def had_outbound_def Let_def advances_def link_ok_def core_def)
  moreover have "advances c l (snd (tick_stale E l))" "advances c l (snd (tick_establishing E l))"
    by (simp_all add: tick_stale_def tick_establishing_def advancing split: option.split)
  ultimately show ?thesis by (simp add: actor_watchdog_tick_def)
qed

lemma advances_callbacks [advancing]:
  "advances c l (l\<lparr>ln_cb_established := b\<rparr>)" "advances c l (l\<lparr>ln_cb_closed := b\<rparr>)" "advances c l (l\<lparr>ln_cb_recovered := b\<rparr>)"
  "advances c l (l\<lparr>ln_cb_identified := b\<rparr>)" "advances c l (l\<lparr>ln_resource_strategy := s\<rparr>)"
  "advances c l (l\<lparr>ln_cb_resource := b, ln_cb_resource_started := b', ln_cb_resource_concluded := b''\<rparr>)"
  "advances c l (l\<lparr>ln_pending_remote_identified := b\<rparr>)"
  by (simp_all add: advances_core core_def)

lemma advances_message [advancing]: "advances c l (snd (handle_message E m l))"
  by (cases m)
    (simp_all add: advances_core core_simps advancing advertised_resource_decision_def)

lemma advances_service_mailbox [advancing]: "advances c l (snd (snd (service_mailbox E ms l)))"
proof (induction ms arbitrary: l)
  case (Cons m ms)
  show ?case
    using Cons.IH advances_message [of c l E m] by (auto simp add: split_def intro: advances_trans)
qed simp

lemma advances_actor_receive [advancing]:
  assumes "le_crypto E = c"
  shows "advances c l (snd (snd (actor_receive E during p l)))"
proof -
  obtain r es l1 where r: "link_receive E p l = (r, es, l1)" by (cases "link_receive E p l") auto
  then have 1: "advances c l l1" using advances_receive [OF assms, of l p] by simp
  have 2: "advances c l (snd (snd (service_mailbox E during (l1\<lparr>ln_cb_established := False\<rparr>))))"
    using advances_trans [OF 1 advances_callbacks(1)] advances_service_mailbox advances_trans by blast
  have t: "advances c l (l2\<lparr>ln_pending_remote_identified := False\<rparr>)" if "advances c l l2" for l2
    using advances_trans [OF that advances_callbacks(7)] .
  show ?thesis
    using t [OF 1] t [OF 2] by (simp add: actor_receive_def r Let_def split_def)
qed

lemma advances_housekeeping [advancing]: "advances c l (snd (actor_housekeeping E l))"
proof -
  have "advances c l (snd (check_request_timeouts E l1))" if "advances c l l1" for l1
    using advances_core_trans [OF that] core_requests(5) by blast
  from this [OF advances_refl] this [OF advances_tick] show ?thesis
    by (simp add: actor_housekeeping_def split_def)
qed

lemma actor_handle_other:
  "\<not> is_receive m \<Longrightarrow> actor_handle_message E during m l = (fst (handle_message E m l), [], snd (handle_message E m l))"
  by (cases m) (simp_all add: actor_handle_message_def split_def)

lemma is_receiveE: "is_receive m \<Longrightarrow> (\<And>p. m = MReceive p \<Longrightarrow> P) \<Longrightarrow> P"
  by (cases m) simp_all

lemma advances_turn [advancing]:
  assumes "le_crypto E = c"
  shows "advances c l (snd (snd (snd (actor_turn E during m l))))"
proof -
  have "advances c l (snd (snd (actor_handle_message E during m' l)))" for m'
    by (cases "is_receive m'")
      (auto simp add: actor_handle_other advancing elim!: is_receiveE,
       simp add: actor_handle_message_def advances_actor_receive [OF assms])
  then show ?thesis
    using advances_housekeeping advances_trans
    by (simp add: actor_turn_def Let_def split_def split: option.split) blast
qed

section \<open>Steps\<close>

text \<open>
  A step of a link with its effects: a turn of its actor, or what a thread that the actor started, or a Resource
  of a response, does to it.
\<close>

inductive link_step :: "crypto \<Rightarrow> link \<Rightarrow> link_effect list \<Rightarrow> link \<Rightarrow> bool" for c :: crypto where
  turn: "le_crypto E = c \<Longrightarrow> actor_turn E during m l = (going, es, deferred, l') \<Longrightarrow> link_step c l es l'"
| serve: "serve_resource E h d l = (es, l') \<Longrightarrow> link_step c l es l'"
| cancelled: "cancel_matching E h l = (es, l') \<Longrightarrow> link_step c l es l'"
| refused: "reject_matching h l = (es, l') \<Longrightarrow> link_step c l es l'"
| proved: "prove_matching made h d l = (es, l') \<Longrightarrow> link_step c l es l'"
| response_progress: "response_resource_progress i x l = (es, l') \<Longrightarrow> link_step c l es l'"
| response_concluded: "response_resource_concluded E i' completed data_opt l = (es, l') \<Longrightarrow> link_step c l es l'"

inductive link_run :: "crypto \<Rightarrow> link \<Rightarrow> link \<Rightarrow> bool" for c :: crypto where
  start: "link_run c l l"
| step: "link_run c l l1 \<Longrightarrow> link_step c l1 es l2 \<Longrightarrow> link_run c l l2"

lemma advances_step: "link_step c l es l' \<Longrightarrow> advances c l l'"
proof (induction rule: link_step.induct)
  case (turn E during m l going es deferred l')
  then show ?case using advances_turn [of E c l during m] by simp
qed (metis advances_core core_matching core_requests snd_conv)+

lemma advances_run: "link_run c l l' \<Longrightarrow> advances c l l'"
  by (induction rule: link_run.induct) (auto intro: advances_step advances_trans)

lemma link_ok_new_outbound: "link_ok c (new_outbound E i d mode)"
  by (simp add: link_ok_def core_def new_outbound_def new_link_def)

section \<open>Sessions\<close>

text \<open>Two ends of one session; what one encrypts the other decrypts.\<close>

definition same_session :: "link \<Rightarrow> link \<Rightarrow> bool" where
  "same_session l l' \<longleftrightarrow> ln_link_id l = ln_link_id l' \<and> ln_derived_key l = ln_derived_key l' \<and> ln_mode l = ln_mode l' \<and> ln_mtu l = ln_mtu l'"

lemma session_roundtrip:
  assumes c: "crypto_ok (le_crypto E)" and k: "ln_derived_key l = Some (derive_key_hkdf (le_crypto E) s z 64)"
    and k': "ln_derived_key l' = ln_derived_key l" and E': "le_crypto E' = le_crypto E" and iv: "length (le_iv E) = 16"
  shows "\<exists>ct. link_encrypt E l m = Inr ct \<and> link_decrypt E' l' ct = Inr m"
proof -
  obtain t where t: "Token_new (c_hkdf (le_crypto E) s z) = Inr t" "length (t_encryption_key t) = 32"
    using Token_new_hkdf [OF c] by blast
  have "derive_key_hkdf (le_crypto E) s z 64 = c_hkdf (le_crypto E) s z"
    using crypto_okD(3) [OF c] by (simp add: derive_key_hkdf_def)
  then show ?thesis
    using Token_roundtrip [OF c t(2) iv, of m] k k' t(1) E' by (simp add: link_encrypt_def link_decrypt_def)
qed

definition mtu_signalling :: bytes where
  "mtu_signalling = [0x20, 0x01, 0xF4]"

lemma mtu_signalling_eq: "signalling_bytes MTU MODE_AES256_CBC = Inr mtu_signalling"
  by (simp add: signalling_bytes_def mtu_signalling_def)

lemma mtu_signalling_read:
  "length pre = 64 \<Longrightarrow> mtu_from_lr_packet (pre @ mtu_signalling) = Some MTU \<and> mode_from_lr_packet (pre @ mtu_signalling) = MODE_AES256_CBC"
  "length pre = 96 \<Longrightarrow> mtu_from_lp_packet (pre @ mtu_signalling) = Some MTU \<and> mode_from_lp_packet (pre @ mtu_signalling) = MODE_AES256_CBC"
  by (simp_all add: mtu_from_lr_packet_def mtu_from_lp_packet_def mode_from_lr_packet_def mode_from_lp_packet_def mtu_at_def
      mtu_signalling_def nth_append)

lemma handshake_256:
  assumes "crypto_ok c" "ln_state l = STATE_PENDING" "ln_prv_bytes l = Some prv" "ln_peer_pub_bytes l = Some peer"
    "length prv = 32" "length peer = 32" "ln_mode l = MODE_AES256_CBC"
  shows "\<exists>t. handshake c l = (Inr (), l\<lparr>ln_state := STATE_HANDSHAKE, ln_shared_key := Some (c_dh c prv peer),
    ln_derived_key := Some (derive_key_hkdf c (ln_link_id l) (c_dh c prv peer) 64), ln_token := Some t\<rparr>)"
proof -
  obtain t where "Token_new (derive_key_hkdf c (ln_link_id l) (c_dh c prv peer) 64) = Inr t"
    using Token_new_hkdf [OF assms(1), of "ln_link_id l" "c_dh c prv peer"] crypto_okD(3) [OF assms(1)]
    by (auto simp add: derive_key_hkdf_def)
  then show ?thesis using assms(2-) by (intro exI [of _ t]) (simp add: handshake_def Let_def)
qed

text \<open>A destination's identity: whole where it is served, its public half where a link to it starts.\<close>

definition owns :: "identity \<Rightarrow> bytes \<Rightarrow> bytes \<Rightarrow> bytes \<Rightarrow> bytes \<Rightarrow> bool" where
  "owns i enc_prv enc_pub sig_prv sig_pub \<longleftrightarrow>
     encryption_prv_key i = Some enc_prv \<and> encryption_pub_key i = Some enc_pub \<and> signing_prv_key i = Some sig_prv
     \<and> signing_pub_key i = Some sig_pub
     \<and> length enc_prv = 32 \<and> length enc_pub = 32 \<and> length sig_prv = 32 \<and> length sig_pub = 32"

definition knows :: "identity \<Rightarrow> bytes \<Rightarrow> bytes \<Rightarrow> bool" where
  "knows i enc_pub sig_pub \<longleftrightarrow> encryption_pub_key i = Some enc_pub \<and> signing_pub_key i = Some sig_pub"

text \<open>Signing under a key that the other side verifies.\<close>

definition signs :: "link_env \<Rightarrow> bytes \<Rightarrow> bytes \<Rightarrow> bool" where
  "signs E sig_prv sig_pub \<longleftrightarrow>
     (\<forall>m. length (le_sign E sig_prv m) = 64 \<and> c_ed_verify (le_crypto E) sig_pub m (le_sign E sig_prv m))"

lemma initiate_prepare_shape:
  fixes p :: packet
  assumes "initiate_prepare E prv sig_prv hops t (new_outbound E0 x d MODE_AES256_CBC) = (Inr p, es, la)" and "c = le_crypto E"
  shows "p_data p = c_x_pub c prv @ c_ed_pub c sig_prv @ mtu_signalling" "ln_state la = STATE_PENDING" "ln_initiator la"
    "ln_prv_bytes la = Some prv" "ln_mode la = MODE_AES256_CBC" "ln_link_id la = link_id_from_lr_packet (c_sha c) p"
    "ln_destination la = d" "ln_request_time la = Some (le_now E)"
proof -
  let ?p = "request_packet c d (c_x_pub c prv @ c_ed_pub c sig_prv @ mtu_signalling)"
  let ?l = "(new_outbound E0 x d MODE_AES256_CBC)\<lparr>ln_prv_bytes := Some prv, ln_pub_bytes := Some (c_x_pub c prv), ln_sig_prv_bytes := Some sig_prv,
                   ln_sig_pub_bytes := Some (c_ed_pub c sig_prv)\<rparr>"
  have l: "ln_initiator ?l" "ln_mode ?l = MODE_AES256_CBC" "ln_destination ?l = d" "ln_state ?l = STATE_PENDING"
    "ln_initiator (new_outbound E0 x d MODE_AES256_CBC)"
    by (simp_all add: new_outbound_def new_link_def)
  have *: "initiate_prepare E prv sig_prv hops t (new_outbound E0 x d MODE_AES256_CBC) =
     (Inr ?p, [RegisterLink],
                   ?l\<lparr>ln_establishment_timeout := t + LINK_PER_HOP * real (max hops 1),
                     ln_expected_hops := Some hops, ln_establishment_cost := ln_establishment_cost ?l + length (p_raw ?p),
                     ln_link_id := link_id_from_lr_packet (c_sha c) ?p, ln_request_time := Some (le_now E)\<rparr>)"
    unfolding initiate_prepare_def Let_def assms(2) [symmetric] using l mtu_signalling_eq by simp
  from trans [OF assms(1) [symmetric] *] have p: "p = ?p" and la: "la = ?l\<lparr>ln_establishment_timeout := t + LINK_PER_HOP * real (max hops 1),
                     ln_expected_hops := Some hops, ln_establishment_cost := ln_establishment_cost ?l + length (p_raw ?p),
                     ln_link_id := link_id_from_lr_packet (c_sha c) ?p, ln_request_time := Some (le_now E)\<rparr>"
    by (simp_all only: prod.inject sum.inject)
  show "p_data p = c_x_pub c prv @ c_ed_pub c sig_prv @ mtu_signalling"
    unfolding p by (simp add: request_packet_def new_packet_def Let_def)
  show "ln_state la = STATE_PENDING" "ln_initiator la"
    "ln_prv_bytes la = Some prv" "ln_mode la = MODE_AES256_CBC" "ln_link_id la = link_id_from_lr_packet (c_sha c) p"
    "ln_destination la = d" "ln_request_time la = Some (le_now E)"
    using l unfolding la p by simp_all
qed

lemma validate_request_shape:
  fixes p :: packet
  assumes c: "crypto_ok c" "le_crypto E = c" and data: "data = peer @ peer_sig @ mtu_signalling" "length peer = 32" "length peer_sig = 32"
    and i: "d_identity owner = Some i" "owns i ep eP sp sP" and prv: "length prv = 32" and ok: "le_send_ok E"
  defines "lid \<equiv> link_id_from_lr_packet (c_sha c) p"
  shows "\<exists>l. validate_request E ph prv owner hs mx ce cp data p =
      (Inr l, [SendLinkPacket PROOF LRPROOF (le_sign E sp (lid @ c_x_pub c prv @ sP @ mtu_signalling) @ c_x_pub c prv @ mtu_signalling), RegisterLink])
    \<and> ln_link_id l = lid \<and> ln_derived_key l = Some (derive_key_hkdf c lid (c_dh c prv peer) 64) \<and> ln_state l = STATE_HANDSHAKE
    \<and> \<not> ln_initiator l \<and> ln_mode l = MODE_AES256_CBC \<and> ln_mtu l = MTU"
proof -
  have m: "mtu_from_lr_packet data = Some MTU" "mode_from_lr_packet data = MODE_AES256_CBC"
    using mtu_signalling_read(1) [of "peer @ peer_sig"] data by simp_all
  have len: "length data = 67" and br: "take 32 data = peer" "byte_range 32 64 data = peer_sig"
    using data by (simp_all add: mtu_signalling_def byte_range_def)
  have k: "get_public_key i = Inr (eP @ sP)" "get_private_key i = Inr (ep @ sp)" "length (eP @ sP) = 64"
    "length (ep @ sp) = 64" "byte_range 32 64 (eP @ sP) = sP" "byte_range 32 64 (ep @ sp) = sp"
    "signing_prv_key i = Some sp" "signing_pub_key i = Some sP"
    using i(2) by (simp_all add: owns_def get_public_key_def get_private_key_def byte_range_def)
  let ?l0 = "prepare_inbound E prv ce cp data p
    ((new_inbound E ph owner hs mx)\<lparr>ln_peer_pub_bytes := Some peer, ln_peer_sig_pub_bytes := Some peer_sig\<rparr>)"
  let ?l1 = "load_signing_keys (eP @ sP) (ep @ sp) ?l0"
  have l1: "ln_state ?l1 = STATE_PENDING" "ln_prv_bytes ?l1 = Some prv" "ln_peer_pub_bytes ?l1 = Some peer" "ln_mode ?l1 = MODE_AES256_CBC"
    "ln_link_id ?l1 = lid" "ln_mtu ?l1 = MTU" "ln_pub_bytes ?l1 = Some (c_x_pub c prv)" "ln_sig_pub_bytes ?l1 = Some sP" "\<not> ln_initiator ?l1"
    by (simp_all add: load_signing_keys_def prepare_inbound_def update_mdu_def new_inbound_def new_link_def m k lid_def c(2) Let_def)
  obtain t where h: "handshake c ?l1 = (Inr (), ?l1\<lparr>ln_state := STATE_HANDSHAKE, ln_shared_key := Some (c_dh c prv peer),
      ln_derived_key := Some (derive_key_hkdf c lid (c_dh c prv peer) 64), ln_token := Some t\<rparr>)"
    using handshake_256 [OF c(1) l1(1,2,3) prv data(2) l1(4)] l1(5) by auto
  have v: "validate_request E ph prv owner hs mx ce cp data p =
      (case handshake c ?l1 of
         (Inl e, _) \<Rightarrow> (Inl e, [])
       | (Inr _, l) \<Rightarrow>
         (case prove_with_identity E i (l\<lparr>ln_attached_interface := p_receiving_interface p\<rparr>) of
            (Inl e, es, _) \<Rightarrow> (Inl e, es)
          | (Inr _, es, l) \<Rightarrow> (Inr (had_inbound E True (l\<lparr>ln_request_time := Some (le_now E)\<rparr>)), es @ [RegisterLink])))"
    unfolding validate_request_def using len br k(1-3) data(2,3) i(1) c(2) by (simp add: load_peer_def Let_def)
  show ?thesis
    unfolding v h
    using l1 mtu_signalling_eq k(7,8) ok c(2)
    by (simp add: prove_with_identity_def identity_sign_def had_inbound_def Let_def)
qed

text \<open>The proof at the initiator: the handshake, and then the signature.\<close>

definition shaken :: "crypto \<Rightarrow> bytes \<Rightarrow> bytes \<Rightarrow> bytes \<Rightarrow> token \<Rightarrow> link \<Rightarrow> link" where
  "shaken c prv peer sP t l =
     l\<lparr>ln_peer_pub_bytes := Some peer, ln_peer_sig_pub_bytes := Some sP, ln_state := STATE_HANDSHAKE,
       ln_shared_key := Some (c_dh c prv peer), ln_derived_key := Some (derive_key_hkdf c (ln_link_id l) (c_dh c prv peer) 64),
       ln_token := Some t\<rparr>"

lemma link_proof_eq:
  assumes c: "crypto_ok c" "le_crypto E = c"
    and l: "ln_state l = STATE_PENDING" "ln_initiator l" "ln_prv_bytes l = Some prv" "ln_mode l = MODE_AES256_CBC" and prv: "length prv = 32"
    and i: "d_identity (ln_destination l) = Some i" "knows i eP sP" "length eP = 32" "length sP = 32"
    and data: "p_data p = sig @ peer @ mtu_signalling" "length peer = 32" "length sig = 64"
  obtains t where "handle_link_proof E p l =
    (if c_ed_verify c sP (ln_link_id l @ peer @ sP @ mtu_signalling) sig then activate E p (shaken c prv peer sP t l)
     else (Inl (Err ''Invalid link proof signature''), [], shaken c prv peer sP t l))"
proof -
  let ?data = "p_data p"
  have m: "mtu_from_lp_packet ?data = Some MTU" "mode_from_lp_packet ?data = MODE_AES256_CBC"
    using mtu_signalling_read(2) [of "sig @ peer"] data by simp_all
  have len: "length ?data = 99" and br: "take 64 ?data = sig" "byte_range 64 96 ?data = peer"
    using data by (simp_all add: mtu_signalling_def byte_range_def)
  have k: "get_public_key i = Inr (eP @ sP)" "length (eP @ sP) = 64" "byte_range 32 64 (eP @ sP) = sP" "signing_pub_key i = Some sP"
    using i(2-) by (simp_all add: knows_def get_public_key_def byte_range_def)
  let ?l1 = "l\<lparr>ln_peer_pub_bytes := Some peer, ln_peer_sig_pub_bytes := Some sP\<rparr>"
  obtain t where h: "handshake c ?l1 = (Inr (), shaken c prv peer sP t l)"
    using handshake_256 [OF c(1), of ?l1 prv peer] l prv data(2) by (auto simp add: shaken_def)
  have id: "ln_link_id (shaken c prv peer sP t l) = ln_link_id l" by (simp add: shaken_def)
  show ?thesis
    by (rule that [of t], unfold handle_link_proof_def)
      (use l len m i(1) k br data(2-) i(4) c(2) mtu_signalling_eq h id in
        \<open>simp add: load_peer_def proof_signalling_def validate_def Let_def\<close>)
qed

lemma link_proof_accepted:
  assumes c: "crypto_ok c" "le_crypto E = c" and iv: "length (le_iv E) = 16"
    and l: "ln_state l = STATE_PENDING" "ln_initiator l" "ln_prv_bytes l = Some prv" "ln_mode l = MODE_AES256_CBC"
      "ln_request_time l = Some t0" and prv: "length prv = 32"
    and i: "d_identity (ln_destination l) = Some i" "knows i eP sP" "length eP = 32" "length sP = 32"
    and data: "p_data p = sig @ peer @ mtu_signalling" "length peer = 32" "length sig = 64"
      "c_ed_verify c sP (ln_link_id l @ peer @ sP @ mtu_signalling) sig" and iface: "p_receiving_interface p = Some iface"
  shows "\<exists>ct l' rtt. handle_link_proof E p l = (Inr (), [Dispatch iface (link_frame l' LRRTT ct)], l')
    \<and> link_encrypt E l' (le_pack_rtt E rtt) = Inr ct \<and> ln_state l' = STATE_ACTIVE \<and> ln_initiator l'
    \<and> ln_link_id l' = ln_link_id l \<and> ln_mode l' = MODE_AES256_CBC \<and> ln_mtu l' = MTU
    \<and> ln_derived_key l' = Some (derive_key_hkdf c (ln_link_id l) (c_dh c prv peer) 64)"
proof -
  have m: "mtu_from_lp_packet (p_data p) = Some MTU"
    using mtu_signalling_read(2) [of "sig @ peer"] data by simp
  let ?key = "derive_key_hkdf c (ln_link_id l) (c_dh c prv peer) 64"
  obtain t where v: "handle_link_proof E p l = activate E p (shaken c prv peer sP t l)"
    using link_proof_eq [OF c l(1-4) prv i data(1-3)] data(4) by metis
  let ?l2 = "shaken c prv peer sP t l"
  let ?rtt = "max (le_now E - t0) 0.001"
  let ?l3 = "update_keepalive (update_mdu (?l2\<lparr>ln_rtt := Some ?rtt, ln_state := STATE_ACTIVE, ln_status := STATE_ACTIVE,
      ln_activated_at := Some (current_time E), ln_attached_interface := Some iface, ln_last_proof := current_time E,
      ln_last_inbound := current_time E, ln_last_outbound := current_time E, ln_mtu := MTU\<rparr>))"
  have a: "activate E p ?l2 = send_lrrtt E ?l3"
    using l(5) m iface by (simp add: activate_def shaken_def Let_def)
  have l3: "ln_rtt ?l3 = Some ?rtt" "ln_state ?l3 = STATE_ACTIVE" "ln_attached_interface ?l3 = Some iface" "ln_derived_key ?l3 = Some ?key"
    "ln_link_id ?l3 = ln_link_id l" "ln_mode ?l3 = ln_mode l" "ln_mtu ?l3 = MTU" "ln_initiator ?l3 = ln_initiator l"
    by (simp_all add: update_keepalive_def update_mdu_def shaken_def)
  obtain ct where ct: "link_encrypt E ?l3 (le_pack_rtt E ?rtt) = Inr ct"
    using session_roundtrip [of E ?l3 "ln_link_id l" "c_dh c prv peer" ?l3 E] c iv l3(4) by blast
  let ?l' = "had_outbound E False ?l3"
  have s: "send_lrrtt E ?l3 = (Inr (), [Dispatch iface (link_frame ?l3 LRRTT ct)], ?l')"
    using ct l3 by (simp add: send_lrrtt_def)
  have f: "link_frame ?l3 LRRTT ct = link_frame ?l' LRRTT ct"
    by (simp add: link_frame_def had_outbound_def Let_def)
  have "link_encrypt E ?l' (le_pack_rtt E ?rtt) = Inr ct"
    using ct by (simp add: link_encrypt_def had_outbound_def Let_def)
  moreover have "ln_state ?l' = STATE_ACTIVE" "ln_derived_key ?l' = Some ?key"
    "ln_link_id ?l' = ln_link_id l" "ln_mode ?l' = ln_mode l" "ln_mtu ?l' = MTU" "ln_initiator ?l' = ln_initiator l"
    using l3 by (simp_all add: had_outbound_def Let_def)
  ultimately show ?thesis using v a s f l by fastforce
qed

text \<open>What the first end of a link encrypts the second decrypts.\<close>

definition readable :: "crypto \<Rightarrow> link \<Rightarrow> link \<Rightarrow> bool" where
  "readable c l l' \<longleftrightarrow>
     (\<forall>E E' m. le_crypto E = c \<and> le_crypto E' = c \<and> length (le_iv E) = 16 \<longrightarrow>
        (\<exists>ct. link_encrypt E l m = Inr ct \<and> link_decrypt E' l' ct = Inr m))"

lemma readable_session:
  assumes "crypto_ok c" and "ln_derived_key l = Some (derive_key_hkdf c s z 64)" and "ln_derived_key l' = Some (derive_key_hkdf c s z 64)"
  shows "readable c l l'"
  using assms session_roundtrip [of _ l s z l'] by (auto simp add: readable_def)

lemma received_fields [simp]:
  "ln_initiator (received E p l) = ln_initiator l" "ln_prv_bytes (received E p l) = ln_prv_bytes l"
  "ln_mode (received E p l) = ln_mode l" "ln_request_time (received E p l) = ln_request_time l"
  "ln_destination (received E p l) = ln_destination l" "ln_link_id (received E p l) = ln_link_id l"
  "ln_derived_key (received E p l) = ln_derived_key l" "ln_mtu (received E p l) = ln_mtu l"
  "ln_watchdog_lock (received E p l)" "ln_pending_requests (received E p l) = ln_pending_requests l"
  "ln_establishment_timeout (received E p l) = ln_establishment_timeout l"
  "ln_state (received E p l) = (if ln_state l = STATE_STALE then STATE_ACTIVE else ln_state l)"
  by (simp_all add: received_def had_inbound_def Let_def)

lemma link_encrypt_key: "ln_derived_key l = ln_derived_key l' \<Longrightarrow> link_encrypt E l = link_encrypt E l'"
  by (rule ext) (simp add: link_encrypt_def)

lemma link_decrypt_same: "ln_derived_key l = ln_derived_key l' \<Longrightarrow> link_decrypt E l = link_decrypt E l'"
  by (rule ext) (simp add: link_decrypt_def)

text \<open>The round-trip time at the responder.\<close>

lemma lrrtt_accepted:
  assumes l: "ln_state l = STATE_HANDSHAKE" "\<not> ln_initiator l" and p: "p_packet_type p = DATA" "p_context p = LRRTT"
    and d: "link_decrypt E l (p_data p) = Inr plaintext" "le_read_rtt E plaintext = Some rtt"
  shows "\<exists>l'. link_receive E p l = (Inr (), [], l') \<and> ln_state l' = STATE_ACTIVE \<and> ln_link_id l' = ln_link_id l
    \<and> ln_derived_key l' = ln_derived_key l \<and> ln_mode l' = ln_mode l \<and> ln_mtu l' = ln_mtu l"
proof -
  have "link_decrypt E (received E p l) (p_data p) = Inr plaintext"
    using d(1) link_decrypt_same [of l "received E p l"] by simp
  then show ?thesis
    using l p d(2)
    by (simp add: link_receive_open handle_packet_def handle_data_packet_def handle_lrrtt_packet_def update_keepalive_def Let_def)
qed

section \<open>Properties\<close>

text \<open>
  C1. A link is established: the request of the initiator, the proof with which the destination answers it and the
  round-trip time that the initiator then sends leave both ends active, with the same link id, key, mode
  and MTU, and each end decrypts what the other encrypts. The destination's identity is known to
  the initiator, and the request arrives as it was sent.
\<close>

theorem link_establishment:
  assumes c: "crypto_ok c" "le_crypto EA = c" "le_crypto EB = c" "le_crypto EA' = c" "le_crypto EB' = c" "length (le_iv EA') = 16"
    and keys: "length prvA = 32" "length prvB = 32" "length (c_ed_pub c sigA) = 32"
    and dA: "d_identity dA = Some iA" "knows iA eP sP" and dB: "d_identity dB = Some iB" "owns iB ep eP sp sP"
    and sign: "signs EB sp sP" "le_send_ok EB" and rtt: "\<forall>x. le_read_rtt EB' (le_pack_rtt EA' x) \<noteq> None"
    and req: "initiate_prepare EA prvA sigA hops t (new_outbound E0 x dA MODE_AES256_CBC) = (Inr p, es, la)"
    and arrives: "p_data q = p_data p" "get_hashable_part q = get_hashable_part p"
  shows "\<exists>pd lb. validate_request EB ph prvB dB hs mx ce cp (p_data q) q = (Inr lb, [SendLinkPacket PROOF LRPROOF pd, RegisterLink])
    \<and> (\<forall>r iface. p_packet_type r = PROOF \<and> p_context r = LRPROOF \<and> p_data r = pd \<and> p_receiving_interface r = Some iface \<longrightarrow>
        (\<exists>la' ct. link_receive EA' r la = (Inr (), [Dispatch iface (link_frame la' LRRTT ct)], la') \<and> ln_state la' = STATE_ACTIVE
         \<and> (\<forall>s. p_packet_type s = DATA \<and> p_context s = LRRTT \<and> p_data s = ct \<longrightarrow>
             (\<exists>lb'. link_receive EB' s lb = (Inr (), [], lb') \<and> ln_state lb' = STATE_ACTIVE \<and> same_session la' lb'
               \<and> readable c la' lb' \<and> readable c lb' la'))))"
proof -
  note A = initiate_prepare_shape [OF req c(2) [symmetric]]
  have lid: "link_id_from_lr_packet (c_sha c) q = ln_link_id la"
    using A(6) arrives by (simp add: link_id_from_lr_packet_def Let_def)
  have xl: "length (c_x_pub c prvA) = 32" "length (c_x_pub c prvB) = 32" using crypto_okD(5) [OF c(1)] by simp_all
  have kl: "length eP = 32" "length sP = 32" using dB(2) by (simp_all add: owns_def)
  let ?lid = "ln_link_id la" and ?pb = "c_x_pub c prvB"
  let ?sig = "le_sign EB sp (?lid @ ?pb @ sP @ mtu_signalling)"
  let ?pd = "?sig @ ?pb @ mtu_signalling" and ?key = "derive_key_hkdf c ?lid (c_dh c prvA ?pb) 64"
  obtain lb where lb: "validate_request EB ph prvB dB hs mx ce cp (p_data q) q = (Inr lb, [SendLinkPacket PROOF LRPROOF ?pd, RegisterLink])"
    "ln_link_id lb = ?lid" "ln_derived_key lb = Some ?key" "ln_state lb = STATE_HANDSHAKE"
    "\<not> ln_initiator lb" "ln_mode lb = MODE_AES256_CBC" "ln_mtu lb = MTU"
    using validate_request_shape [OF c(1,3) _ xl(1) keys(3) dB keys(2) sign(2), of "p_data q" ph hs mx ce cp q] A(1) arrives(1) lid
      crypto_okD(4) [OF c(1), of prvB prvA] by auto
  have s: "length ?sig = 64" "c_ed_verify c sP (?lid @ ?pb @ sP @ mtu_signalling) ?sig"
    using sign(1) c(3) by (auto simp add: signs_def)
  have "\<exists>la' ct. link_receive EA' r la = (Inr (), [Dispatch iface (link_frame la' LRRTT ct)], la') \<and> ln_state la' = STATE_ACTIVE
         \<and> (\<forall>s. p_packet_type s = DATA \<and> p_context s = LRRTT \<and> p_data s = ct \<longrightarrow>
             (\<exists>lb'. link_receive EB' s lb = (Inr (), [], lb') \<and> ln_state lb' = STATE_ACTIVE \<and> same_session la' lb'
               \<and> readable c la' lb' \<and> readable c lb' la'))"
    if r: "p_packet_type r = PROOF" "p_context r = LRPROOF" "p_data r = ?pd" "p_receiving_interface r = Some iface" for r iface
  proof -
    let ?l = "received EA' r la"
    obtain ct l' x where h: "handle_link_proof EA' r ?l = (Inr (), [Dispatch iface (link_frame l' LRRTT ct)], l')"
      "link_encrypt EA' l' (le_pack_rtt EA' x) = Inr ct" "ln_state l' = STATE_ACTIVE" "ln_initiator l'"
      "ln_link_id l' = ?lid" "ln_mode l' = MODE_AES256_CBC" "ln_mtu l' = MTU" "ln_derived_key l' = Some ?key"
      using link_proof_accepted [OF c(1,4,6), of ?l prvA "le_now EA" iA eP sP r ?sig ?pb iface] A keys(1) dA kl xl s r by auto
    let ?la' = "l'\<lparr>ln_watchdog_lock := False\<rparr>"
    have 1: "link_receive EA' r la = (Inr (), [Dispatch iface (link_frame ?la' LRRTT ct)], ?la')"
      using h(1) A(2) r(1,2) by (simp add: link_receive_open handle_packet_def handle_proof_packet_def link_frame_def)
    have "\<exists>lb'. link_receive EB' s lb = (Inr (), [], lb') \<and> ln_state lb' = STATE_ACTIVE \<and> same_session ?la' lb'
        \<and> readable c ?la' lb' \<and> readable c lb' ?la'"
      if s: "p_packet_type s = DATA" "p_context s = LRRTT" "p_data s = ct" for s
    proof -
      obtain ct' where "link_encrypt EA' l' (le_pack_rtt EA' x) = Inr ct'" "link_decrypt EB' lb ct' = Inr (le_pack_rtt EA' x)"
        using session_roundtrip [of EA' l' ?lid "c_dh c prvA ?pb" lb EB'] c h(8) lb(3) by auto
      with h(2) have "link_decrypt EB' lb (p_data s) = Inr (le_pack_rtt EA' x)" using s(3) by simp
      moreover obtain y where "le_read_rtt EB' (le_pack_rtt EA' x) = Some y" using rtt by auto
      ultimately show ?thesis
        using lrrtt_accepted [OF lb(4,5) s(1,2), of EB' "le_pack_rtt EA' x" y] readable_session [OF c(1), of _ ?lid "c_dh c prvA ?pb"] h lb by (auto simp add: same_session_def)
    qed
    with 1 h(3) show ?thesis by (intro exI [of _ ?la'] exI [of _ ct]) auto
  qed
  with lb(1) show ?thesis by (intro exI [of _ ?pd] exI [of _ lb]) blast
qed

lemma link_ok_validate_request:
  assumes "fst (validate_request E ph prv d hs mx ce cp data p) = Inr l" and "le_crypto E = c"
  shows "link_ok c l" and "\<not> ln_initiator l" and "ln_destination l = d"
proof -
  let ?l0 = "new_inbound E ph d hs mx"
  obtain l1 i pub pk r1 l2 r2 es l3 where 1: "load_peer (take 32 data) (byte_range 32 64 data) ?l0 = (Inr (), l1)"
    "handshake c (load_signing_keys pub pk (prepare_inbound E prv ce cp data p l1)) = (Inr (), l2)"
    "prove_with_identity E i (l2\<lparr>ln_attached_interface := p_receiving_interface p\<rparr>) = (Inr (), es, l3)"
    "l = had_inbound E True (l3\<lparr>ln_request_time := Some (le_now E)\<rparr>)"
    using assms
    by (auto simp add: validate_request_def Let_def split: if_splits option.splits sum.splits prod.splits)
  have "core l1 = core ?l0" using 1(1) by (auto simp add: load_peer_def core_def split: if_splits)
  then have k: "core (load_signing_keys pub pk (prepare_inbound E prv ce cp data p l1)) = core ?l0" (is "core ?k = _")
    by (simp add: load_signing_keys_def prepare_inbound_def update_mdu_def core_def Let_def)
  have "link_ok c ?l0" by (simp add: new_inbound_def new_link_def link_ok_def core_def)
  then have 2: "link_ok c l2" using link_ok_handshake [OF _ 1(2)] link_ok_core [OF k] by simp
  have "ln_initiator ?k = False" "ln_destination ?k = d"
    using k by (simp_all add: core_def new_inbound_def new_link_def)
  then have f: "ln_initiator l2 = False" "ln_destination l2 = d"
    using handshake_core [OF 1(2)] by (auto simp add: core_def)
  have "core l3 = core l2"
    using 1(3) by (auto simp add: prove_with_identity_def core_def Let_def split: sum.splits option.splits if_splits)
  then have 3: "core l = core l2" unfolding 1(4) core_had by (simp add: core_def)
  then show "link_ok c l" using 2 by (simp add: link_ok_def)
  show "\<not> ln_initiator l" "ln_destination l = d"
    using f 3 by (simp_all add: core_def)
qed

text \<open>
  C2. Every state a link can come to, through any messages, received packets, turns of the watchdog and
  threads. A pending or closed link has no session key; an initiator's link is active or stale
  only with a key that the destination's identity signed; a remote identity signed a link id with its public key. A closed
  link stays closed, and an identified peer stays the same.
\<close>

theorem link_invariant:
  assumes start: "l0 = new_outbound E x d mode \<or> fst (validate_request E ph prv d hs mx ce cp data p) = Inr l0"
    and c: "le_crypto E = c" and run: "link_run c l0 l"
  shows "(ln_state l \<in> {STATE_PENDING, STATE_CLOSED} \<longrightarrow> ln_derived_key l = None \<and> ln_shared_key l = None \<and> ln_token l = None)
    \<and> (ln_initiator l \<and> ln_state l \<in> {STATE_ACTIVE, STATE_STALE} \<longrightarrow> authenticated c d (ln_derived_key l))
    \<and> (\<forall>i. ln_remote_identity l = Some i \<longrightarrow> identified c i)
    \<and> ln_status l = (if ln_state l = STATE_HANDSHAKE then STATE_PENDING else ln_state l)
    \<and> (\<forall>l'. link_run c l l' \<longrightarrow> (ln_state l = STATE_CLOSED \<longrightarrow> ln_state l' = STATE_CLOSED)
         \<and> (\<forall>i. ln_remote_identity l = Some i \<longrightarrow> ln_remote_identity l' = Some i))"
proof -
  have l0: "link_ok c l0" "ln_destination l0 = d"
    using start link_ok_new_outbound link_ok_validate_request [OF _ c] by (auto simp add: new_outbound_def new_link_def)
  have a: "advances c l0 l" by (rule advances_run [OF run])
  have ok: "link_ok c l" "ln_destination l = d" using a l0 by (auto simp add: advances_def)
  have "advances c l l'" if "link_run c l l'" for l' by (rule advances_run [OF that])
  then show ?thesis
    using ok by (auto simp add: link_ok_def core_def advances_def)
qed

text \<open>A concrete environment, for the witnesses.\<close>

definition idle_resource_env :: resource_env where
  "idle_resource_env = \<lparr> re_full_hash = (\<lambda>x. x), re_encrypt = Some, re_decrypt = Some, re_compress = Some, re_decompress = Some,
     re_hmu_pack = (\<lambda>n h. h), re_hmu_unpack = (\<lambda>x. None), re_link_active = True, re_send_ok = True, re_carried = True \<rparr>"

definition demo_link_env :: "real \<Rightarrow> link_env" where
  "demo_link_env now = \<lparr> le_crypto = toy_crypto, le_sign = (\<lambda>k m. replicate 64 5), le_iv = replicate 16 3, le_now = now, le_send_ok = True,
     le_dispatch_ok = True, le_pack_rtt = (\<lambda>x. [if x = 0.001 then 1 else 0]), le_read_rtt = (\<lambda>x. Some 0.001),
     le_pack_request = (\<lambda>t h d. Inr (h @ d)), le_read_request = (\<lambda>x. Some (0, take 16 x, drop 16 x)),
     le_pack_response = (\<lambda>i d. Inr (i @ d)), le_read_response = (\<lambda>x. Some (take 16 x, drop 16 x)),
     le_read_adv = (\<lambda>x. None), le_resource = idle_resource_env \<rparr>"

definition demo_identity :: identity where
  "demo_identity = \<lparr> encryption_prv_key = Some (replicate 32 1), encryption_pub_key = Some (replicate 32 2),
     signing_prv_key = Some (replicate 32 3), signing_pub_key = Some (replicate 32 4), id_hash = None, id_ratchets = [] \<rparr>"

definition demo_destination :: destination where
  "demo_destination = sample_destination\<lparr>d_identity := Some demo_identity\<rparr>"

text \<open>The link request of the witnesses.\<close>

definition demo_request :: "(error + packet) \<times> link_effect list \<times> link" where
  "demo_request = initiate_prepare (demo_link_env 0) (replicate 32 7) (replicate 32 8) 1 6
     (new_outbound (demo_link_env 0) (replicate 16 0) demo_destination MODE_AES256_CBC)"

theorem link_establishment_witness:
  "\<exists>p es la. demo_request = (Inr p, es, la)
    \<and> (\<exists>pd lb. validate_request (demo_link_env 1) [] (replicate 32 9) demo_destination [] None True False (p_data p) p
          = (Inr lb, [SendLinkPacket PROOF LRPROOF pd, RegisterLink])
        \<and> (\<exists>la' ct. link_receive (demo_link_env 2)
               ((new_packet None [] PROOF LRPROOF BROADCAST HEADER_1 None None False 0)\<lparr>p_data := pd, p_receiving_interface := Some ''tcp''\<rparr>) la
             = (Inr (), [Dispatch ''tcp'' (link_frame la' LRRTT ct)], la') \<and> ln_state la' = STATE_ACTIVE))"
proof -
  obtain p es la where r: "demo_request = (Inr p, es, la)"
    by (cases demo_request) (auto simp add: demo_request_def initiate_prepare_def new_outbound_def new_link_def mtu_signalling_eq Let_def)
  have e: "le_crypto (demo_link_env t) = toy_crypto" "length (le_iv (demo_link_env t)) = 16" "le_send_ok (demo_link_env t)"
    "signs (demo_link_env t) (replicate 32 3) (replicate 32 4)" "le_read_rtt (demo_link_env t) m \<noteq> None" for t m
    by (simp_all add: demo_link_env_def signs_def toy_crypto_def)
  have i: "d_identity demo_destination = Some demo_identity" "knows demo_identity (replicate 32 2) (replicate 32 4)"
    "owns demo_identity (replicate 32 1) (replicate 32 2) (replicate 32 3) (replicate 32 4)"
    by (simp_all add: demo_destination_def demo_identity_def knows_def owns_def)
  have k: "length (c_ed_pub toy_crypto (replicate 32 8)) = 32" by (simp add: toy_crypto_def)
  obtain pd lb where "validate_request (demo_link_env 1) [] (replicate 32 9) demo_destination [] None True False (p_data p) p
      = (Inr lb, [SendLinkPacket PROOF LRPROOF pd, RegisterLink])"
    and *: "\<And>q iface. p_packet_type q = PROOF \<and> p_context q = LRPROOF \<and> p_data q = pd \<and> p_receiving_interface q = Some iface \<Longrightarrow>
        (\<exists>la' ct. link_receive (demo_link_env 2) q la = (Inr (), [Dispatch iface (link_frame la' LRRTT ct)], la') \<and> ln_state la' = STATE_ACTIVE)"
    using link_establishment [OF toy_crypto_ok e(1) [of 0] e(1) [of 1] e(1) [of 2] e(1) [of 3] e(2) _ _ k i(1,2) i(1,3) e(4) [of 1] e(3) _
        r [unfolded demo_request_def] refl refl, of "replicate 32 9" "[]" "[]" None True False] e(5)
    by fastforce
  moreover have "\<exists>la' ct. link_receive (demo_link_env 2)
               ((new_packet None [] PROOF LRPROOF BROADCAST HEADER_1 None None False 0)\<lparr>p_data := pd, p_receiving_interface := Some ''tcp''\<rparr>) la
             = (Inr (), [Dispatch ''tcp'' (link_frame la' LRRTT ct)], la') \<and> ln_state la' = STATE_ACTIVE"
    by (rule *) (simp add: new_packet_def)
  ultimately show ?thesis using r by blast
qed

theorem link_invariant_witness:
  "\<exists>l. link_run toy_crypto (new_outbound (demo_link_env 0) [] demo_destination MODE_AES256_CBC) l
     \<and> ln_state l = STATE_CLOSED \<and> ln_derived_key l = None \<and> ln_shared_key l = None \<and> ln_token l = None"
proof -
  let ?l = "new_outbound (demo_link_env 0) [] demo_destination MODE_AES256_CBC"
  obtain es l where t: "teardown (demo_link_env 1) ?l = (es, l)" by fastforce
  have s: "ln_state l = STATE_CLOSED" using teardown_core [of "demo_link_env 1" ?l] t by (simp add: core_def)
  have c: "le_crypto (demo_link_env x) = toy_crypto" for x by (simp add: demo_link_env_def)
  have "actor_turn (demo_link_env 1) [] (Some MTeardown) ?l = (False, es, [], l)"
    using t by (simp add: actor_turn_def actor_handle_message_def new_outbound_def new_link_def)
  from link_step.turn [OF c this] have r: "link_run toy_crypto ?l l" by (blast intro: link_run.intros)
  show ?thesis
    using link_invariant [OF disjI1 [OF refl] c r] r s by blast
qed

end
