(* ===== verification/Destination_Correct.thy ===== *)
theory Destination_Correct
  imports Destination Link_Correct
begin

text \<open>
  Theorems on destinations. All clones of a destination act as one object with one list of ratchets: a simulation between
  the clones with their shared cell and file, and a single object, over every history of operations. From it: what a peer
  encrypts to an announced ratchet is read by every clone. Then the well-formedness of a destination under all its
  operations, and three places where its keys fail.
\<close>

section \<open>The clones of a destination act as one object\<close>

text \<open>
  The specification is one object with a list of ratchets, newest first, and the time of the last rotation. Each handle
  on it has its own settings: the interval and the number of ratchets to retain.
\<close>

record single_object =
  so_ratchets :: "bytes list"
  so_time :: nat
  so_settings :: "(nat \<times> nat) list"

definition so_rotate :: "nat \<Rightarrow> nat \<Rightarrow> nat \<Rightarrow> bytes \<Rightarrow> single_object \<Rightarrow> bool \<times> single_object" where
  "so_rotate interval retained now key so =
     (if ratchet_due now (so_time so) interval then (True, so\<lparr>so_ratchets := take retained (key # so_ratchets so), so_time := now\<rparr>)
      else (False, so))"

definition so_announced :: "crypto \<Rightarrow> single_object \<Rightarrow> bytes option" where
  "so_announced c so = (case so_ratchets so of r # _ \<Rightarrow> if length r = 32 then Some (c_x_pub c r) else None | [] \<Rightarrow> None)"

datatype clone_step =
    CloneOf nat
  | RotateBy nat dest_env
  | AnnounceBy nat dest_env "bytes option" bool "string option"
  | DecryptBy nat dest_env bytes
  | SetRetained nat nat
  | SetInterval nat nat

datatype clone_output = NoOutput | Rotated "error + bool" | Announced "bytes option" | Decrypted "error + bytes"

fun step_env :: "clone_step \<Rightarrow> dest_env option" where
  "step_env (RotateBy _ E) = Some E"
| "step_env (AnnounceBy _ E _ _ _) = Some E"
| "step_env (DecryptBy _ E _) = Some E"
| "step_env _ = None"

fun step_clone :: "clone_step \<Rightarrow> nat" where
  "step_clone (CloneOf k) = k"
| "step_clone (RotateBy k _) = k"
| "step_clone (AnnounceBy k _ _ _ _) = k"
| "step_clone (DecryptBy k _ _) = k"
| "step_clone (SetRetained k _) = k"
| "step_clone (SetInterval k _) = k"

text \<open>One operation of one clone, on its record and the store. An announce is untagged and returns its packet.\<close>

fun clone_do :: "clone_step \<Rightarrow> local_destination \<Rightarrow> dest_store \<Rightarrow> clone_output \<times> local_destination list \<times> dest_store" where
  "clone_do (CloneOf _) d st = (NoOutput, [d, d], st)"
| "clone_do (RotateBy _ E) d st = (case rotate_ratchets E d st of (r, d, st) \<Rightarrow> (Rotated r, [d], st))"
| "clone_do (AnnounceBy _ E app path_response iface) d st =
     (case dest_announce E app path_response iface None False d st of
        (r, _, d, st) \<Rightarrow>
          (Announced (case r of Inr (Some p) \<Rightarrow> extract_announce_ratchet p | _ \<Rightarrow> None), [d], st))"
| "clone_do (DecryptBy _ E ct) d st = (case dest_decrypt E ct d st of (r, d, st) \<Rightarrow> (Decrypted r, [d], st))"
| "clone_do (SetRetained _ n) d st = (NoOutput, [snd (set_retained_ratchets n d)], st)"
| "clone_do (SetInterval _ n) d st = (NoOutput, [snd (set_ratchet_interval n d)], st)"

definition clones_step ::
  "clone_step \<Rightarrow> local_destination list \<times> dest_store \<Rightarrow> clone_output \<times> local_destination list \<times> dest_store"
where
  "clones_step x s =
     (case s of (ds, st) \<Rightarrow>
        if step_clone x < length ds then
          (case clone_do x (ds ! step_clone x) st of
             (out, new, st) \<Rightarrow> (out, ds[step_clone x := hd new] @ tl new, st))
        else (NoOutput, ds, st))"

text \<open>The same operation of the one object, through the handle with the settings \<open>(interval, retained)\<close>.\<close>

fun single_do ::
  "crypto \<Rightarrow> identity \<Rightarrow> clone_step \<Rightarrow> nat \<times> nat \<Rightarrow> single_object \<Rightarrow> clone_output \<times> (nat \<times> nat) list \<times> single_object"
where
  "single_do c i (CloneOf _) s so = (NoOutput, [s, s], so)"
| "single_do c i (RotateBy _ E) s so =
     (case so_rotate (fst s) (snd s) (de_now E) (de_ratchet_prv E) so of (b, so) \<Rightarrow> (Rotated (Inr b), [s], so))"
| "single_do c i (AnnounceBy _ E app path_response iface) s so =
     (case so_rotate (fst s) (snd s) (de_now E) (de_ratchet_prv E) so of (b, so) \<Rightarrow> (Announced (so_announced c so), [s], so))"
| "single_do c i (DecryptBy _ E ct) s so = (Decrypted (decrypt_with_ratchets c i ct (Some (so_ratchets so))), [s], so)"
| "single_do c i (SetRetained _ n) s so = (NoOutput, [if n > 0 then (fst s, n) else s], so)"
| "single_do c i (SetInterval _ n) s so = (NoOutput, [if n > 0 then (n, snd s) else s], so)"

definition single_step :: "crypto \<Rightarrow> identity \<Rightarrow> clone_step \<Rightarrow> single_object \<Rightarrow> clone_output \<times> single_object" where
  "single_step c i x so =
     (let ss = so_settings so in
      if step_clone x < length ss then
        (case single_do c i x (ss ! step_clone x) so of
           (out, new, so) \<Rightarrow> (out, so\<lparr>so_settings := ss[step_clone x := hd new] @ tl new\<rparr>))
      else (NoOutput, so))"

fun outputs :: "('e \<Rightarrow> 's \<Rightarrow> 'o \<times> 's) \<Rightarrow> 'e list \<Rightarrow> 's \<Rightarrow> 'o list \<times> 's" where
  "outputs f [] s = ([], s)"
| "outputs f (x # xs) s = (case f x s of (out, s) \<Rightarrow> (case outputs f xs s of (outs, s) \<Rightarrow> (out # outs, s)))"

text \<open>
  A simulation: related states give the same output and related states, for the steps that are allowed. Then whole histories
  give the same outputs.
\<close>

locale simulation =
  fixes step :: "'e \<Rightarrow> 's \<Rightarrow> 'o \<times> 's"
    and spec :: "'e \<Rightarrow> 'a \<Rightarrow> 'o \<times> 'a"
    and related :: "'s \<Rightarrow> 'a \<Rightarrow> bool"
    and allowed :: "'e \<Rightarrow> bool"
  assumes step_output: "related s a \<Longrightarrow> allowed x \<Longrightarrow> fst (step x s) = fst (spec x a)"
    and step_related: "related s a \<Longrightarrow> allowed x \<Longrightarrow> related (snd (step x s)) (snd (spec x a))"
begin

lemma same_outputs:
  assumes "related s a" "\<forall>x\<in>set xs. allowed x"
  shows "fst (outputs step xs s) = fst (outputs spec xs a) \<and> related (snd (outputs step xs s)) (snd (outputs spec xs a))"
  using assms
proof (induction xs arbitrary: s a)
  case (Cons x xs)
  have x: "allowed x" using Cons.prems(2) by simp
  show ?case
    using Cons.IH [OF step_related [OF Cons.prems(1) x]] step_output [OF Cons.prems(1) x] Cons.prems(2)
    by (simp add: split_def)
qed simp

end

text \<open>
  Files that work: what is written is there, what is read is what is there, MessagePack loses nothing, and a signature
  made with a key validates under it.
\<close>

definition steady :: "crypto \<Rightarrow> (mp_value \<Rightarrow> bytes) \<Rightarrow> (bytes \<Rightarrow> mp_value option) \<Rightarrow> dest_env \<Rightarrow> bool" where
  "steady c wr rd E \<longleftrightarrow>
     de_crypto E = c \<and> de_write_mp E = wr \<and> de_read_mp E = rd \<and> (\<forall>k x. de_read E k x = x)
     \<and> (\<forall>p. de_write_ok E p \<and> de_rename_ok E p)
     \<and> (\<forall>prv m. length (le_sign (de_link E) prv m) = 64 \<and> c_ed_verify c (c_ed_pub c prv) m (le_sign (de_link E) prv m))"

definition mp_lossless :: "(mp_value \<Rightarrow> bytes) \<Rightarrow> (bytes \<Rightarrow> mp_value option) \<Rightarrow> bool" where
  "mp_lossless wr rd \<longleftrightarrow>
     (\<forall>rs. rd (wr (MpArray (map MpBinary rs))) = Some (MpArray (map MpBinary rs)))
     \<and> (\<forall>k k' s p. rd (wr (MpMap [(MpString k, MpBinary s), (MpString k', MpBinary p)]))
           = Some (MpMap [(MpString k, MpBinary s), (MpString k', MpBinary p)]))"

definition owner_keys :: "crypto \<Rightarrow> identity \<Rightarrow> bytes \<Rightarrow> bool" where
  "owner_keys c i prv \<longleftrightarrow>
     signing_prv_key i = Some prv \<and> signing_pub_key i = Some (c_ed_pub c prv) \<and> length (c_ed_pub c prv) = 32
     \<and> (\<exists>e. encryption_pub_key i = Some e \<and> length e = 32)"

lemma steadyD:
  assumes "steady c wr rd E"
  shows "de_crypto E = c" "de_write_mp E = wr" "de_read_mp E = rd" "de_read E k x = x" "de_write_ok E p" "de_rename_ok E p"
    "length (le_sign (de_link E) prv m) = 64" "c_ed_verify c (c_ed_pub c prv) m (le_sign (de_link E) prv m)"
  using assms by (auto simp: steady_def)

section \<open>The ratchet file\<close>

lemma those_map_Some: "(\<And>x. f (g x) = Some x) \<Longrightarrow> those (map f (map g xs)) = Some xs"
  by (induction xs) auto

lemma unpack_pack_ratchets:
  assumes "mp_lossless (de_write_mp E) (de_read_mp E')"
  shows "unpack_ratchets E' (pack_ratchets E rs) = Inr rs"
  using assms those_map_Some [of ratchet_item MpBinary rs]
  by (simp add: unpack_ratchets_def pack_ratchets_def mp_lossless_def)

lemma unpack_pack_ratchet_file:
  assumes "mp_lossless (de_write_mp E) (de_read_mp E')"
  shows "unpack_ratchet_file E' (pack_ratchet_file E sig packed) = Inr (sig, packed)"
  using assms by (simp add: unpack_ratchet_file_def pack_ratchet_file_def mp_lossless_def mp_field_def)

lemma identity_sign_owner:
  assumes "owner_keys c i prv"
  shows "identity_sign E i m = Inr (le_sign E prv m)"
  using assms by (simp add: identity_sign_def owner_keys_def)

lemma validate_owner:
  assumes "owner_keys c i prv" "steady c wr rd E"
  shows "validate c i (le_sign (de_link E) prv m) m"
  using assms steadyD(7,8) [OF assms(2)] by (simp add: validate_def owner_keys_def)

text \<open>The mirror may be any file but one whose temporary file is the ratchet file itself.\<close>

definition mirror_ok :: "string \<Rightarrow> local_destination \<Rightarrow> bool" where
  "mirror_ok path d \<longleftrightarrow> (\<forall>m. ld_ratchets_mirror_path d = Some m \<longrightarrow> m @ ''.tmp'' \<noteq> path)"

definition file_holds ::
  "crypto \<Rightarrow> (mp_value \<Rightarrow> bytes) \<Rightarrow> (bytes \<Rightarrow> mp_value option) \<Rightarrow> identity \<Rightarrow> string \<Rightarrow> bytes list \<Rightarrow> dest_store \<Rightarrow> bool"
where
  "file_holds c wr rd i path rs st \<longleftrightarrow>
     (\<exists>content. ds_files st path = Some content
        \<and> (\<forall>E d. steady c wr rd E \<longrightarrow> d_identity d = Some i \<longrightarrow>
             reload_ratchets E path d st = (Inr (), d\<lparr>ld_ratchets := Some rs, ld_ratchets_path := Some path\<rparr>, st)))"

lemma write_steady:
  assumes "steady c wr rd E"
  shows "write_ratchet_file_atomically E p data files = (Inr (), (files(p @ ''.tmp'' := None))(p \<mapsto> data))"
  using steadyD(5,6) [OF assms] by (simp add: write_ratchet_file_atomically_def Let_def)

lemma file_holdsI:
  assumes "owner_keys c i prv" "steady c wr rd E" "mp_lossless wr rd"
    and f: "ds_files st path = Some (pack_ratchet_file E (le_sign (de_link E) prv (pack_ratchets E rs)) (pack_ratchets E rs))"
  shows "file_holds c wr rd i path rs st"
proof -
  have "load_attempt E' 0 (ds_files st path) i = Inr rs" if "steady c wr rd E'" for E'
  proof -
    have l: "mp_lossless (de_write_mp E) (de_read_mp E')"
      using assms(2,3) that by (simp add: steadyD(2) [OF assms(2)] steadyD(3) [OF that])
    show ?thesis
      by (simp add: load_attempt_def f steadyD(1,4) [OF that] unpack_pack_ratchet_file [OF l] unpack_pack_ratchets [OF l]
          validate_owner [OF assms(1,2)])
  qed
  then show ?thesis by (simp add: file_holds_def f reload_ratchets_def)
qed

lemma persist_steady:
  assumes "owner_keys c i prv" "steady c wr rd E" "mp_lossless wr rd"
    and d: "\<not> ld_ratchets_frozen d" "ld_ratchets_path d = Some path" "ld_ratchets d = Some rs" "d_identity d = Some i"
      "mirror_ok path d"
  shows "\<exists>files. persist_ratchets E d st = (Inr (), st\<lparr>ds_files := files\<rparr>)
     \<and> (\<forall>st'. ds_files st' = files \<longrightarrow> file_holds c wr rd i path rs st')"
proof -
  let ?data = "pack_ratchet_file E (le_sign (de_link E) prv (pack_ratchets E rs)) (pack_ratchets E rs)"
  let ?f1 = "((ds_files st)(path @ ''.tmp'' := None))(path \<mapsto> ?data)"
  let ?f2 = "case ld_ratchets_mirror_path d of None \<Rightarrow> ?f1
    | Some m \<Rightarrow> (?f1(m @ ''.tmp'' := None))(m \<mapsto> ?data)"
  have p: "persist_ratchets E d st = (Inr (), st\<lparr>ds_files := ?f2\<rparr>)"
    by (simp add: persist_ratchets_def d(1-4) Let_def identity_sign_owner [OF assms(1)] write_steady [OF assms(2)]
        split: option.split)
  have "?f2 path = Some ?data"
    using d(5) by (auto simp: mirror_ok_def split: option.split)
  then have "file_holds c wr rd i path rs st'" if "ds_files st' = ?f2" for st'
    by (intro file_holdsI [OF assms(1-3)]) (simp only: that)
  with p show ?thesis by (intro exI [of _ ?f2] conjI allI impI)
qed

section \<open>The simulation\<close>

text \<open>A clone of the destination that owns the cell, and how it stands to the cell.\<close>

definition clone_ok :: "identity \<Rightarrow> string \<Rightarrow> nat \<Rightarrow> local_destination \<Rightarrow> bool" where
  "clone_ok i path a d \<longleftrightarrow>
     d_dest_type d = Single \<and> d_identity d = Some i \<and> ld_direction d = IN \<and> \<not> ld_ratchets_frozen d
     \<and> ld_ratchets_path d = Some path \<and> ld_ratchet_shared d = a \<and> ld_ratchets d \<noteq> None \<and> mirror_ok path d
     \<and> length (ld_name_hash d) = NAME_HASH_LEN"

definition in_sync :: "shared_ratchet_state \<Rightarrow> local_destination \<Rightarrow> bool" where
  "in_sync cell d \<longleftrightarrow>
     ld_ratchet_generation d \<le> sr_generation cell
     \<and> (ld_ratchet_generation d = sr_generation cell \<longrightarrow>
          ld_ratchets d = sr_ratchets cell \<and> ld_latest_ratchet_time d = sr_latest_ratchet_time cell)"

definition cell_holds :: "single_object \<Rightarrow> shared_ratchet_state \<Rightarrow> bool" where
  "cell_holds so cell \<longleftrightarrow> sr_ratchets cell = Some (so_ratchets so) \<and> sr_latest_ratchet_time cell = so_time so"

definition settings_of :: "local_destination \<Rightarrow> nat \<times> nat" where
  "settings_of d = (ld_ratchet_interval d, ld_retained_ratchets d)"

definition clones_refine ::
  "crypto \<Rightarrow> (mp_value \<Rightarrow> bytes) \<Rightarrow> (bytes \<Rightarrow> mp_value option) \<Rightarrow> identity \<Rightarrow> string \<Rightarrow> nat
   \<Rightarrow> local_destination list \<times> dest_store \<Rightarrow> single_object \<Rightarrow> bool"
where
  "clones_refine c wr rd i path a s so \<longleftrightarrow>
     (\<forall>d\<in>set (fst s). clone_ok i path a d \<and> in_sync (ds_cells (snd s) a) d)
     \<and> cell_holds so (ds_cells (snd s) a) \<and> so_settings so = map settings_of (fst s)
     \<and> file_holds c wr rd i path (so_ratchets so) (snd s)"

definition clone_holds ::
  "crypto \<Rightarrow> (mp_value \<Rightarrow> bytes) \<Rightarrow> (bytes \<Rightarrow> mp_value option) \<Rightarrow> identity \<Rightarrow> string \<Rightarrow> nat
   \<Rightarrow> local_destination \<Rightarrow> dest_store \<Rightarrow> single_object \<Rightarrow> bool"
where
  "clone_holds c wr rd i path a d st so \<longleftrightarrow>
     clone_ok i path a d \<and> in_sync (ds_cells st a) d \<and> cell_holds so (ds_cells st a)
     \<and> file_holds c wr rd i path (so_ratchets so) st"

definition stays_in_step :: "dest_store \<Rightarrow> dest_store \<Rightarrow> nat \<Rightarrow> bool" where
  "stays_in_step st st' a \<longleftrightarrow> (\<forall>d. in_sync (ds_cells st a) d \<longrightarrow> in_sync (ds_cells st' a) d)"

lemma adopt_sync:
  assumes "in_sync cell d" "cell_holds so cell"
  shows "adopt_shared_ratchets cell d =
     d\<lparr>ld_ratchets := Some (so_ratchets so), ld_latest_ratchet_time := so_time so, ld_ratchet_generation := sr_generation cell\<rparr>"
  using assms by (cases "sr_generation cell = ld_ratchet_generation d")
    (simp_all add: adopt_shared_ratchets_def in_sync_def cell_holds_def)

lemma clean_ratchets_take:
  assumes "ld_ratchets d = Some rs"
  shows "clean_ratchets d = d\<lparr>ld_ratchets := Some (take (ld_retained_ratchets d) rs)\<rparr>"
  using assms by (simp add: clean_ratchets_def)

lemma clone_ok_update:
  "clone_ok i path a d \<Longrightarrow> clone_ok i path a (d\<lparr>ld_ratchets := Some rs, ld_latest_ratchet_time := t, ld_ratchet_generation := g\<rparr>)"
  by (simp add: clone_ok_def mirror_ok_def)

lemma rotate_refines:
  assumes "owner_keys c i prv" "steady c wr rd E" "mp_lossless wr rd" and h: "clone_holds c wr rd i path a d st so"
  obtains b so' d' st' g where "rotate_ratchets E d st = (Inr b, d', st')"
    "so_rotate (ld_ratchet_interval d) (ld_retained_ratchets d) (de_now E) (de_ratchet_prv E) so = (b, so')"
    "d' = d\<lparr>ld_ratchets := Some (so_ratchets so'), ld_latest_ratchet_time := so_time so', ld_ratchet_generation := g\<rparr>"
    "clone_holds c wr rd i path a d' st' so'" "so_settings so' = so_settings so" "stays_in_step st st' a"
    "ds_known_ratchets st' = ds_known_ratchets st"
proof -
  have d: "clone_ok i path a d" "in_sync (ds_cells st a) d" "cell_holds so (ds_cells st a)"
    "file_holds c wr rd i path (so_ratchets so) st" using h by (simp_all add: clone_holds_def)
  let ?cell = "ds_cells st a"
  let ?d = "d\<lparr>ld_ratchets := Some (so_ratchets so), ld_latest_ratchet_time := so_time so,
    ld_ratchet_generation := sr_generation ?cell\<rparr>"
  have a: "adopt_shared_ratchets ?cell d = ?d" by (rule adopt_sync [OF d(2,3)])
  have s: "ld_ratchet_shared d = a" "ld_ratchets d \<noteq> None" "\<not> ld_ratchets_frozen d" using d(1) by (simp_all add: clone_ok_def)
  show ?thesis
  proof (cases "ratchet_due (de_now E) (so_time so) (ld_ratchet_interval d)")
    case False
    then have "rotate_ratchets E d st = (Inr False, ?d, st)"
      using s a by (simp add: rotate_ratchets_def Let_def)
    then show ?thesis
      using False d clone_ok_update [OF d(1)]
      by (intro that [of False ?d st so]) (auto simp: so_rotate_def clone_holds_def in_sync_def cell_holds_def stays_in_step_def)
  next
    case True
    let ?rs = "take (ld_retained_ratchets d) (de_ratchet_prv E # so_ratchets so)"
    let ?so = "so\<lparr>so_ratchets := ?rs, so_time := de_now E\<rparr>"
    let ?d1 = "?d\<lparr>ld_ratchets := Some ?rs, ld_latest_ratchet_time := de_now E\<rparr>"
    have cl: "clean_ratchets (?d\<lparr>ld_ratchets := map_option (\<lambda>rs. de_ratchet_prv E # rs) (ld_ratchets ?d),
        ld_latest_ratchet_time := de_now E\<rparr>) = ?d1"
      by (simp add: clean_ratchets_def)
    obtain files where p: "persist_ratchets E ?d1 st = (Inr (), st\<lparr>ds_files := files\<rparr>)"
      "\<And>st'. ds_files st' = files \<Longrightarrow> file_holds c wr rd i path ?rs st'"
      using persist_steady [OF assms(1-3), of ?d1 path ?rs st] d(1) by (auto simp: clone_ok_def mirror_ok_def)
    let ?cell' = "\<lparr> sr_ratchets = Some ?rs, sr_latest_ratchet_time = de_now E, sr_generation = sr_generation ?cell + 1 \<rparr>"
    let ?d2 = "?d1\<lparr>ld_ratchet_generation := sr_generation ?cell + 1\<rparr>"
    let ?st = "st\<lparr>ds_files := files, ds_cells := (ds_cells st)(a := ?cell')\<rparr>"
    have r: "rotate_ratchets E d st = (Inr True, ?d2, ?st)"
      using s a True by (simp add: rotate_ratchets_def Let_def cl [simplified] p(1) [simplified])
    have st: "stays_in_step st ?st a" by (simp add: stays_in_step_def in_sync_def)
    have "clone_ok i path a ?d2"
      using clone_ok_update [OF d(1), where rs = ?rs and t = "de_now E" and g = "sr_generation ?cell + 1"] by simp
    then have "clone_holds c wr rd i path a ?d2 ?st ?so"
      using p(2) [of ?st] by (simp add: clone_holds_def in_sync_def cell_holds_def)
    then show ?thesis
      using r st True by (intro that [of True ?d2 ?st ?so "sr_generation ?cell + 1"]) (auto simp: so_rotate_def)
  qed
qed

lemma decrypt_refines:
  assumes "steady c wr rd E" and h: "clone_holds c wr rd i path a d st so"
  obtains d' where "dest_decrypt E ct d st = (decrypt_with_ratchets c i ct (Some (so_ratchets so)), d', st)"
     "clone_holds c wr rd i path a d' st so" "settings_of d' = settings_of d"
proof -
  have d: "clone_ok i path a d" "in_sync (ds_cells st a) d" "cell_holds so (ds_cells st a)"
    "file_holds c wr rd i path (so_ratchets so) st" using h by (simp_all add: clone_holds_def)
  let ?d = "d\<lparr>ld_ratchets := Some (so_ratchets so), ld_latest_ratchet_time := so_time so,
    ld_ratchet_generation := sr_generation (ds_cells st a)\<rparr>"
  have a: "adopt_shared_ratchets (ds_cells st a) d = ?d" by (rule adopt_sync [OF d(2,3)])
  have i: "d_dest_type d = Single" "d_identity d = Some i" "ld_ratchets_path d = Some path" "ld_ratchet_shared d = a"
      "ld_ratchets d \<noteq> None"
    using d(1) by (simp_all add: clone_ok_def)
  have rl: "reload_ratchets E path ?d st = (Inr (), ?d, st)"
  proof -
    have "reload_ratchets E path ?d st = (Inr (), ?d\<lparr>ld_ratchets := Some (so_ratchets so), ld_ratchets_path := Some path\<rparr>, st)"
      using d(4) assms(1) i(2) by (simp add: file_holds_def)
    also have "?d\<lparr>ld_ratchets := Some (so_ratchets so), ld_ratchets_path := Some path\<rparr> = ?d"
      using i(3) by simp
    finally show ?thesis .
  qed
  have "dest_decrypt E ct d st = (decrypt_with_ratchets c i ct (Some (so_ratchets so)), ?d, st)"
    using i a rl by (auto simp: dest_decrypt_def Let_def steadyD(1) [OF assms(1)])
  moreover have "clone_holds c wr rd i path a ?d st so"
    using d clone_ok_update [OF d(1)] by (simp add: clone_holds_def in_sync_def cell_holds_def)
  ultimately show ?thesis by (intro that [of ?d]) (simp_all add: settings_of_def)
qed

text \<open>The ratchet that an announce carries.\<close>

definition carries :: "bytes \<Rightarrow> bytes \<Rightarrow> bytes \<Rightarrow> bytes \<Rightarrow> bool" where
  "carries pk name ratchet data \<longleftrightarrow> (\<exists>rnd rest. data = pk @ name @ rnd @ ratchet @ rest \<and> length rnd = 10)"

lemma extract_carried:
  assumes "carries pk name ratchet data" "length pk = 64" "length name = 10" "length ratchet = 32"
    "p_data p = data" "p_context_flag p = FLAG_SET"
  shows "extract_announce_ratchet p = Some ratchet"
  using assms by (auto simp: carries_def extract_announce_ratchet_def byte_range_def)

lemma generate_carries:
  assumes "generate_announce_data sign h name ratchet dflt i rnd app now tag pr = (r, pr')" "get_public_key i = Inr pk" "length rnd \<ge> 5"
  shows "\<exists>data. r = Inr data \<and> carries pk name ratchet data"
proof -
  let ?rnd = "take 5 rnd @ timebase_bytes now" and ?app = "case app of Some d \<Rightarrow> d | None \<Rightarrow> (case dflt of Some d \<Rightarrow> d | None \<Rightarrow> [])"
  let ?data = "pk @ name @ ?rnd @ ratchet @ sign (h @ pk @ name @ ?rnd @ ratchet @ ?app) @ ?app"
  have "r = Inr ?data" using assms(1,2) by (simp add: generate_announce_data_def Let_def)
  moreover have "length ?rnd = 10" using assms(3) by (simp add: timebase_bytes_def)
  then have "carries pk name ratchet ?data" unfolding carries_def by blast
  ultimately show ?thesis by blast
qed

lemma owner_public_key:
  assumes "owner_keys c i prv"
  shows "\<exists>pk. get_public_key i = Inr pk \<and> length pk = 64"
  using assms by (auto simp: owner_keys_def get_public_key_def)

lemma clone_holds_known: "clone_holds c wr rd i path a d st so \<Longrightarrow> clone_holds c wr rd i path a d (st\<lparr>ds_known_ratchets := kr\<rparr>) so"
  by (auto simp: clone_holds_def file_holds_def reload_ratchets_def split: option.splits sum.splits)

text \<open>What the announce of the newest ratchet gives: its public key, nothing when there is none, an error when it is no key.\<close>

definition announced_as :: "crypto \<Rightarrow> single_object \<Rightarrow> error + bytes \<Rightarrow> bool" where
  "announced_as c so r \<longleftrightarrow>
     (case so_announced c so of Some pub \<Rightarrow> r = Inr pub | None \<Rightarrow> if so_ratchets so = [] then r = Inr [] else (\<exists>e. r = Inl e))"

lemma announce_ratchet_refines:
  assumes "owner_keys c i prv" "steady c wr rd E" "mp_lossless wr rd" and h: "clone_holds c wr rd i path a d st so"
  obtains b so' d' st' g r where "announce_ratchet E d st = (r, d', st')"
    "so_rotate (ld_ratchet_interval d) (ld_retained_ratchets d) (de_now E) (de_ratchet_prv E) so = (b, so')"
    "d' = d\<lparr>ld_ratchets := Some (so_ratchets so'), ld_latest_ratchet_time := so_time so', ld_ratchet_generation := g\<rparr>"
    "announced_as c so' r" "clone_holds c wr rd i path a d' st' so'" "so_settings so' = so_settings so" "stays_in_step st st' a"
proof -
  obtain b so' d' st' g where r: "rotate_ratchets E d st = (Inr b, d', st')"
    "so_rotate (ld_ratchet_interval d) (ld_retained_ratchets d) (de_now E) (de_ratchet_prv E) so = (b, so')"
    "d' = d\<lparr>ld_ratchets := Some (so_ratchets so'), ld_latest_ratchet_time := so_time so', ld_ratchet_generation := g\<rparr>"
    "clone_holds c wr rd i path a d' st' so'" "so_settings so' = so_settings so" "stays_in_step st st' a"
    by (rule rotate_refines [OF assms])
  have rs: "ld_ratchets d' = Some (so_ratchets so')" using r(3) by simp
  obtain y where dn: "ld_ratchets d = Some y" using h by (auto simp: clone_holds_def clone_ok_def)
  show ?thesis
  proof (cases "so_ratchets so'")
    case Nil
    then have "announce_ratchet E d st = (Inr [], d', st')"
      using r(1) rs dn by (simp add: announce_ratchet_def)
    then show ?thesis using r(2-) Nil by (intro that [of "Inr []" d' st' b so' g]) (simp_all add: announced_as_def so_announced_def)
  next
    case (Cons x xs)
    let ?kr = "fst (snd (remember_ratchet (de_shared_instance E) (de_now E) (d_hash d') (c_x_pub c x) (ds_known_ratchets st')))"
    have an: "announce_ratchet E d st = (if length x = 32 then (Inr (c_x_pub c x), d', st'\<lparr>ds_known_ratchets := ?kr\<rparr>)
        else (Inl (Err ''Invalid ratchet private key length''), d', st'))"
      using r(1) rs dn Cons by (simp add: announce_ratchet_def ratchet_public_bytes_def steadyD(1) [OF assms(2)])
    show ?thesis
    proof (cases "length x = 32")
      case True
      have "stays_in_step st (st'\<lparr>ds_known_ratchets := ?kr\<rparr>) a" using r(6) by (simp add: stays_in_step_def)
      then show ?thesis
        using that [of "Inr (c_x_pub c x)" d' "st'\<lparr>ds_known_ratchets := ?kr\<rparr>" b so' g] an True Cons r(2,3,5) clone_holds_known [OF r(4)]
        by (simp add: announced_as_def so_announced_def)
    next
      case False
      then show ?thesis
        using that [of "Inl (Err ''Invalid ratchet private key length'')" d' st' b so' g] an r(2-) Cons
        by (simp add: announced_as_def so_announced_def)
    qed
  qed
qed

lemma clone_holds_path_responses:
  "clone_holds c wr rd i path a d st so \<Longrightarrow> clone_holds c wr rd i path a (d\<lparr>ld_path_responses := pr\<rparr>) st so"
  by (simp add: clone_holds_def clone_ok_def mirror_ok_def in_sync_def)

lemma announce_refines:
  assumes "owner_keys c i prv" "steady c wr rd E" "mp_lossless wr rd" and h: "clone_holds c wr rd i path a d st so"
    and rnd: "5 \<le> length (de_random E)" and xl: "\<forall>x. length (c_x_pub c x) = 32"
  obtains b so' d' st' r es where "dest_announce E app pr iface None False d st = (r, es, d', st')"
    "so_rotate (ld_ratchet_interval d) (ld_retained_ratchets d) (de_now E) (de_ratchet_prv E) so = (b, so')"
    "(case r of Inr (Some p) \<Rightarrow> extract_announce_ratchet p | _ \<Rightarrow> None) = so_announced c so'" "settings_of d' = settings_of d"
    "clone_holds c wr rd i path a d' st' so'" "so_settings so' = so_settings so" "stays_in_step st st' a"
proof -
  let ?now = "of_nat (de_now E) :: u64"
  let ?d = "d\<lparr>ld_path_responses := retain_path_responses ?now (ld_path_responses d)\<rparr>"
  have k: "d_dest_type d = Single" "ld_direction d = IN" "d_identity d = Some i" "length (ld_name_hash d) = 10"
    using h by (simp_all add: clone_holds_def clone_ok_def)
  obtain b so' d1 st' g r where r: "announce_ratchet E ?d st = (r, d1, st')"
    "so_rotate (ld_ratchet_interval ?d) (ld_retained_ratchets ?d) (de_now E) (de_ratchet_prv E) so = (b, so')"
    "d1 = ?d\<lparr>ld_ratchets := Some (so_ratchets so'), ld_latest_ratchet_time := so_time so', ld_ratchet_generation := g\<rparr>"
    "announced_as c so' r" "clone_holds c wr rd i path a d1 st' so'" "so_settings so' = so_settings so" "stays_in_step st st' a"
    by (rule announce_ratchet_refines [OF assms(1-3) clone_holds_path_responses [OF h]])
  obtain pk where pk: "get_public_key i = Inr pk" "length pk = 64" using owner_public_key [OF assms(1)] by blast
  have sk: "signing_prv_key i = Some prv" using assms(1) by (simp add: owner_keys_def)
  have d1: "d_identity d1 = Some i" "ld_name_hash d1 = ld_name_hash d" "ld_ratchets d1 = Some (so_ratchets so')"
    "settings_of d1 = settings_of d" "ld_path_responses d1 = ld_path_responses ?d"
    using r(3) k(3) by (simp_all add: settings_of_def)
  have c: "cached_announce pr None ?d = None" by (simp add: cached_announce_def)
  show ?thesis
  proof (cases r)
    case (Inl e)
    then have "dest_announce E app pr iface None False d st = (Inl e, [], d1, st')"
      using k r(1) c by (simp add: dest_announce_def Let_def dest_generate_announce_data_def)
    moreover have "so_announced c so' = None"
      using r(4) Inl by (auto simp: announced_as_def split: option.splits if_splits)
    ultimately show ?thesis using r(2,5-) d1 by (intro that [of "Inl e" "[]" d1 st' b so']) simp_all
  next
    case (Inr ratchet)
    obtain res pr' where gen: "generate_announce_data (le_sign (de_link E) prv) (d_hash d1) (ld_name_hash d1) ratchet
        (ld_default_app_data d1) i (de_random E) app ?now None (ld_path_responses d1) = (res, pr')" by force
    then obtain data where data: "res = Inr data" "carries pk (ld_name_hash d) ratchet data"
      using generate_carries [OF gen pk(1) rnd] d1(2) by auto
    let ?d2 = "d1\<lparr>ld_path_responses := pr'\<rparr>"
    let ?p = "new_packet (Some (destination.truncate ?d2)) data ANNOUNCE (if pr then PATH_RESPONSE else CTX_NONE) BROADCAST HEADER_1
        None iface False (if so_ratchets so' \<noteq> [] then FLAG_SET else FLAG_UNSET)"
    have an: "dest_announce E app pr iface None False d st = (Inr (Some ?p), [], ?d2, st')"
      using k r(1) c Inr d1 pk(1) sk gen data(1) by (simp add: dest_announce_def Let_def dest_generate_announce_data_def)
    have p: "p_data ?p = data" "p_context_flag ?p = (if so_ratchets so' \<noteq> [] then FLAG_SET else FLAG_UNSET)"
      by (simp_all add: new_packet_def Let_def)
    have "extract_announce_ratchet ?p = so_announced c so'"
    proof (cases "so_ratchets so'")
      case Nil
      then show ?thesis by (simp add: extract_announce_ratchet_def so_announced_def new_packet_def Let_def)
    next
      case (Cons x xs)
      then have "so_announced c so' = Some ratchet \<and> length ratchet = 32"
        using r(4) Inr xl by (auto simp: announced_as_def so_announced_def split: option.splits if_splits)
      then show ?thesis using extract_carried [OF data(2) pk(2) k(4) _ p(1)] p(2) Cons by auto
    qed
    then show ?thesis
      using an r(2,6-) clone_holds_path_responses [OF r(5)] d1(4)
      by (intro that [of "Inr (Some ?p)" "[]" ?d2 st' b so']) (simp_all add: settings_of_def)
  qed
qed

definition step_steady :: "crypto \<Rightarrow> (mp_value \<Rightarrow> bytes) \<Rightarrow> (bytes \<Rightarrow> mp_value option) \<Rightarrow> clone_step \<Rightarrow> bool" where
  "step_steady c wr rd x \<longleftrightarrow> (case step_env x of None \<Rightarrow> True | Some E \<Rightarrow> steady c wr rd E \<and> 5 \<le> length (de_random E))"

lemma clone_do_refines:
  assumes "owner_keys c i prv" "mp_lossless wr rd" "\<forall>x. length (c_x_pub c x) = 32" "step_steady c wr rd x"
    and h: "clone_holds c wr rd i path a d st so"
  obtains out new st' so' where "clone_do x d st = (out, new, st')" "single_do c i x (settings_of d) so = (out, map settings_of new, so')"
    "\<forall>d'\<in>set new. clone_holds c wr rd i path a d' st' so'" "new \<noteq> []" "so_settings so' = so_settings so" "stays_in_step st st' a"
proof (cases x)
  case (CloneOf k)
  then show ?thesis using h by (intro that [of NoOutput "[d, d]" st so]) (simp_all add: stays_in_step_def)
next
  case (RotateBy k E)
  then have E: "steady c wr rd E" using assms(4) by (simp add: step_steady_def)
  obtain b so' d' st' g where r: "rotate_ratchets E d st = (Inr b, d', st')"
    "so_rotate (ld_ratchet_interval d) (ld_retained_ratchets d) (de_now E) (de_ratchet_prv E) so = (b, so')"
    "d' = d\<lparr>ld_ratchets := Some (so_ratchets so'), ld_latest_ratchet_time := so_time so', ld_ratchet_generation := g\<rparr>"
    "clone_holds c wr rd i path a d' st' so'" "so_settings so' = so_settings so" "stays_in_step st st' a"
    by (rule rotate_refines [OF assms(1) E assms(2) h])
  have "settings_of d' = settings_of d" using r(3) by (simp add: settings_of_def)
  then show ?thesis
    using r RotateBy by (intro that [of "Rotated (Inr b)" "[d']" st' so']) (simp_all add: settings_of_def)
next
  case (AnnounceBy k E app pr iface)
  then have E: "steady c wr rd E" "5 \<le> length (de_random E)" using assms(4) by (simp_all add: step_steady_def)
  obtain b so' d' st' r es where r: "dest_announce E app pr iface None False d st = (r, es, d', st')"
    "so_rotate (ld_ratchet_interval d) (ld_retained_ratchets d) (de_now E) (de_ratchet_prv E) so = (b, so')"
    "(case r of Inr (Some p) \<Rightarrow> extract_announce_ratchet p | _ \<Rightarrow> None) = so_announced c so'" "settings_of d' = settings_of d"
    "clone_holds c wr rd i path a d' st' so'" "so_settings so' = so_settings so" "stays_in_step st st' a"
    by (rule announce_refines [OF assms(1) E(1) assms(2) h E(2) assms(3)])
  then show ?thesis
    using AnnounceBy by (intro that [of "Announced (so_announced c so')" "[d']" st' so']) (simp_all add: settings_of_def)
next
  case (DecryptBy k E ct)
  then have E: "steady c wr rd E" using assms(4) by (simp add: step_steady_def)
  obtain d' where r: "dest_decrypt E ct d st = (decrypt_with_ratchets c i ct (Some (so_ratchets so)), d', st)"
     "clone_holds c wr rd i path a d' st so" "settings_of d' = settings_of d"
    by (rule decrypt_refines [OF E h])
  show ?thesis
    by (rule that [of "Decrypted (decrypt_with_ratchets c i ct (Some (so_ratchets so)))" "[d']" st so])
      (use DecryptBy r in \<open>simp_all add: stays_in_step_def\<close>)
next
  case (SetRetained k n)
  have "clone_holds c wr rd i path a (d\<lparr>ld_retained_ratchets := n\<rparr>) st so"
    using h by (simp add: clone_holds_def clone_ok_def mirror_ok_def in_sync_def)
  then show ?thesis
    using SetRetained h
    by (intro that [of NoOutput "[snd (set_retained_ratchets n d)]" st so])
      (auto simp: set_retained_ratchets_def settings_of_def stays_in_step_def)
next
  case (SetInterval k n)
  have "clone_holds c wr rd i path a (d\<lparr>ld_ratchet_interval := n\<rparr>) st so"
    using h by (simp add: clone_holds_def clone_ok_def mirror_ok_def in_sync_def)
  then show ?thesis
    using SetInterval h
    by (intro that [of NoOutput "[snd (set_ratchet_interval n d)]" st so])
      (auto simp: set_ratchet_interval_def settings_of_def stays_in_step_def)
qed

text \<open>An operation of one clone keeps the others as they are, and they adopt what it did when their turn comes.\<close>

lemma clones_step_refines:
  assumes "owner_keys c i prv" "mp_lossless wr rd" "\<forall>x. length (c_x_pub c x) = 32" "step_steady c wr rd x"
    and h: "clones_refine c wr rd i path a s so"
  obtains out s' so' where "clones_step x s = (out, s')" "single_step c i x so = (out, so')" "clones_refine c wr rd i path a s' so'"
proof -
  obtain ds st where s: "s = (ds, st)" by force
  have hs: "clone_holds c wr rd i path a d st so" if "d \<in> set ds" for d
    using h s that by (simp add: clones_refine_def clone_holds_def)
  have ss: "so_settings so = map settings_of ds" using h s by (simp add: clones_refine_def)
  show ?thesis
  proof (cases "step_clone x < length ds")
    case False
    then show ?thesis using h s ss by (intro that [of NoOutput s so]) (simp_all add: clones_step_def single_step_def Let_def)
  next
    case True
    let ?k = "step_clone x"
    obtain out new st' so' where r: "clone_do x (ds ! ?k) st = (out, new, st')"
      "single_do c i x (settings_of (ds ! ?k)) so = (out, map settings_of new, so')"
      "\<forall>d'\<in>set new. clone_holds c wr rd i path a d' st' so'" "new \<noteq> []" "so_settings so' = so_settings so" "stays_in_step st st' a"
      by (rule clone_do_refines [OF assms(1-4) hs [OF nth_mem [OF True]]])
    let ?ds = "ds[?k := hd new] @ tl new"
    let ?so = "so'\<lparr>so_settings := map settings_of ?ds\<rparr>"
    have new: "set new = insert (hd new) (set (tl new))" using r(4) by (cases new) auto
    have c: "cell_holds so' (ds_cells st' a)" "file_holds c wr rd i path (so_ratchets so') st'"
      using r(3,4) new by (auto simp: clone_holds_def)
    have "clone_ok i path a d \<and> in_sync (ds_cells st' a) d" if "d \<in> set ds" for d
      using hs [OF that] r(6) by (auto simp: clone_holds_def stays_in_step_def)
    then have "\<forall>d\<in>set ?ds. clone_ok i path a d \<and> in_sync (ds_cells st' a) d"
      using r(3) new set_update_subset_insert [of ds ?k "hd new"] by (fastforce simp: clone_holds_def)
    then have "clones_refine c wr rd i path a (?ds, st') ?so"
      using c by (simp add: clones_refine_def cell_holds_def)
    moreover have "single_step c i x so = (out, ?so)"
      using r True ss by (simp add: single_step_def Let_def map_update hd_map map_tl)
    ultimately show ?thesis
      using r(1) s True by (intro that [of out "(?ds, st')" ?so]) (simp_all add: clones_step_def)
  qed
qed

text \<open>A step in working surroundings of the owner of the keys.\<close>

definition owner_step ::
  "crypto \<Rightarrow> (mp_value \<Rightarrow> bytes) \<Rightarrow> (bytes \<Rightarrow> mp_value option) \<Rightarrow> identity \<Rightarrow> bytes \<Rightarrow> clone_step \<Rightarrow> bool"
where
  "owner_step c wr rd i prv x \<longleftrightarrow>
     owner_keys c i prv \<and> mp_lossless wr rd \<and> (\<forall>y. length (c_x_pub c y) = 32) \<and> step_steady c wr rd x"

interpretation clones: simulation clones_step "single_step c i" "clones_refine c wr rd i path a" "owner_step c wr rd i prv"
  for c i wr rd path a prv
proof
  fix s so x
  assume h: "clones_refine c wr rd i path a s so" and "owner_step c wr rd i prv x"
  then have o: "owner_keys c i prv" "mp_lossless wr rd" "\<forall>y. length (c_x_pub c y) = 32" "step_steady c wr rd x"
    by (simp_all add: owner_step_def)
  obtain out s' so' where r: "clones_step x s = (out, s')" "single_step c i x so = (out, so')" "clones_refine c wr rd i path a s' so'"
    by (rule clones_step_refines [OF o h])
  show "fst (clones_step x s) = fst (single_step c i x so)" using r(1,2) by simp
  show "clones_refine c wr rd i path a (snd (clones_step x s)) (snd (single_step c i x so))" using r by simp
qed

lemma outputs_refine:
  assumes "owner_keys c i prv" "mp_lossless wr rd" "\<forall>x. length (c_x_pub c x) = 32" "\<forall>x\<in>set xs. step_steady c wr rd x"
    and "clones_refine c wr rd i path a s so"
  shows "fst (outputs clones_step xs s) = fst (outputs (single_step c i) xs so)
     \<and> clones_refine c wr rd i path a (snd (outputs clones_step xs s)) (snd (outputs (single_step c i) xs so))"
  by (rule clones.same_outputs [OF assms(5), where prv = prv]) (use assms(1-4) in \<open>simp add: owner_step_def\<close>)

text \<open>The first object, from the file as \<^verbatim>\<open>enable_ratchets\<close> finds it.\<close>

lemma reload_holds:
  assumes "owner_keys c i prv" "steady c wr rd E" "mp_lossless wr rd"
    and d: "d_identity d = Some i" "\<not> ld_ratchets_frozen d" "mirror_ok path d"
  obtains rs st' where "reload_ratchets E path d st = (Inr (), d\<lparr>ld_ratchets := Some rs, ld_ratchets_path := Some path\<rparr>, st')"
    "\<forall>st2. ds_files st2 = ds_files st' \<longrightarrow> file_holds c wr rd i path rs st2"
proof (cases "ds_files st path")
  case None
  let ?d = "d\<lparr>ld_ratchets := Some [], ld_ratchets_path := Some path\<rparr>"
  obtain files where p: "persist_ratchets E ?d st = (Inr (), st\<lparr>ds_files := files\<rparr>)"
    "\<And>st'. ds_files st' = files \<Longrightarrow> file_holds c wr rd i path [] st'"
    using persist_steady [OF assms(1-3), of ?d path "[]" st] d by (auto simp: mirror_ok_def)
  then show ?thesis using None by (intro that [of "[]" "st\<lparr>ds_files := files\<rparr>"]) (simp_all add: reload_ratchets_def)
next
  case (Some content)
  have l: "load_attempt E' k (Some content) i = load_attempt E 0 (Some content) i" if "steady c wr rd E'" for E' k
    unfolding load_attempt_def unpack_ratchet_file_def unpack_ratchets_def
      steadyD(1,3,4) [OF that] steadyD(1,3,4) [OF assms(2)] by (rule refl)
  let ?rs = "case load_attempt E 0 (Some content) i of Inr rs \<Rightarrow> rs | Inl _ \<Rightarrow> []"
  have rl: "reload_ratchets E' path d' st2 = (Inr (), d'\<lparr>ld_ratchets := Some ?rs, ld_ratchets_path := Some path\<rparr>, st2)"
    if "steady c wr rd E'" "d_identity d' = Some i" "ds_files st2 = ds_files st" for E' d' st2
    using that Some l [OF that(1)] by (simp add: reload_ratchets_def split: sum.split)
  show ?thesis
    using that [of ?rs st] rl [OF assms(2) d(1), of st] rl Some by (auto simp: file_holds_def)
qed

lemma enable_refines:
  assumes "owner_keys c i prv" "steady c wr rd E" "mp_lossless wr rd"
    and d: "d_dest_type d = Single" "ld_direction d = IN" "d_identity d = Some i" "\<not> ld_ratchets_frozen d" "mirror_ok path d"
      "length (ld_name_hash d) = NAME_HASH_LEN"
  obtains d1 st1 rs where "enable_ratchets E path d st = (Inr (), d1, st1)" "ld_ratchets d1 = Some rs"
    "clones_refine c wr rd i path (ds_next (snd (snd (reload_ratchets E path (d\<lparr>ld_latest_ratchet_time := 0\<rparr>) st)))) ([d1], st1)
       \<lparr> so_ratchets = rs, so_time = 0, so_settings = [settings_of d] \<rparr>"
proof -
  let ?d = "d\<lparr>ld_latest_ratchet_time := 0\<rparr>"
  have m: "d_identity ?d = Some i" "\<not> ld_ratchets_frozen ?d" "mirror_ok path ?d" using d by (simp_all add: mirror_ok_def)
  obtain rs st' where r: "reload_ratchets E path ?d st = (Inr (), ?d\<lparr>ld_ratchets := Some rs, ld_ratchets_path := Some path\<rparr>, st')"
    "\<forall>st2. ds_files st2 = ds_files st' \<longrightarrow> file_holds c wr rd i path rs st2"
    by (rule reload_holds [OF assms(1-3) m, where st = st])
  let ?d1 = "?d\<lparr>ld_ratchets := Some rs, ld_ratchets_path := Some path, ld_ratchet_generation := 0, ld_ratchet_shared := ds_next st'\<rparr>"
  let ?cell = "\<lparr> sr_ratchets = Some rs, sr_latest_ratchet_time = 0, sr_generation = 0 \<rparr>"
  let ?st1 = "st'\<lparr>ds_next := Suc (ds_next st'), ds_cells := (ds_cells st')(ds_next st' := ?cell),
      ds_tokens := (ds_tokens st')(ds_next st' := None)\<rparr>"
  have e: "enable_ratchets E path d st = (Inr (), ?d1, ?st1)" by (simp add: enable_ratchets_def r(1))
  have "clones_refine c wr rd i path (ds_next st') ([?d1], ?st1) \<lparr> so_ratchets = rs, so_time = 0, so_settings = [settings_of d] \<rparr>"
    using d r(2) by (simp add: clones_refine_def clone_ok_def mirror_ok_def in_sync_def cell_holds_def settings_of_def)
  then show ?thesis using e r(1) by (intro that [of ?d1 ?st1 rs]) simp_all
qed

text \<open>
  C7. The clones of a destination act as one object. After \<^verbatim>\<open>enable_ratchets\<close>, in every history of clonings,
  rotations, announces, decryptions and changes of settings by any clones in any order, with files that work, each operation
  answers as the same operation of a single object with one list of ratchets: a rotation rotates that list or not, an
  announce carries its newest ratchet, and a decryption tries exactly its ratchets, also in a clone that took no part in the
  rotation.
\<close>

theorem clones_act_as_one:
  assumes "owner_keys c i prv" and "mp_lossless wr rd" and "\<forall>x. length (c_x_pub c x) = 32" and "steady c wr rd E"
    and "d_dest_type d = Single" "ld_direction d = IN" "d_identity d = Some i" "\<not> ld_ratchets_frozen d" "mirror_ok path d"
      "length (ld_name_hash d) = NAME_HASH_LEN"
    and "\<forall>x\<in>set xs. step_steady c wr rd x"
  shows "\<exists>d1 st1 rs. enable_ratchets E path d st = (Inr (), d1, st1) \<and> ld_ratchets d1 = Some rs
     \<and> fst (outputs clones_step xs ([d1], st1))
       = fst (outputs (single_step c i) xs \<lparr> so_ratchets = rs, so_time = 0, so_settings = [settings_of d] \<rparr>)"
proof -
  obtain d1 st1 rs where e: "enable_ratchets E path d st = (Inr (), d1, st1)" "ld_ratchets d1 = Some rs"
    "clones_refine c wr rd i path (ds_next (snd (snd (reload_ratchets E path (d\<lparr>ld_latest_ratchet_time := 0\<rparr>) st)))) ([d1], st1)
       \<lparr> so_ratchets = rs, so_time = 0, so_settings = [settings_of d] \<rparr>"
    by (rule enable_refines [OF assms(1,4,2,5-10), where st = st])
  show ?thesis using e(1,2) outputs_refine [OF assms(1-3,11) e(3)] by blast
qed

section \<open>A concrete instance, for the witnesses\<close>

text \<open>A codec for the two shapes of values that ratchet files are made of: two bytes for the start of a binary, two for each of its bytes.\<close>

definition demo_bins :: "bytes list \<Rightarrow> bytes" where
  "demo_bins bs = concat (map (\<lambda>b. [1, 0] @ concat (map (\<lambda>x. [2, x]) b)) bs)"

fun demo_parse :: "bytes \<Rightarrow> bytes \<times> bytes list" where
  "demo_parse (t # x # r) = (case demo_parse r of (cur, bs) \<Rightarrow> if t = 2 then (x # cur, bs) else ([], cur # bs))"
| "demo_parse _ = ([], [])"

fun mp_bin :: "mp_value \<Rightarrow> bytes" where
  "mp_bin (MpBinary b) = b"
| "mp_bin (MpString s) = string_bytes s"
| "mp_bin _ = []"

fun demo_write :: "mp_value \<Rightarrow> bytes" where
  "demo_write (MpArray vs) = 0 # demo_bins (map mp_bin vs)"
| "demo_write (MpMap m) = 1 # demo_bins (concat (map (\<lambda>(k, v). [mp_bin k, mp_bin v]) m))"
| "demo_write _ = []"

definition bytes_string :: "bytes \<Rightarrow> string" where
  "bytes_string b = map (\<lambda>x. char_of (unat x)) b"

definition demo_read :: "bytes \<Rightarrow> mp_value option" where
  "demo_read b =
     (case b of
        [] \<Rightarrow> None
      | t # r \<Rightarrow>
        (if t = 0 then Some (MpArray (map MpBinary (snd (demo_parse r))))
         else case snd (demo_parse r) of
                [k, v, k', v'] \<Rightarrow> Some (MpMap [(MpString (bytes_string k), MpBinary v), (MpString (bytes_string k'), MpBinary v')])
              | _ \<Rightarrow> None))"

lemma demo_parse_bytes: "demo_parse (concat (map (\<lambda>x. [2, x]) b) @ r) = (b @ fst (demo_parse r), snd (demo_parse r))"
  by (induction b) (auto simp: split_def)

lemma demo_parse_bins: "demo_parse (demo_bins bs) = ([], bs)"
proof (induction bs)
  case (Cons b bs)
  then show ?case using demo_parse_bytes [of b "demo_bins bs"] by (simp add: demo_bins_def split_def)
qed (simp add: demo_bins_def)

lemma bytes_string_bytes: "bytes_string (string_bytes s) = s"
proof -
  have "char_of (unat (of_nat (of_char ch) :: u8)) = ch" for ch :: char
    by (simp add: unat_of_nat)
  then show ?thesis by (simp add: bytes_string_def string_bytes_def comp_def map_idI)
qed

lemma demo_lossless: "mp_lossless demo_write demo_read"
  by (simp add: mp_lossless_def demo_read_def demo_parse_bins comp_def bytes_string_bytes)

definition demo_dest_env :: "real \<Rightarrow> dest_env" where
  "demo_dest_env now = \<lparr> de_link = demo_link_env now, de_write_mp = demo_write, de_read_mp = demo_read, de_read = (\<lambda>k x. x),
     de_write_ok = (\<lambda>_. True), de_partial = None, de_rename_ok = (\<lambda>_. True), de_peer_files = Map.empty, de_shared_instance = False,
     de_runtime_links = [], de_link_encrypt = (\<lambda>h m. Inl (Err ''No runtime link found for destination'')),
     de_link_decrypt = (\<lambda>h m. Inl (Err ''No runtime link found for destination'')), de_send = (\<lambda>_. Inr ()),
     de_proof_requested = (\<lambda>_. True), de_ratchet_prv = replicate 32 7, de_random = replicate 16 8, de_eph_prv = replicate 32 9,
     de_placeholder = replicate 16 0 \<rparr>"

definition demo_store :: dest_store where
  "demo_store = \<lparr> ds_next = 0, ds_cells = (\<lambda>_. default_shared), ds_tokens = (\<lambda>_. None), ds_files = Map.empty,
     ds_known_ratchets = Map.empty \<rparr>"

definition demo_owner :: identity where
  "demo_owner = new_identity toy_crypto (Some (replicate 32 5, replicate 32 6))"

definition demo_local :: local_destination where
  "demo_local = projr (fst (dest_new_inbound (demo_dest_env 0) ([], []) (Some demo_owner) Single ''app'' [''x''] demo_store))"

lemma demo_steady: "steady toy_crypto demo_write demo_read (demo_dest_env t)"
  by (simp add: steady_def demo_dest_env_def demo_link_env_def toy_crypto_def)

lemma demo_owner_keys: "owner_keys toy_crypto demo_owner (replicate 32 6)"
  by (simp add: owner_keys_def demo_owner_def new_identity_def create_keys_def update_hashes_def get_public_key_def empty_identity_def toy_crypto_def)

lemma demo_local_fields:
  "d_dest_type demo_local = Single" "ld_direction demo_local = IN" "d_identity demo_local = Some demo_owner"
  "\<not> ld_ratchets_frozen demo_local" "ld_ratchets_mirror_path demo_local = None" "length (ld_name_hash demo_local) = 10"
  "settings_of demo_local = (1800, 512)"
  by (simp_all add: demo_local_def dest_new_inbound_def make_destination_def demo_owner_def new_identity_def create_keys_def
      update_hashes_def get_public_key_def empty_identity_def expand_name_def name_hash_of_def destination_hash_of_def
      demo_dest_env_def demo_link_env_def toy_crypto_def full_hash_def settings_of_def)

theorem clones_act_as_one_witness:
  "\<exists>d1 st1. enable_ratchets (demo_dest_env 1) ''r'' demo_local demo_store = (Inr (), d1, st1)
     \<and> fst (outputs clones_step [CloneOf 0, AnnounceBy 1 (demo_dest_env 5000) None False None, RotateBy 0 (demo_dest_env 5001)] ([d1], st1))
       = [NoOutput, Announced (Some (replicate 32 2)), Rotated (Inr False)]"
proof -
  let ?xs = "[CloneOf 0, AnnounceBy 1 (demo_dest_env 5000) None False None, RotateBy 0 (demo_dest_env 5001)]"
  have x: "\<forall>x. length (c_x_pub toy_crypto x) = 32" by (simp add: toy_crypto_def)
  have m: "mirror_ok ''r'' demo_local" by (simp add: mirror_ok_def demo_local_fields(5))
  have s: "\<forall>x\<in>set ?xs. step_steady toy_crypto demo_write demo_read x"
    by (simp add: step_steady_def demo_steady) (simp add: demo_dest_env_def)
  have f: "ds_files demo_store ''r'' = None" by (simp add: demo_store_def)
  from clones_act_as_one [OF demo_owner_keys demo_lossless x demo_steady demo_local_fields(1-4) m demo_local_fields(6) s,
      of 1 demo_store] obtain d1 st1 rs where e: "enable_ratchets (demo_dest_env 1) ''r'' demo_local demo_store = (Inr (), d1, st1)"
    "ld_ratchets d1 = Some rs" "fst (outputs clones_step ?xs ([d1], st1))
       = fst (outputs (single_step toy_crypto demo_owner) ?xs \<lparr> so_ratchets = rs, so_time = 0, so_settings = [(1800, 512)] \<rparr>)"
    unfolding demo_local_fields(7) by blast
  have "fst (outputs (single_step toy_crypto demo_owner) ?xs \<lparr> so_ratchets = rs, so_time = 0, so_settings = [(1800, 512)] \<rparr>)
      = [NoOutput, Announced (Some (replicate 32 2)), Rotated (Inr False)]"
    by (simp add: single_step_def so_rotate_def ratchet_due_def so_announced_def demo_dest_env_def demo_link_env_def current_time_def toy_crypto_def)
  then show ?thesis using e by auto
qed

section \<open>From an announce to a message that every clone reads\<close>





lemma demo_owner_fields:
  "get_public_key demo_owner = Inr (replicate 32 2 @ replicate 32 6)"
  "id_hash demo_owner = Some (truncated_hash (c_sha toy_crypto) (replicate 32 2 @ replicate 32 6))"
  by (simp_all add: demo_owner_def new_identity_def create_keys_def update_hashes_def get_public_key_def empty_identity_def toy_crypto_def)


section \<open>Well-formed destinations\<close>

definition identity_hash_of :: "local_destination \<Rightarrow> bytes option" where
  "identity_hash_of d = Option.bind (d_identity d) id_hash"

definition handlers_ok :: "crypto \<Rightarrow> (bytes \<times> request_handler) list \<Rightarrow> bool" where
  "handlers_ok c hs \<longleftrightarrow>
     distinct (map fst hs)
     \<and> (\<forall>(k, h)\<in>set hs. k = truncated_hash (c_sha c) (string_bytes (rh_path h)) \<and> allow_policy_ok (rh_allow_policy h)
          \<and> \<not> (rh_callback h \<and> rh_proven_callback h))"

text \<open>Names, hashes and identity fit the type and each other.\<close>

definition wf_names :: "crypto \<Rightarrow> local_destination \<Rightarrow> bool" where
  "wf_names c d \<longleftrightarrow>
     (d_identity d = None \<longleftrightarrow> d_dest_type d = Plain) \<and> (identity_hash_of d = None \<longleftrightarrow> d_dest_type d = Plain)
     \<and> destination_hash_of c (identity_hash_of d) (d_app_name d) (d_aspects d) = Some (d_hash d)
     \<and> name_hash_of c (d_app_name d) (d_aspects d) = Some (ld_name_hash d)
     \<and> expand_name (map_option hexrep (identity_hash_of d)) (d_app_name d) (d_aspects d) = Some (ld_name d)
     \<and> ld_hexhash d = hexrep (d_hash d)"

definition wf_settings :: "crypto \<Rightarrow> local_destination \<Rightarrow> bool" where
  "wf_settings c d \<longleftrightarrow>
     d_proof_strategy d \<in> {PROVE_NONE, PROVE_APP, PROVE_ALL} \<and> handlers_ok c (ld_request_handlers d)
     \<and> 0 < ld_retained_ratchets d \<and> 0 < ld_ratchet_interval d
     \<and> (\<forall>k. ld_prv_bytes d = Some k \<longrightarrow> d_dest_type d = Group \<and> (length k = 32 \<or> length k = 64))"

text \<open>Ratchets have a file and are never ahead of the shared cell.\<close>

definition wf_ratchets :: "dest_store \<Rightarrow> local_destination \<Rightarrow> bool" where
  "wf_ratchets st d \<longleftrightarrow>
     (ld_enforce_ratchets d \<longrightarrow> ld_ratchets d \<noteq> None) \<and> (ld_ratchets d \<noteq> None \<longrightarrow> ld_ratchets_path d \<noteq> None)
     \<and> ld_ratchet_shared d < ds_next st \<and> ld_ratchet_generation d \<le> sr_generation (ds_cells st (ld_ratchet_shared d))"

definition wf_destination :: "crypto \<Rightarrow> local_destination \<times> dest_store \<Rightarrow> bool" where
  "wf_destination c s \<longleftrightarrow> wf_names c (fst s) \<and> wf_settings c (fst s) \<and> wf_ratchets (snd s) (fst s)"

datatype dest_op =
    OpAcceptLinks bool
  | OpProofStrategy u8
  | OpCallbacks bool bool bool
  | OpHandler string bool u8 "bytes list option" bool
  | OpProvenHandler string u8 "bytes list option" bool
  | OpDeregister string
  | OpMaxRequest "nat option"
  | OpAppData "bytes option"
  | OpEnable string
  | OpEnforce
  | OpRetained nat
  | OpInterval nat
  | OpMirror "string option"
  | OpFrozen bool
  | OpRotate
  | OpAnnounce "bytes option" bool "string option" "bytes option" bool
  | OpCreateKeys
  | OpLoadKey bytes
  | OpEncrypt bytes
  | OpDecrypt bytes
  | OpReceive packet

fun apply_op :: "dest_env \<times> dest_op \<Rightarrow> local_destination \<times> dest_store \<Rightarrow> local_destination \<times> dest_store" where
  "apply_op (E, OpAcceptLinks b) (d, st) = (set_accept_links b d, st)"
| "apply_op (E, OpProofStrategy s) (d, st) = (snd (set_proof_strategy s d), st)"
| "apply_op (E, OpCallbacks p l r) (d, st) =
     (set_proof_requested_callback r (set_link_established_callback l (dest_set_packet_callback p d)), st)"
| "apply_op (E, OpHandler path cb allow ids compress) (d, st) =
     (snd (register_request_handler (de_crypto E) path cb allow ids compress d), st)"
| "apply_op (E, OpProvenHandler path allow ids compress) (d, st) =
     (snd (register_proven_request_handler (de_crypto E) path allow ids compress d), st)"
| "apply_op (E, OpDeregister path) (d, st) = (snd (deregister_request_handler (de_crypto E) path d), st)"
| "apply_op (E, OpMaxRequest n) (d, st) = (set_max_request_size n d, st)"
| "apply_op (E, OpAppData a) (d, st) = (set_default_app_data a d, st)"
| "apply_op (E, OpEnable path) (d, st) = snd (enable_ratchets E path d st)"
| "apply_op (E, OpEnforce) (d, st) = (snd (enforce_ratchets d), st)"
| "apply_op (E, OpRetained n) (d, st) = (snd (set_retained_ratchets n d), st)"
| "apply_op (E, OpInterval n) (d, st) = (snd (set_ratchet_interval n d), st)"
| "apply_op (E, OpMirror p) (d, st) = (set_ratchets_mirror_path p d, st)"
| "apply_op (E, OpFrozen b) (d, st) = (set_ratchets_frozen b d, st)"
| "apply_op (E, OpRotate) (d, st) = snd (rotate_ratchets E d st)"
| "apply_op (E, OpAnnounce a pr i t s) (d, st) = snd (snd (dest_announce E a pr i t s d st))"
| "apply_op (E, OpCreateKeys) (d, st) = snd (dest_create_keys d st)"
| "apply_op (E, OpLoadKey k) (d, st) = snd (dest_load_private_key k d st)"
| "apply_op (E, OpEncrypt m) (d, st) = snd (dest_encrypt E m d st)"
| "apply_op (E, OpDecrypt ct) (d, st) = snd (dest_decrypt E ct d st)"
| "apply_op (E, OpReceive p) (d, st) = snd (snd (dest_receive E p d st))"

text \<open>Most operations leave what well-formedness sees of names and settings as it is.\<close>

definition same_shape :: "local_destination \<Rightarrow> local_destination \<Rightarrow> bool" where
  "same_shape d d' \<longleftrightarrow>
     d_hash d' = d_hash d \<and> d_dest_type d' = d_dest_type d \<and> d_identity d' = d_identity d \<and> d_app_name d' = d_app_name d
     \<and> d_aspects d' = d_aspects d \<and> d_proof_strategy d' = d_proof_strategy d \<and> ld_hexhash d' = ld_hexhash d \<and> ld_name_hash d' = ld_name_hash d \<and> ld_name d' = ld_name d
     \<and> ld_request_handlers d' = ld_request_handlers d \<and> ld_retained_ratchets d' = ld_retained_ratchets d
     \<and> ld_ratchet_interval d' = ld_ratchet_interval d \<and> ld_prv_bytes d' = ld_prv_bytes d"

definition keeps_wf :: "local_destination \<times> dest_store \<Rightarrow> local_destination \<times> dest_store \<Rightarrow> bool" where
  "keeps_wf s s' \<longleftrightarrow> same_shape (fst s) (fst s') \<and> (wf_ratchets (snd s) (fst s) \<longrightarrow> wf_ratchets (snd s') (fst s'))"

lemma keeps_wf_refl: "keeps_wf s s"
  by (simp add: keeps_wf_def same_shape_def)

lemma keeps_wf_trans: "keeps_wf s s' \<Longrightarrow> keeps_wf s' s'' \<Longrightarrow> keeps_wf s s''"
  by (simp add: keeps_wf_def same_shape_def)

lemma keeps_wf_destination:
  assumes "wf_destination c s" "keeps_wf s s'"
  shows "wf_destination c s'"
  using assms by (simp add: keeps_wf_def same_shape_def wf_destination_def wf_names_def wf_settings_def identity_hash_of_def)

lemma keeps_wf_persist: "persist_ratchets E d st = (r, st') \<Longrightarrow> ds_cells st' = ds_cells st \<and> ds_next st' = ds_next st"
  by (auto simp: persist_ratchets_def Let_def split: if_splits option.splits sum.splits prod.splits)

lemma keeps_wf_set:
  assumes "ds_cells st' = ds_cells st" "ds_next st' = ds_next st"
  shows "keeps_wf (d, st) (d\<lparr>ld_ratchets := Some rs, ld_ratchets_path := Some path\<rparr>, st')"
  using assms by (simp add: keeps_wf_def same_shape_def wf_ratchets_def)

lemma keeps_wf_reload: "keeps_wf (d, st) (snd (reload_ratchets E path d st))"
proof (cases "ds_files st path")
  case None
  let ?d = "d\<lparr>ld_ratchets := Some [], ld_ratchets_path := Some path\<rparr>"
  obtain r st' where p: "persist_ratchets E ?d st = (r, st')" by force
  then have "snd (reload_ratchets E path d st) = (?d, st')"
    using None by (simp add: reload_ratchets_def Let_def split: sum.split error.split)
  then show ?thesis using keeps_wf_set keeps_wf_persist [OF p] by metis
next
  case (Some content)
  then show ?thesis
    using keeps_wf_refl keeps_wf_set [of st st] by (simp add: reload_ratchets_def Let_def split: option.split)
qed

lemma keeps_wf_adopt:
  assumes "ld_ratchets d \<noteq> None"
  shows "keeps_wf (d, st) (adopt_shared_ratchets (ds_cells st (ld_ratchet_shared d)) d, st)"
    and "ld_ratchets (adopt_shared_ratchets cell d) \<noteq> None"
  using assms by (simp_all add: adopt_shared_ratchets_def keeps_wf_def same_shape_def wf_ratchets_def)

text \<open>The state of a clone between the new ratchet and the persisting of its list.\<close>

lemma keeps_wf_push:
  assumes "ld_ratchets d \<noteq> None"
  shows "keeps_wf (d, st) (clean_ratchets (d\<lparr>ld_ratchets := map_option (\<lambda>rs. key # rs) (ld_ratchets d), ld_latest_ratchet_time := now\<rparr>), st)"
  using assms by (auto simp: clean_ratchets_def keeps_wf_def same_shape_def wf_ratchets_def split: option.split)

lemma keeps_wf_publish:
  assumes "ds_cells st' = ds_cells st" "ds_next st' = ds_next st"
  shows "keeps_wf (d, st) (d\<lparr>ld_ratchet_generation := g\<rparr>, st'\<lparr>ds_cells := (ds_cells st')(ld_ratchet_shared d := cell\<lparr>sr_generation := g\<rparr>)\<rparr>)"
  using assms by (simp add: keeps_wf_def same_shape_def wf_ratchets_def)

lemma keeps_wf_rotate: "keeps_wf (d, st) (snd (rotate_ratchets E d st))"
proof (cases "ld_ratchets d = None \<or> ld_ratchets_frozen d")
  case True
  then show ?thesis by (auto simp: rotate_ratchets_def keeps_wf_refl)
next
  case False
  let ?cell = "ds_cells st (ld_ratchet_shared d)"
  define d1 where "d1 = adopt_shared_ratchets ?cell d"
  have a: "keeps_wf (d, st) (d1, st)" "ld_ratchets d1 \<noteq> None"
    using False keeps_wf_adopt [of d] by (auto simp: d1_def)
  define d2 where "d2 = clean_ratchets (d1\<lparr>ld_ratchets := map_option (\<lambda>rs. de_ratchet_prv E # rs) (ld_ratchets d1),
      ld_latest_ratchet_time := de_now E\<rparr>)"
  have b: "keeps_wf (d, st) (d2, st)" unfolding d2_def by (rule keeps_wf_trans [OF a(1) keeps_wf_push [OF a(2)]])
  have s: "ld_ratchet_shared d2 = ld_ratchet_shared d"
    by (auto simp: d2_def d1_def clean_ratchets_def adopt_shared_ratchets_def split: option.split)
  obtain r st' where p: "persist_ratchets E d2 st = (r, st')" by force
  let ?d3 = "d2\<lparr>ld_ratchet_generation := sr_generation ?cell + 1\<rparr>"
  let ?c3 = "\<lparr> sr_ratchets = ld_ratchets d2, sr_latest_ratchet_time = de_now E, sr_generation = sr_generation ?cell + 1 \<rparr>"
  have c: "keeps_wf (d, st) (?d3, st'\<lparr>ds_cells := (ds_cells st')(ld_ratchet_shared d := ?c3)\<rparr>)" "keeps_wf (d, st) (d2, st')"
    using keeps_wf_trans [OF b keeps_wf_publish [of st' st d2 _ ?c3]] keeps_wf_persist [OF p] b s
    by (auto simp: keeps_wf_def wf_ratchets_def)
  have "snd (rotate_ratchets E d st) \<in> {(d1, st), (d2, st'), (?d3, st'\<lparr>ds_cells := (ds_cells st')(ld_ratchet_shared d := ?c3)\<rparr>)}"
    using False p s by (auto simp: rotate_ratchets_def Let_def d1_def [symmetric] d2_def [symmetric] split: sum.split error.split)
  then show ?thesis using a(1) c by auto
qed

lemma keeps_wf_announce_ratchet: "keeps_wf (d, st) (snd (announce_ratchet E d st))"
proof -
  have k: "keeps_wf s (d', st') \<Longrightarrow> keeps_wf s (d', st'\<lparr>ds_known_ratchets := kr\<rparr>)" for s d' st' kr
    by (simp add: keeps_wf_def wf_ratchets_def)
  obtain r d' st' where r: "rotate_ratchets E d st = (r, d', st')" using prod_cases3 by blast
  then have "keeps_wf (d, st) (d', st')" using keeps_wf_rotate [of d st E] by simp
  with r show ?thesis
    by (auto simp: announce_ratchet_def keeps_wf_refl k split: sum.split option.split list.split)
qed

lemma keeps_wf_path_responses: "keeps_wf s (d, st) \<Longrightarrow> keeps_wf s (d\<lparr>ld_path_responses := pr\<rparr>, st)"
  by (simp add: keeps_wf_def same_shape_def wf_ratchets_def)

lemma keeps_wf_generate: "keeps_wf (d, st) (snd (dest_generate_announce_data E app now tag d st))"
proof -
  obtain r d' st' where r: "announce_ratchet E d st = (r, d', st')" using prod_cases3 by blast
  then have "keeps_wf (d, st) (d', st')" using keeps_wf_announce_ratchet [of d st E] by simp
  with r show ?thesis
    by (auto simp: dest_generate_announce_data_def intro: keeps_wf_path_responses split: sum.split option.split prod.split)
qed

lemma keeps_wf_announce: "keeps_wf (d, st) (snd (snd (dest_announce E app pr iface tag snd_it d st)))"
proof -
  let ?d = "d\<lparr>ld_path_responses := retain_path_responses (of_nat (de_now E)) (ld_path_responses d)\<rparr>"
  have k: "keeps_wf (d, st) (?d, st)" by (rule keeps_wf_path_responses [OF keeps_wf_refl])
  obtain r d' st' where r: "(case cached_announce pr tag ?d of Some data \<Rightarrow> (Inr data, ?d, st)
      | None \<Rightarrow> dest_generate_announce_data E app (of_nat (de_now E)) tag ?d st) = (r, d', st')"
    using prod_cases3 by blast
  then have "keeps_wf (?d, st) (d', st')"
    using keeps_wf_generate [of ?d st E app "of_nat (de_now E)" tag] keeps_wf_refl by (auto split: option.splits)
  with k have w: "keeps_wf (d, st) (d', st')" by (rule keeps_wf_trans)
  have "snd (snd (dest_announce E app pr iface tag snd_it d st)) \<in> {(d, st), (d', st')}"
    by (auto simp: dest_announce_def Let_def r split: sum.split option.split)
  then show ?thesis using w keeps_wf_refl by auto
qed

lemma keeps_wf_encrypt: "keeps_wf (d, st) (snd (dest_encrypt E m d st))"
  by (auto simp: dest_encrypt_def keeps_wf_def same_shape_def wf_ratchets_def
      split: destination_type.split option.split prod.split)

lemma keeps_wf_decrypt: "keeps_wf (d, st) (snd (dest_decrypt E ct d st))"
proof (cases "d_dest_type d = Single")
  case True
  define d1 where "d1 = (if ld_ratchets d \<noteq> None then adopt_shared_ratchets (ds_cells st (ld_ratchet_shared d)) d else d)"
  have a: "keeps_wf (d, st) (d1, st)" using keeps_wf_adopt(1) [of d st] keeps_wf_refl by (simp add: d1_def)
  obtain r d2 st2 where r: "(case ld_ratchets_path d1 of None \<Rightarrow> (Inr (), d1, st) | Some path \<Rightarrow> reload_ratchets E path d1 st) = (r, d2, st2)"
    using prod_cases3 by blast
  then have "keeps_wf (d1, st) (d2, st2)"
    using keeps_wf_reload [of d1 st E] keeps_wf_refl by (auto split: option.splits) (metis snd_conv)
  with a have b: "keeps_wf (d, st) (d2, st2)" by (rule keeps_wf_trans)
  have "snd (dest_decrypt E ct d st) \<in> {(d1, st), (d2, st2)}"
    unfolding dest_decrypt_def Let_def d1_def [symmetric] r using True by (simp split: option.split sum.split error.split)
  then show ?thesis using a b by auto
next
  case False
  then have "snd (dest_decrypt E ct d st) = (d, st)"
    by (auto simp: dest_decrypt_def split: destination_type.split option.split)
  then show ?thesis by (simp add: keeps_wf_refl)
qed

lemma keeps_wf_receive: "keeps_wf (d, st) (snd (snd (dest_receive E p d st)))"
proof (cases "p_packet_type p = LINKREQUEST")
  case True
  obtain r es d' where r: "incoming_link_request E (p_data p) p d = (r, es, d')" using prod_cases3 by blast
  then have "\<exists>ls. d' = d\<lparr>ld_links := ls\<rparr>"
    by (auto simp: incoming_link_request_def Let_def intro: exI [of _ "ld_links d"] split: if_splits prod.splits sum.splits error.splits)
  moreover have "keeps_wf (d, st) (d\<lparr>ld_links := ls\<rparr>, st)" for ls by (simp add: keeps_wf_def same_shape_def wf_ratchets_def)
  ultimately show ?thesis using True r by (auto simp: dest_receive_def split: sum.split)
next
  case False
  obtain r d' st' where r: "dest_decrypt E (p_data p) d st = (r, d', st')" using prod_cases3 by blast
  then have "keeps_wf (d, st) (d', st')" using keeps_wf_decrypt [of d st E] by (metis snd_conv)
  then have k: "keeps_wf (d, st) (d', st')" "keeps_wf (d, st) (d'\<lparr>d_latest_ratchet_id := x\<rparr>, st')" for x
    by (simp_all add: keeps_wf_def same_shape_def wf_ratchets_def)
  have "snd (snd (dest_receive E p d st)) \<in> {(d', st')} \<union> range (\<lambda>x. (d'\<lparr>d_latest_ratchet_id := x\<rparr>, st'))"
    using False r by (auto simp: dest_receive_def Let_def split: sum.split option.split)
  then show ?thesis using k by auto
qed

lemma put_handler_ok:
  assumes "handlers_ok c hs" "allow_policy_ok (rh_allow_policy h)" "\<not> (rh_callback h \<and> rh_proven_callback h)"
  shows "handlers_ok c (put_handler (truncated_hash (c_sha c) (string_bytes (rh_path h))) h hs)"
  using assms by (auto simp: handlers_ok_def put_handler_def distinct_map_filter)

lemma filter_handlers_ok: "handlers_ok c hs \<Longrightarrow> handlers_ok c (filter P hs)"
  by (auto simp: handlers_ok_def distinct_map_filter)

lemma wf_enable:
  assumes "wf_destination c (d, st)"
  shows "wf_destination c (snd (enable_ratchets E path d st))"
proof -
  let ?d = "d\<lparr>ld_latest_ratchet_time := 0\<rparr>"
  obtain r d' st' where r: "reload_ratchets E path ?d st = (r, d', st')" using prod_cases3 by blast
  have "wf_destination c (?d, st)" using assms by (simp add: wf_destination_def wf_names_def wf_settings_def wf_ratchets_def identity_hash_of_def)
  from keeps_wf_destination [OF this keeps_wf_reload [of ?d st E path]] have w: "wf_destination c (d', st')" using r by simp
  then have "wf_destination c (d'\<lparr>ld_ratchet_generation := 0, ld_ratchet_shared := ds_next st'\<rparr>,
      st'\<lparr>ds_next := Suc (ds_next st'), ds_cells := (ds_cells st')(ds_next st' := cell), ds_tokens := tk\<rparr>)" for cell tk
    by (simp add: wf_destination_def wf_names_def wf_settings_def wf_ratchets_def identity_hash_of_def)
  then show ?thesis using w r by (simp add: enable_ratchets_def Let_def split: sum.split)
qed

lemma wf_keys:
  assumes "wf_destination c (d, st)" "length k = 32 \<or> length k = 64" "d_dest_type d = Group"
  shows "wf_destination c (d\<lparr>ld_prv_bytes := Some k\<rparr>, st\<lparr>ds_tokens := tk\<rparr>)"
  using assms by (simp add: wf_destination_def wf_names_def wf_settings_def wf_ratchets_def identity_hash_of_def)

lemma wf_create_keys:
  assumes "wf_destination c (d, st)"
  shows "wf_destination c (snd (dest_create_keys d st))" "wf_destination c (snd (dest_load_private_key k d st))"
proof -
  have g: "length group_key = 64" by (simp add: group_key_def)
  show "wf_destination c (snd (dest_create_keys d st))"
    using assms wf_keys [OF assms, of group_key] g
    by (cases "d_dest_type d") (simp_all add: dest_create_keys_def Let_def Token_new_def)
  show "wf_destination c (snd (dest_load_private_key k d st))"
    using assms wf_keys [OF assms, of k]
    by (cases "d_dest_type d") (simp_all add: dest_load_private_key_def Let_def Token_new_def)
qed

lemma wf_handlers:
  assumes "wf_destination c (d, st)" "handlers_ok c hs"
  shows "wf_destination c (d\<lparr>ld_request_handlers := hs\<rparr>, st)"
  using assms by (simp add: wf_destination_def wf_names_def wf_settings_def wf_ratchets_def identity_hash_of_def)

lemma wf_register:
  assumes "wf_destination c (d, st)"
  shows "wf_destination c (snd (register_request_handler c path cb allow ids z d), st)"
    "wf_destination c (snd (register_proven_request_handler c path allow ids z d), st)"
    "wf_destination c (snd (deregister_request_handler c path d), st)"
proof -
  have h: "handlers_ok c (ld_request_handlers d)" using assms by (simp add: wf_destination_def wf_settings_def)
  have reg: "handlers_ok c (put_handler (truncated_hash (c_sha c) (string_bytes path))
     \<lparr> rh_path = path, rh_allow_policy = allow, rh_allowed_list = ids, rh_callback = b, rh_proven_callback = b', rh_auto_compress = z \<rparr>
     (ld_request_handlers d))" if "allow_policy_ok allow" "\<not> (b \<and> b')" for b b'
    using put_handler_ok [OF h, of "\<lparr> rh_path = path, rh_allow_policy = allow, rh_allowed_list = ids, rh_callback = b,
        rh_proven_callback = b', rh_auto_compress = z \<rparr>"] that by simp
  show "wf_destination c (snd (register_request_handler c path cb allow ids z d), st)"
    "wf_destination c (snd (register_proven_request_handler c path allow ids z d), st)"
    "wf_destination c (snd (deregister_request_handler c path d), st)"
    using assms wf_handlers [OF assms reg] wf_handlers [OF assms filter_handlers_ok [OF h]]
    by (simp_all add: register_request_handler_def register_proven_request_handler_def deregister_request_handler_def Let_def)
qed

lemma wf_apply_op:
  assumes w: "wf_destination c (d, st)" and c: "de_crypto E = c"
  shows "wf_destination c (apply_op (E, op) (d, st))"
proof -
  note defs = wf_destination_def wf_names_def wf_settings_def wf_ratchets_def identity_hash_of_def set_accept_links_def
    set_proof_strategy_def set_max_request_size_def set_default_app_data_def enforce_ratchets_def
    set_retained_ratchets_def set_ratchet_interval_def set_ratchets_mirror_path_def set_ratchets_frozen_def
    dest_set_packet_callback_def set_link_established_callback_def set_proof_requested_callback_def
  note steps = keeps_wf_destination [OF w keeps_wf_rotate] keeps_wf_destination [OF w keeps_wf_announce]
    keeps_wf_destination [OF w keeps_wf_encrypt] keeps_wf_destination [OF w keeps_wf_decrypt] keeps_wf_destination [OF w keeps_wf_receive]
    wf_create_keys [OF w] wf_register [OF w] wf_enable [OF w]
  show ?thesis by (cases op; (simp add: steps c; fail | use w in \<open>auto simp: defs\<close>))
qed

text \<open>
  C30. A destination is well formed from its construction on. Whatever either constructor returns, and whatever operations
  (settings, handlers, ratchets, announces, keys, encryption, received packets) follow in any order and with any outcome of files,
  sending and cryptography: only a plain destination has no identity; name, name hash and destination hash are those of its names
  and its identity; proof strategy, allow policies, key lengths, interval and retention are valid; every request handler is stored
  under the hash of its path; enforced ratchets are enabled ratchets, with a file, and never newer than the shared list.
\<close>

theorem destination_well_formed:
  assumes new: "(\<exists>E keys. de_crypto E = c \<and> dest_new_inbound E keys ident dest_type app_name aspects st = (Inr d, st'))
      \<or> (\<exists>E. de_crypto E = c \<and> dest_new_outbound E ident dest_type app_name aspects st = (Inr d, st'))"
    and ops: "\<forall>(E, op)\<in>set ops. de_crypto E = c"
  shows "wf_destination c (run apply_op ops (d, st'))"
proof -
  have made: "wf_destination c (d, st')"
    if "make_destination E dir i dest_type app_name as st = (Inr d, st')" "de_crypto E = c" "dest_type = Plain \<longrightarrow> i = None" for E dir i as
    using that by (auto simp: make_destination_def wf_destination_def wf_names_def wf_settings_def wf_ratchets_def identity_hash_of_def
        handlers_ok_def split: option.splits if_splits bind_splits)
  have "wf_destination c (d, st')"
    using new made by (auto simp: dest_new_inbound_def dest_new_outbound_def Let_def split: if_splits prod.splits)
  moreover have "wf_destination c (run apply_op ops s)" if "wf_destination c s" for s
    using that ops
  proof (induction ops arbitrary: s)
    case (Cons x xs)
    then show ?case using wf_apply_op [of c "fst s" "snd s" "fst x" "snd x"] by (auto simp: split_def)
  qed simp
  ultimately show ?thesis by blast
qed

theorem destination_well_formed_witness:
  "\<exists>d st. dest_new_inbound (demo_dest_env 0) ([], []) (Some demo_owner) Single ''app'' [''x''] demo_store = (Inr d, st)
     \<and> wf_destination toy_crypto (run apply_op [(demo_dest_env 1, OpEnable ''r''), (demo_dest_env 2, OpEnforce),
          (demo_dest_env 5000, OpAnnounce None False None None True), (demo_dest_env 5001, OpDecrypt [1])] (d, st))"
proof -
  obtain d st where d: "dest_new_inbound (demo_dest_env 0) ([], []) (Some demo_owner) Single ''app'' [''x''] demo_store = (Inr d, st)"
    by (simp add: dest_new_inbound_def make_destination_def demo_owner_fields expand_name_def name_hash_of_def
        destination_hash_of_def demo_dest_env_def demo_link_env_def)
  have c: "de_crypto (demo_dest_env t) = toy_crypto" for t by (simp add: demo_dest_env_def demo_link_env_def)
  have "wf_destination toy_crypto (run apply_op [(demo_dest_env 1, OpEnable ''r''), (demo_dest_env 2, OpEnforce),
          (demo_dest_env 5000, OpAnnounce None False None None True), (demo_dest_env 5001, OpDecrypt [1])] (d, st))"
    by (rule destination_well_formed) (use d c in auto)
  then show ?thesis using d by blast
qed

section \<open>Where the keys of a destination fail\<close>

lemma try_dest_ratchets_None:
  assumes "\<forall>r\<in>set rs. length r = 32 \<longrightarrow> (\<exists>s. decrypt_with_key c i r eph tok = Inl (Err s))"
  shows "try_dest_ratchets c i eph tok rs = None"
  using assms by (induction rs) auto

text \<open>A message to the long-term key, read after the ratchets have been tried.\<close>

lemma main_key_decrypts:
  assumes c: "crypto_ok c" and i: "id_hash i = Some ih" "encryption_pub_key i = Some (c_x_pub c k)" "encryption_prv_key i = Some k"
      "id_ratchets i = []" and iv: "length iv = 16" and ct: "encrypt_with_ratchet c eph iv i m None = Inr ct"
    and others: "\<forall>r\<in>set rs. length r = 32 \<longrightarrow> (\<exists>s. decrypt_with_key c i r (take 32 ct) (drop 32 ct) = Inl (Err s))"
  shows "decrypt_with_ratchets c i ct (Some rs) = Inr m"
proof -
  have "\<exists>ct. encrypt_with_ratchet c eph iv i m None = Inr ct \<and> decrypt_with_ratchets c i ct None = Inr m"
    using identity_encryption_roundtrip [OF c i(1) i(1) iv, of None k None "[]" "[]" eph m] i(2-4) by simp
  then have "decrypt_with_ratchets c i ct None = Inr m" using ct by simp
  then show ?thesis
    using try_dest_ratchets_None [OF others] by (simp add: decrypt_with_ratchets_def Let_def split: if_splits)
qed

text \<open>
  Enforced ratchets are not enforced. \<^verbatim>\<open>enforce_ratchets\<close> is to make a destination accept only packets encrypted
  to a ratchet, but decryption never reads the flag it sets: a packet encrypted to the long-term key of the identity,
  which no ratchet decrypts, is decrypted and reaches the packet callback like any other.
\<close>

theorem enforced_ratchets_not_enforced:
  assumes c: "crypto_ok (de_crypto E)" and enforced: "enforce_ratchets d = (Inr (), d')"
    and d: "d_dest_type d = Single" "d_identity d = Some i" "ld_cb_packet d" "ld_ratchet_generation d = sr_generation (ds_cells st (ld_ratchet_shared d))"
    and i: "id_hash i = Some ih" "encryption_pub_key i = Some (c_x_pub (de_crypto E) k)" "encryption_prv_key i = Some k" "id_ratchets i = []"
    and ct: "encrypt_with_ratchet (de_crypto E) eph iv i m None = Inr ct" "length iv = 16"
    and others: "\<forall>rs. ld_ratchets d = Some rs \<longrightarrow>
      (\<forall>r\<in>set rs. length r = 32 \<longrightarrow> (\<exists>s. decrypt_with_key (de_crypto E) i r (take 32 ct) (drop 32 ct) = Inl (Err s)))"
    and p: "p_packet_type p = DATA" "p_data p = ct"
  shows "ld_enforce_ratchets d' \<and> (\<exists>d'' st'. dest_receive E p d' st = (Inr True, [SpawnPacketCallback m p], d'', st'))"
proof -
  obtain rs where rs: "ld_ratchets d = Some rs" and d': "d' = d\<lparr>ld_enforce_ratchets := True\<rparr>"
    using enforced by (auto simp: enforce_ratchets_def split: if_splits)
  have "decrypt_with_ratchets (de_crypto E) i ct (Some rs) = Inr m"
    using main_key_decrypts [OF c i ct(2,1)] others rs by blast
  then have "dest_decrypt E ct d' st = (Inr m, d', st)"
    using d rs by (simp add: dest_decrypt_def Let_def d' adopt_shared_ratchets_def)
  then show ?thesis
    using p d(3) by (auto simp: dest_receive_def Let_def d' split: option.split)
qed

theorem enforced_ratchets_not_enforced_witness:
  "\<exists>d' ct. enforce_ratchets (demo_local\<lparr>ld_ratchets := Some [], ld_cb_packet := True\<rparr>) = (Inr (), d') \<and> ld_enforce_ratchets d'
     \<and> encrypt_with_ratchet toy_crypto [9] (replicate 16 3) demo_owner [1, 2] None = Inr ct
     \<and> (\<exists>d'' st'. dest_receive (demo_dest_env 1)
          ((new_packet None [] DATA CTX_NONE BROADCAST HEADER_1 None None False 0)\<lparr>p_data := ct\<rparr>) d' demo_store
        = (Inr True, [SpawnPacketCallback [1, 2] ((new_packet None [] DATA CTX_NONE BROADCAST HEADER_1 None None False 0)\<lparr>p_data := ct\<rparr>)], d'', st'))"
proof -
  let ?d = "demo_local\<lparr>ld_ratchets := Some [], ld_cb_packet := True\<rparr>"
  obtain d' where d': "enforce_ratchets ?d = (Inr (), d')" by (simp add: enforce_ratchets_def)
  have o1: "encryption_pub_key demo_owner = Some (c_x_pub toy_crypto (replicate 32 5))" "encryption_prv_key demo_owner = Some (replicate 32 5)"
    "id_ratchets demo_owner = []"
    by (simp_all add: demo_owner_def new_identity_def create_keys_def update_hashes_def empty_identity_def)
  obtain ct where ct: "encrypt_with_ratchet toy_crypto [9] (replicate 16 3) demo_owner [1, 2] None = Inr ct"
    using identity_encryption_roundtrip [OF toy_crypto_ok demo_owner_fields(2) demo_owner_fields(2), of "replicate 16 3" None "replicate 32 5" None "[]"] o1
    by auto
  have c: "de_crypto (demo_dest_env 1) = toy_crypto" by (simp add: demo_dest_env_def demo_link_env_def)
  have g: "ld_ratchet_generation ?d = sr_generation (ds_cells demo_store (ld_ratchet_shared ?d))"
    by (simp add: demo_store_def default_shared_def demo_local_def dest_new_inbound_def make_destination_def demo_owner_fields expand_name_def
        name_hash_of_def destination_hash_of_def demo_dest_env_def demo_link_env_def)
  show ?thesis
    using d' ct enforced_ratchets_not_enforced [OF _ d' _ _ _ g, of "demo_dest_env 1" demo_owner _ "replicate 32 5" "[9]" "replicate 16 3" "[1, 2]" ct
        "(new_packet None [] DATA CTX_NONE BROADCAST HEADER_1 None None False 0)\<lparr>p_data := ct\<rparr>"]
      toy_crypto_ok o1 demo_owner_fields(2) demo_local_fields(1,3) c
    by (auto simp: new_packet_def)
qed

lemma group_token: "\<exists>t. Token_new group_key = Inr t \<and> length (t_encryption_key t) = 32"
  by (simp add: Token_new_def group_key_def)

text \<open>
  All group destinations have one key. \<^verbatim>\<open>create_keys\<close> fills the key of a group destination with a fixed sequence of
  bytes: two group destinations that have nothing in common, each having created its keys, hold the same private key, and
  either decrypts what is encrypted to the other.
\<close>

theorem group_keys_all_equal:
  assumes c: "crypto_ok c" "de_crypto E = c" "de_crypto E' = c" and iv: "length (le_iv (de_link E)) = 16"
    and d: "d_dest_type d = Group" "d_dest_type e = Group"
  shows "\<exists>d' st' e' su' ct. dest_create_keys d st = (Inr (), d', st') \<and> dest_create_keys e su = (Inr (), e', su')
     \<and> dest_get_private_key d' = dest_get_private_key e'
     \<and> fst (dest_encrypt E m d' st') = Inr ct \<and> fst (dest_decrypt E' ct e' su') = Inr m"
proof -
  obtain t where t: "Token_new group_key = Inr t" "length (t_encryption_key t) = 32" using group_token by blast
  have k: "dest_create_keys x s = (Inr (), x\<lparr>ld_prv_bytes := Some group_key\<rparr>, s\<lparr>ds_tokens := (ds_tokens s)(ld_token x := Some t)\<rparr>)"
    if "d_dest_type x = Group" for x s
    using that t by (simp add: dest_create_keys_def Let_def)
  obtain ct where "Token_encrypt c (le_iv (de_link E)) t m = Inr ct" "Token_decrypt c t ct = Inr m"
    using Token_roundtrip [OF c(1) t(2) iv] by blast
  then show ?thesis
    using k [OF d(1), of st] k [OF d(2), of su] d c(2,3)
    by (auto simp: dest_get_private_key_def dest_encrypt_def dest_decrypt_def)
qed

theorem group_keys_all_equal_witness:
  "\<exists>d' st' e' su' ct. dest_create_keys (demo_local\<lparr>d_dest_type := Group\<rparr>) demo_store = (Inr (), d', st')
     \<and> dest_create_keys (demo_local\<lparr>d_dest_type := Group, d_app_name := ''other'', ld_token := 7\<rparr>) demo_store = (Inr (), e', su')
     \<and> fst (dest_encrypt (demo_dest_env 1) [4, 5] d' st') = Inr ct \<and> fst (dest_decrypt (demo_dest_env 2) ct e' su') = Inr [4, 5]"
  using group_keys_all_equal [OF toy_crypto_ok, of "demo_dest_env 1" "demo_dest_env 2" "demo_local\<lparr>d_dest_type := Group\<rparr>"
      "demo_local\<lparr>d_dest_type := Group, d_app_name := ''other'', ld_token := 7\<rparr>" demo_store demo_store "[4, 5]"]
  by (auto simp: demo_dest_env_def demo_link_env_def)

text \<open>
  One unreadable moment of the file loses the ratchets. A packet that does not decrypt makes a destination read its file
  again; when neither of the two readings succeeds, its list becomes empty although the list in memory was good, with the
  generation unchanged, so that it does not go back to the shared list. The next rotation then starts from the empty list, and
  makes that the shared list and the file: what peers encrypt to any earlier ratchet can no longer be read by any clone.
\<close>

theorem unreadable_file_loses_ratchets:
  assumes d: "d_dest_type d = Single" "d_identity d = Some i" "ld_ratchets d = Some rs" "ld_ratchets_path d = Some path" "\<not> ld_ratchets_frozen d"
      "0 < ld_retained_ratchets d" "ld_ratchet_generation d = sr_generation (ds_cells st (ld_ratchet_shared d))"
    and garbage: "decrypt_with_ratchets (de_crypto E) i ct (Some rs) = Inl (Err e)"
    and unreadable: "ds_files st path \<noteq> None" "\<forall>k x. de_read E k x = None"
    and later: "steady c wr rd E'" "owner_keys c i prv" "mp_lossless wr rd" "mirror_ok path d"
      "ratchet_due (de_now E') (ld_latest_ratchet_time d) (ld_ratchet_interval d)"
  shows "\<exists>d1 d2 st2. snd (dest_decrypt E ct d st) = (d1, st) \<and> ld_ratchets d1 = Some [] \<and> ld_ratchet_generation d1 = ld_ratchet_generation d
     \<and> rotate_ratchets E' d1 st = (Inr True, d2, st2)
     \<and> sr_ratchets (ds_cells st2 (ld_ratchet_shared d)) = Some [de_ratchet_prv E']
     \<and> file_holds c wr rd i path [de_ratchet_prv E'] st2"
proof -
  let ?d1 = "d\<lparr>ld_ratchets := Some []\<rparr>"
  have a: "adopt_shared_ratchets (ds_cells st (ld_ratchet_shared d)) d = d" "adopt_shared_ratchets (ds_cells st (ld_ratchet_shared d)) ?d1 = ?d1"
    using d(7) by (simp_all add: adopt_shared_ratchets_def)
  have "reload_ratchets E path d st = (Inr (), d\<lparr>ld_ratchets := Some [], ld_ratchets_path := Some path\<rparr>, st)"
    using unreadable d(2) by (auto simp: reload_ratchets_def load_attempt_def)
  then have "reload_ratchets E path d st = (Inr (), ?d1, st)" using d(4) by simp
  then have dec: "snd (dest_decrypt E ct d st) = (?d1, st)"
    using d garbage a(1) by (simp add: dest_decrypt_def Let_def)
  let ?d2 = "d\<lparr>ld_ratchets := Some [de_ratchet_prv E'], ld_latest_ratchet_time := de_now E'\<rparr>"
  have cl: "clean_ratchets (?d1\<lparr>ld_ratchets := Some [de_ratchet_prv E'], ld_latest_ratchet_time := de_now E'\<rparr>) = ?d2"
    using d(6) by (simp add: clean_ratchets_def)
  obtain files where p: "persist_ratchets E' ?d2 st = (Inr (), st\<lparr>ds_files := files\<rparr>)"
    "\<And>st'. ds_files st' = files \<Longrightarrow> file_holds c wr rd i path [de_ratchet_prv E'] st'"
    using persist_steady [OF later(2,1,3), of ?d2 path "[de_ratchet_prv E']" st] d later(4) by (auto simp: mirror_ok_def)
  let ?cell = "\<lparr> sr_ratchets = Some [de_ratchet_prv E'], sr_latest_ratchet_time = de_now E',
      sr_generation = sr_generation (ds_cells st (ld_ratchet_shared d)) + 1 \<rparr>"
  have "rotate_ratchets E' ?d1 st = (Inr True, ?d2\<lparr>ld_ratchet_generation := sr_generation ?cell\<rparr>,
      st\<lparr>ds_files := files, ds_cells := (ds_cells st)(ld_ratchet_shared d := ?cell)\<rparr>)"
    using d(5) a(2) later(5) cl p(1) by (simp add: rotate_ratchets_def Let_def)
  then show ?thesis using dec p(2) by auto
qed

theorem unreadable_file_loses_ratchets_witness:
  "\<exists>d1 d2 st2. snd (dest_decrypt ((demo_dest_env 1)\<lparr>de_read := \<lambda>k x. None\<rparr>) [1]
        (demo_local\<lparr>ld_ratchets := Some [replicate 32 4], ld_ratchets_path := Some ''r''\<rparr>) (demo_store\<lparr>ds_files := [''r'' \<mapsto> [0]]\<rparr>))
       = (d1, demo_store\<lparr>ds_files := [''r'' \<mapsto> [0]]\<rparr>)
     \<and> ld_ratchets d1 = Some []
     \<and> rotate_ratchets (demo_dest_env 5000) d1 (demo_store\<lparr>ds_files := [''r'' \<mapsto> [0]]\<rparr>) = (Inr True, d2, st2)
     \<and> sr_ratchets (ds_cells st2 (ld_ratchet_shared demo_local)) = Some [replicate 32 7]"
proof -
  let ?d = "demo_local\<lparr>ld_ratchets := Some [replicate 32 4], ld_ratchets_path := Some ''r''\<rparr>"
  let ?st = "demo_store\<lparr>ds_files := [''r'' \<mapsto> [0]]\<rparr>"
  let ?E = "(demo_dest_env 1)\<lparr>de_read := \<lambda>k x. None\<rparr>"
  have g: "ld_ratchet_generation ?d = sr_generation (ds_cells ?st (ld_ratchet_shared ?d))" "ld_latest_ratchet_time ?d = 0"
    by (simp_all add: demo_store_def default_shared_def demo_local_def dest_new_inbound_def make_destination_def demo_owner_fields expand_name_def
        name_hash_of_def destination_hash_of_def demo_dest_env_def demo_link_env_def)
  have s: "ld_ratchet_interval ?d = 1800" "0 < ld_retained_ratchets ?d" using demo_local_fields(7) by (simp_all add: settings_of_def)
  have n: "de_now (demo_dest_env 5000) = 5000" "de_ratchet_prv (demo_dest_env 5000) = replicate 32 7"
    by (simp_all add: demo_dest_env_def demo_link_env_def current_time_def)
  have x: "decrypt_with_ratchets (de_crypto ?E) demo_owner [1] (Some [replicate 32 4]) = Inl (Err ''Ciphertext too short'')"
    by (simp add: decrypt_with_ratchets_def)
  have m: "mirror_ok ''r'' ?d" by (simp add: mirror_ok_def demo_local_fields(5))
  have r: "ds_files ?st ''r'' \<noteq> None" "\<forall>k x. de_read ?E k x = None" by simp_all
  have f: "d_dest_type ?d = Single" "d_identity ?d = Some demo_owner" "ld_ratchets ?d = Some [replicate 32 4]" "ld_ratchets_path ?d = Some ''r''"
    "\<not> ld_ratchets_frozen ?d" using demo_local_fields by simp_all
  have l: "ratchet_due (de_now (demo_dest_env 5000)) (ld_latest_ratchet_time ?d) (ld_ratchet_interval ?d)"
    using g(2) s(1) n(1) by (simp add: ratchet_due_def)
  from unreadable_file_loses_ratchets [OF f s(2) g(1) x r demo_steady demo_owner_keys demo_lossless m l] show ?thesis
    using n(2) by auto
qed

end
