(* ===== verification/Ble_Wire.thy ===== *)
theory Ble_Wire
  imports Prelude
begin

text \<open>
  The Bluetooth LE wire format of \<^verbatim>\<open>prns-ble/src/wire.rs\<close>: control messages, the fragments a
  packet travels in and their reassembly, and the identity record kept on disk
  with the file it is kept in (\<^verbatim>\<open>identity.rs\<close>). An \<^verbatim>\<open>i8\<close> is the
  byte that represents it, so \<^verbatim>\<open>i8::MIN\<close> is \<open>0x80\<close> and the casts between \<^verbatim>\<open>i8\<close> and \<^verbatim>\<open>u8\<close> are the
  identity.
\<close>

abbreviation (input) HW_MTU :: nat where "HW_MTU \<equiv> 500"
abbreviation (input) FRAGMENT_HEADER_LEN :: nat where "FRAGMENT_HEADER_LEN \<equiv> 5"
abbreviation (input) IDENTITY_LEN :: nat where "IDENTITY_LEN \<equiv> 16"
abbreviation (input) CONTROL_HELLO :: u8 where "CONTROL_HELLO \<equiv> 0x01"
abbreviation (input) CONTROL_WELCOME :: u8 where "CONTROL_WELCOME \<equiv> 0x02"
abbreviation (input) CONTROL_CLOSE :: u8 where "CONTROL_CLOSE \<equiv> 0x03"
abbreviation (input) RSSI_UNKNOWN :: u8 where "RSSI_UNKNOWN \<equiv> 0x80"
abbreviation (input) FRAGMENT_START :: u8 where "FRAGMENT_START \<equiv> 0x01"
abbreviation (input) FRAGMENT_CONTINUE :: u8 where "FRAGMENT_CONTINUE \<equiv> 0x02"
abbreviation (input) FRAGMENT_END :: u8 where "FRAGMENT_END \<equiv> 0x03"
abbreviation (input) ROLE_COMPANY_ID :: u16 where "ROLE_COMPANY_ID \<equiv> 0xFFFF"
abbreviation (input) ROLE_VERSION :: u8 where "ROLE_VERSION \<equiv> 0x03"
abbreviation (input) ROLE_PERIPHERAL_ONLY :: u8 where "ROLE_PERIPHERAL_ONLY \<equiv> 0x01"
abbreviation (input) IDENTITY_RECORD_LEN :: nat where "IDENTITY_RECORD_LEN \<equiv> 40"

section \<open>Advertisements\<close>

definition is_peripheral_only :: "u16 \<Rightarrow> bytes \<Rightarrow> bool" where
  "is_peripheral_only company_id data \<longleftrightarrow>
     company_id = ROLE_COMPANY_ID
     \<and> (case get_byte 0 data of None \<Rightarrow> False | Some version \<Rightarrow> version \<ge> ROLE_VERSION)
     \<and> (case get_byte 1 data of None \<Rightarrow> False | Some flags \<Rightarrow> flags AND ROLE_PERIPHERAL_ONLY \<noteq> 0)"

section \<open>Control messages\<close>

record endpoint =
  ep_stack :: u8
  ep_host :: u8

definition new_endpoint :: "u8 \<Rightarrow> u8 \<Rightarrow> endpoint option" where
  "new_endpoint stack host =
     (let known = (if stack = 1 then host \<le> 2 else if 2 \<le> stack \<and> stack \<le> 6 then host = 0 else False)
      in if known then Some \<lparr> ep_stack = stack, ep_host = host \<rparr> else None)"

record greeting =
  gr_identity :: bytes
  gr_endpoint :: endpoint
  gr_psm :: u8
  gr_link_mtu :: u16
  gr_rssi :: "u8 option"

datatype close_reason = SelfConnection | DuplicateLink | Incompatible

datatype control = Hello greeting | Welcome greeting | Close close_reason

definition encode_greeting :: "u8 \<Rightarrow> greeting \<Rightarrow> bytes" where
  "encode_greeting tag g =
     [tag] @ gr_identity g @ [ep_stack (gr_endpoint g), ep_host (gr_endpoint g), gr_psm g]
     @ u16_to_be_bytes (gr_link_mtu g)
     @ [case gr_rssi g of Some dbm \<Rightarrow> if dbm \<noteq> 0x80 then dbm else RSSI_UNKNOWN | None \<Rightarrow> RSSI_UNKNOWN]"

definition decode_greeting :: "bytes \<Rightarrow> greeting option" where
  "decode_greeting body =
     Option.bind (get_range 0 IDENTITY_LEN body) (\<lambda>identity.
     Option.bind (get_byte 16 body) (\<lambda>stack.
     Option.bind (get_byte 17 body) (\<lambda>host.
     Option.bind (new_endpoint stack host) (\<lambda>endpoint.
     Option.bind (get_byte 18 body) (\<lambda>psm.
       if psm \<noteq> 0 \<and> psm < 0x80 then None
       else Option.bind (get_range 19 21 body) (\<lambda>mtu.
         Some \<lparr> gr_identity = identity, gr_endpoint = endpoint, gr_psm = psm,
                gr_link_mtu = u16_from_be_bytes (mtu ! 0) (mtu ! 1),
                gr_rssi = (case get_byte 21 body of None \<Rightarrow> None | Some b \<Rightarrow> if b \<noteq> 0x80 then Some b else None) \<rparr>))))))"

fun close_code :: "close_reason \<Rightarrow> u8" where
  "close_code SelfConnection = 0x01"
| "close_code DuplicateLink = 0x02"
| "close_code Incompatible = 0x03"

fun control_encode :: "control \<Rightarrow> bytes" where
  "control_encode (Hello g) = encode_greeting CONTROL_HELLO g"
| "control_encode (Welcome g) = encode_greeting CONTROL_WELCOME g"
| "control_encode (Close reason) = [CONTROL_CLOSE, close_code reason]"

definition control_decode :: "bytes \<Rightarrow> control option" where
  "control_decode bs =
     (case bs of
        [] \<Rightarrow> None
      | tag # body \<Rightarrow>
        if tag = CONTROL_HELLO then map_option Hello (decode_greeting body)
        else if tag = CONTROL_WELCOME then map_option Welcome (decode_greeting body)
        else if tag = CONTROL_CLOSE then
          (case body of
             [] \<Rightarrow> None
           | b # _ \<Rightarrow>
             if b = 0x01 then Some (Close SelfConnection)
             else if b = 0x02 then Some (Close DuplicateLink)
             else if b = 0x03 then Some (Close Incompatible)
             else None)
        else None)"

section \<open>Fragments\<close>

definition fragment_cap :: "nat \<Rightarrow> nat" where
  "fragment_cap fragment_size = max (fragment_size - FRAGMENT_HEADER_LEN) 1"

definition fragment_total :: "bytes \<Rightarrow> nat \<Rightarrow> nat" where
  "fragment_total packet fragment_size =
     (let cap = fragment_cap fragment_size in max ((length packet + cap - 1) div cap) 1)"

definition fragment_at :: "bytes \<Rightarrow> nat \<Rightarrow> nat \<Rightarrow> bytes" where
  "fragment_at packet fragment_size index =
     (let cap = fragment_cap fragment_size;
          total = fragment_total packet fragment_size;
          chunk = byte_range (min (index * cap) (length packet)) (min ((index + 1) * cap) (length packet)) packet;
          kind = (if index = 0 then FRAGMENT_START
                  else if index + 1 = total then FRAGMENT_END else FRAGMENT_CONTINUE)
      in [kind] @ u16_to_be_bytes (of_nat index) @ u16_to_be_bytes (of_nat total) @ chunk)"

definition fragments :: "bytes \<Rightarrow> nat \<Rightarrow> bytes list" where
  "fragments packet fragment_size =
     map (fragment_at packet fragment_size) [0..<fragment_total packet fragment_size]"

record fragment =
  fr_seq :: u16
  fr_total :: u16
  fr_data :: bytes

definition decode_fragment :: "bytes \<Rightarrow> fragment option" where
  "decode_fragment bs =
     (case bs of
        [] \<Rightarrow> None
      | kind # _ \<Rightarrow>
        if kind \<noteq> FRAGMENT_START \<and> kind \<noteq> FRAGMENT_CONTINUE \<and> kind \<noteq> FRAGMENT_END then None
        else if length bs < FRAGMENT_HEADER_LEN then None
        else Some \<lparr> fr_seq = u16_from_be_bytes (bs ! 1) (bs ! 2),
                    fr_total = u16_from_be_bytes (bs ! 3) (bs ! 4),
                    fr_data = drop FRAGMENT_HEADER_LEN bs \<rparr>)"

section \<open>Reassembly\<close>

record reassembler =
  ra_buf :: bytes
  ra_next_seq :: u16
  ra_total :: u16
  ra_active :: bool

definition new_reassembler :: reassembler where
  "new_reassembler = \<lparr> ra_buf = [], ra_next_seq = 0, ra_total = 0, ra_active = False \<rparr>"

text \<open>
  \<open>Absorbed None\<close> and \<open>Absorbed (Some p)\<close> are \<^verbatim>\<open>Ok\<close>, \<open>Rejected\<close> is \<^verbatim>\<open>Err\<close>; \<open>Overflowed\<close> is the
  increment of the sequence number past 65535, which panics in a checked build.
\<close>

datatype absorb_result = Absorbed "bytes option" | Rejected string | Overflowed

definition absorb :: "fragment \<Rightarrow> reassembler \<Rightarrow> absorb_result \<times> reassembler" where
  "absorb f r =
     (let r = (if fr_seq f = 0
               then r\<lparr>ra_buf := [], ra_total := fr_total f, ra_next_seq := 0, ra_active := True\<rparr> else r)
      in if \<not> ra_active r then (Rejected ''fragment without a start'', r)
         else if fr_seq f \<noteq> ra_next_seq r \<or> fr_total f \<noteq> ra_total r
         then (Rejected ''fragment out of sequence'', r\<lparr>ra_active := False\<rparr>)
         else if length (ra_buf r) + length (fr_data f) > HW_MTU
         then (Rejected ''packet larger than the hardware MTU'', r\<lparr>ra_active := False\<rparr>)
         else
           (let r = r\<lparr>ra_buf := ra_buf r @ fr_data f\<rparr> in
            if ra_next_seq r = 0xFFFF then (Overflowed, r)
            else
              (let r = r\<lparr>ra_next_seq := ra_next_seq r + 1\<rparr> in
               if ra_next_seq r = ra_total r
               then (Absorbed (Some (ra_buf r)), r\<lparr>ra_active := False, ra_buf := []\<rparr>)
               else (Absorbed None, r))))"

text \<open>A list of fragments, and the frames they come in: an undecodable one is an error of its own.\<close>

fun absorb_all :: "fragment list \<Rightarrow> reassembler \<Rightarrow> absorb_result list \<times> reassembler" where
  "absorb_all [] r = ([], r)"
| "absorb_all (f # fs) r =
     (case absorb f r of (x, r) \<Rightarrow> (case absorb_all fs r of (xs, r) \<Rightarrow> (x # xs, r)))"

section \<open>Identity record\<close>

definition IDENTITY_RECORD_MAGIC :: bytes where
  "IDENTITY_RECORD_MAGIC = [0x50, 0x52, 0x4E, 0x53, 0x42, 0x4C, 0x45, 0x31]"

definition encode_identity_record :: "bytes \<Rightarrow> bytes" where
  "encode_identity_record identity = IDENTITY_RECORD_MAGIC @ identity @ map NOT identity"

definition decode_identity_record :: "bytes \<Rightarrow> string + bytes" where
  "decode_identity_record record =
     (if length record \<noteq> IDENTITY_RECORD_LEN then Inl ''wrong length''
      else if take 8 record \<noteq> IDENTITY_RECORD_MAGIC then Inl ''bad magic''
      else
        (let identity = byte_range 8 24 record in
         if \<exists>(stored, b)\<in>set (zip (drop 24 record) identity). stored \<noteq> NOT b
         then Inl ''integrity check failed''
         else Inr identity))"

section \<open>The codecs\<close>

definition wf_greeting :: "greeting \<Rightarrow> bool" where
  "wf_greeting g \<longleftrightarrow> length (gr_identity g) = IDENTITY_LEN
     \<and> new_endpoint (ep_stack (gr_endpoint g)) (ep_host (gr_endpoint g)) = Some (gr_endpoint g)
     \<and> (gr_psm g = 0 \<or> gr_psm g \<ge> 0x80) \<and> gr_rssi g \<noteq> Some 0x80"

fun wf_control :: "control \<Rightarrow> bool" where
  "wf_control (Hello g) = wf_greeting g"
| "wf_control (Welcome g) = wf_greeting g"
| "wf_control (Close reason) = True"

lemma decode_greeting_encoded:
  assumes "wf_greeting g"
  shows "decode_greeting (tl (encode_greeting tag g @ rest)) = Some g"
proof -
  obtain i st ho psm mtu rssi where g: "g = \<lparr> gr_identity = i, gr_endpoint = \<lparr> ep_stack = st, ep_host = ho \<rparr>,
      gr_psm = psm, gr_link_mtu = mtu, gr_rssi = rssi \<rparr>"
    by (metis (full_types) endpoint.surjective greeting.surjective unit.exhaust)
  have "length i = 16" "new_endpoint st ho = Some \<lparr> ep_stack = st, ep_host = ho \<rparr>" "psm = 0 \<or> psm \<ge> 0x80"
    "rssi \<noteq> Some 0x80"
    using assms by (simp_all add: wf_greeting_def g)
  then show ?thesis
    by (auto simp: g encode_greeting_def decode_greeting_def get_range_def get_byte_def byte_range_def
        u16_to_be_bytes_def nth_append word_less_nat_alt word_le_nat_alt split: option.splits)
qed

lemma control_decode_encode: "wf_control x \<Longrightarrow> control_decode (control_encode x @ rest) = Some x"
proof (cases x)
  case (Close r)
  then show ?thesis by (cases r) (simp_all add: control_decode_def)
qed (use decode_greeting_encoded in \<open>auto simp: control_decode_def encode_greeting_def\<close>)

interpretation ble_control: prefix_codec control_encode control_decode wf_control
proof
  show "wf_control x \<Longrightarrow> control_decode (control_encode x) = Some x" for x
    using control_decode_encode [of x "[]"] by simp
qed (rule control_decode_encode)

text \<open>The identity record, decoding to an option.\<close>

definition read_identity_record :: "bytes \<Rightarrow> bytes option" where
  "read_identity_record bs = (case decode_identity_record bs of Inl _ \<Rightarrow> None | Inr i \<Rightarrow> Some i)"

interpretation identity_record: codec encode_identity_record read_identity_record "\<lambda>i. length i = IDENTITY_LEN"
proof
  fix x :: bytes
  assume "length x = IDENTITY_LEN"
  then show "read_identity_record (encode_identity_record x) = Some x"
    by (auto simp: read_identity_record_def decode_identity_record_def encode_identity_record_def
        IDENTITY_RECORD_MAGIC_def byte_range_def Let_def set_zip)
qed

lemma identity_record_exact:
  "decode_identity_record bs = Inr i \<Longrightarrow> bs = encode_identity_record i \<and> length i = IDENTITY_LEN"
proof -
  assume d: "decode_identity_record bs = Inr i"
  then have len: "length bs = 40" and m: "take 8 bs = IDENTITY_RECORD_MAGIC" and i: "i = byte_range 8 24 bs"
    and z: "\<not> (\<exists>(stored, b)\<in>set (zip (drop 24 bs) i). stored \<noteq> NOT b)"
    unfolding decode_identity_record_def Let_def by (simp_all only: split: if_splits) auto
  have "drop 24 bs = map NOT i"
  proof (rule nth_equalityI)
    show "length (drop 24 bs) = length (map NOT i)" using len i by simp
    fix k assume "k < length (drop 24 bs)"
    then have "(drop 24 bs ! k, i ! k) \<in> set (zip (drop 24 bs) i)"
      using len i by (auto simp: set_zip)
    then show "drop 24 bs ! k = map NOT i ! k" using z \<open>k < length (drop 24 bs)\<close> len i by auto
  qed
  moreover have "bs = take 8 bs @ byte_range 8 24 bs @ drop 24 bs"
    by (simp add: take_byte_range_drop)
  ultimately show ?thesis using m i len by (simp add: encode_identity_record_def)
qed

section \<open>Fragmentation\<close>

definition chunk :: "bytes \<Rightarrow> nat \<Rightarrow> nat \<Rightarrow> bytes" where
  "chunk p cap i = byte_range (min (i * cap) (length p)) (min ((i + 1) * cap) (length p)) p"

lemma take_chunk: "take (i * cap) p @ chunk p cap i = take (Suc i * cap) p"
proof -
  have "i * cap \<le> Suc i * cap" by simp
  then have "take (Suc i * cap) p = take (i * cap) p @ take (Suc i * cap - i * cap) (drop (i * cap) p)"
    by (metis le_add_diff_inverse take_add)
  then show ?thesis by (auto simp: chunk_def byte_range_def min_def)
qed

lemma fragment_cap_pos: "0 < fragment_cap n"
  by (simp add: fragment_cap_def)

lemma fragment_total_covers: "length p \<le> fragment_total p n * fragment_cap n"
proof -
  let ?c = "fragment_cap n"
  have "length p + ?c - 1 < ((length p + ?c - 1) div ?c + 1) * ?c"
    using fragment_cap_pos [of n] by (metis Suc_eq_plus1 dividend_less_div_times mult.commute mult_Suc)
  then have "length p \<le> (length p + ?c - 1) div ?c * ?c"
    using fragment_cap_pos [of n] by simp
  also have "\<dots> \<le> fragment_total p n * ?c"
    by (simp add: fragment_total_def Let_def)
  finally show ?thesis .
qed

lemma fragment_total_pos: "0 < fragment_total p n"
  by (simp add: fragment_total_def Let_def)

lemma fragment_total_le: "fragment_total p n \<le> max (length p) 1"
proof -
  have c: "0 < fragment_cap n" by (rule fragment_cap_pos)
  have "(length p + fragment_cap n - 1) div fragment_cap n \<le> length p"
  proof (cases "length p")
    case (Suc k)
    have "k \<le> k * fragment_cap n" using c by simp
    moreover have "Suc (length p) * fragment_cap n = fragment_cap n + fragment_cap n + k * fragment_cap n"
      by (simp add: Suc)
    ultimately have "length p + fragment_cap n - 1 < Suc (length p) * fragment_cap n"
      using c Suc by linarith
    from less_mult_imp_div_less [OF this] show ?thesis by (simp only: less_Suc_eq_le)
  qed (use c in simp)
  then show ?thesis by (simp add: fragment_total_def Let_def)
qed

definition fragment_of :: "bytes \<Rightarrow> nat \<Rightarrow> nat \<Rightarrow> fragment" where
  "fragment_of p fs i = \<lparr> fr_seq = of_nat i, fr_total = of_nat (fragment_total p fs),
     fr_data = chunk p (fragment_cap fs) i \<rparr>"

lemma decode_fragment_at: "decode_fragment (fragment_at p fs i) = Some (fragment_of p fs i)"
  by (simp add: decode_fragment_def fragment_at_def fragment_of_def chunk_def u16_to_be_bytes_def Let_def)

lemma length_chunk: "length (chunk p cap i) \<le> cap"
  unfolding chunk_def length_byte_range by (auto simp: min_def)

section \<open>Reassembly\<close>

lemma of_nat_u16_eq: "a < 65536 \<Longrightarrow> b < 65536 \<Longrightarrow> (of_nat a = (of_nat b :: u16)) = (a = b)"
  by (simp add: word_of_nat_eq_iff take_bit_nat_eq_self)

lemma absorb_next:
  assumes "ra_active r" "ra_next_seq r = of_nat i" "ra_total r = of_nat n" "n = fragment_total p fs"
    and "ra_buf r = take (i * fragment_cap fs) p" "0 < i" "i < n" "n < 65536" "length p \<le> HW_MTU"
  shows "absorb (fragment_of p fs i) r =
    (if Suc i = n then (Absorbed (Some p), r\<lparr>ra_buf := [], ra_next_seq := of_nat n, ra_active := False\<rparr>)
     else (Absorbed None, r\<lparr>ra_buf := take (Suc i * fragment_cap fs) p, ra_next_seq := of_nat (Suc i)\<rparr>))"
proof -
  have s: "(of_nat i :: u16) \<noteq> 0" "(of_nat i :: u16) \<noteq> 0xFFFF"
    using of_nat_u16_eq [of i 0] of_nat_u16_eq [of i 65535] assms(6,7,8) by auto
  have n: "(of_nat i + 1 = (of_nat n :: u16)) = (Suc i = n)"
    using of_nat_u16_eq [of "Suc i" n] assms(7,8) by (simp add: add.commute)
  have l: "length (take (i * fragment_cap fs) p) + length (chunk p (fragment_cap fs) i) \<le> HW_MTU"
    using assms(9) take_chunk [of i "fragment_cap fs" p]
    by (metis length_append length_take min.coboundedI1)
  have all: "Suc i = n \<Longrightarrow> length p \<le> fragment_cap fs + i * fragment_cap fs"
    using fragment_total_covers [of p fs] assms(4) by (metis mult_Suc)
  show ?thesis
    using s n l all assms take_chunk [of i "fragment_cap fs" p]
    by (auto simp: absorb_def fragment_of_def Let_def add.commute)
qed

lemma absorb_first:
  assumes "n = fragment_total p fs" "n < 65536" "length p \<le> HW_MTU"
  shows "absorb (fragment_of p fs 0) r =
    (if n = 1 then (Absorbed (Some p), r\<lparr>ra_buf := [], ra_total := of_nat n, ra_next_seq := of_nat n, ra_active := False\<rparr>)
     else (Absorbed None, r\<lparr>ra_buf := take (fragment_cap fs) p, ra_total := of_nat n, ra_next_seq := 1, ra_active := True\<rparr>))"
proof -
  have n: "(1 = (of_nat n :: u16)) = (n = 1)"
    using of_nat_u16_eq [of 1 n] assms(2) by auto
  have c: "chunk p (fragment_cap fs) 0 = take (fragment_cap fs) p"
    using take_chunk [of 0 "fragment_cap fs" p] by simp
  have "n = 1 \<Longrightarrow> length p \<le> fragment_cap fs"
    using fragment_total_covers [of p fs] assms(1) by simp
  then show ?thesis
    using n assms by (auto simp: absorb_def fragment_of_def c Let_def)
qed

lemma absorb_rest:
  assumes "ra_active r" "ra_next_seq r = of_nat i" "ra_total r = of_nat n" "n = fragment_total p fs"
    and "ra_buf r = take (i * fragment_cap fs) p" "0 < i" "i < n" "n < 65536" "length p \<le> HW_MTU"
  shows "absorb_all (map (fragment_of p fs) [i..<n]) r =
    (replicate (n - i - 1) (Absorbed None) @ [Absorbed (Some p)],
     r\<lparr>ra_buf := [], ra_next_seq := of_nat n, ra_active := False\<rparr>)"
  using assms
proof (induction "n - i" arbitrary: i r)
  case (Suc k)
  have up: "[i..<n] = i # [Suc i..<n]"
    using Suc.prems(7) by (simp add: upt_rec)
  show ?case
  proof (cases "Suc i = n")
    case True
    then show ?thesis unfolding up using absorb_next [OF Suc.prems] by simp
  next
    case False
    let ?r = "r\<lparr>ra_buf := take (Suc i * fragment_cap fs) p, ra_next_seq := of_nat (Suc i)\<rparr>"
    have "absorb_all (map (fragment_of p fs) [Suc i..<n]) ?r =
      (replicate (n - Suc i - 1) (Absorbed None) @ [Absorbed (Some p)],
       ?r\<lparr>ra_buf := [], ra_next_seq := of_nat n, ra_active := False\<rparr>)"
      using Suc.prems Suc.hyps(2) False by (intro Suc.hyps(1)) auto
    moreover have "n - i - 1 = Suc (n - Suc i - 1)" using Suc.prems(7) False by simp
    ultimately show ?thesis
      unfolding up using absorb_next [OF Suc.prems] False by simp
  qed
qed simp

lemma fragments_ok:
  assumes "FRAGMENT_HEADER_LEN < n"
  shows "fragments p n \<noteq> []" and "\<forall>f\<in>set (fragments p n). length f \<le> n"
proof -
  show "fragments p n \<noteq> []" using fragment_total_pos [of p n] by (simp add: fragments_def)
  have "length (fragment_at p n i) = FRAGMENT_HEADER_LEN + length (chunk p (fragment_cap n) i)" for i
    by (simp add: fragment_at_def chunk_def Let_def)
  moreover have "FRAGMENT_HEADER_LEN + fragment_cap n = n"
    using assms by (simp add: fragment_cap_def)
  ultimately have "length (fragment_at p n i) \<le> n" for i
    using length_chunk [of p "fragment_cap n" i] by simp
  then show "\<forall>f\<in>set (fragments p n). length f \<le> n" by (auto simp: fragments_def)
qed

lemma fragments_absorbed:
  assumes "length p \<le> HW_MTU"
  shows "\<exists>r'. absorb_all (map (fragment_of p fs) [0..<fragment_total p fs]) r
      = (replicate (fragment_total p fs - 1) (Absorbed None) @ [Absorbed (Some p)], r') \<and> \<not> ra_active r'"
proof -
  let ?n = "fragment_total p fs" and ?c = "fragment_cap fs"
  have n: "0 < ?n" "?n < 65536"
    using fragment_total_pos [of p fs] fragment_total_le [of p fs] assms(1) by auto
  have up: "[0..<?n] = 0 # [1..<?n]" using n(1) by (simp add: upt_rec)
  show ?thesis
  proof (cases "?n = 1")
    case True
    then show ?thesis by (simp add: absorb_first [OF refl _ assms(1)])
  next
    case False
    let ?r = "r\<lparr>ra_buf := take ?c p, ra_total := of_nat ?n, ra_next_seq := 1, ra_active := True\<rparr>"
    have "absorb_all (map (fragment_of p fs) [1..<?n]) ?r =
      (replicate (?n - 1 - 1) (Absorbed None) @ [Absorbed (Some p)],
       ?r\<lparr>ra_buf := [], ra_next_seq := of_nat ?n, ra_active := False\<rparr>)"
      using False n assms(1) by (intro absorb_rest) auto
    moreover have "?n - 1 = Suc (?n - 1 - 1)" using False n(1) by simp
    ultimately show ?thesis
      using False n(2) by (simp add: up absorb_first [OF refl _ assms(1)] split_def)
  qed
qed

lemma decode_fragments:
  "map decode_fragment (fragments p fs) = map Some (map (fragment_of p fs) [0..<fragment_total p fs])"
  by (simp add: fragments_def decode_fragment_at)

text \<open>
  Fragmentation round trip. Every fragment of a packet within the hardware MTU decodes, none is
  longer than the write it must fit in, and absorbing them in order, in whatever state an earlier
  transfer left the reassembler, yields nothing until the last one and then the packet.
\<close>

theorem fragments_reassemble:
  assumes "length p \<le> HW_MTU" and "FRAGMENT_HEADER_LEN < fs"
  shows "\<exists>frs r'. map decode_fragment (fragments p fs) = map Some frs
     \<and> (\<forall>bs\<in>set (fragments p fs). length bs \<le> fs)
     \<and> absorb_all frs r = (replicate (length frs - 1) (Absorbed None) @ [Absorbed (Some p)], r')
     \<and> \<not> ra_active r'"
  using fragments_absorbed [OF assms(1), of fs r] decode_fragments [of p fs] fragments_ok(2) [OF assms(2)]
  by (intro exI [of _ "map (fragment_of p fs) [0..<fragment_total p fs]"]) auto

theorem fragments_reassemble_witness:
  "\<exists>frs r'. map decode_fragment (fragments (replicate 300 7) 20) = map Some frs
     \<and> (\<forall>bs\<in>set (fragments (replicate 300 7) 20). length bs \<le> 20)
     \<and> absorb_all frs new_reassembler
         = (replicate (length frs - 1) (Absorbed None) @ [Absorbed (Some (replicate 300 7))], r')
     \<and> \<not> ra_active r'"
  by (rule fragments_reassemble) simp_all

section \<open>Identity file\<close>

text \<open>
  \<^verbatim>\<open>load_or_create\<close> of \<^verbatim>\<open>identity.rs\<close>. The file is missing, unreadable, or has contents; the fresh identity
  is what the system's random generator returns, and each step of writing the new file may fail. The
  rename makes the write atomic, so a failure leaves the file as it was.
\<close>

datatype identity_file = Missing | Unreadable | Contents bytes

datatype loaded = Existing bytes | Created bytes "string option"

fun loaded_identity :: "loaded \<Rightarrow> bytes" where
  "loaded_identity (Existing identity) = identity"
| "loaded_identity (Created identity _) = identity"

record storage_io =
  io_create_dir :: bool
  io_write_temp :: bool
  io_rename :: bool

definition create_identity ::
  "bytes \<Rightarrow> storage_io \<Rightarrow> string option \<Rightarrow> identity_file \<Rightarrow> (string + loaded) \<times> identity_file"
where
  "create_identity identity io damaged f =
     (if \<not> io_create_dir io then (Inl ''cannot create'', f)
      else if \<not> io_write_temp io then (Inl ''cannot write'', f)
      else if \<not> io_rename io then (Inl ''cannot write'', f)
      else (Inr (Created identity damaged), Contents (encode_identity_record identity)))"

definition load_or_create :: "bytes \<Rightarrow> storage_io \<Rightarrow> identity_file \<Rightarrow> (string + loaded) \<times> identity_file" where
  "load_or_create identity io f =
     (case f of
        Contents record \<Rightarrow>
          (case decode_identity_record record of
             Inr existing \<Rightarrow> (Inr (Existing existing), f)
           | Inl why \<Rightarrow> create_identity identity io (Some why) f)
      | Missing \<Rightarrow> create_identity identity io None f
      | Unreadable \<Rightarrow> (Inl ''cannot read'', f))"

text \<open>Once loaded, the identity is the same at every later start, whatever the generator returns then.\<close>

lemma identity_persists:
  assumes "length fresh = IDENTITY_LEN" and "load_or_create fresh io f = (Inr l, f')"
  shows "load_or_create other io' f' = (Inr (Existing (loaded_identity l)), f')"
proof -
  have "decode_identity_record (encode_identity_record fresh) = Inr fresh"
    using identity_record.decode_encode [OF assms(1)] by (simp add: read_identity_record_def split: sum.splits)
  then show ?thesis
    using assms(2) by (auto simp: load_or_create_def create_identity_def split: identity_file.splits sum.splits if_splits)
qed

section \<open>Soundness of reassembly\<close>

text \<open>
  A run of fragments of one packet: numbered from zero, agreeing on the total, with the given
  concatenation.
\<close>

definition fragment_run :: "u16 \<Rightarrow> fragment list \<Rightarrow> bytes \<Rightarrow> bool" where
  "fragment_run tot frs buf \<longleftrightarrow>
     map fr_seq frs = map of_nat [0..<length frs] \<and> (\<forall>f\<in>set frs. fr_total f = tot)
     \<and> buf = concat (map fr_data frs) \<and> length buf \<le> HW_MTU"

text \<open>What the reassembler holds, in terms of the fragments it was given.\<close>

definition ra_ok :: "fragment list \<Rightarrow> reassembler \<Rightarrow> bool" where
  "ra_ok hist r \<longleftrightarrow> (ra_active r \<longrightarrow>
     (\<exists>before frs. hist = before @ frs \<and> frs \<noteq> [] \<and> length frs = unat (ra_next_seq r)
        \<and> fragment_run (ra_total r) frs (ra_buf r)))"

definition complete_packet :: "fragment list \<Rightarrow> bytes \<Rightarrow> bool" where
  "complete_packet hist p \<longleftrightarrow>
     (\<exists>before frs. hist = before @ frs \<and> frs \<noteq> [] \<and> fragment_run (of_nat (length frs)) frs p)"

lemma fragment_run_snoc:
  assumes "fragment_run tot frs buf" and "fr_seq f = of_nat (length frs)" and "fr_total f = tot"
    and "length buf + length (fr_data f) \<le> HW_MTU"
  shows "fragment_run tot (frs @ [f]) (buf @ fr_data f)"
  using assms by (auto simp: fragment_run_def)

lemma absorb_sound:
  assumes ok: "ra_ok hist r" and "absorb f r = (x, r')" and "x \<noteq> Overflowed"
  shows "ra_ok (hist @ [f]) r'" and "x = Absorbed (Some p) \<Longrightarrow> complete_packet (hist @ [f]) p"
proof -
  define r0 where "r0 = (if fr_seq f = 0
     then r\<lparr>ra_buf := [], ra_total := fr_total f, ra_next_seq := 0, ra_active := True\<rparr> else r)"
  have step: "(x, r') = (if \<not> ra_active r0 then (Rejected ''fragment without a start'', r0)
     else if fr_seq f \<noteq> ra_next_seq r0 \<or> fr_total f \<noteq> ra_total r0
     then (Rejected ''fragment out of sequence'', r0\<lparr>ra_active := False\<rparr>)
     else if length (ra_buf r0) + length (fr_data f) > HW_MTU
     then (Rejected ''packet larger than the hardware MTU'', r0\<lparr>ra_active := False\<rparr>)
     else if ra_next_seq r0 = 0xFFFF then (Overflowed, r0\<lparr>ra_buf := ra_buf r0 @ fr_data f\<rparr>)
     else if ra_next_seq r0 + 1 = ra_total r0
     then (Absorbed (Some (ra_buf r0 @ fr_data f)), r0\<lparr>ra_next_seq := ra_next_seq r0 + 1, ra_active := False, ra_buf := []\<rparr>)
     else (Absorbed None, r0\<lparr>ra_buf := ra_buf r0 @ fr_data f, ra_next_seq := ra_next_seq r0 + 1\<rparr>))"
    by (simp add: assms(2) [symmetric] absorb_def Let_def flip: r0_def cong: if_cong split del: if_split)
  have run: "\<exists>before frs. hist = before @ frs \<and> length frs = unat (ra_next_seq r0)
      \<and> fragment_run (ra_total r0) frs (ra_buf r0)" if "ra_active r0"
  proof (cases "fr_seq f = 0")
    case True
    then show ?thesis by (intro exI [of _ hist] exI [of _ "[]"]) (simp add: r0_def fragment_run_def)
  next
    case False
    then show ?thesis using ok that by (auto simp: r0_def ra_ok_def)
  qed
  have next_run: "\<exists>before frs. hist @ [f] = before @ frs \<and> frs \<noteq> [] \<and> length frs = unat (ra_next_seq r0 + 1)
      \<and> fragment_run (ra_total r0) frs (ra_buf r0 @ fr_data f)"
    if acc: "ra_active r0" "fr_seq f = ra_next_seq r0" "fr_total f = ra_total r0"
      "length (ra_buf r0) + length (fr_data f) \<le> HW_MTU" "ra_next_seq r0 \<noteq> 0xFFFF"
  proof -
    obtain before frs where b: "hist = before @ frs" "length frs = unat (ra_next_seq r0)"
      "fragment_run (ra_total r0) frs (ra_buf r0)" using run [OF acc(1)] by blast
    have "unat (ra_next_seq r0 + 1) = Suc (unat (ra_next_seq r0))"
      using acc(5) by unat_arith simp
    moreover have "fragment_run (ra_total r0) (frs @ [f]) (ra_buf r0 @ fr_data f)"
      using fragment_run_snoc [OF b(3)] acc b(2) by simp
    ultimately show ?thesis
      using b by (intro exI [of _ before] exI [of _ "frs @ [f]"]) auto
  qed
  show "ra_ok (hist @ [f]) r'"
    using step next_run assms(3) by (auto simp: ra_ok_def split: if_splits)
  show "complete_packet (hist @ [f]) p" if "x = Absorbed (Some p)"
  proof -
    have c: "ra_active r0" "fr_seq f = ra_next_seq r0" "fr_total f = ra_total r0"
      "length (ra_buf r0) + length (fr_data f) \<le> HW_MTU" "ra_next_seq r0 \<noteq> 0xFFFF"
      "ra_next_seq r0 + 1 = ra_total r0" "p = ra_buf r0 @ fr_data f"
      using step that by (auto split: if_splits)
    from next_run [OF c(1-5)] obtain before frs where b: "hist @ [f] = before @ frs" "frs \<noteq> []"
      "length frs = unat (ra_total r0)" "fragment_run (ra_total r0) frs p"
      using c(6,7) by auto
    moreover have "of_nat (length frs) = ra_total r0" using b(3) by simp
    ultimately show ?thesis unfolding complete_packet_def by metis
  qed
qed

lemma absorb_all_sound:
  assumes "ra_ok hist r" and "absorb_all frs r = (xs, r')" and "Overflowed \<notin> set xs"
    and "i < length xs" and "xs ! i = Absorbed (Some p)"
  shows "complete_packet (hist @ take (Suc i) frs) p"
  using assms
proof (induction frs arbitrary: hist r xs i)
  case (Cons f frs)
  obtain x r1 where x: "absorb f r = (x, r1)" by (cases "absorb f r")
  obtain ys r2 where ys: "absorb_all frs r1 = (ys, r2)" by (cases "absorb_all frs r1")
  have xs: "xs = x # ys" "r' = r2" using Cons.prems(2) x ys by auto
  have ok: "ra_ok (hist @ [f]) r1"
    using absorb_sound(1) [OF Cons.prems(1) x] Cons.prems(3) xs by auto
  show ?case
  proof (cases i)
    case 0
    then show ?thesis
      using absorb_sound(2) [OF Cons.prems(1) x] Cons.prems(3,5) xs by auto
  next
    case (Suc j)
    then show ?thesis
      using Cons.IH [OF ok, of ys j] ys xs Cons.prems by simp
  qed
qed simp

text \<open>
  Reassembly never mixes packets. Whatever fragments arrive, in whatever order, a packet that is
  delivered is the concatenation of the most recent fragments received: numbered from zero
  without a gap, all announcing exactly that many fragments, and no longer than the hardware MTU.
\<close>

theorem reassembly_sound:
  assumes "absorb_all frs new_reassembler = (xs, r')" and "Overflowed \<notin> set xs"
    and "i < length xs" and "xs ! i = Absorbed (Some p)"
  shows "\<exists>before own n. take (Suc i) frs = before @ own \<and> length own = n \<and> 0 < n
     \<and> map fr_seq own = map of_nat [0..<n] \<and> (\<forall>f\<in>set own. fr_total f = of_nat n)
     \<and> p = concat (map fr_data own) \<and> length p \<le> HW_MTU"
proof -
  have "ra_ok [] new_reassembler" by (simp add: ra_ok_def new_reassembler_def)
  from absorb_all_sound [OF this assms] show ?thesis
    by (force simp: complete_packet_def fragment_run_def)
qed

theorem reassembly_sound_witness:
  "\<exists>before own n. take 3 [\<lparr> fr_seq = 7, fr_total = 9, fr_data = [9] \<rparr>, \<lparr> fr_seq = 0, fr_total = 2, fr_data = [1] \<rparr>,
        \<lparr> fr_seq = 1, fr_total = 2, fr_data = [2] \<rparr>] = before @ own \<and> length own = n \<and> 0 < n
     \<and> map fr_seq own = map of_nat [0..<n] \<and> (\<forall>f\<in>set own. fr_total f = of_nat n)
     \<and> [1, 2] = concat (map fr_data own) \<and> length [1 :: u8, 2] \<le> HW_MTU"
proof -
  let ?frs = "[\<lparr> fr_seq = 7, fr_total = 9, fr_data = [9] \<rparr>, \<lparr> fr_seq = 0, fr_total = 2, fr_data = [1] \<rparr>,
        \<lparr> fr_seq = 1, fr_total = 2, fr_data = [2] \<rparr>] :: fragment list"
  obtain r' where "absorb_all ?frs new_reassembler
      = ([Rejected ''fragment without a start'', Absorbed None, Absorbed (Some [1, 2])], r')"
    by (simp add: absorb_def new_reassembler_def Let_def)
  from reassembly_sound [OF this, of 2 "[1, 2]"] show ?thesis
    by (simp add: numeral_eq_Suc)
qed

end
