(* ===== verification/Ble_Engine.thy ===== *)
theory Ble_Engine
  imports Ble_Wire
begin

text \<open>
  The dialer's state machine of \<^verbatim>\<open>prns-ble/src/engine.rs\<close>: every host event returns the effects it
  causes. Links are an association list with one entry per link; the source's map has no order,
  which shows nowhere since there is at most one link (\<open>MAX_NODES\<close>). Link numbers are naturals,
  instants and durations are seconds. Of a log line only the level is kept. \<open>Panicked\<close> stands for the
  overflow of the reassembler's sequence number in a checked build.
\<close>

abbreviation (input) HANDSHAKE_CEILING :: real where "HANDSHAKE_CEILING \<equiv> 10"
abbreviation (input) DIAL_CEILING :: real where "DIAL_CEILING \<equiv> 15"
abbreviation (input) DIAL_RETRY :: real where "DIAL_RETRY \<equiv> 16"
abbreviation (input) DIAL_FAILED_RETRY :: real where "DIAL_FAILED_RETRY \<equiv> 5"
abbreviation (input) MAX_NODES :: nat where "MAX_NODES \<equiv> 1"
abbreviation (input) MAX_QUEUED_PACKETS :: nat where "MAX_QUEUED_PACKETS \<equiv> 96"
abbreviation (input) MAX_FRAGMENT :: nat where "MAX_FRAGMENT \<equiv> 512"

section \<open>State and effects\<close>

datatype characteristic = ControlChar | DataChar

definition characteristic_from_u8 :: "u8 \<Rightarrow> characteristic option" where
  "characteristic_from_u8 v = (if v = 0 then Some ControlChar else if v = 1 then Some DataChar else None)"

datatype link_state = LsHandshaking | LsSettled | LsClosed | LsDialing

datatype level = LvError | LvWarning | LvNotice | LvDebug

datatype ble_effect =
    Scan bool
  | Write nat characteristic bytes
  | Disconnect nat
  | LinkChanged nat link_state "bytes option" "string option"
  | Register string nat
  | HandOver string nat
  | Deregister string
  | InboundPacket string bytes
  | CheckLate string real
  | Log level
  | Panicked

datatype phase =
    Dialing (dialed_at: real) (dial_deadline: real)
  | Handshaking (hello_sent_at: real) (handshake_deadline: real)
  | Settled (settled_peer: bytes) (settled_interface: string)

record in_flight =
  inf_sent_at :: real
  inf_handshake :: bool

record ble_link =
  bl_address :: string
  bl_fragment_size :: nat
  bl_phase :: phase
  bl_tx :: "bytes list list"
  bl_in_flight :: "in_flight option"
  bl_reassembler :: reassembler
  bl_bad_fragments :: nat

record engine =
  en_identity :: bytes
  en_endpoint :: endpoint
  en_links :: "(nat \<times> ble_link) list"
  en_next_link :: nat
  en_retry_after :: "string \<rightharpoonup> real"
  en_scanning :: bool

definition new_engine :: "bytes \<Rightarrow> endpoint \<Rightarrow> engine" where
  "new_engine identity endpoint = \<lparr> en_identity = identity, en_endpoint = endpoint, en_links = [],
     en_next_link = 1, en_retry_after = (\<lambda>_. None), en_scanning = True \<rparr>"

definition link_get :: "nat \<Rightarrow> engine \<Rightarrow> ble_link option" where
  "link_get link e = map_of (en_links e) link"

definition link_put :: "nat \<Rightarrow> ble_link \<Rightarrow> engine \<Rightarrow> engine" where
  "link_put link l e = e\<lparr>en_links := update_first (\<lambda>(k, _). k = link) (\<lambda>(k, _). (k, l)) (en_links e)\<rparr>"

definition link_remove :: "nat \<Rightarrow> engine \<Rightarrow> engine" where
  "link_remove link e = e\<lparr>en_links := filter (\<lambda>(k, _). k \<noteq> link) (en_links e)\<rparr>"

section \<open>Names\<close>

definition hex_digit :: "nat \<Rightarrow> char" where
  "hex_digit n = (''0123456789abcdef'') ! n"

definition hex :: "bytes \<Rightarrow> string" where
  "hex bs = concat (map (\<lambda>b. [hex_digit (unat b div 16), hex_digit (unat b mod 16)]) bs)"

definition interface_name :: "bytes \<Rightarrow> string" where
  "interface_name peer = ''PrnsBLE['' @ hex peer @ '']''"

section \<open>Writing\<close>

text \<open>The next fragment to write, with what is left queued after it.\<close>

fun next_fragment :: "bytes list list \<Rightarrow> (bytes \<times> bytes list list) option" where
  "next_fragment [] = None"
| "next_fragment ([] # packets) = next_fragment packets"
| "next_fragment ((fragment # rest) # packets) =
     Some (fragment, if rest = [] then packets else rest # packets)"

text \<open>Packets that have no fragment left are dropped from the queue also when nothing is written.\<close>

definition next_write :: "nat \<Rightarrow> ble_link \<Rightarrow> real \<Rightarrow> ble_effect option \<times> ble_link" where
  "next_write link l now_unix =
     (if bl_in_flight l \<noteq> None then (None, l)
      else case next_fragment (bl_tx l) of
             None \<Rightarrow> (None, l\<lparr>bl_tx := []\<rparr>)
           | Some (fragment, tx) \<Rightarrow>
             (Some (Write link DataChar fragment),
              l\<lparr>bl_tx := tx, bl_in_flight := Some \<lparr> inf_sent_at = now_unix, inf_handshake = False \<rparr>\<rparr>))"

section \<open>Closing\<close>

definition scan_effect :: "engine \<Rightarrow> ble_effect list \<times> engine" where
  "scan_effect e =
     (let wanted = length (en_links e) < MAX_NODES in
      if wanted = en_scanning e then ([], e) else ([Scan wanted], e\<lparr>en_scanning := wanted\<rparr>))"

definition close :: "nat \<Rightarrow> bool \<Rightarrow> engine \<Rightarrow> ble_effect list \<times> engine" where
  "close link disconnect e =
     (case link_get link e of
        None \<Rightarrow> ([], e)
      | Some l \<Rightarrow>
        (case (case bl_phase l of
                 Settled peer iface \<Rightarrow> ([Deregister iface], Some peer, Some iface)
               | _ \<Rightarrow> ([], None, None)) of
           (dereg, peer, iface) \<Rightarrow>
             (case scan_effect (link_remove link e) of
                (scan, e) \<Rightarrow>
                  (dereg @ (if disconnect then [Disconnect link] else [])
                   @ [LinkChanged link LsClosed peer iface, Log LvNotice] @ scan, e))))"

definition fail_dial :: "nat \<Rightarrow> real \<Rightarrow> engine \<Rightarrow> ble_effect list \<times> engine" where
  "fail_dial link now e =
     close link False
       (case link_get link e of
          None \<Rightarrow> e
        | Some l \<Rightarrow> e\<lparr>en_retry_after := (en_retry_after e)(bl_address l \<mapsto> now + DIAL_FAILED_RETRY)\<rparr>)"

section \<open>Host events\<close>

definition sighted ::
  "string \<Rightarrow> u16 \<Rightarrow> bytes \<Rightarrow> real \<Rightarrow> real \<Rightarrow> engine \<Rightarrow> nat option \<times> ble_effect list \<times> engine"
where
  "sighted address company_id data now now_unix e =
     (if \<not> is_peripheral_only company_id data then (None, [], e)
      else if length (en_links e) \<ge> MAX_NODES
              \<or> (\<exists>(_, l)\<in>set (en_links e). bl_address l = address)
              \<or> (case en_retry_after e address of None \<Rightarrow> False | Some after \<Rightarrow> after > now)
      then (None, [], e)
      else
        (let link = en_next_link e;
             retry = (\<lambda>a. case en_retry_after e a of
                            Some after \<Rightarrow> if after > now then Some after else None | None \<Rightarrow> None);
             e = e\<lparr>en_retry_after := retry(address \<mapsto> now + DIAL_RETRY), en_next_link := link + 1,
                    en_links := en_links e @
                      [(link, \<lparr> bl_address = address, bl_fragment_size = 0,
                         bl_phase = Dialing now_unix (now + DIAL_CEILING), bl_tx = [],
                         bl_in_flight = None, bl_reassembler = new_reassembler, bl_bad_fragments = 0 \<rparr>)]\<rparr>
         in case scan_effect e of
              (scan, e) \<Rightarrow> (Some link, [LinkChanged link LsDialing None None, Log LvNotice] @ scan, e)))"

definition link_ready :: "nat \<Rightarrow> nat \<Rightarrow> real \<Rightarrow> real \<Rightarrow> engine \<Rightarrow> (string + ble_effect list) \<times> engine" where
  "link_ready link max_write_len now now_unix e =
     (case link_get link e of
        None \<Rightarrow> (Inl ''not being dialled'', e)
      | Some l \<Rightarrow>
        (case bl_phase l of
           Dialing dialed_at_unix _ \<Rightarrow>
             (let fragment_size = min max_write_len MAX_FRAGMENT in
              if fragment_size \<le> FRAGMENT_HEADER_LEN then
                (case fail_dial link now e of (es, e) \<Rightarrow> (Inr (es @ [Disconnect link]), e))
              else
                (let hello = control_encode (Hello \<lparr> gr_identity = en_identity e, gr_endpoint = en_endpoint e,
                        gr_psm = 0, gr_link_mtu = of_nat HW_MTU, gr_rssi = None \<rparr>);
                     l = l\<lparr>bl_fragment_size := fragment_size,
                            bl_phase := Handshaking now_unix (now + HANDSHAKE_CEILING),
                            bl_in_flight := Some \<lparr> inf_sent_at = now_unix, inf_handshake = True \<rparr>\<rparr>
                 in (Inr [CheckLate ''prns_ble.dial'' dialed_at_unix, LinkChanged link LsHandshaking None None,
                          Write link ControlChar hello, Log LvNotice], link_put link l e)))
         | _ \<Rightarrow> (Inl ''already past dialling'', e)))"

text \<open>
  A Welcome settles the link. Another link settled with the same peer is dropped and hands its
  interface over.
\<close>

definition settle :: "nat \<Rightarrow> greeting \<Rightarrow> real \<Rightarrow> engine \<Rightarrow> ble_effect list \<times> engine" where
  "settle link g hello_sent_at_unix e =
     (if gr_identity g = en_identity e then close link True e
      else
        (let name = interface_name (gr_identity g);
             previous = find (\<lambda>(k, other). case bl_phase other of
                 Settled peer _ \<Rightarrow> k \<noteq> link \<and> peer = gr_identity g | _ \<Rightarrow> False) (en_links e)
         in case (case previous of
                    Some (old, _) \<Rightarrow>
                      ([HandOver name link, Disconnect old,
                        LinkChanged old LsClosed (Some (gr_identity g)) (Some name)], link_remove old e)
                  | None \<Rightarrow> ([Register name link], e)) of
              (es, e) \<Rightarrow>
                (let e = (case link_get link e of
                       None \<Rightarrow> e
                     | Some l \<Rightarrow>
                       link_put link (l\<lparr>bl_phase := Settled (gr_identity g) name\<rparr>)
                         (e\<lparr>en_retry_after := (en_retry_after e)(bl_address l := None)\<rparr>))
                 in case scan_effect e of
                      (scan, e) \<Rightarrow>
                        ([CheckLate ''prns_ble.handshake'' hello_sent_at_unix] @ es
                         @ [LinkChanged link LsSettled (Some (gr_identity g)) (Some name), Log LvNotice] @ scan, e))))"

definition receive_control :: "nat \<Rightarrow> ble_link \<Rightarrow> bytes \<Rightarrow> engine \<Rightarrow> ble_effect list \<times> engine" where
  "receive_control link l bs e =
     (case control_decode bs of
        Some (Welcome g) \<Rightarrow>
          (case bl_phase l of
             Handshaking hello_sent_at_unix _ \<Rightarrow> settle link g hello_sent_at_unix e
           | Dialing _ _ \<Rightarrow> close link True e
           | Settled _ _ \<Rightarrow> ([Log LvWarning], e))
      | Some (Close _) \<Rightarrow> close link True e
      | Some (Hello _) \<Rightarrow> close link True e
      | None \<Rightarrow> close link True e)"

definition receive_data :: "nat \<Rightarrow> ble_link \<Rightarrow> bytes \<Rightarrow> engine \<Rightarrow> ble_effect list \<times> engine" where
  "receive_data link l bs e =
     (case bl_phase l of
        Settled _ iface \<Rightarrow>
          (case decode_fragment bs of
             None \<Rightarrow> ([Log LvWarning], link_put link (l\<lparr>bl_bad_fragments := bl_bad_fragments l + 1\<rparr>) e)
           | Some f \<Rightarrow>
             (case absorb f (bl_reassembler l) of
                (Absorbed (Some packet), r) \<Rightarrow>
                  ([InboundPacket iface packet], link_put link (l\<lparr>bl_reassembler := r\<rparr>) e)
              | (Absorbed None, r) \<Rightarrow> ([], link_put link (l\<lparr>bl_reassembler := r\<rparr>) e)
              | (Overflowed, _) \<Rightarrow> ([Panicked], e)
              | (Rejected _, r) \<Rightarrow>
                  ([Log LvWarning],
                   link_put link (l\<lparr>bl_reassembler := r, bl_bad_fragments := bl_bad_fragments l + 1\<rparr>) e)))
      | _ \<Rightarrow> ([Log LvWarning], e))"

definition link_received :: "nat \<Rightarrow> characteristic \<Rightarrow> bytes \<Rightarrow> engine \<Rightarrow> ble_effect list \<times> engine" where
  "link_received link ch bs e =
     (case link_get link e of
        None \<Rightarrow> ([Log LvDebug], e)
      | Some l \<Rightarrow>
        (case ch of ControlChar \<Rightarrow> receive_control link l bs e | DataChar \<Rightarrow> receive_data link l bs e))"

definition link_write_done :: "nat \<Rightarrow> bool \<Rightarrow> real \<Rightarrow> engine \<Rightarrow> ble_effect list \<times> engine" where
  "link_write_done link ok now_unix e =
     (case link_get link e of
        None \<Rightarrow> ([], e)
      | Some l \<Rightarrow>
        (case bl_in_flight l of
           None \<Rightarrow> ([Log LvWarning], e)
         | Some done \<Rightarrow>
           (let l = l\<lparr>bl_in_flight := None\<rparr> in
            if \<not> ok then close link True (link_put link l e)
            else
              (case next_write link l now_unix of
                 (write, l) \<Rightarrow>
                   ((if inf_handshake done then [] else [CheckLate ''prns_ble.write'' (inf_sent_at done)])
                    @ (case write of None \<Rightarrow> [] | Some w \<Rightarrow> [w]), link_put link l e)))))"

definition send_packet :: "nat \<Rightarrow> bytes \<Rightarrow> real \<Rightarrow> engine \<Rightarrow> bool \<times> ble_effect list \<times> engine" where
  "send_packet link packet now_unix e =
     (case link_get link e of
        None \<Rightarrow> (False, [Log LvDebug], e)
      | Some l \<Rightarrow>
        (case bl_phase l of
           Settled _ _ \<Rightarrow>
             if length packet > HW_MTU then (False, [Log LvError], e)
             else if length (bl_tx l) \<ge> MAX_QUEUED_PACKETS then (False, [Log LvWarning], e)
             else
               (case next_write link (l\<lparr>bl_tx := bl_tx l @ [fragments packet (bl_fragment_size l)]\<rparr>) now_unix of
                  (write, l) \<Rightarrow> (True, (case write of None \<Rightarrow> [] | Some w \<Rightarrow> [w]), link_put link l e))
         | _ \<Rightarrow> (False, [Log LvWarning], e)))"

definition link_closed :: "nat \<Rightarrow> real \<Rightarrow> engine \<Rightarrow> ble_effect list \<times> engine" where
  "link_closed link now e =
     (case link_get link e of
        None \<Rightarrow> ([], e)
      | Some l \<Rightarrow>
        (case bl_phase l of
           Dialing _ _ \<Rightarrow> fail_dial link now e
         | _ \<Rightarrow> close link False e))"

text \<open>One operation after another over a list of links.\<close>

fun each_link :: "('a \<Rightarrow> engine \<Rightarrow> ble_effect list \<times> engine) \<Rightarrow> 'a list \<Rightarrow> engine \<Rightarrow> ble_effect list \<times> engine" where
  "each_link f [] e = ([], e)"
| "each_link f (x # xs) e = (case f x e of (es, e) \<Rightarrow> (case each_link f xs e of (es', e) \<Rightarrow> (es @ es', e)))"

definition expired_links :: "real \<Rightarrow> engine \<Rightarrow> (nat \<times> bool) list" where
  "expired_links now e =
     concat (map (\<lambda>(k, l). case bl_phase l of
        Dialing _ deadline \<Rightarrow> if deadline \<le> now then [(k, True)] else []
      | Handshaking _ deadline \<Rightarrow> if deadline \<le> now then [(k, False)] else []
      | Settled _ _ \<Rightarrow> []) (en_links e))"

definition expire :: "real \<Rightarrow> engine \<Rightarrow> ble_effect list \<times> engine" where
  "expire now e =
     each_link (\<lambda>(link, dialing) e.
        if dialing then (case fail_dial link now e of (es, e) \<Rightarrow> (es @ [Disconnect link], e))
        else close link True e) (expired_links now e) e"

definition deadlines :: "engine \<Rightarrow> real list" where
  "deadlines e =
     concat (map (\<lambda>(_, l). case bl_phase l of
        Dialing _ deadline \<Rightarrow> [deadline] | Handshaking _ deadline \<Rightarrow> [deadline] | Settled _ _ \<Rightarrow> []) (en_links e))"

definition next_deadline :: "engine \<Rightarrow> real option" where
  "next_deadline e = (if deadlines e = [] then None else Some (Min (set (deadlines e))))"

definition close_all :: "engine \<Rightarrow> ble_effect list \<times> engine" where
  "close_all e =
     (case each_link (\<lambda>link. close link True) (map fst (en_links e)) e of
        (es, e) \<Rightarrow> (filter (\<lambda>x. \<forall>on. x \<noteq> Scan on) es, e))"

end
