(* ===== verification/Ble_Engine_Correct.thy ===== *)
theory Ble_Engine_Correct
  imports Ble_Engine "HOL-Library.Sublist"
begin

text \<open>
  What the Bluetooth LE engine guarantees: the invariant of its state and its agreement with what
  it registered with Transport, after any sequence of host events; in-order delivery of every
  accepted packet once the writes complete; and the expiry of dials and handshakes that stall.
\<close>

section \<open>The invariant\<close>

text \<open>A link, for an engine with the given identity.\<close>

definition queue_ok :: "ble_link \<Rightarrow> bool" where
  "queue_ok l \<longleftrightarrow> [] \<notin> set (bl_tx l) \<and> length (bl_tx l) \<le> MAX_QUEUED_PACKETS
     \<and> (bl_tx l \<noteq> [] \<longrightarrow> bl_in_flight l \<noteq> None)
     \<and> (\<forall>packet\<in>set (bl_tx l). \<forall>fragment\<in>set packet. length fragment \<le> bl_fragment_size l)"

definition link_ok :: "bytes \<Rightarrow> ble_link \<Rightarrow> bool" where
  "link_ok us l \<longleftrightarrow> queue_ok l \<and>
     (case bl_phase l of
        Dialing _ _ \<Rightarrow> bl_tx l = [] \<and> bl_in_flight l = None
      | Handshaking _ _ \<Rightarrow> bl_tx l = [] \<and> FRAGMENT_HEADER_LEN < bl_fragment_size l \<and> bl_fragment_size l \<le> MAX_FRAGMENT
      | Settled peer iface \<Rightarrow> peer \<noteq> us \<and> iface = interface_name peer
          \<and> FRAGMENT_HEADER_LEN < bl_fragment_size l \<and> bl_fragment_size l \<le> MAX_FRAGMENT)"

definition engine_inv :: "engine \<Rightarrow> bool" where
  "engine_inv e \<longleftrightarrow> length (en_links e) \<le> MAX_NODES \<and> (en_scanning e \<longleftrightarrow> en_links e = [])
     \<and> (\<forall>(k, l)\<in>set (en_links e). k < en_next_link e \<and> link_ok (en_identity e) l)"

lemma engine_inv_cases:
  assumes "engine_inv e"
  obtains (idle) "en_links e = []" "en_scanning e"
  | (one) k l where "en_links e = [(k, l)]" "\<not> en_scanning e" "k < en_next_link e" "link_ok (en_identity e) l"
  using assms by (cases "en_links e") (auto simp: engine_inv_def)

text \<open>The interfaces that are registered after a list of effects.\<close>

fun registered :: "ble_effect list \<Rightarrow> string list \<Rightarrow> string list" where
  "registered [] names = names"
| "registered (Register name _ # es) names = registered es (name # names)"
| "registered (Deregister name # es) names = registered es (remove1 name names)"
| "registered (_ # es) names = registered es names"

lemma registered_append [simp]: "registered (es @ fs) names = registered fs (registered es names)"
  by (induction es names rule: registered.induct) auto

definition settled_interfaces :: "engine \<Rightarrow> string list" where
  "settled_interfaces e = concat (map (\<lambda>(_, l). case bl_phase l of Settled _ iface \<Rightarrow> [iface] | _ \<Rightarrow> []) (en_links e))"

text \<open>What every event keeps: the invariant, and that Transport has exactly the settled interface.\<close>

definition keeps :: "ble_effect list \<times> engine \<Rightarrow> engine \<Rightarrow> bool" where
  "keeps r e \<longleftrightarrow> engine_inv (snd r) \<and> registered (fst r) (settled_interfaces e) = settled_interfaces (snd r)"

lemma keeps_refl: "engine_inv e \<Longrightarrow> registered es (settled_interfaces e) = settled_interfaces e \<Longrightarrow> keeps (es, e) e"
  by (simp add: keeps_def)

lemma link_get_one [simp]: "en_links e = [(k, l)] \<Longrightarrow> link_get j e = (if j = k then Some l else None)"
  by (simp add: link_get_def)

lemma link_get_idle [simp]: "en_links e = [] \<Longrightarrow> link_get j e = None"
  by (simp add: link_get_def)

lemma close_keeps:
  assumes "engine_inv e" shows "keeps (close link d e) e"
  using assms
proof (cases rule: engine_inv_cases)
  case idle
  then show ?thesis using assms by (simp add: close_def keeps_refl)
next
  case (one k l)
  then show ?thesis
    using assms by (auto simp: close_def keeps_def link_remove_def scan_effect_def settled_interfaces_def engine_inv_def
        split: phase.split)
qed

lemma retry_keeps [simp]:
  "engine_inv (e\<lparr>en_retry_after := r\<rparr>) = engine_inv e"
  "settled_interfaces (e\<lparr>en_retry_after := r\<rparr>) = settled_interfaces e"
  by (simp_all add: engine_inv_def settled_interfaces_def)

lemma fail_dial_keeps:
  assumes "engine_inv e" shows "keeps (fail_dial link now e) e"
proof (cases "link_get link e")
  case None
  then show ?thesis using close_keeps [OF assms] by (simp add: fail_dial_def)
next
  case (Some l)
  then show ?thesis
    using close_keeps [of "e\<lparr>en_retry_after := _\<rparr>" link False] assms by (simp add: fail_dial_def keeps_def)
qed

text \<open>Replacing the one link by another that is well formed and settled on the same interface.\<close>

lemma put_keeps:
  assumes "engine_inv e" and "link_get link e = Some l" and "link_ok (en_identity e) l'"
    and "bl_phase l' = bl_phase l \<or> (\<forall>p i. bl_phase l \<noteq> Settled p i) \<and> (\<forall>p i. bl_phase l' \<noteq> Settled p i)"
    and "\<forall>names. registered es names = names"
  shows "keeps (es, link_put link l' e) e"
  using assms(1)
proof (cases rule: engine_inv_cases)
  case (one k l0)
  then have "k = link" "l0 = l" using assms(2) by (auto split: if_splits)
  then show ?thesis
    using one assms by (auto simp: keeps_def link_put_def engine_inv_def settled_interfaces_def split: phase.split)
qed (use assms(2) in simp)

lemma next_fragment_None: "[] \<notin> set tx \<Longrightarrow> next_fragment tx = None \<longleftrightarrow> tx = []"
  by (cases tx rule: next_fragment.cases) auto

lemma next_fragment_ok:
  assumes "next_fragment tx = Some (f, tx')" and "[] \<notin> set tx"
  shows "concat tx = f # concat tx'" and "[] \<notin> set tx'" and "length tx' \<le> length tx"
    and "\<Union> (set ` set tx') \<subseteq> \<Union> (set ` set tx)"
  using assms by (cases tx rule: next_fragment.cases; auto split: if_splits)+

lemma next_write_ok:
  assumes "next_write link l now = (w, l')" and "[] \<notin> set (bl_tx l)" and "length (bl_tx l) \<le> MAX_QUEUED_PACKETS"
    and "\<forall>packet\<in>set (bl_tx l). \<forall>fragment\<in>set packet. length fragment \<le> bl_fragment_size l"
  shows "queue_ok l'" and "bl_phase l' = bl_phase l" and "bl_fragment_size l' = bl_fragment_size l"
    and "\<forall>names. registered (case w of None \<Rightarrow> [] | Some w \<Rightarrow> [w]) names = names"
proof -
  show "queue_ok l'"
  proof (cases "next_fragment (bl_tx l)")
    case None
    then show ?thesis
      using assms next_fragment_None [OF assms(2)] by (auto simp: next_write_def queue_ok_def split: if_splits)
  next
    case (Some ft)
    then obtain f tx' where ft: "next_fragment (bl_tx l) = Some (f, tx')" by (cases ft) auto
    show ?thesis
      using assms ft next_fragment_ok [OF ft assms(2)]
      by (auto simp: next_write_def queue_ok_def split: if_splits) blast
  qed
qed (use assms(1) in \<open>auto simp: next_write_def split: if_splits option.splits\<close>)


section \<open>Every event keeps the invariant\<close>

lemma sighted_keeps:
  assumes "engine_inv e" shows "keeps (snd (sighted address company_id data now now_unix e)) e"
  using assms
proof (cases rule: engine_inv_cases)
  case idle
  then show ?thesis
    using assms by (auto simp: sighted_def keeps_def Let_def scan_effect_def engine_inv_def settled_interfaces_def
        link_ok_def queue_ok_def)
next
  case (one k l)
  then show ?thesis using assms by (simp add: sighted_def keeps_def)
qed

lemma link_ok_get:
  assumes "engine_inv e" and "link_get link e = Some l" shows "link_ok (en_identity e) l"
  using assms by (auto simp: engine_inv_def link_get_def dest: map_of_SomeD)

lemma link_ready_keeps:
  assumes "engine_inv e"
  shows "case link_ready link m now now_unix e of (Inl _, e') \<Rightarrow> e' = e | (Inr es, e') \<Rightarrow> keeps (es, e') e"
proof (cases "link_get link e")
  case (Some l)
  show ?thesis
  proof (cases "bl_phase l")
    case (Dialing t d)
    have "link_ok (en_identity e) l" by (rule link_ok_get [OF assms Some])
    then show ?thesis
      using Some Dialing fail_dial_keeps [OF assms, of link now]
      by (auto simp: link_ready_def Let_def keeps_def[of "fail_dial _ _ _"] link_ok_def queue_ok_def keeps_refl
          split: prod.split intro!: put_keeps [OF assms Some]) (auto simp: keeps_def)
  qed (use Some in \<open>simp_all add: link_ready_def\<close>)
qed (simp add: link_ready_def)

lemma settle_keeps:
  assumes "engine_inv e" and "link_get link e = Some l" and "bl_phase l = Handshaking a d"
  shows "keeps (settle link g h e) e"
  using assms(1)
proof (cases rule: engine_inv_cases)
  case (one k l0)
  then have "k = link" "l0 = l" using assms(2) by (auto split: if_splits)
  then show ?thesis
    using one assms close_keeps [OF assms(1), of link True]
    by (auto simp: settle_def Let_def keeps_def link_get_def link_put_def scan_effect_def engine_inv_def
        settled_interfaces_def link_ok_def queue_ok_def)
qed (use assms(2) in simp)

lemma link_ok_bookkeeping [simp]:
  "link_ok us (l\<lparr>bl_reassembler := r\<rparr>) = link_ok us l"
  "link_ok us (l\<lparr>bl_bad_fragments := n\<rparr>) = link_ok us l"
  by (simp_all add: link_ok_def queue_ok_def cong: phase.case_cong)

lemma link_received_keeps:
  assumes "engine_inv e" shows "keeps (link_received link ch bs e) e"
proof (cases "link_get link e")
  case None
  then show ?thesis using assms by (simp add: link_received_def keeps_refl)
next
  case (Some l)
  have ok: "link_ok (en_identity e) l" by (rule link_ok_get [OF assms Some])
  note put = put_keeps [OF assms Some]
  show ?thesis
    using Some assms
    by (auto simp: link_received_def receive_control_def receive_data_def keeps_refl
        intro!: close_keeps settle_keeps put ok
        split: characteristic.split option.split control.split phase.split prod.split absorb_result.split)
qed

text \<open>Closing looks at nothing of the link but its phase.\<close>

lemma close_put:
  assumes "link_get link e = Some l" and "bl_phase l' = bl_phase l"
  shows "close link x (link_put link l' e) = close link x e"
proof -
  have "map_of (update_first (\<lambda>(k, _). k = link) (\<lambda>(k, _). (k, l')) ls) link = Some l'"
    if "map_of ls link = Some l" for ls
    using that by (induction ls) auto
  then have "link_get link (link_put link l' e) = Some l'"
    using assms(1) by (simp add: link_get_def link_put_def)
  moreover have "filter (\<lambda>(k, _). k \<noteq> link) (update_first (\<lambda>(k, _). k = link) (\<lambda>(k, _). (k, l')) ls)
      = filter (\<lambda>(k, _). k \<noteq> link) ls" for ls
    by (induction ls) auto
  then have "link_remove link (link_put link l' e) = link_remove link e"
    by (simp add: link_remove_def link_put_def)
  ultimately show ?thesis using assms by (simp add: close_def)
qed

lemma next_write_keeps:
  assumes "engine_inv e" and "link_get link e = Some l" and "next_write link l0 now = (w, l')"
    and "bl_phase l0 = bl_phase l" and "bl_fragment_size l0 = bl_fragment_size l"
    and "[] \<notin> set (bl_tx l0)" and "length (bl_tx l0) \<le> MAX_QUEUED_PACKETS"
    and "\<forall>packet\<in>set (bl_tx l0). \<forall>fragment\<in>set packet. length fragment \<le> bl_fragment_size l0"
    and "bl_tx l0 = [] \<or> (\<exists>p i. bl_phase l = Settled p i)"
    and "\<forall>names. registered es names = names"
    and "bl_in_flight l0 = None \<or> bl_in_flight l0 = bl_in_flight l"
  shows "keeps (es @ (case w of None \<Rightarrow> [] | Some w \<Rightarrow> [w]), link_put link l' e) e"
proof (rule put_keeps [OF assms(1,2)])
  note nw = next_write_ok [OF assms(3,6,7,8)]
  have lok: "link_ok (en_identity e) l" by (rule link_ok_get [OF assms(1,2)])
  have "bl_tx l' = []" if "bl_tx l0 = []"
    using assms(3) that by (auto simp: next_write_def split: if_splits)
  moreover have "bl_in_flight l' = bl_in_flight l0" if "bl_tx l0 = []"
    using assms(3) that by (auto simp: next_write_def split: if_splits)
  ultimately show "link_ok (en_identity e) l'"
    using lok nw assms(4,5,9,11) by (auto simp: link_ok_def split: phase.splits)
qed (use next_write_ok [OF assms(3,6,7,8)] assms(4,10) in auto)

lemma link_write_done_keeps:
  assumes "engine_inv e" shows "keeps (link_write_done link ok now e) e"
proof (cases "link_get link e")
  case None
  then show ?thesis using assms by (simp add: link_write_done_def keeps_refl)
next
  case (Some l)
  note get = Some
  have lok: "link_ok (en_identity e) l" by (rule link_ok_get [OF assms Some])
  show ?thesis
  proof (cases "bl_in_flight l")
    case None
    then show ?thesis using get assms by (simp add: link_write_done_def keeps_refl)
  next
    case (Some fin)
    obtain w l' where nw: "next_write link (l\<lparr>bl_in_flight := None\<rparr>) now = (w, l')" by fastforce
    let ?late = "if inf_handshake fin then [] else [CheckLate ''prns_ble.write'' (inf_sent_at fin)]"
    have "keeps (?late @ (case w of None \<Rightarrow> [] | Some w \<Rightarrow> [w]), link_put link l' e) e"
      by (rule next_write_keeps [OF assms get nw]) (use lok in \<open>auto simp: link_ok_def queue_ok_def split: phase.splits\<close>)
    then show ?thesis
      using get Some nw close_keeps [OF assms, of link True] close_put [OF get, of "l\<lparr>bl_in_flight := None\<rparr>"]
      by (simp add: link_write_done_def Let_def)
  qed
qed

lemma send_packet_keeps:
  assumes "engine_inv e" shows "keeps (snd (send_packet link packet now e)) e"
proof (cases "link_get link e")
  case None
  then show ?thesis using assms by (simp add: send_packet_def keeps_refl)
next
  case (Some l)
  have lok: "link_ok (en_identity e) l" by (rule link_ok_get [OF assms Some])
  show ?thesis
  proof (cases "bl_phase l")
    case (Settled peer iface)
    let ?l = "l\<lparr>bl_tx := bl_tx l @ [fragments packet (bl_fragment_size l)]\<rparr>"
    have fs: "FRAGMENT_HEADER_LEN < bl_fragment_size l" using lok Settled by (simp add: link_ok_def)
    obtain w l' where nw: "next_write link ?l now = (w, l')" by fastforce
    have "keeps ([] @ (case w of None \<Rightarrow> [] | Some w \<Rightarrow> [w]), link_put link l' e) e"
      if "length (bl_tx l) < MAX_QUEUED_PACKETS"
      by (rule next_write_keeps [OF assms Some nw])
        (use lok that Settled fragments_ok [OF fs, of packet] in \<open>auto simp: link_ok_def queue_ok_def\<close>)
    then show ?thesis
      using Some Settled nw assms by (auto simp: send_packet_def keeps_refl)
  qed (use Some assms in \<open>simp_all add: send_packet_def keeps_refl\<close>)
qed

lemma link_closed_keeps:
  assumes "engine_inv e" shows "keeps (link_closed link now e) e"
  using close_keeps [OF assms] fail_dial_keeps [OF assms] assms
  by (auto simp: link_closed_def keeps_refl split: option.split phase.split)

lemma keeps_trans: "keeps (es, e') e \<Longrightarrow> keeps (fs, e'') e' \<Longrightarrow> keeps (es @ fs, e'') e"
  by (simp add: keeps_def)

lemma each_link_keeps:
  assumes "\<And>x e. engine_inv e \<Longrightarrow> keeps (f x e) e" and "engine_inv e"
  shows "keeps (each_link f xs e) e"
  using assms(2)
proof (induction xs arbitrary: e)
  case (Cons x xs)
  obtain es e' where fx: "f x e = (es, e')" by fastforce
  then have k: "keeps (es, e') e" using assms(1) [OF Cons.prems, of x] by simp
  then have "engine_inv e'" by (simp add: keeps_def)
  with k Cons.IH [of e'] show ?case
    by (cases "each_link f xs e'") (auto simp: fx intro: keeps_trans)
qed (simp add: keeps_refl)

lemma expire_keeps:
  assumes "engine_inv e" shows "keeps (expire now e) e"
  unfolding expire_def
proof (rule each_link_keeps [OF _ assms], clarify)
  fix link dialing e assume "engine_inv e"
  then show "keeps (if dialing then (case fail_dial link now e of (es, e) \<Rightarrow> (es @ [Disconnect link], e))
      else close link True e) e"
    using fail_dial_keeps [of e link now] close_keeps [of e link True]
    by (auto simp: keeps_def split: prod.split)
qed

lemma registered_filter_scan: "registered (filter (\<lambda>x. \<forall>on. x \<noteq> Scan on) es) names = registered es names"
  by (induction es names rule: registered.induct) auto

lemma close_all_registered:
  assumes "engine_inv e"
  shows "registered (fst (close_all e)) (settled_interfaces e) = []" and "en_links (snd (close_all e)) = []"
    and "engine_inv (snd (close_all e))"
proof -
  have "keeps (close_all e) e"
    using each_link_keeps [OF _ assms, of "\<lambda>link. close link True" "map fst (en_links e)"] close_keeps
    by (auto simp: close_all_def keeps_def registered_filter_scan split: prod.split)
  moreover show "en_links (snd (close_all e)) = []"
    using assms by (cases rule: engine_inv_cases)
      (auto simp: close_all_def close_def link_remove_def scan_effect_def split: prod.split phase.split)
  ultimately show "registered (fst (close_all e)) (settled_interfaces e) = []" "engine_inv (snd (close_all e))"
    by (simp_all add: keeps_def settled_interfaces_def)
qed

section \<open>Runs of the engine\<close>

datatype ble_event =
    Sighting string u16 bytes real real
  | Ready nat nat real real
  | Received nat characteristic bytes
  | WriteDone nat bool real
  | Send nat bytes real
  | Closed nat real
  | Tick real

definition react :: "ble_event \<Rightarrow> engine \<Rightarrow> ble_effect list \<times> engine" where
  "react ev e = (case ev of
       Sighting address company_id data now now_unix \<Rightarrow> snd (sighted address company_id data now now_unix e)
     | Ready link m now now_unix \<Rightarrow>
         (case link_ready link m now now_unix e of (Inl _, e) \<Rightarrow> ([], e) | (Inr es, e) \<Rightarrow> (es, e))
     | Received link ch bs \<Rightarrow> link_received link ch bs e
     | WriteDone link ok now_unix \<Rightarrow> link_write_done link ok now_unix e
     | Send link packet now_unix \<Rightarrow> snd (send_packet link packet now_unix e)
     | Closed link now \<Rightarrow> link_closed link now e
     | Tick now \<Rightarrow> expire now e)"

text \<open>The engine together with everything it has asked the host to do.\<close>

definition engine_step :: "ble_event \<Rightarrow> ble_effect list \<times> engine \<Rightarrow> ble_effect list \<times> engine" where
  "engine_step ev s = (case react ev (snd s) of (es, e) \<Rightarrow> (fst s @ es, e))"

lemma react_keeps:
  assumes "engine_inv e" shows "keeps (react ev e) e"
proof (cases ev)
  case (Ready link m now now_unix)
  then show ?thesis
    using link_ready_keeps [OF assms, of link m now now_unix] assms
    by (auto simp: react_def keeps_refl split: prod.splits sum.splits)
qed (use assms in \<open>simp_all add: react_def sighted_keeps link_received_keeps link_write_done_keeps
      send_packet_keeps link_closed_keeps expire_keeps\<close>)

definition log_inv :: "ble_effect list \<times> engine \<Rightarrow> bool" where
  "log_inv s \<longleftrightarrow> engine_inv (snd s) \<and> registered (fst s) [] = settled_interfaces (snd s)"

interpretation ble: machine engine_step "([], new_engine us ep)" log_inv for us ep
proof
  show "log_inv ([], new_engine us ep)"
    by (simp add: log_inv_def engine_inv_def new_engine_def settled_interfaces_def)
next
  fix s ev assume "log_inv s"
  then show "log_inv (engine_step ev s)"
    using react_keeps [of "snd s" ev] by (auto simp: log_inv_def keeps_def engine_step_def split: prod.split)
qed

section \<open>Delivery\<close>

text \<open>
  A settled link in use: packets handed to it and completions of its writes. The packets it
  accepted, and what it wrote to the data characteristic.
\<close>

datatype traffic = Submit bytes real | Completed real

fun data_write :: "nat \<Rightarrow> ble_effect \<Rightarrow> bytes list" where
  "data_write link (Write k DataChar bs) = (if k = link then [bs] else [])"
| "data_write link _ = []"

fun serve :: "nat \<Rightarrow> traffic list \<Rightarrow> engine \<Rightarrow> bytes list \<times> bytes list \<times> engine" where
  "serve link [] e = ([], [], e)"
| "serve link (Submit packet now # ops) e =
     (case send_packet link packet now e of (ok, es, e) \<Rightarrow>
      case serve link ops e of (acc, wr, e) \<Rightarrow>
        (if ok then packet # acc else acc, concat (map (data_write link) es) @ wr, e))"
| "serve link (Completed now # ops) e =
     (case link_write_done link True now e of (es, e) \<Rightarrow>
      case serve link ops e of (acc, wr, e) \<Rightarrow> (acc, concat (map (data_write link) es) @ wr, e))"

text \<open>What the peer's reassembler makes of the fragments written to it.\<close>

definition delivered :: "bytes list \<Rightarrow> reassembler \<Rightarrow> bytes list" where
  "delivered wr r = concat (map (\<lambda>x. case x of Absorbed (Some p) \<Rightarrow> [p] | _ \<Rightarrow> [])
     (fst (absorb_all (map (the \<circ> decode_fragment) wr) r)))"

lemma link_get_put:
  "link_get link e = Some l \<Longrightarrow> link_get link (link_put link l' e) = Some l'"
proof -
  have "map_of (update_first (\<lambda>(k, _). k = link) (\<lambda>(k, _). (k, l')) ls) link = Some l'"
    if "map_of ls link = Some l" for ls
    using that by (induction ls) auto
  then show "link_get link e = Some l \<Longrightarrow> ?thesis" by (simp add: link_get_def link_put_def)
qed

lemma next_write_stream:
  assumes "next_write link l now = (w, l')" and "[] \<notin> set (bl_tx l)"
  shows "concat (map (data_write link) (case w of None \<Rightarrow> [] | Some w \<Rightarrow> [w])) @ concat (bl_tx l') = concat (bl_tx l)"
    and "bl_phase l' = bl_phase l" and "bl_fragment_size l' = bl_fragment_size l"
    and "bl_in_flight l = None \<Longrightarrow> bl_tx l = [] \<Longrightarrow> bl_in_flight l' = None \<and> bl_tx l' = []"
    and "bl_in_flight l = None \<Longrightarrow> bl_tx l \<noteq> [] \<Longrightarrow> length (concat (bl_tx l')) < length (concat (bl_tx l))"
  using assms(1) next_fragment_None [OF assms(2)] next_fragment_ok(1) [OF _ assms(2)]
  by (auto simp: next_write_def split: if_splits option.splits)

text \<open>A settled link, as the invariant has it, with what is queued on it.\<close>

definition serving :: "nat \<Rightarrow> nat \<Rightarrow> bytes list \<Rightarrow> engine \<Rightarrow> bool" where
  "serving link fs queued e \<longleftrightarrow> engine_inv e \<and> (\<exists>l peer iface. link_get link e = Some l
     \<and> bl_phase l = Settled peer iface \<and> bl_fragment_size l = fs \<and> concat (bl_tx l) = queued)"

lemma send_serving:
  assumes "serving link fs queued e" and "send_packet link packet now e = (ok, es, e')"
  shows "\<exists>queued'. serving link fs queued' e' \<and> (ok \<longrightarrow> length packet \<le> HW_MTU)
    \<and> concat (map (data_write link) es) @ queued' = queued @ (if ok then fragments packet fs else [])"
proof -
  obtain l peer iface where l: "engine_inv e" "link_get link e = Some l" "bl_phase l = Settled peer iface"
    "bl_fragment_size l = fs" "concat (bl_tx l) = queued"
    using assms(1) by (auto simp: serving_def)
  have inv: "engine_inv e'" using send_packet_keeps [OF l(1), of link packet now] assms(2) by (simp add: keeps_def)
  have lok: "link_ok (en_identity e) l" by (rule link_ok_get [OF l(1,2)])
  show ?thesis
  proof (cases ok)
    case False
    then have "e' = e" "concat (map (data_write link) es) = []"
      using assms(2) l by (auto simp: send_packet_def split: if_splits prod.splits)
    then show ?thesis using assms(1) False by auto
  next
    case True
    let ?l = "l\<lparr>bl_tx := bl_tx l @ [fragments packet fs]\<rparr>"
    obtain w l' where nw: "next_write link ?l now = (w, l')" by fastforce
    have "[] \<notin> set (bl_tx ?l)"
      using lok l fragments_ok(1) [of fs packet] by (auto simp: link_ok_def queue_ok_def)
    note st = next_write_stream [OF nw this]
    have "e' = link_put link l' e" "es = (case w of None \<Rightarrow> [] | Some w \<Rightarrow> [w])" "length packet \<le> HW_MTU"
      using assms(2) l nw True by (auto simp: send_packet_def split: if_splits)
    then show ?thesis
      using st l inv True link_get_put [OF l(2)]
      by (intro exI [of _ "concat (bl_tx l')"]) (auto simp: serving_def)
  qed
qed

lemma done_serving:
  assumes "serving link fs queued e" and "link_write_done link True now e = (es, e')"
  shows "\<exists>queued'. serving link fs queued' e' \<and> concat (map (data_write link) es) @ queued' = queued
    \<and> (queued \<noteq> [] \<longrightarrow> length queued' < length queued)"
proof -
  obtain l peer iface where l: "engine_inv e" "link_get link e = Some l" "bl_phase l = Settled peer iface"
    "bl_fragment_size l = fs" "concat (bl_tx l) = queued"
    using assms(1) by (auto simp: serving_def)
  have inv: "engine_inv e'" using link_write_done_keeps [OF l(1), of link True now] assms(2) by (simp add: keeps_def)
  have q: "queue_ok l" using link_ok_get [OF l(1,2)] by (simp add: link_ok_def)
  show ?thesis
  proof (cases "bl_in_flight l")
    case None
    then have "bl_tx l = []" using q by (auto simp: queue_ok_def)
    then show ?thesis using assms l None by (auto simp: link_write_done_def)
  next
    case (Some fin)
    let ?l = "l\<lparr>bl_in_flight := None\<rparr>"
    obtain w l' where nw: "next_write link ?l now = (w, l')" by fastforce
    have ne: "[] \<notin> set (bl_tx ?l)" using q by (simp add: queue_ok_def)
    note st = next_write_stream [OF nw ne]
    have "e' = link_put link l' e"
      "concat (map (data_write link) es) = concat (map (data_write link) (case w of None \<Rightarrow> [] | Some w \<Rightarrow> [w]))"
      using assms(2) l nw Some by (auto simp: link_write_done_def Let_def)
    moreover have "serving link fs (concat (bl_tx l')) (link_put link l' e)"
      using st(2,3) l inv link_get_put [OF l(2)] calculation(1) by (auto simp: serving_def)
    moreover have "queued \<noteq> [] \<longrightarrow> length (concat (bl_tx l')) < length queued"
      using st(5) l(5) by (cases "bl_tx l = []") auto
    ultimately show ?thesis
      using st(1) l(5) by (intro exI [of _ "concat (bl_tx l')"]) simp
  qed
qed

lemma serve_stream:
  assumes "serving link fs queued e" and "serve link ops e = (acc, wr, e')"
  shows "\<exists>queued'. serving link fs queued' e' \<and> (\<forall>p\<in>set acc. length p \<le> HW_MTU)
    \<and> wr @ queued' = queued @ concat (map (\<lambda>p. fragments p fs) acc)"
  using assms
proof (induction link ops e arbitrary: queued acc wr rule: serve.induct)
  case (2 link packet now ops e)
  obtain ok es e1 where s: "send_packet link packet now e = (ok, es, e1)" by (metis prod_cases3)
  obtain acc1 wr1 where r: "serve link ops e1 = (acc1, wr1, e')" using 2(3) s by (auto split: prod.splits)
  obtain q1 where q1: "serving link fs q1 e1" "ok \<longrightarrow> length packet \<le> HW_MTU"
    "concat (map (data_write link) es) @ q1 = queued @ (if ok then fragments packet fs else [])"
    using send_serving [OF 2(2) s] by blast
  obtain q2 where q2: "serving link fs q2 e'" "\<forall>p\<in>set acc1. length p \<le> HW_MTU"
    "wr1 @ q2 = q1 @ concat (map (\<lambda>p. fragments p fs) acc1)"
    using 2(1) [OF s [symmetric] refl q1(1) r] by blast
  have "acc = (if ok then packet # acc1 else acc1)" "wr = concat (map (data_write link) es) @ wr1"
    using 2(3) s r by auto
  moreover have "concat (map (data_write link) es) @ wr1 @ q2
      = (queued @ (if ok then fragments packet fs else [])) @ concat (map (\<lambda>p. fragments p fs) acc1)"
    by (metis append.assoc q1(3) q2(3))
  ultimately show ?case using q1(2) q2(1,2) by (intro exI [of _ q2]) auto
next
  case (3 link now ops e)
  obtain es e1 where s: "link_write_done link True now e = (es, e1)" by fastforce
  obtain wr1 where r: "serve link ops e1 = (acc, wr1, e')" "wr = concat (map (data_write link) es) @ wr1"
    using 3(3) s by (auto split: prod.splits)
  obtain q1 where q1: "serving link fs q1 e1" "concat (map (data_write link) es) @ q1 = queued"
    using done_serving [OF 3(2) s] by blast
  obtain q2 where "serving link fs q2 e'" "\<forall>p\<in>set acc. length p \<le> HW_MTU"
    "wr1 @ q2 = q1 @ concat (map (\<lambda>p. fragments p fs) acc)"
    using 3(1) [OF s [symmetric] q1(1) r(1)] by blast
  then show ?case using q1(2) r(2) by (intro exI [of _ q2]) auto
qed auto


lemma drain_serving:
  assumes "serving link fs queued e" and "length queued \<le> n"
    and "serve link (replicate n (Completed now)) e = (acc, wr, e')"
  shows "serving link fs [] e' \<and> acc = [] \<and> wr = queued"
  using assms
proof (induction n arbitrary: queued e wr acc)
  case (Suc n)
  obtain es e1 where s: "link_write_done link True now e = (es, e1)" by fastforce
  obtain q1 where q1: "serving link fs q1 e1" "concat (map (data_write link) es) @ q1 = queued"
    "queued \<noteq> [] \<longrightarrow> length q1 < length queued"
    using done_serving [OF Suc.prems(1) s] by blast
  obtain wr1 where r: "serve link (replicate n (Completed now)) e1 = (acc, wr1, e')"
    "wr = concat (map (data_write link) es) @ wr1"
    using Suc.prems(3) s by (auto split: prod.splits)
  have "length q1 \<le> n" using q1(2,3) Suc.prems(2) by (cases "queued = []") auto
  from Suc.IH [OF q1(1) this r(1)] show ?case using r(2) q1(2) by simp
qed auto

lemma serve_append:
  "serve link (ops @ ops') e = (case serve link ops e of (acc, wr, e1) \<Rightarrow>
     case serve link ops' e1 of (acc', wr', e2) \<Rightarrow> (acc @ acc', wr @ wr', e2))"
  by (induction link ops e rule: serve.induct) (auto split: prod.split)

lemma absorb_all_append:
  "absorb_all (fs @ gs) r = (case absorb_all fs r of (xs, r) \<Rightarrow> case absorb_all gs r of (ys, r) \<Rightarrow> (xs @ ys, r))"
  by (induction fs r rule: absorb_all.induct) (auto split: prod.split)

lemma delivered_prefix: "prefix (delivered wr r) (delivered (wr @ wr') r)"
  by (auto simp: delivered_def absorb_all_append split: prod.split)

lemma delivered_all:
  "\<forall>p\<in>set ps. length p \<le> HW_MTU \<Longrightarrow> delivered (concat (map (\<lambda>p. fragments p fs) ps)) r = ps"
proof (induction ps arbitrary: r)
  case (Cons p ps)
  let ?out = "\<lambda>x. case x of Absorbed (Some p) \<Rightarrow> [p] | _ \<Rightarrow> []"
  have dec: "map (the \<circ> decode_fragment) (fragments p fs) = map (fragment_of p fs) [0..<fragment_total p fs]"
    by (simp add: fragments_def decode_fragment_at)
  obtain r' where "absorb_all (map (fragment_of p fs) [0..<fragment_total p fs]) r
      = (replicate (fragment_total p fs - 1) (Absorbed None) @ [Absorbed (Some p)], r')"
    using fragments_absorbed [of p fs r] Cons.prems by auto
  moreover have "concat (map ?out (replicate n (Absorbed None))) = []" for n by (induction n) auto
  ultimately show ?case
    using Cons.IH [of r'] Cons.prems by (auto simp: delivered_def dec absorb_all_append split: prod.split)
qed (simp add: delivered_def)


section \<open>Properties\<close>

text \<open>
  C25. The engine's state invariant. After any sequence of host events, in any order and with any
  arguments, the engine has at most one link and scans exactly when it has none; the interfaces
  registered with Transport by all the effects so far are exactly the settled link's; a settled
  peer is never the node itself and its interface carries the peer's name; at most 96 packets
  are queued, each fragment fits a write of the link, and a queued packet always has a write
  outstanding whose completion will send it on.
\<close>

theorem ble_engine_invariant:
  assumes "run engine_step evs ([], new_engine us ep) = (logged, e)"
  shows "length (en_links e) \<le> 1 \<and> (en_scanning e \<longleftrightarrow> en_links e = [])
     \<and> registered logged [] = settled_interfaces e
     \<and> (\<forall>(k, l)\<in>set (en_links e).
          (\<forall>peer iface. bl_phase l = Settled peer iface \<longrightarrow> peer \<noteq> en_identity e \<and> iface = interface_name peer)
        \<and> length (bl_tx l) \<le> MAX_QUEUED_PACKETS
        \<and> (bl_tx l \<noteq> [] \<longrightarrow> bl_in_flight l \<noteq> None)
        \<and> (\<forall>packet\<in>set (bl_tx l). \<forall>fragment\<in>set packet. length fragment \<le> bl_fragment_size l))"
proof -
  have "log_inv (logged, e)" using ble.inv_reachable [of evs us ep] assms by simp
  then show ?thesis
    by (auto simp: log_inv_def engine_inv_def link_ok_def queue_ok_def)
qed

text \<open>
  C15. In-order delivery over a settled link. Whatever packets are submitted and writes completed, what
  the peer reassembles from the writes is at every moment a prefix of the accepted packets, and
  once as many further writes have completed as the accepted packets have fragments, it is all of
  them.
\<close>

theorem ble_delivers_in_order:
  assumes "run engine_step evs ([], new_engine us ep) = (logged, e)"
    and "link_get link e = Some l" and "bl_phase l = Settled peer iface" and "bl_tx l = []"
    and "serve link ops e = (acc, wr, e')"
    and "n \<ge> length (concat (map (\<lambda>p. fragments p (bl_fragment_size l)) acc))"
    and "serve link (replicate n (Completed now)) e' = (acc', wr', e'')"
  shows "prefix (delivered wr r) acc \<and> acc' = [] \<and> delivered (wr @ wr') r = acc"
proof -
  let ?fs = "bl_fragment_size l"
  have "log_inv (logged, e)" using ble.inv_reachable [of evs us ep] assms(1) by simp
  then have "serving link ?fs [] e" using assms(2-4) by (auto simp: serving_def log_inv_def)
  from serve_stream [OF this assms(5)] obtain q where
    q: "serving link ?fs q e'" "\<forall>p\<in>set acc. length p \<le> HW_MTU" "wr @ q = concat (map (\<lambda>p. fragments p ?fs) acc)"
    by auto
  have "length q \<le> n" using q(3) assms(6) by (metis length_append le_add2 order_trans)
  from drain_serving [OF q(1) this assms(7)] have "acc' = []" "wr' = q" by auto
  moreover from this have all: "delivered (wr @ wr') r = acc" using q(2,3) delivered_all by simp
  ultimately show ?thesis using delivered_prefix [of wr r wr'] by simp
qed

lemma expire_one:
  assumes "en_links e = [(k, l)]"
  shows "expire now e = (case bl_phase l of
      Dialing _ deadline \<Rightarrow> if deadline \<le> now then (case fail_dial k now e of (es, e) \<Rightarrow> (es @ [Disconnect k], e)) else ([], e)
    | Handshaking _ deadline \<Rightarrow> if deadline \<le> now then close k True e else ([], e)
    | Settled _ _ \<Rightarrow> ([], e))"
  using assms by (simp add: expire_def expired_links_def split: phase.split prod.split)

text \<open>
  A stalled dial or handshake never outlives its deadline. From any reachable state, waking at or
  after the next deadline the engine asks for closes the link, disconnects it and resumes
  scanning, and waking before it (or when there is none) changes nothing.
\<close>

theorem ble_expire_live:
  assumes "run engine_step evs ([], new_engine us ep) = (logged, e)"
  shows "(\<forall>d. next_deadline e = Some d \<longrightarrow> d \<le> now \<longrightarrow>
           (\<exists>link. fst (hd (en_links e)) = link \<and> Disconnect link \<in> set (fst (expire now e)))
           \<and> Scan True \<in> set (fst (expire now e)) \<and> en_links (snd (expire now e)) = []
           \<and> en_scanning (snd (expire now e)) \<and> next_deadline (snd (expire now e)) = None)
     \<and> ((\<forall>d. next_deadline e = Some d \<longrightarrow> now < d) \<longrightarrow> expire now e = ([], e))"
proof -
  have "engine_inv e" using ble.inv_reachable [of evs us ep] assms by (simp add: log_inv_def)
  then show ?thesis
  proof (cases rule: engine_inv_cases)
    case idle
    then show ?thesis by (simp add: next_deadline_def deadlines_def expire_def expired_links_def)
  next
    case (one k l)
    then show ?thesis
      by (auto simp: expire_one next_deadline_def deadlines_def fail_dial_def close_def link_get_def link_remove_def
          scan_effect_def split: phase.split if_splits prod.split)
  qed
qed

section \<open>A session\<close>

definition sample_peer :: bytes where "sample_peer = replicate 16 2"

definition sample_greeting :: greeting where
  "sample_greeting = \<lparr> gr_identity = sample_peer, gr_endpoint = \<lparr> ep_stack = 1, ep_host = 0 \<rparr>, gr_psm = 0,
     gr_link_mtu = 500, gr_rssi = None \<rparr>"

lemma sample_welcome: "control_decode (encode_greeting CONTROL_WELCOME sample_greeting) = Some (Welcome sample_greeting)"
  using control_decode_encode [of "Welcome sample_greeting" "[]"]
  by (simp add: wf_greeting_def new_endpoint_def sample_greeting_def sample_peer_def)

definition sample_session :: "ble_event list" where
  "sample_session =
    [Sighting ''a'' ROLE_COMPANY_ID [ROLE_VERSION, ROLE_PERIPHERAL_ONLY] 0 0, Ready 1 6 1 1, WriteDone 1 True 1,
     Received 1 ControlChar (control_encode (Welcome sample_greeting))]"


definition sample_engine :: engine where
  "sample_engine = snd (run engine_step sample_session ([], new_engine (replicate 16 1) \<lparr> ep_stack = 2, ep_host = 0 \<rparr>))"

definition sample_log :: "ble_effect list" where
  "sample_log = fst (run engine_step sample_session ([], new_engine (replicate 16 1) \<lparr> ep_stack = 2, ep_host = 0 \<rparr>))"

lemmas session_simps = sample_session_def sample_engine_def engine_step_def react_def sighted_def is_peripheral_only_def
  new_engine_def get_byte_def scan_effect_def link_ready_def link_get_def link_put_def link_write_done_def
  next_write_def link_received_def receive_control_def settle_def sample_welcome
  new_reassembler_def Let_def

lemma sample_greeting_simps: "gr_identity sample_greeting = sample_peer" "(sample_peer = replicate 16 1) = False"
  by (simp_all add: sample_greeting_def sample_peer_def)

lemma sample_engine_settled:
  "\<exists>l. link_get 1 sample_engine = Some l \<and> bl_phase l = Settled sample_peer (interface_name sample_peer) \<and> bl_tx l = []
     \<and> bl_fragment_size l = 6"
  by (simp add: session_simps sample_greeting_simps)


lemma sample_run: "run engine_step sample_session ([], new_engine (replicate 16 1) \<lparr> ep_stack = 2, ep_host = 0 \<rparr>)
    = (sample_log, sample_engine)"
  by (simp add: sample_log_def sample_engine_def)

theorem ble_engine_invariant_witness:
  "run engine_step sample_session ([], new_engine (replicate 16 1) \<lparr> ep_stack = 2, ep_host = 0 \<rparr>) = (sample_log, sample_engine)
   \<and> length (en_links sample_engine) \<le> 1 \<and> registered sample_log [] = settled_interfaces sample_engine
   \<and> settled_interfaces sample_engine = [interface_name sample_peer]"
proof -
  have "settled_interfaces sample_engine = [interface_name sample_peer]"
    by (simp add: settled_interfaces_def session_simps sample_greeting_simps)
  with ble_engine_invariant [OF sample_run] sample_run show ?thesis by simp
qed

lemma sample_serve:
  "\<exists>e'. serve 1 [Submit [8, 9] 2, Submit [7] 2, Completed 3] sample_engine
     = ([[8, 9], [7]], fragments [8, 9] 6, e')"
  by (simp add: session_simps sample_greeting_simps send_packet_def fragments_def fragment_total_def fragment_cap_def upt_rec)

theorem ble_delivers_in_order_witness:
  "\<exists>e' acc' wr' e''. serve 1 [Submit [8, 9] 2, Submit [7] 2, Completed 3] sample_engine = ([[8, 9], [7]], fragments [8, 9] 6, e')
     \<and> serve 1 (replicate 3 (Completed 4)) e' = (acc', wr', e'')
     \<and> delivered (fragments [8, 9] 6 @ wr') new_reassembler = [[8, 9], [7]]"
proof -
  obtain e' where e': "serve 1 [Submit [8, 9] 2, Submit [7] 2, Completed 3] sample_engine
     = ([[8, 9], [7]], fragments [8, 9] 6, e')"
    using sample_serve by blast
  obtain l where l: "link_get 1 sample_engine = Some l" "bl_phase l = Settled sample_peer (interface_name sample_peer)"
    "bl_tx l = []" "bl_fragment_size l = 6"
    using sample_engine_settled by blast
  obtain acc' wr' e'' where d: "serve 1 (replicate 3 (Completed 4)) e' = (acc', wr', e'')" by (metis prod_cases3)
  have "length (concat (map (\<lambda>p. fragments p 6) [[8, 9], [7]])) \<le> 3"
    by (simp add: fragments_def fragment_total_def fragment_cap_def)
  then have "delivered (fragments [8, 9] 6 @ wr') new_reassembler = [[8, 9], [7]]"
    using ble_delivers_in_order [OF sample_run l(1,2,3) e' _ d, of new_reassembler] l(4) by simp
  with e' d show ?thesis by blast
qed

definition sample_dial :: "ble_effect list \<times> engine" where
  "sample_dial = run engine_step [Sighting ''a'' ROLE_COMPANY_ID [ROLE_VERSION, ROLE_PERIPHERAL_ONLY] 0 0]
     ([], new_engine (replicate 16 1) \<lparr> ep_stack = 2, ep_host = 0 \<rparr>)"

theorem ble_expire_live_witness:
  "next_deadline (snd sample_dial) = Some 15 \<and> en_links (snd (expire 15 (snd sample_dial))) = []
   \<and> expire 14 (snd sample_dial) = ([], snd sample_dial)"
proof -
  have d: "next_deadline (snd sample_dial) = Some 15"
    by (simp add: sample_dial_def session_simps next_deadline_def deadlines_def)
  have r: "run engine_step [Sighting ''a'' ROLE_COMPANY_ID [ROLE_VERSION, ROLE_PERIPHERAL_ONLY] 0 0]
     ([], new_engine (replicate 16 1) \<lparr> ep_stack = 2, ep_host = 0 \<rparr>) = (fst sample_dial, snd sample_dial)"
    by (simp add: sample_dial_def)
  show ?thesis using ble_expire_live [OF r, of 15] ble_expire_live [OF r, of 14] d by simp
qed

end
