(* ===== verification/Channel.thy ===== *)
theory Channel
  imports Prelude
begin

text \<open>
  The message channel of \<^verbatim>\<open>channel.rs\<close>: envelopes with sequence numbers, the receive ring that puts
  them in order, the transmit window, and the mutex all of it sits behind. The outlet (a link) is an
  argument of every operation. An operation that asks for the mutex while the same thread holds it does not
  return: its outcome is \<open>Stuck\<close>, and the mutex stays held (or poisoned) from then on. Creation
  times and envelope numbers are left out, \<^verbatim>\<open>f64\<close> is \<open>real\<close> and a \<^verbatim>\<open>usize\<close> counter is \<open>nat\<close>.
\<close>

abbreviation (input) WINDOW_MAX :: nat where "WINDOW_MAX \<equiv> 48"
abbreviation (input) SEQ_MODULUS :: nat where "SEQ_MODULUS \<equiv> 65536"

section \<open>Messages, packets and the outlet\<close>

datatype ce_type = NoMsgType | InvalidMsgType | NotRegistered | LinkNotReady | AlreadySent | TooBig

datatype message_state = MsNew | MsSent | MsDelivered | MsFailed

text \<open>A message is its type and what its \<^verbatim>\<open>pack\<close> returns; a packet is a number.\<close>

record cmessage =
  cm_type :: u16
  cm_data :: bytes

record outlet =
  ot_rtt :: real
  ot_mdu :: nat
  ot_usable :: bool
  ot_packet :: "bytes \<Rightarrow> nat"
  ot_packet_state :: "nat \<Rightarrow> message_state"
  ot_packet_id :: "nat \<Rightarrow> bytes option"

datatype channel_effect =
    OutletSend bytes
  | OutletResend nat
  | SetDelivered nat bool
  | SetTimeout nat bool "real option"
  | TearDown
  | Handed nat cmessage

datatype 'a outcome = Returned 'a | Stuck

section \<open>Envelopes\<close>

record envelope =
  ev_message :: "cmessage option"
  ev_raw :: bytes
  ev_packet :: "nat option"
  ev_sequence :: u16
  ev_tries :: nat
  ev_unpacked :: bool
  ev_packed :: bool
  ev_tracked :: bool

definition new_envelope :: "cmessage option \<Rightarrow> bytes \<Rightarrow> envelope" where
  "new_envelope message raw = \<lparr> ev_message = message, ev_raw = raw, ev_packet = None, ev_sequence = 0, ev_tries = 0,
     ev_unpacked = False, ev_packed = False, ev_tracked = False \<rparr>"

definition envelope_unpack :: "u16 set \<Rightarrow> envelope \<Rightarrow> (ce_type + unit) \<times> envelope" where
  "envelope_unpack factories e =
     (let raw = ev_raw e in
      if length raw < 6 then (Inl InvalidMsgType, e)
      else
        (let msgtype = u16_from_be_bytes (raw ! 0) (raw ! 1);
             e = e\<lparr>ev_sequence := u16_from_be_bytes (raw ! 2) (raw ! 3)\<rparr>;
             len = unat (u16_from_be_bytes (raw ! 4) (raw ! 5));
             payload = drop 6 raw
         in if length payload < len then (Inl InvalidMsgType, e)
            else if msgtype \<notin> factories then (Inl NotRegistered, e)
            else (Inr (), e\<lparr>ev_message := Some \<lparr> cm_type = msgtype, cm_data = take len payload \<rparr>,
                            ev_unpacked := True\<rparr>)))"

definition envelope_pack :: "envelope \<Rightarrow> (ce_type + bytes) \<times> envelope" where
  "envelope_pack e =
     (case ev_message e of
        None \<Rightarrow> (Inl NoMsgType, e)
      | Some message \<Rightarrow>
        if cm_type message = 0 then (Inl NoMsgType, e)
        else
          (let raw = u16_to_be_bytes (cm_type message) @ u16_to_be_bytes (ev_sequence e)
                 @ u16_to_be_bytes (of_nat (length (cm_data message))) @ cm_data message
           in (Inr raw, e\<lparr>ev_raw := raw, ev_packed := True\<rparr>)))"

section \<open>State\<close>

record channel_state =
  ch_tx_ring :: "envelope list"
  ch_rx_ring :: "envelope list"
  ch_callbacks :: "nat list"
  ch_next_sequence :: u16
  ch_next_rx_sequence :: u16
  ch_factories :: "u16 set"
  ch_max_tries :: nat
  ch_fast_rate_rounds :: nat
  ch_medium_rate_rounds :: nat
  ch_window :: nat
  ch_window_max :: nat
  ch_window_min :: nat
  ch_window_flexibility :: nat
  ch_locked :: bool

definition new_channel :: "outlet \<Rightarrow> channel_state" where
  "new_channel outlet =
     (case (if ot_rtt outlet > 1.45 then (1, 1, 1, 1) else (2, 5, 2, 4)) of
        (window, window_max, window_min, window_flexibility) \<Rightarrow>
          \<lparr> ch_tx_ring = [], ch_rx_ring = [], ch_callbacks = [], ch_next_sequence = 0, ch_next_rx_sequence = 0,
            ch_factories = {}, ch_max_tries = 5, ch_fast_rate_rounds = 0, ch_medium_rate_rounds = 0,
            ch_window = window, ch_window_max = window_max, ch_window_min = window_min,
            ch_window_flexibility = window_flexibility, ch_locked = False \<rparr>)"

definition seq_succ :: "u16 \<Rightarrow> u16" where
  "seq_succ s = of_nat ((unat s + 1) mod SEQ_MODULUS)"

definition seq_distance :: "u16 \<Rightarrow> u16 \<Rightarrow> nat" where
  "seq_distance from to = (if from \<ge> to then unat from - unat to else unat from + SEQ_MODULUS - unat to)"

text \<open>
  Placing an envelope in a ring: the result says whether its sequence number was new, and the
  envelope itself is marked as tracked. The copy in the ring is marked only when it is put last.
\<close>

fun emplace_from :: "envelope \<Rightarrow> u16 \<Rightarrow> envelope list \<Rightarrow> bool \<times> envelope list" where
  "emplace_from e next_rx [] = (True, [e\<lparr>ev_tracked := True\<rparr>])"
| "emplace_from e next_rx (x # ring) =
     (if ev_sequence e = ev_sequence x then (False, x # ring)
      else if ev_sequence e < ev_sequence x \<and> \<not> seq_distance next_rx (ev_sequence e) > 0xFFFF div 2
      then (True, e # x # ring)
      else (case emplace_from e next_rx ring of (new, ring) \<Rightarrow> (new, x # ring)))"

definition emplace_envelope :: "envelope \<Rightarrow> envelope list \<Rightarrow> u16 \<Rightarrow> bool \<times> envelope \<times> envelope list" where
  "emplace_envelope e ring next_rx =
     (case emplace_from e next_rx ring of
        (new, ring) \<Rightarrow> (new, (if new then e\<lparr>ev_tracked := True\<rparr> else e), ring))"

section \<open>Registration\<close>

definition register_message_type_internal ::
  "u16 \<Rightarrow> bool \<Rightarrow> channel_state \<Rightarrow> (ce_type + unit) outcome \<times> channel_state"
where
  "register_message_type_internal msgtype is_system_type s =
     (if msgtype = 0 then (Returned (Inl InvalidMsgType), s)
      else if msgtype \<ge> 0xF000 \<and> \<not> is_system_type then (Returned (Inl InvalidMsgType), s)
      else if ch_locked s then (Stuck, s)
      else (Returned (Inr ()), s\<lparr>ch_factories := insert msgtype (ch_factories s)\<rparr>))"

definition add_message_handler :: "nat \<Rightarrow> channel_state \<Rightarrow> unit outcome \<times> channel_state" where
  "add_message_handler callback s =
     (if ch_locked s then (Stuck, s)
      else (Returned (), if callback \<in> set (ch_callbacks s) then s
                         else s\<lparr>ch_callbacks := ch_callbacks s @ [callback]\<rparr>))"

definition remove_message_handler :: "nat \<Rightarrow> channel_state \<Rightarrow> unit outcome \<times> channel_state" where
  "remove_message_handler callback s =
     (if ch_locked s then (Stuck, s)
      else (Returned (), s\<lparr>ch_callbacks := filter (\<lambda>cb. cb \<noteq> callback) (ch_callbacks s)\<rparr>))"

definition shutdown :: "channel_state \<Rightarrow> unit outcome \<times> channel_effect list \<times> channel_state" where
  "shutdown s =
     (if ch_locked s then (Stuck, [], s)
      else
        (Returned (),
         concat (map (\<lambda>e. case ev_packet e of None \<Rightarrow> []
                          | Some p \<Rightarrow> [SetTimeout p False None, SetDelivered p False]) (ch_tx_ring s)),
         s\<lparr>ch_callbacks := [], ch_tx_ring := [], ch_rx_ring := []\<rparr>))"

section \<open>Sending\<close>

definition outstanding :: "outlet \<Rightarrow> envelope list \<Rightarrow> nat" where
  "outstanding outlet ring =
     length (filter (\<lambda>e. case ev_packet e of None \<Rightarrow> True
                         | Some p \<Rightarrow> ot_packet_state outlet p \<noteq> MsDelivered) ring)"

definition is_ready_to_send :: "outlet \<Rightarrow> channel_state \<Rightarrow> bool outcome" where
  "is_ready_to_send outlet s =
     (if \<not> ot_usable outlet then Returned False
      else if ch_locked s then Stuck
      else Returned (outstanding outlet (ch_tx_ring s) < ch_window s))"

text \<open>The timeout reads the length of the ring under the mutex.\<close>

definition packet_timeout_time :: "outlet \<Rightarrow> nat \<Rightarrow> nat \<Rightarrow> real" where
  "packet_timeout_time outlet tries ring =
     1.5 ^ (max tries 1 - 1) * max (max (ot_rtt outlet) 0 * 2.5) 0.025 * (real ring + 1.5)"

definition get_packet_timeout_time :: "outlet \<Rightarrow> nat \<Rightarrow> channel_state \<Rightarrow> real outcome" where
  "get_packet_timeout_time outlet tries s =
     (if ch_locked s then Stuck else Returned (packet_timeout_time outlet tries (length (ch_tx_ring s))))"

text \<open>Takes the mutex, and the timeout of the first envelope asks for it again.\<close>

definition update_packet_timeouts :: "outlet \<Rightarrow> channel_state \<Rightarrow> unit outcome \<times> channel_effect list \<times> channel_state" where
  "update_packet_timeouts outlet s =
     (if ch_locked s then (Stuck, [], s)
      else
        (let held = s\<lparr>ch_locked := True\<rparr> in
         case ch_tx_ring s of
           [] \<Rightarrow> (Returned (), [], s)
         | e # _ \<Rightarrow>
           (case get_packet_timeout_time outlet (ev_tries e) held of
              Stuck \<Rightarrow> (Stuck, [], held)
            | Returned t \<Rightarrow>
              (Returned (),
               concat (map (\<lambda>e. case ev_packet e of None \<Rightarrow> [] | Some p \<Rightarrow>
                 [SetTimeout p False (Some (packet_timeout_time outlet (ev_tries e) (length (ch_tx_ring s))))])
                 (ch_tx_ring s)), s))))"

definition channel_send ::
  "outlet \<Rightarrow> cmessage \<Rightarrow> channel_state \<Rightarrow> (ce_type + envelope) outcome \<times> channel_effect list \<times> channel_state"
where
  "channel_send outlet message s =
     (case is_ready_to_send outlet s of
        Stuck \<Rightarrow> (Stuck, [], s)
      | Returned False \<Rightarrow> (Returned (Inl LinkNotReady), [], s)
      | Returned True \<Rightarrow>
        (let sequence = ch_next_sequence s;
             s = s\<lparr>ch_next_sequence := seq_succ (ch_next_sequence s)\<rparr>
         in case envelope_pack ((new_envelope (Some message) [])\<lparr>ev_sequence := sequence\<rparr>) of
              (Inl err, _) \<Rightarrow> (Returned (Inl err), [], s)
            | (Inr raw, e) \<Rightarrow>
              if length raw > ot_mdu outlet then (Returned (Inl TooBig), [], s)
              else
                (let packet = ot_packet outlet raw;
                     e = e\<lparr>ev_packet := Some packet, ev_tries := 1\<rparr>
                 in case emplace_envelope e (ch_tx_ring s) (ch_next_rx_sequence s) of
                      (_, e, ring) \<Rightarrow>
                        (let s = s\<lparr>ch_tx_ring := ring\<rparr> in
                         case get_packet_timeout_time outlet (ev_tries e) s of
                           Stuck \<Rightarrow> (Stuck, [OutletSend raw, SetDelivered packet True], s)
                         | Returned t \<Rightarrow>
                           (case update_packet_timeouts outlet s of
                              (r, es, s) \<Rightarrow>
                                ((case r of Stuck \<Rightarrow> Stuck | Returned _ \<Rightarrow> Returned (Inr e)),
                                 [OutletSend raw, SetDelivered packet True, SetTimeout packet True (Some t)] @ es,
                                 s))))))"

section \<open>Receiving\<close>

definition stale :: "u16 \<Rightarrow> u16 \<Rightarrow> bool" where
  "stale sequence next_rx \<longleftrightarrow> sequence < next_rx \<and>
     (let window_overflow = (unat next_rx + WINDOW_MAX) mod SEQ_MODULUS in
      if window_overflow < unat next_rx then unat sequence > window_overflow else True)"

text \<open>The loop that takes the contiguous envelopes out of the receive ring.\<close>

function take_contiguous ::
  "u16 set \<Rightarrow> envelope list \<Rightarrow> u16 \<Rightarrow> envelope list \<times> envelope list \<times> u16"
where
  "take_contiguous factories ring next_rx =
     (case List.extract (\<lambda>e. ev_sequence e = next_rx) ring of
        None \<Rightarrow> ([], ring, next_rx)
      | Some (before, e, after) \<Rightarrow>
        (let e = (if ev_unpacked e then e else snd (envelope_unpack factories e)) in
         case take_contiguous factories (before @ after) (seq_succ next_rx) of
           (es, ring, n) \<Rightarrow> (e # es, ring, n)))"
  by pat_completeness auto
termination
  by (relation "measure (\<lambda>(_, ring, _). length ring)") (auto simp: extract_Some_iff)

declare take_contiguous.simps [simp del]

text \<open>A message goes to the callbacks in turn until one takes it.\<close>

fun hand_over :: "(nat \<Rightarrow> cmessage \<Rightarrow> bool) \<Rightarrow> cmessage \<Rightarrow> nat list \<Rightarrow> channel_effect list" where
  "hand_over takes message [] = []"
| "hand_over takes message (cb # cbs) =
     Handed cb message # (if takes cb message then [] else hand_over takes message cbs)"

definition channel_receive ::
  "(nat \<Rightarrow> cmessage \<Rightarrow> bool) \<Rightarrow> bytes \<Rightarrow> channel_state \<Rightarrow> unit outcome \<times> channel_effect list \<times> channel_state"
where
  "channel_receive takes raw s =
     (if ch_locked s then (Stuck, [], s)
      else
        (case envelope_unpack (ch_factories s) (new_envelope None raw) of
           (Inl _, _) \<Rightarrow> (Returned (), [], s)
         | (Inr _, e) \<Rightarrow>
           if stale (ev_sequence e) (ch_next_rx_sequence s) then (Returned (), [], s)
           else
             (case emplace_envelope e (ch_rx_ring s) (ch_next_rx_sequence s) of
                (new, e, ring) \<Rightarrow>
                  if \<not> new then (Returned (), [], s\<lparr>ch_rx_ring := ring\<rparr>)
                  else
                    (case take_contiguous (ch_factories s) ring (ch_next_rx_sequence s) of
                       (contig, ring, n) \<Rightarrow>
                         (Returned (),
                          concat (map (\<lambda>e. case ev_message e of None \<Rightarrow> []
                             | Some message \<Rightarrow> hand_over takes message (ch_callbacks s)) contig),
                          s\<lparr>ch_rx_ring := ring, ch_next_rx_sequence := n\<rparr>)))))"

definition channel_mdu :: "outlet \<Rightarrow> nat" where
  "channel_mdu outlet = min (ot_mdu outlet - 6) 0xFFFF"

section \<open>Delivery reports\<close>

text \<open>The window after an envelope has been taken out for good.\<close>

definition grow_window :: "outlet \<Rightarrow> channel_state \<Rightarrow> channel_state" where
  "grow_window outlet s =
     (if ch_window s < ch_window_max s then
        (let s = s\<lparr>ch_window := ch_window s + 1\<rparr> in
         if ot_rtt outlet = 0 then s
         else if ot_rtt outlet > 0.18 then
           (let s = s\<lparr>ch_fast_rate_rounds := 0\<rparr> in
            if ot_rtt outlet > 0.75 then s\<lparr>ch_medium_rate_rounds := 0\<rparr>
            else
              (let s = s\<lparr>ch_medium_rate_rounds := ch_medium_rate_rounds s + 1\<rparr> in
               if ch_window_max s < 12 \<and> ch_medium_rate_rounds s = 10
               then s\<lparr>ch_window_max := 12, ch_window_min := 5\<rparr> else s))
         else
           (let s = s\<lparr>ch_fast_rate_rounds := ch_fast_rate_rounds s + 1\<rparr> in
            if ch_window_max s < 48 \<and> ch_fast_rate_rounds s = 10
            then s\<lparr>ch_window_max := 48, ch_window_min := 16\<rparr> else s))
      else s)"

text \<open>
  \<^verbatim>\<open>packet_tx_op\<close> with the operation as an argument: it runs while the mutex is held, on the state
  without the envelope, and says whether to drop the envelope.
\<close>

definition packet_tx_op ::
  "outlet \<Rightarrow> (envelope \<Rightarrow> channel_state \<Rightarrow> (bool \<times> envelope) outcome \<times> channel_effect list \<times> channel_state)
   \<Rightarrow> nat \<Rightarrow> channel_state \<Rightarrow> unit outcome \<times> channel_effect list \<times> channel_state"
where
  "packet_tx_op outlet op packet s =
     (if ch_locked s then (Stuck, [], s)
      else
        (case List.extract (\<lambda>e. case (Option.bind (ev_packet e) (ot_packet_id outlet), ot_packet_id outlet packet) of
                                  (Some a, Some b) \<Rightarrow> a = b | _ \<Rightarrow> False) (ch_tx_ring s) of
           None \<Rightarrow> (Returned (), [], s)
         | Some (before, e, after) \<Rightarrow>
           (case op e (s\<lparr>ch_tx_ring := before @ after, ch_locked := True\<rparr>) of
              (Stuck, es, s) \<Rightarrow> (Stuck, es, s)
            | (Returned (True, _), es, s) \<Rightarrow> (Returned (), es, (grow_window outlet s)\<lparr>ch_locked := False\<rparr>)
            | (Returned (False, e), es, s) \<Rightarrow>
                (Returned (), es, s\<lparr>ch_tx_ring := ch_tx_ring s @ [e], ch_locked := False\<rparr>))))"

definition packet_delivered :: "outlet \<Rightarrow> nat \<Rightarrow> channel_state \<Rightarrow> unit outcome \<times> channel_effect list \<times> channel_state" where
  "packet_delivered outlet = packet_tx_op outlet (\<lambda>e s. (Returned (True, e), [], s))"

definition shrink_window :: "channel_state \<Rightarrow> channel_state" where
  "shrink_window s =
     (if ch_window s > ch_window_min s then
        (let s = s\<lparr>ch_window := ch_window s - 1\<rparr> in
         if ch_window_max s > ch_window_min s + ch_window_flexibility s
         then s\<lparr>ch_window_max := ch_window_max s - 1\<rparr> else s)
      else s)"

text \<open>What \<^verbatim>\<open>packet_timeout\<close> does with the envelope, inside \<^verbatim>\<open>packet_tx_op\<close>.\<close>

definition retry_or_tear_down ::
  "outlet \<Rightarrow> nat \<Rightarrow> envelope \<Rightarrow> channel_state \<Rightarrow> (bool \<times> envelope) outcome \<times> channel_effect list \<times> channel_state"
where
  "retry_or_tear_down outlet max_tries e s =
     (if ev_tries e \<ge> max_tries then
        (case shutdown s of
           (Stuck, es, s) \<Rightarrow> (Stuck, es, s)
         | (Returned _, es, s) \<Rightarrow> (Returned (True, e), es @ [TearDown], s))
      else
        (let e = e\<lparr>ev_tries := ev_tries e + 1\<rparr>;
             packet = the (ev_packet e);
             sent = [OutletResend packet, SetDelivered packet True]
         in case get_packet_timeout_time outlet (ev_tries e) s of
              Stuck \<Rightarrow> (Stuck, sent, s)
            | Returned t \<Rightarrow>
              (case update_packet_timeouts outlet s of
                 (Stuck, es, s) \<Rightarrow> (Stuck, sent @ [SetTimeout packet True (Some t)] @ es, s)
               | (Returned _, es, s) \<Rightarrow>
                 if ch_locked s then (Stuck, sent @ [SetTimeout packet True (Some t)] @ es, s)
                 else (Returned (False, e), sent @ [SetTimeout packet True (Some t)] @ es, shrink_window s))))"

definition packet_timeout :: "outlet \<Rightarrow> nat \<Rightarrow> channel_state \<Rightarrow> unit outcome \<times> channel_effect list \<times> channel_state" where
  "packet_timeout outlet packet s =
     (if ch_locked s then (Stuck, [], s)
      else packet_tx_op outlet (retry_or_tear_down outlet (ch_max_tries s)) packet s)"

end
