(* ===== verification/Channel_Correct.thy ===== *)
theory Channel_Correct
  imports Channel
begin

text \<open>
  What the channel guarantees: frames decode to what was packed, the receive ring hands messages over
  exactly once and in order, and a send never returns.
\<close>

section \<open>Envelope round trip\<close>

text \<open>The envelope of a message, as it is sent.\<close>

definition frame_of :: "u16 \<Rightarrow> cmessage \<Rightarrow> bytes" where
  "frame_of sequence m = ev_raw (snd (envelope_pack ((new_envelope (Some m) [])\<lparr>ev_sequence := sequence\<rparr>)))"

definition wf_message :: "u16 set \<Rightarrow> cmessage \<Rightarrow> bool" where
  "wf_message factories m \<longleftrightarrow> cm_type m \<noteq> 0 \<and> cm_type m \<in> factories \<and> length (cm_data m) < SEQ_MODULUS"

lemma seq_succ_eq: "seq_succ s = s + 1"
proof -
  have "of_nat ((unat s + 1) mod 2 ^ LENGTH(16)) = (of_nat (unat s + 1) :: u16)"
    by (simp add: word_of_nat_eq_iff take_bit_eq_mod del: of_nat_Suc of_nat_add)
  then show ?thesis by (simp add: seq_succ_def)
qed

lemma frame_of_eq:
  "cm_type m \<noteq> 0 \<Longrightarrow> frame_of sequence m = u16_to_be_bytes (cm_type m) @ u16_to_be_bytes sequence
     @ u16_to_be_bytes (of_nat (length (cm_data m))) @ cm_data m"
  by (simp add: frame_of_def envelope_pack_def new_envelope_def Let_def)

lemma unpack_frame:
  assumes "wf_message factories m"
  shows "envelope_unpack factories (new_envelope None (frame_of sequence m @ rest)) =
    (Inr (), (new_envelope None (frame_of sequence m @ rest))\<lparr>ev_sequence := sequence, ev_message := Some m, ev_unpacked := True\<rparr>)"
proof -
  have len: "unat (of_nat (length (cm_data m)) :: u16) = length (cm_data m)"
    using assms by (simp add: wf_message_def unat_of_nat)
  have f: "frame_of sequence m = [ucast (drop_bit 8 (cm_type m)), ucast (cm_type m), ucast (drop_bit 8 sequence), ucast sequence,
      ucast (drop_bit 8 (of_nat (length (cm_data m)) :: u16)), ucast (of_nat (length (cm_data m)) :: u16)] @ cm_data m"
    using assms by (simp add: frame_of_eq wf_message_def u16_to_be_bytes_def)
  show ?thesis
    using assms unfolding envelope_unpack_def Let_def f
    by (simp add: new_envelope_def wf_message_def len)
qed

text \<open>What a receiver reads of a frame: the sequence number and the message.\<close>

definition read_frame :: "u16 set \<Rightarrow> bytes \<Rightarrow> (u16 \<times> cmessage) option" where
  "read_frame factories raw = (case envelope_unpack factories (new_envelope None raw) of
     (Inl _, _) \<Rightarrow> None | (Inr _, e) \<Rightarrow> map_option (Pair (ev_sequence e)) (ev_message e))"

interpretation channel_frame: prefix_codec "\<lambda>(s, m). frame_of s m" "read_frame factories" "\<lambda>(s, m). wf_message factories m"
  for factories
  by unfold_locales (auto simp: read_frame_def unpack_frame unpack_frame [of _ _ _ "[]", simplified] split: prod.splits)

section \<open>The receive ring\<close>

text \<open>
  Emplacement stops at the first larger sequence number when the envelope is the next one expected or
  more than half the sequence space ahead, so it detects every duplicate only otherwise.
\<close>

definition emplaced :: "envelope \<Rightarrow> envelope list \<Rightarrow> envelope list \<Rightarrow> bool" where
  "emplaced e ring ring' \<longleftrightarrow> ev_sequence ` set ring' = insert (ev_sequence e) (ev_sequence ` set ring)
     \<and> (distinct (map ev_sequence ring) \<longrightarrow> distinct (map ev_sequence ring'))
     \<and> set ring' \<subseteq> set ring \<union> {e, e\<lparr>ev_tracked := True\<rparr>}"

lemma emplace_from_new:
  assumes "ev_sequence e \<notin> ev_sequence ` set ring"
  shows "\<exists>ring'. emplace_from e n ring = (True, ring') \<and> emplaced e ring ring'"
  using assms
proof (induction e n ring rule: emplace_from.induct)
  case (2 e n x ring)
  then show ?case
  proof (cases "ev_sequence e < ev_sequence x \<and> \<not> seq_distance n (ev_sequence e) > 0xFFFF div 2")
    case True
    then show ?thesis using 2(2) by (auto simp: emplaced_def)
  next
    case False
    with 2 obtain ring' where "emplace_from e n ring = (True, ring')" "emplaced e ring ring'" by auto
    then show ?thesis using 2(2) False by (auto simp: emplaced_def)
  qed
qed (auto simp: emplaced_def)

lemma emplace_from_old:
  assumes "ev_sequence e \<in> ev_sequence ` set ring" and "seq_distance n (ev_sequence e) > 0xFFFF div 2"
  shows "emplace_from e n ring = (False, ring)"
  using assms by (induction e n ring rule: emplace_from.induct) auto

lemma seq_distance_near:
  assumes "k < i" and "i \<le> k + 32768" and "i < SEQ_MODULUS"
  shows "seq_distance (of_nat k) (of_nat i) > 0xFFFF div 2"
proof -
  have u: "unat (of_nat k :: u16) = k" "unat (of_nat i :: u16) = i" using assms by (simp_all add: unat_of_nat)
  moreover have "\<not> (of_nat i :: u16) \<le> of_nat k" using u assms(1) by (simp add: word_le_nat_alt)
  ultimately show ?thesis using assms by (simp add: seq_distance_def)
qed

text \<open>The ring holds the messages of the stream with the indices in a set.\<close>

definition ring_holds :: "cmessage list \<Rightarrow> nat set \<Rightarrow> envelope list \<Rightarrow> bool" where
  "ring_holds msgs J ring \<longleftrightarrow> distinct (map ev_sequence ring) \<and> J \<subseteq> {..<length msgs}
     \<and> ev_sequence ` set ring = of_nat ` J
     \<and> (\<forall>e\<in>set ring. ev_unpacked e \<and> (\<forall>i<length msgs. ev_sequence e = of_nat i \<longrightarrow> ev_message e = Some (msgs ! i)))"

lemma of_nat_seq_inj: "i < SEQ_MODULUS \<Longrightarrow> j < SEQ_MODULUS \<Longrightarrow> (of_nat i = (of_nat j :: u16)) = (i = j)"
  by (simp add: word_of_nat_eq_iff take_bit_nat_eq_self)

lemma ring_holds_mem:
  assumes "ring_holds msgs J ring" and "length msgs < SEQ_MODULUS" and "i < SEQ_MODULUS"
  shows "of_nat i \<in> ev_sequence ` set ring \<longleftrightarrow> i \<in> J"
proof -
  have "i \<in> J" if "of_nat i = (of_nat j :: u16)" "j \<in> J" for j
    using that assms of_nat_seq_inj [of i j] by (auto simp: ring_holds_def)
  then show ?thesis using assms(1) by (auto simp: ring_holds_def)
qed

lemma ring_holds_remove:
  assumes "ring_holds msgs J (before @ e # after)" and "ev_sequence e = of_nat k" and "length msgs < SEQ_MODULUS" and "k < SEQ_MODULUS"
  shows "ring_holds msgs (J - {k}) (before @ after)" and "ev_message e = Some (msgs ! k)" and "ev_unpacked e" and "k \<in> J"
proof -
  show k: "k \<in> J" using ring_holds_mem [OF assms(1,3,4)] assms(2) by (auto simp: image_iff)
  then have "k < length msgs" using assms(1) by (auto simp: ring_holds_def)
  then show "ev_message e = Some (msgs ! k)" "ev_unpacked e" using assms(1,2) by (auto simp: ring_holds_def)
  have "ev_sequence ` set (before @ after) = ev_sequence ` set (before @ e # after) - {of_nat k}"
    using assms(1,2) by (auto simp: ring_holds_def) (metis imageI)+
  also have "\<dots> = of_nat ` (J - {k})"
    using assms(1,3,4) of_nat_seq_inj by (auto simp: ring_holds_def)
  finally show "ring_holds msgs (J - {k}) (before @ after)"
    using assms(1) by (auto simp: ring_holds_def)
qed

lemma take_contiguous_spec:
  assumes "ring_holds msgs J ring" and "length msgs < SEQ_MODULUS" and "k \<le> length msgs" and "J \<subseteq> {k..}"
  shows "\<exists>es ring' k'. take_contiguous factories ring (of_nat k) = (es, ring', of_nat k') \<and> k \<le> k' \<and> k' \<le> length msgs
     \<and> {k..<k'} \<subseteq> J \<and> k' \<notin> J \<and> ring_holds msgs (J - {..<k'}) ring' \<and> map ev_message es = map (\<lambda>i. Some (msgs ! i)) [k..<k']"
  using assms
proof (induction "length ring" arbitrary: ring J k rule: less_induct)
  case less
  have k: "k < SEQ_MODULUS" using less.prems by simp
  show ?case
  proof (cases "List.extract (\<lambda>e. ev_sequence e = of_nat k) ring")
    case None
    then have "k \<notin> J" using ring_holds_mem [OF less.prems(1,2) k] by (auto simp: extract_None_iff image_iff)
    moreover have "J - {..<k} = J" using less.prems(4) by auto
    ultimately show ?thesis
      using None less.prems by (intro exI [of _ "[]"] exI [of _ ring] exI [of _ k]) (simp add: take_contiguous.simps)
  next
    case (Some r)
    then obtain before e after where x: "List.extract (\<lambda>e. ev_sequence e = of_nat k) ring = Some (before, e, after)"
      by (cases r) auto
    then have ring: "ring = before @ e # after" and seq: "ev_sequence e = of_nat k" by (auto simp: extract_Some_iff)
    note rm = ring_holds_remove [OF less.prems(1) [unfolded ring] seq less.prems(2) k]
    have "k < length msgs" using rm(4) less.prems(1) by (auto simp: ring_holds_def)
    moreover have "J - {k} \<subseteq> {Suc k..}" using less.prems(4) by (auto simp: Suc_le_eq order.order_iff_strict)
    ultimately obtain es ring' k' where
      ih: "take_contiguous factories (before @ after) (of_nat (Suc k)) = (es, ring', of_nat k')" "Suc k \<le> k'" "k' \<le> length msgs"
        "{Suc k..<k'} \<subseteq> J - {k}" "k' \<notin> J - {k}" "ring_holds msgs (J - {k} - {..<k'}) ring'"
        "map ev_message es = map (\<lambda>i. Some (msgs ! i)) [Suc k..<k']"
      using less.hyps [OF _ rm(1) less.prems(2), of "Suc k"] ring by auto
    have "take_contiguous factories ring (of_nat k) = (e # es, ring', of_nat k')"
      using x ih(1) rm(3) by (subst take_contiguous.simps) (simp add: seq_succ_eq add.commute)
    moreover have "{k..<k'} = insert k {Suc k..<k'}" using ih(2) by auto
    then have "{k..<k'} \<subseteq> J" using ih(4) rm(4) by auto
    moreover have "J - {k} - {..<k'} = J - {..<k'}" using ih(2) by auto
    moreover have "k' \<notin> J" using ih(2,5) by auto
    moreover have "map ev_message (e # es) = map (\<lambda>i. Some (msgs ! i)) [k..<k']"
      using ih(2,7) rm(2) by (simp add: upt_conv_Cons)
    ultimately show ?thesis using ih(2,3,6) by (intro exI [of _ "e # es"] exI [of _ ring'] exI [of _ k']) auto
  qed
qed

section \<open>Receiving a stream\<close>

text \<open>
  The state of a receiver to which the messages of a stream with the indices in \<open>seen\<close> have come, of
  which the first \<open>k\<close> have been handed over.
\<close>

definition rx_state :: "cmessage list \<Rightarrow> u16 set \<Rightarrow> nat list \<Rightarrow> nat set \<Rightarrow> nat \<Rightarrow> channel_state \<Rightarrow> bool" where
  "rx_state msgs factories cbs seen k s \<longleftrightarrow> \<not> ch_locked s \<and> ch_factories s = factories \<and> ch_callbacks s = cbs
     \<and> k \<le> length msgs \<and> ch_next_rx_sequence s = of_nat k \<and> {..<k} \<subseteq> seen \<and> k \<notin> seen
     \<and> ring_holds msgs (seen - {..<k}) (ch_rx_ring s)"

lemma stale_iff:
  assumes "k \<le> 65487" and "i < SEQ_MODULUS"
  shows "stale (of_nat i) (of_nat k) \<longleftrightarrow> i < k"
proof -
  have "unat (of_nat k :: u16) = k" "unat (of_nat i :: u16) = i" using assms by (simp_all add: unat_of_nat)
  then show ?thesis using assms(1) by (simp add: stale_def word_less_nat_alt)
qed

lemma ring_holds_emplaced:
  assumes "ring_holds msgs J ring" and "emplaced e ring ring'" and "ev_sequence e = of_nat i" and "i < length msgs"
    and "length msgs < SEQ_MODULUS" and "ev_message e = Some (msgs ! i)" and "ev_unpacked e"
  shows "ring_holds msgs (insert i J) ring'"
proof -
  have same: "j = i" if "j < length msgs" "of_nat i = (of_nat j :: u16)" for j
    using of_nat_seq_inj [of i j] that assms(4,5) by simp
  have e: "ev_unpacked e' \<and> (\<forall>j<length msgs. ev_sequence e' = of_nat j \<longrightarrow> ev_message e' = Some (msgs ! j))"
    if "e' = e \<or> e' = e\<lparr>ev_tracked := True\<rparr>" for e'
    using that assms(3,6,7) by (auto dest: same same [OF _ sym])
  have "\<forall>e'\<in>set ring'. ev_unpacked e' \<and> (\<forall>j<length msgs. ev_sequence e' = of_nat j \<longrightarrow> ev_message e' = Some (msgs ! j))"
  proof
    fix e' assume "e' \<in> set ring'"
    then consider "e' \<in> set ring" | "e' = e \<or> e' = e\<lparr>ev_tracked := True\<rparr>" using assms(2) by (auto simp: emplaced_def)
    then show "ev_unpacked e' \<and> (\<forall>j<length msgs. ev_sequence e' = of_nat j \<longrightarrow> ev_message e' = Some (msgs ! j))"
      using assms(1) by cases (simp add: ring_holds_def, rule e)
  qed
  then show ?thesis using assms(1-4) by (auto simp: ring_holds_def emplaced_def)
qed

lemma receive_step:
  assumes s: "rx_state msgs factories cbs seen k s" and N: "length msgs \<le> 65487"
    and wf: "\<forall>m\<in>set msgs. wf_message factories m" and i: "i < length msgs" "i \<le> k + 32768"
  shows "\<exists>k' s'. channel_receive takes (frame_of (of_nat i) (msgs ! i)) s =
      (Returned (), concat (map (\<lambda>j. hand_over takes (msgs ! j) cbs) [k..<k']), s')
    \<and> rx_state msgs factories cbs (insert i seen) k' s' \<and> k \<le> k'"
proof -
  let ?e = "(new_envelope None (frame_of (of_nat i) (msgs ! i)))\<lparr>ev_sequence := of_nat i, ev_message := Some (msgs ! i), ev_unpacked := True\<rparr>"
  have u: "envelope_unpack factories (new_envelope None (frame_of (of_nat i) (msgs ! i))) = (Inr (), ?e)"
    using unpack_frame [of factories "msgs ! i" "of_nat i" "[]"] wf i by simp
  have k: "k \<le> 65487" "i < SEQ_MODULUS" "length msgs < SEQ_MODULUS" using s N i by (auto simp: rx_state_def)
  note s' = s [unfolded rx_state_def]
  have cbs: "ch_callbacks s = cbs" using s' by simp
  have rcv: "channel_receive takes (frame_of (of_nat i) (msgs ! i)) s =
     (if i < k then (Returned (), [], s)
      else case emplace_from ?e (of_nat k) (ch_rx_ring s) of (new, ring) \<Rightarrow>
        if \<not> new then (Returned (), [], s\<lparr>ch_rx_ring := ring\<rparr>)
        else (case take_contiguous factories ring (of_nat k) of (contig, ring, n) \<Rightarrow>
           (Returned (), concat (map (\<lambda>e. case ev_message e of None \<Rightarrow> [] | Some message \<Rightarrow> hand_over takes message cbs) contig),
            s\<lparr>ch_rx_ring := ring, ch_next_rx_sequence := n\<rparr>)))"
    using s' u stale_iff [OF k(1,2)] by (simp add: channel_receive_def emplace_envelope_def split_def cbs cong: if_cong option.case_cong)
  show ?thesis
  proof (cases "i \<in> seen")
    case True
    have "channel_receive takes (frame_of (of_nat i) (msgs ! i)) s = (Returned (), [], s)"
    proof (cases "i < k")
      case False
      then have "k < i" using True s' by (metis nat_neq_iff)
      have "ev_sequence ?e \<in> ev_sequence ` set (ch_rx_ring s)"
        using ring_holds_mem [of msgs "seen - {..<k}" "ch_rx_ring s" i] s' k True False by auto
      moreover have "seq_distance (of_nat k) (ev_sequence ?e) > 0xFFFF div 2"
        using seq_distance_near [OF \<open>k < i\<close> i(2) k(2)] by simp
      ultimately have "emplace_from ?e (of_nat k) (ch_rx_ring s) = (False, ch_rx_ring s)" by (rule emplace_from_old)
      then show ?thesis using rcv False by simp
    qed (use rcv in simp)
    then show ?thesis using s True by (intro exI [of _ k] exI [of _ s]) (simp add: insert_absorb)
  next
    case False
    then have ik: "\<not> i < k" using s' by auto
    have "ev_sequence ?e \<notin> ev_sequence ` set (ch_rx_ring s)"
      using ring_holds_mem [of msgs "seen - {..<k}" "ch_rx_ring s" i] s' k False by auto
    then obtain ring where em: "emplace_from ?e (of_nat k) (ch_rx_ring s) = (True, ring)" "emplaced ?e (ch_rx_ring s) ring"
      using emplace_from_new by blast
    have "ring_holds msgs (insert i (seen - {..<k})) ring"
      by (rule ring_holds_emplaced [OF _ em(2)]) (use s' i k in auto)
    moreover have J: "insert i (seen - {..<k}) = insert i seen - {..<k}" using ik by auto
    ultimately obtain es ring' k' where
      tc: "take_contiguous factories ring (of_nat k) = (es, ring', of_nat k')" "k \<le> k'" "k' \<le> length msgs"
        "{k..<k'} \<subseteq> insert i seen - {..<k}" "k' \<notin> insert i seen - {..<k}"
        "ring_holds msgs (insert i seen - {..<k} - {..<k'}) ring'"
        "map ev_message es = map (\<lambda>i. Some (msgs ! i)) [k..<k']"
      using take_contiguous_spec [of msgs "insert i seen - {..<k}" ring k factories] s' k by fastforce
    have "map (\<lambda>e. case ev_message e of None \<Rightarrow> [] | Some message \<Rightarrow> hand_over takes message cbs) es
        = map (\<lambda>x. case x of None \<Rightarrow> [] | Some message \<Rightarrow> hand_over takes message cbs) (map ev_message es)"
      by simp
    also have "\<dots> = map (\<lambda>j. hand_over takes (msgs ! j) cbs) [k..<k']" by (simp add: tc(7))
    finally have "channel_receive takes (frame_of (of_nat i) (msgs ! i)) s =
      (Returned (), concat (map (\<lambda>j. hand_over takes (msgs ! j) cbs) [k..<k']), s\<lparr>ch_rx_ring := ring', ch_next_rx_sequence := of_nat k'\<rparr>)"
      using rcv ik em(1) tc(1) by simp
    moreover have "{..<k'} \<subseteq> insert i seen"
      using tc(4) s' by (auto simp: subset_iff) (metis atLeastLessThan_iff not_le)
    moreover have "insert i seen - {..<k} - {..<k'} = insert i seen - {..<k'}" using tc(2) by auto
    moreover have "k' \<notin> insert i seen" using tc(2,5) by auto
    ultimately show ?thesis
      using s' tc(2,3,6) by (intro exI conjI) (assumption, simp_all add: rx_state_def)
  qed
qed

fun receive_frames :: "(nat \<Rightarrow> cmessage \<Rightarrow> bool) \<Rightarrow> bytes list \<Rightarrow> channel_state \<Rightarrow> channel_effect list \<times> channel_state" where
  "receive_frames takes [] s = ([], s)"
| "receive_frames takes (raw # raws) s =
     (case channel_receive takes raw s of (_, es, s) \<Rightarrow>
      case receive_frames takes raws s of (fs, s) \<Rightarrow> (es @ fs, s))"

text \<open>How many of the first \<open>n\<close> naturals come before the first one missing from a list.\<close>

definition first_missing :: "nat \<Rightarrow> nat list \<Rightarrow> nat" where
  "first_missing n xs = length (takeWhile (\<lambda>i. i \<in> set xs) [0..<n])"

lemma first_missing_eq:
  assumes "{..<k} \<subseteq> set xs" and "k \<notin> set xs" and "k \<le> n"
  shows "first_missing n xs = k"
proof -
  have "takeWhile (\<lambda>i. i \<in> set xs) [0..<n] = takeWhile (\<lambda>i. i \<in> set xs) ([0..<k] @ [k..<n])"
    using assms(3) by (metis le_add_diff_inverse upt_add_eq_append zero_le)
  also have "\<dots> = [0..<k] @ takeWhile (\<lambda>i. i \<in> set xs) [k..<n]"
    using assms(1) by (intro takeWhile_append2) auto
  also have "takeWhile (\<lambda>i. i \<in> set xs) [k..<n] = []"
    using assms(2) by (cases "k < n") (auto simp: upt_conv_Cons)
  finally show ?thesis by (simp add: first_missing_def)
qed

lemma receive_frames_stream:
  assumes "rx_state msgs factories cbs (set past) k s" and "length msgs \<le> 65487"
    and "\<forall>m\<in>set msgs. wf_message factories m" and "set idxs \<subseteq> {..<length msgs}"
    and "\<forall>j<length idxs. idxs ! j \<le> first_missing (length msgs) (past @ take j idxs) + 32768"
  shows "\<exists>s'. receive_frames takes (map (\<lambda>i. frame_of (of_nat i) (msgs ! i)) idxs) s =
      (concat (map (\<lambda>j. hand_over takes (msgs ! j) cbs) [k..<first_missing (length msgs) (past @ idxs)]), s')
    \<and> rx_state msgs factories cbs (set (past @ idxs)) (first_missing (length msgs) (past @ idxs)) s'
    \<and> k \<le> first_missing (length msgs) (past @ idxs)"
  using assms
proof (induction idxs arbitrary: past k s)
  case Nil
  then have "first_missing (length msgs) past = k" by (intro first_missing_eq) (auto simp: rx_state_def)
  then show ?case using Nil.prems(1) by auto
next
  case (Cons i idxs)
  let ?n = "length msgs"
  have k: "first_missing ?n past = k" using Cons.prems(1) by (intro first_missing_eq) (auto simp: rx_state_def)
  have i: "i < ?n" "i \<le> k + 32768" using Cons.prems(4,5) k by force+
  obtain k1 s1 where st: "channel_receive takes (frame_of (of_nat i) (msgs ! i)) s =
      (Returned (), concat (map (\<lambda>j. hand_over takes (msgs ! j) cbs) [k..<k1]), s1)"
    "rx_state msgs factories cbs (insert i (set past)) k1 s1" "k \<le> k1"
    using receive_step [OF Cons.prems(1-3) i, of takes] by auto
  have r1: "rx_state msgs factories cbs (set (past @ [i])) k1 s1" using st(2) by simp
  have "\<forall>j<length idxs. idxs ! j \<le> first_missing ?n ((past @ [i]) @ take j idxs) + 32768"
    using Cons.prems(5) by (metis append.assoc append_Cons append_Nil length_Cons not_less_eq nth_Cons_Suc take_Suc_Cons)
  from Cons.IH [OF r1 Cons.prems(2,3) _ this] obtain s' where
    ih: "receive_frames takes (map (\<lambda>i. frame_of (of_nat i) (msgs ! i)) idxs) s1 =
      (concat (map (\<lambda>j. hand_over takes (msgs ! j) cbs) [k1..<first_missing ?n (past @ i # idxs)]), s')"
    "rx_state msgs factories cbs (set (past @ i # idxs)) (first_missing ?n (past @ i # idxs)) s'"
    "k1 \<le> first_missing ?n (past @ i # idxs)"
    using Cons.prems(4) by auto
  have "[k..<first_missing ?n (past @ i # idxs)] = [k..<k1] @ [k1..<first_missing ?n (past @ i # idxs)]"
    using st(3) ih(3) by (metis le_add_diff_inverse upt_add_eq_append)
  then show ?case using st ih by auto
qed

lemma receive_in_order:
  assumes "length msgs \<le> 65487" and "\<forall>m\<in>set msgs. wf_message factories m" and "set idxs \<subseteq> {..<length msgs}"
    and "\<forall>j<length idxs. idxs ! j \<le> first_missing (length msgs) (take j idxs) + 32768"
  shows "fst (receive_frames takes (map (\<lambda>i. frame_of (of_nat i) (msgs ! i)) idxs)
      ((new_channel outlet)\<lparr>ch_factories := factories, ch_callbacks := cbs\<rparr>))
    = concat (map (\<lambda>m. hand_over takes m cbs) (take (first_missing (length msgs) idxs) msgs))"
proof -
  let ?s = "(new_channel outlet)\<lparr>ch_factories := factories, ch_callbacks := cbs\<rparr>"
  let ?k = "first_missing (length msgs) idxs"
  have "rx_state msgs factories cbs (set []) 0 ?s"
    by (simp add: rx_state_def new_channel_def ring_holds_def)
  from receive_frames_stream [OF this assms(1-3), where takes = takes] assms(4)
  have "fst (receive_frames takes (map (\<lambda>i. frame_of (of_nat i) (msgs ! i)) idxs) ?s)
      = concat (map (\<lambda>j. hand_over takes (msgs ! j) cbs) [0..<?k])" by auto
  moreover have "?k \<le> length msgs"
    using length_takeWhile_le [of _ "[0..<length msgs]"] by (simp add: first_missing_def)
  then have "take ?k msgs = map ((!) msgs) [0..<?k]" by (intro nth_equalityI) simp_all
  ultimately show ?thesis by (simp add: comp_def)
qed

text \<open>
  C13. Exactly once and in order. A receiver with any message handlers is given the frames of a stream in
  any order, with losses, duplicates and gaps, none more than half the sequence space ahead of
  the first one missing. What the handlers have been given in the end is exactly the messages before
  the first one that never came, each once and in the order they were sent.
\<close>

theorem channel_in_order:
  assumes "length msgs \<le> 65487" and "\<forall>m\<in>set msgs. wf_message factories m" and "set idxs \<subseteq> {..<length msgs}"
    and "\<forall>j<length idxs. idxs ! j \<le> first_missing (length msgs) (take j idxs) + 32768"
  shows "fst (receive_frames takes (map (\<lambda>i. frame_of (of_nat i) (msgs ! i)) idxs)
      ((new_channel outlet)\<lparr>ch_factories := factories, ch_callbacks := cbs\<rparr>))
    = concat (map (\<lambda>m. hand_over takes m cbs) (take (first_missing (length msgs) idxs) msgs))"
  by (rule receive_in_order [OF assms])

definition sample_messages :: "cmessage list" where
  "sample_messages = [\<lparr> cm_type = 1, cm_data = [10] \<rparr>, \<lparr> cm_type = 1, cm_data = [11] \<rparr>, \<lparr> cm_type = 1, cm_data = [12] \<rparr>,
     \<lparr> cm_type = 1, cm_data = [13] \<rparr>]"

theorem channel_in_order_witness:
  "\<forall>outlet. fst (receive_frames (\<lambda>_ _. True) (map (\<lambda>i. frame_of (of_nat i) (sample_messages ! i)) [1, 0, 1, 3, 0])
      ((new_channel outlet)\<lparr>ch_factories := {1}, ch_callbacks := [7]\<rparr>))
    = [Handed 7 \<lparr> cm_type = 1, cm_data = [10] \<rparr>, Handed 7 \<lparr> cm_type = 1, cm_data = [11] \<rparr>]"
proof -
  have "first_missing (length sample_messages) [1, 0, 1, 3, 0] = 2"
    by (simp add: first_missing_def sample_messages_def upt_rec)
  moreover have "[1, 0, 1, 3, 0] ! j \<le> (n :: nat) + 32768" if "j < 5" for j n
    using that nth_mem [of j "[1, 0, 1, 3, 0 :: nat]"] by auto
  moreover have "\<forall>m\<in>set sample_messages. wf_message {1} m" by (simp add: sample_messages_def wf_message_def)
  ultimately show ?thesis
    using channel_in_order [of sample_messages "{1}" "[1, 0, 1, 3, 0]" "\<lambda>_ _. True" "[7]"]
    by (simp add: sample_messages_def)
qed

section \<open>Sending never returns\<close>

datatype channel_op =
    RegisterType u16 bool
  | AddHandler nat
  | RemoveHandler nat
  | Shutdown
  | SendMessage outlet cmessage
  | ReceiveFrame "nat \<Rightarrow> cmessage \<Rightarrow> bool" bytes
  | PacketDelivered outlet nat
  | PacketTimedOut outlet nat

definition channel_react :: "channel_op \<Rightarrow> channel_state \<Rightarrow> bool \<times> channel_effect list \<times> channel_state" where
  "channel_react op s = (case op of
       RegisterType t sys \<Rightarrow> (case register_message_type_internal t sys s of (r, s) \<Rightarrow> (r = Stuck, [], s))
     | AddHandler cb \<Rightarrow> (case add_message_handler cb s of (r, s) \<Rightarrow> (r = Stuck, [], s))
     | RemoveHandler cb \<Rightarrow> (case remove_message_handler cb s of (r, s) \<Rightarrow> (r = Stuck, [], s))
     | Shutdown \<Rightarrow> (case shutdown s of (r, es, s) \<Rightarrow> (r = Stuck, es, s))
     | SendMessage outlet m \<Rightarrow> (case channel_send outlet m s of (r, es, s) \<Rightarrow> (r = Stuck, es, s))
     | ReceiveFrame takes raw \<Rightarrow> (case channel_receive takes raw s of (r, es, s) \<Rightarrow> (r = Stuck, es, s))
     | PacketDelivered outlet p \<Rightarrow> (case packet_delivered outlet p s of (r, es, s) \<Rightarrow> (r = Stuck, es, s))
     | PacketTimedOut outlet p \<Rightarrow> (case packet_timeout outlet p s of (r, es, s) \<Rightarrow> (r = Stuck, es, s)))"

definition channel_step :: "channel_op \<Rightarrow> channel_effect list \<times> channel_state \<Rightarrow> channel_effect list \<times> channel_state" where
  "channel_step op s = (case channel_react op (snd s) of (_, es, t) \<Rightarrow> (fst s @ es, t))"

definition sent_frames :: "channel_effect list \<Rightarrow> bytes list" where
  "sent_frames es = concat (map (\<lambda>x. case x of OutletSend raw \<Rightarrow> [raw] | _ \<Rightarrow> []) es)"

lemma sent_frames_append [simp]: "sent_frames (es @ fs) = sent_frames es @ sent_frames fs"
  by (simp add: sent_frames_def)

lemma sent_frames_hand_over [simp]: "sent_frames (hand_over takes m cbs) = []"
  by (induction cbs) (auto simp: sent_frames_def)

lemma hand_over_Handed: "x \<in> set (hand_over takes m cbs) \<Longrightarrow> \<exists>cb. x = Handed cb m"
  by (induction cbs) (auto split: if_splits)

lemma sent_frames_concat: "(\<forall>x\<in>set xs. sent_frames x = []) \<Longrightarrow> sent_frames (concat xs) = []"
  by (induction xs) (auto simp: sent_frames_def)

text \<open>A channel has sent nothing, or is stuck with the one frame it sent.\<close>

definition one_shot :: "channel_effect list \<times> channel_state \<Rightarrow> bool" where
  "one_shot s \<longleftrightarrow> (if ch_locked (snd s) then length (sent_frames (fst s)) = 1
     else sent_frames (fst s) = [] \<and> ch_tx_ring (snd s) = [])"

lemma locked_step:
  assumes "ch_locked s" shows "\<exists>b. channel_react op s = (b, [], s)"
  using assms
  by (cases op) (auto simp: channel_react_def register_message_type_internal_def add_message_handler_def remove_message_handler_def
      shutdown_def channel_send_def is_ready_to_send_def channel_receive_def packet_delivered_def packet_tx_op_def
      packet_timeout_def)

lemma channel_send_cases:
  assumes "\<not> ch_locked s" and "ch_tx_ring s = []" and "channel_send outlet m s = (r, es, s')"
  shows "(es = [] \<and> r \<noteq> Stuck \<and> \<not> ch_locked s' \<and> ch_tx_ring s' = [])
    \<or> (r = Stuck \<and> ch_locked s' \<and> sent_frames es = [frame_of (ch_next_sequence s) m])"
  using assms
  by (auto simp: channel_send_def is_ready_to_send_def envelope_pack_def new_envelope_def emplace_envelope_def
      get_packet_timeout_time_def update_packet_timeouts_def sent_frames_def frame_of_def Let_def split: if_splits bool.splits)

lemma receive_quiet:
  assumes "channel_receive takes raw s = (r, es, s')"
  shows "sent_frames es = []" and "ch_locked s' = ch_locked s" and "ch_tx_ring s' = ch_tx_ring s"
  using assms
  by (auto simp: channel_receive_def sent_frames_def split: if_splits prod.splits sum.splits option.splits dest!: hand_over_Handed)


lemma unlocked_step:
  assumes "\<not> ch_locked s" and "ch_tx_ring s = []" and "channel_react op s = (b, es, s')"
  shows "one_shot (es, s')" and "\<not> ch_locked s' \<or> (b \<and> (\<exists>outlet m. op = SendMessage outlet m))"
proof -
  have "one_shot (es, s') \<and> (\<not> ch_locked s' \<or> (b \<and> (\<exists>outlet m. op = SendMessage outlet m)))"
  proof (cases op)
    case (SendMessage outlet m)
    obtain r where "channel_send outlet m s = (r, es, s')" "b = (r = Stuck)"
      using assms(3) SendMessage by (auto simp: channel_react_def split: prod.splits)
    with channel_send_cases [OF assms(1,2) this(1)] SendMessage show ?thesis
      by (auto simp: one_shot_def sent_frames_def)
  next
    case (ReceiveFrame takes raw)
    then obtain r where "channel_receive takes raw s = (r, es, s')"
      using assms(3) by (auto simp: channel_react_def split: prod.splits)
    from receive_quiet [OF this] assms(1,2) show ?thesis by (simp add: one_shot_def)
  qed (use assms in \<open>auto simp: channel_react_def register_message_type_internal_def add_message_handler_def remove_message_handler_def
      shutdown_def packet_delivered_def packet_tx_op_def packet_timeout_def one_shot_def sent_frames_def List.extract_def split: if_splits\<close>)
  then show "one_shot (es, s')" "\<not> ch_locked s' \<or> (b \<and> (\<exists>outlet m. op = SendMessage outlet m))" by auto
qed

interpretation chan: machine channel_step "([], new_channel outlet)" one_shot for outlet
proof
  show "one_shot ([], new_channel outlet)" by (simp add: one_shot_def new_channel_def sent_frames_def)
next
  fix s :: "channel_effect list \<times> channel_state" and op assume s: "one_shot s"
  obtain b es t where r: "channel_react op (snd s) = (b, es, t)" by (metis prod_cases3)
  show "one_shot (channel_step op s)"
  proof (cases "ch_locked (snd s)")
    case True
    then show ?thesis using locked_step [OF True, of op] s by (auto simp: channel_step_def one_shot_def)
  next
    case False
    then show ?thesis using unlocked_step(1) [OF False _ r] s r by (auto simp: channel_step_def one_shot_def)
  qed
qed

text \<open>
  C36. A channel sends one message and then hangs. Whatever is done with a channel, it hands at most one
  frame to its outlet; the send that does so never returns (recomputing the timeouts asks for the
  mutex it holds), and after it a send on a usable outlet, every receive, every delivery or timeout
  report, every handler operation and the shutdown hang as well.
\<close>

theorem channel_sends_once:
  assumes "run channel_step ops ([], new_channel outlet) = (es, s)"
  shows "length (sent_frames es) \<le> 1
    \<and> (ch_locked s \<longleftrightarrow> sent_frames es \<noteq> [])
    \<and> (sent_frames es = [] \<longrightarrow> (\<forall>ot m. fst (snd (channel_send ot m s)) \<noteq> [] \<longrightarrow> fst (channel_send ot m s) = Stuck))
    \<and> (sent_frames es \<noteq> [] \<longrightarrow>
         (\<forall>ot m. ot_usable ot \<longrightarrow> channel_send ot m s = (Stuck, [], s))
         \<and> (\<forall>takes raw. channel_receive takes raw s = (Stuck, [], s))
         \<and> (\<forall>ot p. packet_delivered ot p s = (Stuck, [], s) \<and> packet_timeout ot p s = (Stuck, [], s))
         \<and> (\<forall>cb. add_message_handler cb s = (Stuck, s)) \<and> shutdown s = (Stuck, [], s))"
proof -
  have inv: "one_shot (es, s)" using chan.inv_reachable [of ops outlet] assms by simp
  have "fst (channel_send ot m s) = Stuck" if "sent_frames es = []" "fst (snd (channel_send ot m s)) \<noteq> []" for ot m
    using channel_send_cases [of s ot m] inv that by (cases "channel_send ot m s") (auto simp: one_shot_def split: if_splits)
  then show ?thesis
    using inv by (auto simp: one_shot_def channel_send_def is_ready_to_send_def channel_receive_def packet_delivered_def
        packet_tx_op_def packet_timeout_def add_message_handler_def shutdown_def split: if_splits)
qed

definition sample_outlet :: outlet where
  "sample_outlet = \<lparr> ot_rtt = 0.1, ot_mdu = 400, ot_usable = True, ot_packet = (\<lambda>_. 0), ot_packet_state = (\<lambda>_. MsSent),
     ot_packet_id = (\<lambda>_. None) \<rparr>"

definition sample_send :: "channel_effect list \<times> channel_state" where
  "sample_send = run channel_step [SendMessage sample_outlet \<lparr> cm_type = 1, cm_data = [10] \<rparr>] ([], new_channel sample_outlet)"

theorem channel_sends_once_witness:
  "sent_frames (fst sample_send) = [[0, 1, 0, 0, 0, 1, 10]] \<and> ch_locked (snd sample_send)
   \<and> shutdown (snd sample_send) = (Stuck, [], snd sample_send)"
proof -
  have "sent_frames (fst sample_send) = [[0, 1, 0, 0, 0, 1, 10]]"
    by (simp add: sample_send_def channel_step_def channel_react_def channel_send_def is_ready_to_send_def outstanding_def
        new_channel_def sample_outlet_def envelope_pack_def new_envelope_def u16_to_be_bytes_def emplace_envelope_def
        get_packet_timeout_time_def update_packet_timeouts_def sent_frames_def Let_def)
  moreover have "run channel_step [SendMessage sample_outlet \<lparr> cm_type = 1, cm_data = [10] \<rparr>] ([], new_channel sample_outlet)
      = (fst sample_send, snd sample_send)" by (simp add: sample_send_def)
  from channel_sends_once [OF this] calculation show ?thesis by simp
qed

end
