(* ===== verification/Stream_Buffer.thy ===== *)
theory Stream_Buffer
  imports Channel_Correct "HOL-Library.Sublist"
begin

text \<open>
  Byte streams over a channel (\<^verbatim>\<open>buffer.rs\<close>): the stream message, the reader and its handler, and the writer
  with its compression attempts. The bzip2 functions are parameters, with \<open>compression_ok\<close> as what the
  code relies on; a callback is a number, and the thread a listener runs on is left out.
\<close>

section \<open>Stream messages\<close>

abbreviation (input) STREAM_DATA :: u16 where "STREAM_DATA \<equiv> 0xFF00"

record stream_data_message =
  sd_stream_id :: u16
  sd_data :: bytes
  sd_eof :: bool
  sd_compressed :: bool

definition default_stream_message :: stream_data_message where
  "default_stream_message = \<lparr> sd_stream_id = 0, sd_data = [], sd_eof = False, sd_compressed = False \<rparr>"

definition stream_header :: "stream_data_message \<Rightarrow> u16" where
  "stream_header m =
     ((sd_stream_id m AND 0x3FFF) OR (if sd_eof m then 0x8000 else 0)) OR (if sd_compressed m then 0x4000 else 0)"

definition stream_pack :: "stream_data_message \<Rightarrow> bytes" where
  "stream_pack m = u16_to_be_bytes (stream_header m) @ sd_data m"

definition stream_unpack :: "(bytes \<Rightarrow> bytes option) \<Rightarrow> bytes \<Rightarrow> stream_data_message \<Rightarrow> stream_data_message" where
  "stream_unpack decompress_bytes raw m =
     (if length raw < 2 then m
      else
        (let header = u16_from_be_bytes (raw ! 0) (raw ! 1);
             m = \<lparr> sd_stream_id = header AND 0x3FFF, sd_data = drop 2 raw, sd_eof = header AND 0x8000 \<noteq> 0,
                   sd_compressed = header AND 0x4000 \<noteq> 0 \<rparr>
         in if sd_compressed m
            then (case decompress_bytes (sd_data m) of Some d \<Rightarrow> m\<lparr>sd_data := d\<rparr> | None \<Rightarrow> m)
            else m))"

section \<open>Reader\<close>

record channel_reader =
  rd_stream_id :: u16
  rd_buffer :: bytes
  rd_eof :: bool
  rd_listeners :: "nat list"

definition new_reader :: "u16 \<Rightarrow> channel_reader" where
  "new_reader stream_id = \<lparr> rd_stream_id = stream_id, rd_buffer = [], rd_eof = False, rd_listeners = [] \<rparr>"

text \<open>
  The message handler of the reader: whether it takes the message, the listeners notified with the
  number of bytes ready, and the reader after it.
\<close>

definition reader_handler ::
  "(bytes \<Rightarrow> bytes option) \<Rightarrow> cmessage \<Rightarrow> channel_reader \<Rightarrow> bool \<times> (nat \<times> nat) list \<times> channel_reader"
where
  "reader_handler decompress_bytes message r =
     (if cm_type message \<noteq> STREAM_DATA then (False, [], r)
      else
        (let m = stream_unpack decompress_bytes (cm_data message) default_stream_message in
         if sd_stream_id m \<noteq> rd_stream_id r then (False, [], r)
         else
           (let r = (if sd_data m \<noteq> [] then r\<lparr>rd_buffer := rd_buffer r @ sd_data m\<rparr> else r);
                r = (if sd_eof m then r\<lparr>rd_eof := True\<rparr> else r);
                ready = length (rd_buffer r)
            in (True, map (\<lambda>listener. (listener, ready)) (rd_listeners r), r))))"

definition add_ready_callback :: "nat \<Rightarrow> channel_reader \<Rightarrow> channel_reader" where
  "add_ready_callback cb r = r\<lparr>rd_listeners := rd_listeners r @ [cb]\<rparr>"

definition remove_ready_callback :: "nat \<Rightarrow> channel_reader \<Rightarrow> channel_reader" where
  "remove_ready_callback cb r = r\<lparr>rd_listeners := filter (\<lambda>l. l \<noteq> cb) (rd_listeners r)\<rparr>"

definition reader_close :: "channel_reader \<Rightarrow> channel_reader" where
  "reader_close r = r\<lparr>rd_listeners := []\<rparr>"

definition reader_read :: "nat \<Rightarrow> channel_reader \<Rightarrow> bytes \<times> channel_reader" where
  "reader_read n r =
     (if rd_buffer r = [] then ([], r)
      else
        (let to_read = min n (length (rd_buffer r)) in
         (take to_read (rd_buffer r), r\<lparr>rd_buffer := drop to_read (rd_buffer r)\<rparr>)))"

section \<open>Writer\<close>

record channel_writer =
  wr_stream_id :: u16
  wr_eof :: bool
  wr_mdu :: nat

definition new_writer :: "u16 \<Rightarrow> outlet \<Rightarrow> channel_writer" where
  "new_writer stream_id outlet =
     \<lparr> wr_stream_id = stream_id, wr_eof = False, wr_mdu = channel_mdu outlet - 8 \<rparr>"

text \<open>The loop over compression attempts: the compressed payload and the length it stands for.\<close>

function try_compress :: "(bytes \<Rightarrow> bytes option) \<Rightarrow> nat \<Rightarrow> bytes \<Rightarrow> nat \<Rightarrow> nat \<Rightarrow> (bytes \<times> nat) option" where
  "try_compress compress_bytes mdu buf chunk_len comp_try =
     (if chunk_len > 32 \<and> comp_try < 4 then
        (let segment_len = chunk_len div comp_try in
         case compress_bytes (take segment_len buf) of
           Some compressed \<Rightarrow>
             if length compressed < mdu \<and> length compressed < segment_len then Some (compressed, segment_len)
             else try_compress compress_bytes mdu buf chunk_len (comp_try + 1)
         | None \<Rightarrow> try_compress compress_bytes mdu buf chunk_len (comp_try + 1))
      else None)"
  by pat_completeness auto
termination by (relation "measure (\<lambda>(_, _, _, _, t). 4 - t)") auto

declare try_compress.simps [simp del]

text \<open>The message a write builds, and how many bytes of the buffer it carries.\<close>

definition write_message :: "(bytes \<Rightarrow> bytes option) \<Rightarrow> bytes \<Rightarrow> channel_writer \<Rightarrow> stream_data_message \<times> nat" where
  "write_message compress_bytes buf w =
     (case try_compress compress_bytes (wr_mdu w) buf (min (length buf) (1024 * 16)) 1 of
        Some (payload, processed_length) \<Rightarrow>
          (\<lparr> sd_stream_id = wr_stream_id w, sd_data = payload, sd_eof = wr_eof w, sd_compressed = True \<rparr>, processed_length)
      | None \<Rightarrow>
          (let capped = min (length buf) (wr_mdu w) in
           (\<lparr> sd_stream_id = wr_stream_id w, sd_data = take capped buf, sd_eof = wr_eof w, sd_compressed = False \<rparr>, capped)))"

definition channel_message :: "stream_data_message \<Rightarrow> cmessage" where
  "channel_message m = \<lparr> cm_type = STREAM_DATA, cm_data = stream_pack m \<rparr>"

definition writer_write ::
  "(bytes \<Rightarrow> bytes option) \<Rightarrow> outlet \<Rightarrow> bytes \<Rightarrow> channel_writer \<Rightarrow> channel_state
   \<Rightarrow> nat outcome \<times> channel_effect list \<times> channel_state"
where
  "writer_write compress_bytes outlet buf w s =
     (case write_message compress_bytes buf w of
        (message, processed_length) \<Rightarrow>
          (case channel_send outlet (channel_message message) s of
             (Stuck, es, s) \<Rightarrow> (Stuck, es, s)
           | (Returned (Inl _), es, s) \<Rightarrow> (Returned 0, es, s)
           | (Returned (Inr _), es, s) \<Rightarrow> (Returned processed_length, es, s)))"

definition writer_close ::
  "(bytes \<Rightarrow> bytes option) \<Rightarrow> outlet \<Rightarrow> channel_writer \<Rightarrow> channel_state
   \<Rightarrow> unit outcome \<times> channel_effect list \<times> channel_writer \<times> channel_state"
where
  "writer_close compress_bytes outlet w s =
     (let w = w\<lparr>wr_eof := True\<rparr> in
      case writer_write compress_bytes outlet [] w s of
        (Stuck, es, s) \<Rightarrow> (Stuck, es, w, s) | (Returned _, es, s) \<Rightarrow> (Returned (), es, w, s))"

section \<open>A stream, end to end\<close>

text \<open>The messages of successive writes, each going on where the one before stopped.\<close>

function write_messages :: "(bytes \<Rightarrow> bytes option) \<Rightarrow> bytes \<Rightarrow> channel_writer \<Rightarrow> cmessage list" where
  "write_messages compress_bytes buf w =
     (case write_message compress_bytes buf w of (m, n) \<Rightarrow>
        if n = 0 \<or> buf = [] then [] else channel_message m # write_messages compress_bytes (drop n buf) w)"
  by pat_completeness auto
termination by (relation "measure (\<lambda>(_, buf, _). length buf)") auto

declare write_messages.simps [simp del]

lemma stream_id_mask: "(a :: u16) \<le> 0x3FFF \<Longrightarrow> a AND 0x3FFF = a"
proof -
  assume "a \<le> 0x3FFF"
  then have "unat a < 2 ^ 14" by (simp add: word_le_nat_alt)
  then have "take_bit 14 a = a" by (simp add: word_unat_eq_iff unsigned_take_bit_eq take_bit_nat_eq_self)
  moreover have "(0x3FFF :: u16) = mask 14" by (simp add: mask_numeral)
  ultimately show ?thesis by (simp only: take_bit_eq_mask)
qed

lemma stream_header_fields:
  "stream_header m AND 0x3FFF = sd_stream_id m AND 0x3FFF"
  "stream_header m AND 0x8000 \<noteq> 0 \<longleftrightarrow> sd_eof m"
  "stream_header m AND 0x4000 \<noteq> 0 \<longleftrightarrow> sd_compressed m"
  unfolding stream_header_def by (simp_all add: bit.conj_disj_distrib2 and.assoc)

lemma stream_unpack_pack:
  assumes "sd_stream_id m \<le> 0x3FFF"
  shows "stream_unpack decompress_bytes (stream_pack m) d =
    (if sd_compressed m then (case decompress_bytes (sd_data m) of Some x \<Rightarrow> m\<lparr>sd_data := x\<rparr> | None \<Rightarrow> m) else m)"
  using stream_header_fields [of m] stream_id_mask [OF assms]
  by (simp add: stream_unpack_def stream_pack_def u16_to_be_bytes_def Let_def split: option.split)

text \<open>Compression gives back what was compressed, when it succeeds.\<close>

definition compression_ok :: "(bytes \<Rightarrow> bytes option) \<Rightarrow> (bytes \<Rightarrow> bytes option) \<Rightarrow> bool" where
  "compression_ok compress_bytes decompress_bytes \<longleftrightarrow> (\<forall>x y. compress_bytes x = Some y \<longrightarrow> decompress_bytes y = Some x)"

lemma try_compress_Some:
  assumes "try_compress compress_bytes mdu buf n t = Some (payload, len)" and "n \<le> length buf" and "0 < t"
  shows "compress_bytes (take len buf) = Some payload \<and> length payload < mdu \<and> 0 < len \<and> len \<le> length buf"
  using assms
proof (induction compress_bytes mdu buf n t rule: try_compress.induct)
  case (1 compress_bytes mdu buf n t)
  show ?case
  proof (cases "n > 32 \<and> t < 4")
    case True
    have pos: "0 < n div t" "n div t \<le> length buf"
      using True "1.prems" by (simp_all add: div_greater_zero_iff) (meson div_le_dividend le_trans)
    show ?thesis
    proof (cases "compress_bytes (take (n div t) buf)")
      case None
      then show ?thesis using 1(1) [OF True refl None] "1.prems" True by (simp add: try_compress.simps [of _ _ _ _ t] Let_def)
    next
      case (Some c)
      show ?thesis
      proof (cases "length c < mdu \<and> length c < n div t")
        case True
        then show ?thesis using Some \<open>n > 32 \<and> t < 4\<close> "1.prems"(1) pos by (simp add: try_compress.simps [of _ _ _ _ t] Let_def)
      next
        case False
        then show ?thesis
          using 1(2) [OF True refl Some False] Some "1.prems" True by (auto simp: try_compress.simps [of _ _ _ _ t] Let_def)
      qed
    qed
  next
    case False
    then show ?thesis using "1.prems"(1) by (auto simp: try_compress.simps [of _ _ _ _ t])
  qed
qed

text \<open>What a write carries is what the peer's unpacking gives back, and it fits.\<close>

lemma write_message_ok:
  assumes "write_message compress_bytes buf w = (m, n)" and "compression_ok compress_bytes decompress_bytes"
    and "wr_stream_id w \<le> 0x3FFF"
  shows "stream_unpack decompress_bytes (stream_pack m) d
      = \<lparr> sd_stream_id = wr_stream_id w, sd_data = take n buf, sd_eof = wr_eof w, sd_compressed = sd_compressed m \<rparr>"
    and "length (sd_data m) \<le> wr_mdu w" and "n \<le> length buf" and "0 < wr_mdu w \<Longrightarrow> buf \<noteq> [] \<Longrightarrow> 0 < n"
proof -
  let ?t = "try_compress compress_bytes (wr_mdu w) buf (min (length buf) (1024 * 16)) 1"
  have "stream_unpack decompress_bytes (stream_pack m) d
      = \<lparr> sd_stream_id = wr_stream_id w, sd_data = take n buf, sd_eof = wr_eof w, sd_compressed = sd_compressed m \<rparr>
    \<and> length (sd_data m) \<le> wr_mdu w \<and> n \<le> length buf \<and> (0 < wr_mdu w \<longrightarrow> buf \<noteq> [] \<longrightarrow> 0 < n)"
  proof (cases ?t)
    case None
    then show ?thesis using assms(1,3) by (auto simp: write_message_def Let_def stream_unpack_pack)
  next
    case (Some pl)
    then obtain payload where t: "?t = Some (payload, n)" "m = \<lparr> sd_stream_id = wr_stream_id w, sd_data = payload, sd_eof = wr_eof w, sd_compressed = True \<rparr>"
      using assms(1) by (cases pl) (auto simp: write_message_def)
    note tc = try_compress_Some [OF t(1)]
    have "decompress_bytes payload = Some (take n buf)"
      using tc assms(2) by (auto simp: compression_ok_def)
    then show ?thesis using tc t(2) assms(3) by (auto simp: stream_unpack_pack)
  qed
  then show "stream_unpack decompress_bytes (stream_pack m) d
      = \<lparr> sd_stream_id = wr_stream_id w, sd_data = take n buf, sd_eof = wr_eof w, sd_compressed = sd_compressed m \<rparr>"
    "length (sd_data m) \<le> wr_mdu w" "n \<le> length buf" "0 < wr_mdu w \<Longrightarrow> buf \<noteq> [] \<Longrightarrow> 0 < n" by auto
qed

text \<open>The reader after the messages handed to its handler.\<close>

fun reader_after :: "(bytes \<Rightarrow> bytes option) \<Rightarrow> channel_effect list \<Rightarrow> channel_reader \<Rightarrow> channel_reader" where
  "reader_after decompress_bytes [] r = r"
| "reader_after decompress_bytes (Handed cb m # es) r =
     reader_after decompress_bytes es (snd (snd (reader_handler decompress_bytes m r)))"
| "reader_after decompress_bytes (_ # es) r = reader_after decompress_bytes es r"

lemma reader_after_append: "reader_after d (es @ fs) r = reader_after d fs (reader_after d es r)"
  by (induction d es r rule: reader_after.induct) auto

lemma write_messages_wf:
  assumes "compression_ok compress_bytes decompress_bytes" and "wr_stream_id w \<le> 0x3FFF" and "wr_mdu w \<le> 0xFFFF - 8"
    and "m \<in> set (write_messages compress_bytes buf w)"
  shows "wf_message {STREAM_DATA} m \<and> length (cm_data m) \<le> wr_mdu w + 2"
  using assms
proof (induction compress_bytes buf w rule: write_messages.induct)
  case (1 compress_bytes buf w)
  obtain m0 n where w: "write_message compress_bytes buf w = (m0, n)" by fastforce
  have "length (sd_data m0) \<le> wr_mdu w" by (rule write_message_ok(2) [OF w "1.prems"(1,2)])
  then have "wf_message {STREAM_DATA} (channel_message m0) \<and> length (cm_data (channel_message m0)) \<le> wr_mdu w + 2"
    using "1.prems"(3) by (simp add: wf_message_def channel_message_def stream_pack_def)
  then show ?case
    using "1.IH" [OF w [symmetric]] "1.prems" w
    by (auto simp: write_messages.simps [of _ buf] split: if_splits)
qed

lemma reader_takes_write:
  assumes "write_message compress_bytes buf w = (m, n)" and "compression_ok compress_bytes decompress_bytes"
    and "wr_stream_id w \<le> 0x3FFF" and "rd_stream_id r = wr_stream_id w"
  shows "fst (reader_handler decompress_bytes (channel_message m) r)"
    and "rd_buffer (snd (snd (reader_handler decompress_bytes (channel_message m) r))) = rd_buffer r @ take n buf"
    and "rd_stream_id (snd (snd (reader_handler decompress_bytes (channel_message m) r))) = rd_stream_id r"
  using write_message_ok(1) [OF assms(1-3), of default_stream_message] assms(4)
  by (auto simp: reader_handler_def channel_message_def Let_def)

lemma reader_stream:
  assumes "compression_ok compress_bytes decompress_bytes" and "wr_stream_id w \<le> 0x3FFF"
    and "rd_stream_id r = wr_stream_id w"
  shows "\<exists>n. rd_buffer (reader_after decompress_bytes (map (Handed cb) (take k (write_messages compress_bytes buf w))) r)
       = rd_buffer r @ take n buf
     \<and> (0 < wr_mdu w \<longrightarrow> length (write_messages compress_bytes buf w) \<le> k \<longrightarrow> take n buf = buf)"
  using assms
proof (induction compress_bytes buf w arbitrary: r k rule: write_messages.induct)
  case (1 compress_bytes buf w)
  obtain m n where w: "write_message compress_bytes buf w = (m, n)" by fastforce
  note ok = write_message_ok [OF w "1.prems"(1,2)] and rd = reader_takes_write [OF w "1.prems"]
  show ?case
  proof (cases "n = 0 \<or> buf = []")
    case True
    then show ?thesis using w ok(4) by (intro exI [of _ 0]) (auto simp: write_messages.simps [of _ buf])
  next
    case False
    note ms = write_messages.simps [of compress_bytes buf w]
    show ?thesis
    proof (cases k)
      case 0
      then show ?thesis using w False by (intro exI [of _ 0]) (simp add: ms)
    next
      case (Suc j)
      let ?r = "snd (snd (reader_handler decompress_bytes (channel_message m) r))"
      obtain n' where ih: "rd_buffer (reader_after decompress_bytes (map (Handed cb) (take j (write_messages compress_bytes (drop n buf) w))) ?r)
          = rd_buffer ?r @ take n' (drop n buf)"
        "0 < wr_mdu w \<longrightarrow> length (write_messages compress_bytes (drop n buf) w) \<le> j \<longrightarrow> take n' (drop n buf) = drop n buf"
        using "1.IH" [OF w [symmetric] False "1.prems"(1,2), of ?r j] rd(3) "1.prems"(3) by auto
      have "take (n + n') buf = take n buf @ take n' (drop n buf)" by (simp add: take_add)
      then show ?thesis
        using ih rd(2) w False Suc by (intro exI [of _ "n + n'"]) (auto simp: ms)
    qed
  qed
qed

text \<open>
  C14. A stream end to end. Data written to a stream in successive writes, compressed or not, framed as
  channel messages and received in any order with losses and duplicates, arrives in the reader's
  buffer as a prefix of what was written, and as all of it once every frame has come; every frame
  fits the outlet.
\<close>

theorem stream_end_to_end:
  fixes decompress_bytes :: "bytes \<Rightarrow> bytes option"
  assumes "compression_ok compress_bytes decompress_bytes" and "stream_id \<le> 0x3FFF" and "14 < ot_mdu outlet"
    and "msgs = write_messages compress_bytes buf (new_writer stream_id outlet)" and "length msgs \<le> 65487"
    and "set idxs \<subseteq> {..<length msgs}" and "\<forall>j<length idxs. idxs ! j \<le> first_missing (length msgs) (take j idxs) + 32768"
    and "r = reader_after decompress_bytes (fst (receive_frames takes (map (\<lambda>i. frame_of (of_nat i) (msgs ! i)) idxs)
           ((new_channel outlet')\<lparr>ch_factories := {STREAM_DATA}, ch_callbacks := [cb]\<rparr>))) (new_reader stream_id)"
  shows "prefix (rd_buffer r) buf \<and> ({..<length msgs} \<subseteq> set idxs \<longrightarrow> rd_buffer r = buf)
     \<and> (\<forall>i<length msgs. length (frame_of (of_nat i) (msgs ! i)) \<le> ot_mdu outlet)"
proof -
  let ?w = "new_writer stream_id outlet" and ?k = "first_missing (length msgs) idxs"
  have w: "wr_stream_id ?w \<le> 0x3FFF" "wr_mdu ?w \<le> 0xFFFF - 8" "0 < wr_mdu ?w" "wr_mdu ?w + 14 \<le> ot_mdu outlet"
    using assms(2,3) by (simp_all add: new_writer_def channel_mdu_def)
  note ms = write_messages_wf [OF assms(1) w(1,2)]
  have wf: "\<forall>m\<in>set msgs. wf_message {STREAM_DATA} m" using ms assms(4) by blast
  have "concat (map (\<lambda>m. hand_over takes m [cb]) xs) = map (Handed cb) xs" for xs by (induction xs) auto
  then have r: "r = reader_after decompress_bytes (map (Handed cb) (take ?k msgs)) (new_reader stream_id)"
    using receive_in_order [OF assms(5) wf assms(6,7)] assms(8) by simp
  obtain n where n: "rd_buffer r = take n buf" "length msgs \<le> ?k \<longrightarrow> take n buf = buf"
    using reader_stream [OF assms(1) w(1), of "new_reader stream_id" cb ?k buf] w(3) r assms(4)
    by (auto simp: new_reader_def new_writer_def)
  have "takeWhile (\<lambda>i. i \<in> set idxs) [0..<length msgs] = [0..<length msgs]" if "{..<length msgs} \<subseteq> set idxs"
    using that by (auto simp: takeWhile_eq_all_conv)
  then have all: "length msgs \<le> ?k" if "{..<length msgs} \<subseteq> set idxs"
    using that by (metis first_missing_def length_upt minus_nat.diff_0 order_refl)
  have "length (frame_of (of_nat i) (msgs ! i)) \<le> ot_mdu outlet" if "i < length msgs" for i
    using ms [of "msgs ! i" buf] that w(4) assms(4) by (auto simp: wf_message_def frame_of_eq)
  then show ?thesis using n all by (auto simp: take_is_prefix)
qed

definition run_length :: "bytes \<Rightarrow> bytes option" where
  "run_length x = (if x \<noteq> [] \<and> (\<forall>b\<in>set x. b = hd x) \<and> length x < 256 then Some [of_nat (length x), hd x] else None)"

definition run_expand :: "bytes \<Rightarrow> bytes option" where
  "run_expand y = Some (replicate (unat (y ! 0)) (y ! 1))"

lemma run_length_ok: "compression_ok run_length run_expand"
  by (auto simp: compression_ok_def run_length_def run_expand_def unat_of_nat split: if_splits intro: replicate_length_same)


definition sample_stream :: "cmessage list" where
  "sample_stream = write_messages run_length (replicate 40 7) (new_writer 5 sample_outlet)"

lemma sample_stream_eq: "sample_stream = [\<lparr> cm_type = STREAM_DATA, cm_data = [0x40, 5, 40, 7] \<rparr>]"
proof -
  have "try_compress run_length (wr_mdu (new_writer 5 sample_outlet)) (replicate 40 7) 40 1 = Some ([40, 7], 40)"
    by (simp add: try_compress.simps run_length_def new_writer_def channel_mdu_def sample_outlet_def)
  then have "write_message run_length (replicate 40 7) (new_writer 5 sample_outlet)
      = (\<lparr> sd_stream_id = 5, sd_data = [40, 7], sd_eof = False, sd_compressed = True \<rparr>, 40)"
    by (simp add: write_message_def new_writer_def)
  moreover have "write_messages run_length [] w = []" for w
    by (simp add: write_messages.simps [of _ "[]"] split: prod.split)
  ultimately show ?thesis
    by (simp add: sample_stream_def write_messages.simps [of _ "replicate 40 7"] channel_message_def stream_pack_def
        stream_header_def u16_to_be_bytes_def)
qed

theorem stream_end_to_end_witness:
  "rd_buffer (reader_after run_expand (fst (receive_frames (\<lambda>_ _. True) (map (\<lambda>i. frame_of (of_nat i) (sample_stream ! i)) [0, 0])
      ((new_channel sample_outlet)\<lparr>ch_factories := {STREAM_DATA}, ch_callbacks := [1]\<rparr>))) (new_reader 5)) = replicate 40 7"
proof -
  have len: "length sample_stream = 1" by (simp add: sample_stream_eq)
  have "[0, 0] ! j \<le> first_missing (length sample_stream) (take j [0, 0]) + 32768" if "j < length [0, 0 :: nat]" for j
    using that by (auto simp: less_Suc_eq)
  then show ?thesis
    using stream_end_to_end [OF run_length_ok _ _ sample_stream_def _ _ _ refl, of "[0, 0]" "\<lambda>_ _. True" 1 sample_outlet]
      len by (simp add: lessThan_Suc sample_outlet_def del: receive_frames.simps list.map)
qed

end
