(* ===== verification/Resource_Transfer.thy ===== *)
theory Resource_Transfer
  imports Resource_Correct
begin

text \<open>
  A whole transfer over a link that loses nothing: rounds of request and answer, the advertisement and what the
  receiver makes of it, the map of the sender's parts, and that the two ends together deliver the data and the
  proof.
\<close>

section \<open>A round of the exchange\<close>

lemma put_hashes_fill:
  "put_hashes new (length pre) (pre @ replicate (length new + e) NO_HASH, c) = (pre @ new @ replicate e NO_HASH, c + length new)"
proof (induction new arbitrary: pre c)
  case (Cons h new)
  have "put_hashes (h # new) (length pre) (pre @ replicate (length (h # new) + e) NO_HASH, c) =
      put_hashes new (length (pre @ [h])) ((pre @ [h]) @ replicate (length new + e) NO_HASH, Suc c)"
    by (simp add: nth_append list_update_append)
  then show ?case using Cons.IH [of "pre @ [h]" "Suc c"] by simp
qed simp

fun receive_updates :: "resource_env \<Rightarrow> real \<Rightarrow> bytes list \<Rightarrow> resource \<Rightarrow> resource" where
  "receive_updates env now [] r = r"
| "receive_updates env now (u # us) r =
     (case hashmap_update_packet env u now r of (_, _, r) \<Rightarrow> receive_updates env now us r)"

text \<open>
  One round on a link that loses nothing: the receiver's request, the sender's answer, and its parts and
  its hash map received in order.
\<close>

definition exchange_round ::
  "resource_env \<Rightarrow> link_context \<Rightarrow> nat \<Rightarrow> real \<Rightarrow> resource \<Rightarrow> resource \<Rightarrow> resource \<times> resource"
where
  "exchange_round env ctx n now s r =
     (case request_next env n now r of
        (SendRequest d # _, r) \<Rightarrow>
          (case serve_request env d now s of
             (es, s) \<Rightarrow> (s, receive_updates env now (update_bodies es) (snd (receive_parts env ctx n now (part_bodies es) r))))
      | (_, r) \<Rightarrow> (s, r))"

fun exchange :: "resource_env \<Rightarrow> link_context \<Rightarrow> nat \<Rightarrow> real list \<Rightarrow> resource \<Rightarrow> resource \<Rightarrow> resource \<times> resource" where
  "exchange env ctx n [] s r = (s, r)"
| "exchange env ctx n (now # ts) s r =
     (if rs_assembly_lock r then (s, r)
      else case exchange_round env ctx n now s r of (s, r) \<Rightarrow> exchange env ctx n ts s r)"

text \<open>A codec of hash-map updates that loses nothing.\<close>

definition hmu_codec :: "resource_env \<Rightarrow> bool" where
  "hmu_codec env \<longleftrightarrow> (\<forall>j b. re_hmu_pack env j b \<noteq> [] \<and> re_hmu_unpack env (re_hmu_pack env j b) = Some (j, b))"

lemma receive_update_prefix:
  assumes "stream_map env random ds hs" and "rx_prefix ds hs k (74 * j) r" and "receiving r" and "rs_waiting_for_hmu r"
    and "74 * j < length hs" and "hmu_codec env" and "length hash = HASH_BYTES"
  shows "\<exists>r'. receive_updates env now [hash @ re_hmu_pack env j (concat (byte_range (74 * j) (min (74 * (j + 1)) (length hs)) hs))] r = r'
     \<and> rx_prefix ds hs k (min (74 * (j + 1)) (length hs)) r' \<and> receiving r' \<and> \<not> rs_waiting_for_hmu r' \<and> fixed r' = fixed r"
proof -
  let ?m = "min (74 * (j + 1)) (length hs)"
  let ?new = "byte_range (74 * j) ?m hs"
  have new: "take ?m hs = take (74 * j) hs @ ?new" "length ?new = ?m - 74 * j"
    using assms(5) take_add [of "74 * j" "?m - 74 * j" hs] by (simp_all add: byte_range_def)
  have ne: "?new \<noteq> []" using new(2) assms(5) by (simp flip: length_greater_0_conv del: length_byte_range)
  have groups: "hash_groups (concat ?new) = ?new"
    using assms(1) by (intro hash_groups_concat) (auto simp: stream_map_def byte_range_def dest!: in_set_takeD in_set_dropD)
  have rep: "length hs - 74 * j = length ?new + (length hs - ?m)" using new(2) assms(5) by simp
  have p: "rs_hashmap r = take (74 * j) hs @ replicate (length hs - 74 * j) NO_HASH" "rs_hashmap_height r = 74 * j"
    using assms(2) by (auto simp: rx_prefix_def)
  have put: "put_hashes ?new (j * 74) (rs_hashmap r, rs_hashmap_height r) = (take ?m hs @ replicate (length hs - ?m) NO_HASH, ?m)"
    using put_hashes_fill [of ?new "take (74 * j) hs" "length hs - ?m" "74 * j"] p rep new assms(5)
    by (simp add: mult.commute)
  show ?thesis
    using assms(2-7) groups put ne
    by (auto simp: hashmap_update_packet_def hashmap_update_def hmu_codec_def receiving_def rx_prefix_def fixed_def Let_def not_less_eq_eq Suc_le_eq)
qed

definition rx_ready :: "bytes list \<Rightarrow> bytes list \<Rightarrow> nat \<Rightarrow> nat \<Rightarrow> resource \<Rightarrow> bool" where
  "rx_ready ds hs k m r \<longleftrightarrow> rx_prefix ds hs k m r \<and> receiving r \<and> \<not> rs_waiting_for_hmu r \<and> k < length ds
     \<and> 0 < m \<and> (m = length hs \<or> (\<exists>j. m = 74 * j))"

definition rx_complete :: "bytes list \<Rightarrow> bytes list \<Rightarrow> resource \<Rightarrow> bool" where
  "rx_complete ds hs r \<longleftrightarrow> rx_prefix ds hs (length ds) (length hs) r \<and> assembling r"

lemma exchange_round_progress:
  assumes m: "stream_map env (rs_random_hash r) ds hs" and s: "sending hash prf ds hs s" and h: "rs_hash r = hash" "length hash = HASH_BYTES"
    and r: "rx_ready ds hs k m r" and ok: "re_send_ok env" "hmu_codec env"
    and round: "exchange_round env ctx n now s r = (s', r')"
  shows "sending hash prf ds hs s' \<and> fixed s' = fixed s \<and> fixed r' = fixed r
    \<and> (rx_complete ds hs r' \<or> (\<exists>k' m'. rx_ready ds hs k' m' r' \<and> k + m < k' + m'))"
proof -
  define q where "q = min (rs_window r) (m - k)"
  define wanted where "wanted \<longleftrightarrow> m - k < rs_window r \<and> m < length hs"
  define r1 where "r1 = record_request_sent n now (r\<lparr>rs_outstanding_parts := q, rs_waiting_for_hmu := wanted\<rparr>)"
  let ?w = "if wanted then Some (hs ! (m - 1)) else None"
  have rp: "rx_prefix ds hs k m r" "receiving r" "\<not> rs_waiting_for_hmu r" "0 < m" "k < length ds" using r by (auto simp: rx_ready_def)
  have len: "length ds = length hs" using m by (simp add: stream_map_def)
  have req: "request_next env n now r = ([SendRequest (request_data hash (take q (drop k hs)) ?w)], r1)"
    using prepare_request_prefix [OF m rp] ok(1) h(1) by (simp add: request_next_def q_def wanted_def r1_def Let_def)
  have r1: "rx_prefix ds hs k m r1" "receiving r1" "rs_waiting_for_hmu r1 = wanted" "fixed r1 = fixed r"
    "rs_random_hash r1 = rs_random_hash r"
    using rp by (auto simp: r1_def record_request_sent_def rx_prefix_def receiving_def fixed_def)
  obtain es where srv: "serve_request env (request_data hash (take q (drop k hs)) ?w) now s = (es, s')"
    and r': "r' = receive_updates env now (update_bodies es) (snd (receive_parts env ctx n now (part_bodies es) r1))"
    using round req by (auto simp: exchange_round_def split: prod.splits)
  have "wanted \<longrightarrow> (\<exists>j. m = 74 * j \<and> 0 < j \<and> 74 * j < length hs)" using r by (auto simp: rx_ready_def wanted_def)
  then obtain j where j: "wanted \<longrightarrow> m = 74 * j \<and> 0 < j \<and> 74 * j < length hs" by blast
  have w: "?w = None \<or> (?w = Some (hs ! (74 * j - 1)) \<and> 0 < j \<and> 74 * j < length hs \<and> re_send_ok env)" using j ok(1) by simp
  note srvd = serve_request_sending [OF s m h(2) w srv]
  obtain es2 r2 where r2: "receive_parts env ctx n now (take q (drop k ds)) r1 = (es2, r2)" by (metis surj_pair)
  have kq: "k + q \<le> m" "m \<le> length hs" using rp(1) by (auto simp: q_def rx_prefix_def)
  have rec: "rx_prefix ds hs (k + q) m r2 \<and> fixed r2 = fixed r1 \<and> rs_waiting_for_hmu r2 = wanted
    \<and> (if k + q = length ds then assembling r2 else receiving r2)"
    using receive_next_parts [OF _ r1(1,2) kq(1) rp(5) r2] m r1(3,5) by auto
  show ?thesis
  proof (cases wanted)
    case True
    then have j': "m = 74 * j" "0 < j" "74 * j < length hs" "q = m - k"
      using j unfolding q_def wanted_def by auto
    have km: "k + q = m" using j'(4) kq(1) rp(1) by (simp add: rx_prefix_def)
    have rv: "receiving r2" "rx_prefix ds hs m (74 * j) r2" using rec len km j'(1,3) by (metis less_irrefl)+
    have r'_eq: "r' = receive_updates env now [hash @ re_hmu_pack env j (concat (byte_range (74 * j) (min (74 * (j + 1)) (length hs)) hs))] r2"
      using r' srvd r2 True by simp
    have "rx_prefix ds hs m (min (74 * (j + 1)) (length hs)) r' \<and> receiving r' \<and> \<not> rs_waiting_for_hmu r' \<and> fixed r' = fixed r"
      using receive_update_prefix [OF m rv(2,1) _ j'(3) ok(2) h(2), of now] rec True r'_eq r1(4) by metis
    moreover have "min (74 * (j + 1)) (length hs) = length hs \<or> (\<exists>i. min (74 * (j + 1)) (length hs) = 74 * i)" by (metis min_def)
    moreover have "k + m < m + min (74 * (j + 1)) (length hs)" "m < length ds" "0 < min (74 * (j + 1)) (length hs)"
      using j'(1-3) kq(1) len by auto
    ultimately have "rx_ready ds hs m (min (74 * (j + 1)) (length hs)) r' \<and> k + m < m + min (74 * (j + 1)) (length hs) \<and> fixed r' = fixed r"
      unfolding rx_ready_def by blast
    then show ?thesis using srvd by blast
  next
    case False
    then have r'_eq: "r' = r2" using r' srvd r2 by simp
    have q: "0 < q" using False rp(1,2,5) len by (auto simp: q_def wanted_def receiving_def rx_prefix_def)
    show ?thesis
    proof (cases "k + q = length ds")
      case True
      then have "rx_complete ds hs r'" using rec r'_eq len kq by (auto simp: rx_complete_def)
      then show ?thesis using srvd rec r1(4) r'_eq by simp
    next
      case not: False
      then have "rx_ready ds hs (k + q) m r' \<and> k + m < k + q + m" using rec r'_eq False r rp kq len q by (auto simp: rx_ready_def)
      moreover have "fixed r' = fixed r" using rec r1(4) r'_eq by simp
      ultimately show ?thesis using srvd by blast
    qed
  qed
qed

lemma exchange_completes:
  assumes "stream_map env (rs_random_hash r) ds hs" and "sending hash prf ds hs s" and "rs_hash r = hash" and "length hash = HASH_BYTES"
    and "rx_ready ds hs k m r" and "re_send_ok env" and "hmu_codec env" and "2 * length ds - (k + m) \<le> length ts"
    and "exchange env ctx n ts s r = (s', r')"
  shows "sending hash prf ds hs s' \<and> fixed s' = fixed s \<and> fixed r' = fixed r \<and> rx_complete ds hs r'"
  using assms
proof (induction ts arbitrary: s r k m)
  case Nil
  then show ?case by (auto simp: rx_ready_def rx_prefix_def stream_map_def)
next
  case (Cons now ts)
  obtain s1 r1 where rd: "exchange_round env ctx n now s r = (s1, r1)" by (metis surj_pair)
  have lock: "\<not> rs_assembly_lock r" using Cons.prems(5) by (simp add: rx_ready_def receiving_def)
  have ex: "exchange env ctx n ts s1 r1 = (s', r')" using Cons.prems(9) lock rd by simp
  note st = exchange_round_progress [OF Cons.prems(1-7) rd]
  have f: "rs_random_hash r1 = rs_random_hash r" "rs_hash r1 = hash" using st Cons.prems(3) by (auto simp: fixed_def)
  show ?case
  proof (cases "rx_complete ds hs r1")
    case True
    then have "(s', r') = (s1, r1)" using ex by (cases ts) (auto simp: rx_complete_def assembling_def)
    then show ?thesis using st True by simp
  next
    case False
    then obtain k' m' where r1: "rx_ready ds hs k' m' r1" "k + m < k' + m'" using st by blast
    then have "2 * length ds - (k' + m') \<le> length ts" using Cons.prems(8) by simp
    then show ?thesis using Cons.IH [OF _ _ f(2) Cons.prems(4) r1(1) Cons.prems(6,7) _ ex] st Cons.prems(1) f(1) by simp
  qed
qed

section \<open>Advertisement and acceptance\<close>

lemma adv_flags:
  "adv_flag 0 (new_from_resource s) = rs_encrypted s" "adv_flag (Suc 0) (new_from_resource s) = rs_compressed s"
  "adv_flag 2 (new_from_resource s) = rs_split s" "adv_flag 5 (new_from_resource s) = rs_has_metadata s"
  by (simp_all add: adv_flag_def new_from_resource_def Let_def flag_bit_def bit_simps)

lemma adv_flag_pack [simp]: "adv_flag k (adv_pack j a) = adv_flag k a"
  by (simp add: adv_flag_def adv_pack_def)

lemma accept_prefix:
  assumes s: "map pp_map_hash (rs_packets s) = hs" "rs_hashmap s = hs" "rs_total_parts s = length hs" and len: "length ds = length hs" "hs \<noteq> []"
    and size: "rs_size s \<le> MAX_EFFICIENT_SIZE * 3" and w: "lc_last_resource_window ctx \<noteq> Some 0"
  shows "\<exists>r. accept ctx (adv_pack 0 (new_from_resource s)) q cb pcb now = Some r \<and> rx_ready ds hs 0 (min 74 (length hs)) r
    \<and> fixed r = ((rs_random_hash s, rs_hash s, cb), (rs_encrypted s, rs_compressed s, rs_has_metadata s),
        (AUTO_COMPRESS_MAX_SIZE, rs_segment_index s, rs_total_segments s, rs_total_segments s > 1, False))"
proof -
  let ?a = "adv_pack 0 (new_from_resource s)"
  have m: "ad_m ?a = take 74 hs" "ad_n ?a = length hs" "ad_t ?a = rs_size s" "ad_h ?a = rs_hash s" "ad_r ?a = rs_random_hash s"
    "ad_i ?a = rs_segment_index s" "ad_l ?a = rs_total_segments s"
    using s by (auto simp: adv_pack_def new_from_resource_def hashmap_segment_def byte_range_def Let_def min_def)
  have "put_hashes (take 74 hs) 0 (replicate (length hs) NO_HASH, 0) =
      (take 74 hs @ replicate (length hs - min 74 (length hs)) NO_HASH, min 74 (length hs))"
    using put_hashes_fill [of "take 74 hs" "[]" "length hs - min 74 (length hs)" 0] by (simp add: min.commute)
  moreover have "take 74 hs = take (min 74 (length hs)) hs" by (simp add: min_def)
  moreover have "0 < (case lc_last_resource_window ctx of Some w \<Rightarrow> w | None \<Rightarrow> 4)" using w by (auto split: option.split)
  ultimately show ?thesis
    using m size len
    by (auto simp: accept_def adv_unpack_def new_incoming_def empty_resource_def adv_flags rx_ready_def rx_prefix_def receiving_def
        fixed_def Let_def min_def)
qed

section \<open>The sender's map\<close>

lemma map_pass_packets:
  "map_pass part hashf guard is = Some ps \<Longrightarrow> ps = map (\<lambda>i. \<lparr> pp_map_hash = hashf (part i), pp_data = part i, pp_sent = False \<rparr>) is"
  by (induction part hashf guard "is" arbitrary: ps rule: map_pass.induct) (auto simp: Let_def split: if_splits)

lemma part_of_drop:
  "part_of sdu stream i = take sdu (drop (i * sdu) stream)"
  by (simp add: part_of_def byte_range_def min_def)

lemma concat_parts_take: "concat (map (part_of sdu stream) [0..<k]) = take (k * sdu) stream"
proof (induction k)
  case (Suc k)
  have "take (Suc k * sdu) stream = take (k * sdu) stream @ take sdu (drop (k * sdu) stream)"
    using take_add [of "k * sdu" sdu stream] by (simp add: add.commute)
  then show ?case using Suc.IH by (simp add: part_of_drop)
qed simp

lemma concat_parts:
  assumes "0 < sdu" shows "concat (map (part_of sdu stream) [0..<(length stream + sdu - 1) div sdu]) = stream"
proof -
  have "length stream + sdu - 1 < ((length stream + sdu - 1) div sdu + 1) * sdu"
    using assms by (metis add.commute dividend_less_div_times mult.commute mult_Suc_right plus_1_eq_Suc)
  then have "length stream \<le> (length stream + sdu - 1) div sdu * sdu" using assms by (simp add: algebra_simps)
  then show ?thesis by (simp add: concat_parts_take)
qed

text \<open>What a map that was built says of its Resource.\<close>

definition mapped :: "resource_env \<Rightarrow> bytes \<Rightarrow> bytes \<Rightarrow> bytes list \<Rightarrow> resource \<Rightarrow> bool" where
  "mapped env d random ds s \<longleftrightarrow> rs_random_hash s = random \<and> rs_hash s = re_full_hash env (d @ random)
     \<and> rs_expected_proof s = re_full_hash env (d @ rs_hash s)
     \<and> rs_packets s = map (\<lambda>b. \<lparr> pp_map_hash = get_map_hash env random b, pp_data = b, pp_sent = False \<rparr>) ds
     \<and> rs_hashmap s = map (get_map_hash env random) ds \<and> length (rs_parts s) = length ds"

definition unmapped :: "resource \<Rightarrow> (resource_status \<times> nat \<times> nat \<times> bytes option \<times> nat) \<times> (bool \<times> bool \<times> bool) \<times> (nat \<times> nat \<times> nat \<times> bool \<times> bool)" where
  "unmapped r = ((rs_status r, rs_size r, rs_sdu r, rs_data r, rs_total_parts r), (rs_encrypted r, rs_compressed r, rs_has_metadata r),
     (rs_max_decompressed_size r, rs_segment_index r, rs_total_segments r, rs_split r, rs_next_segment r))"

lemma unmapped_salt: "unmapped (salt env random d orig r) = unmapped r" "rs_data (salt env random d orig r) = rs_data r"
  "rs_sdu (salt env random d orig r) = rs_sdu r" "rs_total_parts (salt env random d orig r) = rs_total_parts r"
  by (simp_all add: salt_def unmapped_def Let_def)

lemma map_parts_mapped:
  assumes "map_parts env d orig salts r = Some s"
  shows "unmapped s = unmapped r \<and> (\<exists>random\<in>set salts.
    mapped env d random (map (part_of (rs_sdu r) (the (rs_data r))) [0..<rs_total_parts r]) s)"
  using assms
proof (induction salts arbitrary: r)
  case (Cons random salts)
  let ?r = "salt env random d orig r"
  let ?pass = "map_pass (part_of (rs_sdu ?r) (the (rs_data ?r))) (get_map_hash env random) [] [0..<rs_total_parts ?r]"
  show ?case
  proof (cases ?pass)
    case None
    then have "map_parts env d orig salts ?r = Some s" using Cons.prems by (simp add: Let_def)
    then show ?thesis using Cons.IH [of ?r] unmapped_salt by auto
  next
    case (Some ps)
    have s: "s = ?r\<lparr>rs_parts := map (Some \<circ> pp_data) ps, rs_hashmap := map pp_map_hash ps, rs_packets := ps\<rparr>"
      using Some Cons.prems by (simp add: Let_def)
    have "unmapped s = unmapped r" using s unmapped_salt(1) [of env random d orig r] by (simp add: unmapped_def)
    moreover have "mapped env d random (map (part_of (rs_sdu r) (the (rs_data r))) [0..<rs_total_parts r]) s"
      using s map_pass_packets [OF Some] unmapped_salt(2-4)
      by (simp add: mapped_def salt_def Let_def comp_def)
    ultimately show ?thesis by auto
  qed
qed simp

text \<open>What a Resource of one segment becomes when it is made.\<close>

definition framed_metadata :: "bytes option \<Rightarrow> bytes" where
  "framed_metadata packed = (case packed of None \<Rightarrow> [] | Some m \<Rightarrow> u24_to_be_bytes (length m) @ m)"

definition link_codec :: "resource_env \<Rightarrow> bool" where
  "link_codec env \<longleftrightarrow> (\<forall>x c. re_encrypt env x = Some c \<longrightarrow> re_decrypt env c = Some x)
     \<and> (\<forall>x c. re_compress env x = Some c \<longrightarrow> re_decompress env c = Some x) \<and> (\<forall>x. length (re_full_hash env x) = HASH_BYTES)"

definition carries :: "resource_env \<Rightarrow> bytes \<Rightarrow> bytes \<Rightarrow> bool \<Rightarrow> resource \<Rightarrow> bool" where
  "carries env prefix d has_metadata s \<longleftrightarrow> (\<exists>payload stream. re_encrypt env (prefix @ payload) = Some stream \<and> rs_data s = Some stream
     \<and> (if rs_compressed s then re_compress env d = Some payload else payload = d)
     \<and> rs_total_parts s = (length stream + rs_sdu s - 1) div rs_sdu s)
     \<and> rs_encrypted s \<and> rs_status s = RsNone \<and> rs_has_metadata s = has_metadata \<and> rs_segment_index s = 1 \<and> rs_total_segments s = 1 \<and> \<not> rs_split s"

lemma carries_unmapped: "unmapped s = unmapped r \<Longrightarrow> carries env prefix d b s = carries env prefix d b r"
  by (simp add: carries_def unmapped_def)

lemma compress_payload_Inr:
  "compress_payload env d r = Inr (payload, compressed) \<Longrightarrow> if compressed then re_compress env d = Some payload else payload = d"
  by (auto simp: compress_payload_def Let_def split: auto_compress.splits option.splits if_splits)

lemma prepare_data_carries:
  assumes "prepare_data env prefix rd r = Inr (d, r')" and "length (rd_bytes rd) + rs_metadata_size r \<le> MAX_EFFICIENT_SIZE"
    and "rs_status r = RsNone" and "rs_has_metadata r \<or> rs_metadata r = []"
  shows "d = rs_metadata r @ rd_bytes rd \<and> carries env prefix d (rs_has_metadata r) r' \<and> rs_sdu r' = rs_sdu r"
  using assms
  by (auto simp: prepare_data_def select_data_def carries_def Let_def split: sum.splits option.splits prod.splits
      dest!: compress_payload_Inr)

lemma new_outgoing_sending:
  assumes new: "new_outgoing env ctx prefix salts rd packed orig tmo (empty_resource ac 1 req resp 0 cb pcb) = Inr (Some s)"
    and size: "length (rd_bytes rd) + length (framed_metadata packed) \<le> MAX_EFFICIENT_SIZE"
  defines "d \<equiv> framed_metadata packed @ rd_bytes rd"
  shows "carries env prefix d (packed \<noteq> None) s \<and> rs_sdu s = sdu_of_mtu (lc_mtu ctx)
    \<and> (\<exists>random\<in>set salts. mapped env d random (map (part_of (rs_sdu s) (the (rs_data s))) [0..<rs_total_parts s]) s)
    \<and> rs_hashmap_height s = (rs_total_parts s + HASHMAP_MAX_LEN - 1) div HASHMAP_MAX_LEN"
proof -
  let ?r0 = "(empty_resource ac 1 req resp 0 cb pcb)\<lparr>rs_sdu := sdu_of_mtu (lc_mtu ctx)\<rparr>"
  obtain r1 where r1: "prepare_metadata packed 0 ?r0 = Inr r1"
    using new by (auto simp: new_outgoing_def empty_resource_def Let_def split: sum.splits)
  have r1s: "rs_metadata r1 = framed_metadata packed" "rs_metadata_size r1 = length (framed_metadata packed)" "rs_status r1 = RsNone"
    "rs_has_metadata r1 = (packed \<noteq> None)" "rs_sdu r1 = sdu_of_mtu (lc_mtu ctx)"
    using r1 by (auto simp: prepare_metadata_def framed_metadata_def empty_resource_def Let_def split: option.splits if_splits)
  obtain d' r2 where r2: "prepare_data env prefix rd r1 = Inr (d', r2)"
    using new r1 by (auto simp: new_outgoing_def empty_resource_def Let_def split: sum.splits)
  have r2s: "d' = d" "carries env prefix d (packed \<noteq> None) r2" "rs_sdu r2 = sdu_of_mtu (lc_mtu ctx)"
    using prepare_data_carries [OF r2] r1s size by (auto simp: d_def framed_metadata_def)
  let ?r3 = "r2\<lparr>rs_timeout_factor := lc_traffic_timeout_factor ctx, rs_timeout := (case tmo of Some t \<Rightarrow> t
    | None \<Rightarrow> (case lc_rtt ctx of None \<Rightarrow> 0 | Some rtt \<Rightarrow> rtt) * lc_traffic_timeout_factor ctx)\<rparr>"
  have "rs_metadata_size ?r0 = 0" by (simp add: empty_resource_def)
  then obtain s' where s': "map_parts env d orig salts ?r3 = Some s'"
    "s = s'\<lparr>rs_hashmap_height := (rs_total_parts s' + HASHMAP_MAX_LEN - 1) div HASHMAP_MAX_LEN\<rparr>"
    using new r1 r2 r2s(1) by (auto simp: new_outgoing_def Let_def)
  have u: "unmapped s = unmapped r2" using map_parts_mapped [OF s'(1)] s'(2) by (simp add: unmapped_def)
  then have eqs: "rs_sdu s = rs_sdu r2" "rs_data s = rs_data r2" "rs_total_parts s = rs_total_parts r2"
    by (auto simp: unmapped_def)
  have "\<exists>random\<in>set salts. mapped env d random (map (part_of (rs_sdu s) (the (rs_data s))) [0..<rs_total_parts s]) s"
    using map_parts_mapped [OF s'(1)] s'(2) eqs by (auto simp: mapped_def)
  then show ?thesis using carries_unmapped [OF u] r2s eqs s'(2) by simp
qed

section \<open>The transfer\<close>

lemma u24_roundtrip:
  assumes "length m \<le> METADATA_MAX_SIZE"
  shows "split_metadata (framed_metadata (Some m) @ bs) = Some (m, bs)"
proof -
  let ?n = "length m"
  have hi: "?n div 65536 mod 256 = ?n div 65536" using assms by simp
  have "?n div 65536 = ?n div 256 div 256" using div_mult2_eq [of ?n 256 256] by simp
  then have "?n div 65536 * 65536 + ?n div 256 mod 256 * 256 + ?n mod 256 = ?n"
    using div_mult_mod_eq [of ?n 256] div_mult_mod_eq [of "?n div 256" 256] by linarith
  then have "unat (of_nat (?n div 65536) :: u8) * 65536 + unat (of_nat (?n div 256) :: u8) * 256 + unat (of_nat ?n :: u8) = ?n"
    using hi by (simp add: unat_of_nat)
  then show ?thesis
    by (simp add: split_metadata_def framed_metadata_def u24_to_be_bytes_def byte_range_def Let_def numeral_3_eq_3)
qed

definition metadata_effects :: "bytes option \<Rightarrow> resource_effect list" where
  "metadata_effects packed = (case packed of None \<Rightarrow> [] | Some m \<Rightarrow> [StoreMetadata m])"

lemma assemble_complete:
  assumes r: "rx_complete ds hs r" and f: "fixed r = ((random, hash, cb), (True, rs_compressed s, packed \<noteq> None), (AUTO_COMPRESS_MAX_SIZE, 1, 1, False, nxt))"
    and d: "d = framed_metadata packed @ bs" "length d \<le> AUTO_COMPRESS_MAX_SIZE" and hash: "hash = re_full_hash env (d @ random)"
    and c: "carries env prefix d (packed \<noteq> None) s" "the (rs_data s) = concat ds" "length prefix = RANDOM_HASH_SIZE"
    and env: "link_codec env" "re_send_ok env" and packed: "\<forall>m. packed = Some m \<longrightarrow> length m \<le> METADATA_MAX_SIZE"
  shows "\<exists>r'. assemble env r stored = Assembled (metadata_effects packed @ [SendProof (hash @ re_full_hash env (d @ hash)), ConcludeOnLink]
      @ (if cb then [RunCallback] else [])) r' [] \<and> rs_status r' = RsComplete \<and> rs_data r' = Some d"
proof -
  have fx: "rs_random_hash r = random" "rs_hash r = hash" "rs_has_callback r = cb" "rs_encrypted r" "rs_compressed r = rs_compressed s"
    "rs_has_metadata r = (packed \<noteq> None)" "rs_max_decompressed_size r = AUTO_COMPRESS_MAX_SIZE" "rs_segment_index r = 1"
    "rs_total_segments r = 1" "\<not> rs_split r"
    using f by (auto simp: fixed_def)
  have parts: "rs_parts r = map Some ds" "rs_status r = RsAssembling"
    using r by (auto simp: rx_complete_def rx_prefix_def assembling_def)
  obtain payload where p: "re_decrypt env (concat ds) = Some (prefix @ payload)" "if rs_compressed s then re_compress env d = Some payload else payload = d"
    using c env(1) by (auto simp: carries_def link_codec_def)
  have st: "assembled_stream env (r\<lparr>rs_status := RsAssembling\<rparr>) = payload"
    using parts p(1) fx(4) c(3) by (simp add: assembled_stream_def comp_def Let_def)
  have dec: "(if rs_compressed r then bounded_decompress env payload (rs_max_decompressed_size r) else Some payload) = Some d"
    using p(2) fx(5,7) env(1) d(2) by (auto simp: bounded_decompress_def link_codec_def)
  have meta: "(if rs_has_metadata r \<and> rs_segment_index r = 1 then map_option (\<lambda>(m, p). ([StoreMetadata m], p)) (split_metadata d) else Some ([], d))
      = Some (metadata_effects packed, bs)" (is "?meta = _")
    using fx(6,8) d(1) packed u24_roundtrip by (cases packed) (auto simp: metadata_effects_def framed_metadata_def)
  let ?ra = "r\<lparr>rs_status := RsAssembling\<rparr>" and ?rc = "r\<lparr>rs_data := Some d, rs_status := RsComplete\<rparr>"
  have prove: "resource_prove env ?rc = ([SendProof (hash @ re_full_hash env (d @ hash))], ?rc)"
    using env(2) fx(2) by (simp add: resource_prove_def)
  have "assemble env r stored = (case ?meta of None \<Rightarrow> AssemblyPanicked | Some (es, payload) \<Rightarrow>
      (case resource_prove env ?rc of (es', r) \<Rightarrow> conclude_assembly (es @ es') r (stored @ payload)))"
    using parts(2) st dec fx(1,2) fx(10) hash prove
    by (simp add: assemble_def Let_def split_def cong: if_cong option.case_cong split del: if_split)
  also have "\<dots> = conclude_assembly (metadata_effects packed @ [SendProof (hash @ re_full_hash env (d @ hash))]) ?rc (stored @ bs)"
    by (simp only: meta prove option.case prod.case)
  finally show ?thesis using fx(3,8,9) by (simp add: conclude_assembly_def)
qed

text \<open>
  C6. A transfer completes: a Resource made from data and metadata that fit one segment is advertised,
  accepted, asked for and served in rounds over a link that loses nothing, and after at most twice as many
  rounds as it has parts the receiver assembles exactly the data that was sent, stores its metadata, and
  sends a proof on which the sender's Resource is complete. This holds for any window the link
  remembers, any encryption, compression and hash that are what they say, and part hashes that are distinct and not
  zero.
\<close>

theorem resource_transfer_completes:
  assumes new: "new_outgoing env ctx prefix salts rd packed None tmo (empty_resource ac 1 req resp 0 cb pcb) = Inr (Some s)"
    and size: "length (rd_bytes rd) + length (framed_metadata packed) \<le> MAX_EFFICIENT_SIZE" "rs_size s \<le> MAX_EFFICIENT_SIZE * 3"
    and map: "distinct (rs_hashmap s)" "NO_HASH \<notin> set (rs_hashmap s)" "0 < rs_total_parts s"
    and env: "link_codec env" "hmu_codec env" "re_send_ok env" "length prefix = RANDOM_HASH_SIZE" "36 < lc_mtu ctx"
    and w: "lc_last_resource_window ctx' \<noteq> Some 0" and rounds: "2 * rs_total_parts s \<le> length ts"
  defines "d \<equiv> framed_metadata packed @ rd_bytes rd"
  shows "\<exists>r0 s' r1 r2. accept ctx' (adv_pack 0 (new_from_resource s)) req cb' pcb' now = Some r0
    \<and> exchange env ctx' n ts s r0 = (s', r1)
    \<and> assemble env r1 [] = Assembled (metadata_effects packed @ [SendProof (rs_hash s @ re_full_hash env (d @ rs_hash s)), ConcludeOnLink]
        @ (if cb' then [RunCallback] else [])) r2 []
    \<and> rs_status r2 = RsComplete \<and> rs_data r2 = Some d
    \<and> rs_status (snd (resource_validate_proof made (rs_hash s @ re_full_hash env (d @ rs_hash s)) s')) = RsComplete"
proof -
  note out = new_outgoing_sending [OF new size(1), folded d_def]
  obtain random where mp: "mapped env d random (map (part_of (rs_sdu s) (the (rs_data s))) [0..<rs_total_parts s]) s" (is "mapped _ _ _ ?ds _")
    using out by blast
  let ?hs = "rs_hashmap s"
  have c: "carries env prefix d (packed \<noteq> None) s" using out by simp
  have len: "length ?ds = length ?hs" "rs_total_parts s = length ?hs" "?hs \<noteq> []" using mp map(3) by (auto simp: mapped_def)
  have hl: "length (rs_hash s) = HASH_BYTES" using mp env(1) by (simp add: mapped_def link_codec_def)
  have sm: "stream_map env random ?ds ?hs"
    using map mp env(1) by (auto simp: stream_map_def mapped_def get_map_hash_def link_codec_def)
  have s: "sending (rs_hash s) (re_full_hash env (d @ rs_hash s)) ?ds ?hs s"
    using mp c out len by (simp add: sending_def mapped_def carries_def comp_def)
  have "map pp_map_hash (rs_packets s) = ?hs" using mp by (simp add: mapped_def comp_def)
  from accept_prefix [OF this refl len(2,1,3) size(2) w, of req cb' pcb' now]
  obtain r0 where r0: "accept ctx' (adv_pack 0 (new_from_resource s)) req cb' pcb' now = Some r0"
    "rx_ready ?ds ?hs 0 (min 74 (length ?hs)) r0"
    "fixed r0 = ((rs_random_hash s, rs_hash s, cb'), (rs_encrypted s, rs_compressed s, rs_has_metadata s),
        (AUTO_COMPRESS_MAX_SIZE, rs_segment_index s, rs_total_segments s, rs_total_segments s > 1, False))" by blast
  have r0': "rs_random_hash r0 = random" "rs_hash r0 = rs_hash s" using r0(3) mp by (auto simp: fixed_def mapped_def)
  obtain s' r1 where ex: "exchange env ctx' n ts s r0 = (s', r1)" by (metis surj_pair)
  have fin: "sending (rs_hash s) (re_full_hash env (d @ rs_hash s)) ?ds ?hs s' \<and> fixed s' = fixed s \<and> fixed r1 = fixed r0 \<and> rx_complete ?ds ?hs r1"
    using exchange_completes [OF _ s r0'(2) hl r0(2) env(3,2) _ ex] sm r0'(1) rounds len by simp
  have data: "the (rs_data s) = concat ?ds"
    using c concat_parts [of "rs_sdu s"] out env(5) by (auto simp: carries_def sdu_of_mtu_def)
  have f1: "fixed r1 = ((random, rs_hash s, cb'), (True, rs_compressed s, packed \<noteq> None), (AUTO_COMPRESS_MAX_SIZE, 1, 1, False, False))"
    using fin r0(3) c mp by (simp add: carries_def mapped_def)
  have meta: "\<forall>m. packed = Some m \<longrightarrow> length m \<le> METADATA_MAX_SIZE" using size(1) by (auto simp: framed_metadata_def)
  have dl: "length d \<le> AUTO_COMPRESS_MAX_SIZE" using size(1) by (simp add: d_def)
  have hash: "rs_hash s = re_full_hash env (d @ random)" using mp by (simp add: mapped_def)
  obtain r2 where "assemble env r1 [] = Assembled (metadata_effects packed @ [SendProof (rs_hash s @ re_full_hash env (d @ rs_hash s)), ConcludeOnLink]
        @ (if cb' then [RunCallback] else [])) r2 []" "rs_status r2 = RsComplete" "rs_data r2 = Some d"
    using assemble_complete [OF _ f1 d_def [THEN meta_eq_to_obj_eq] dl hash c data env(4,1,3) meta, of ?hs "[]"] fin by blast
  moreover have "rs_status (snd (resource_validate_proof made (rs_hash s @ re_full_hash env (d @ rs_hash s)) s')) = RsComplete"
  proof -
    have "rs_segment_index s' = 1" "rs_total_segments s' = 1" "rs_status s' \<noteq> RsFailed" "rs_expected_proof s' = re_full_hash env (d @ rs_hash s)"
      using fin c by (auto simp: fixed_def carries_def sending_def)
    then show ?thesis using hl env(1) by (simp add: resource_validate_proof_def link_codec_def Let_def)
  qed
  ultimately show ?thesis using r0(1) ex by blast
qed

text \<open>A link and codecs to run a transfer with: three parts, with metadata.\<close>

definition demo_resource_env :: resource_env where
  "demo_resource_env = \<lparr> re_full_hash = (\<lambda>x. take 32 (x @ replicate 32 1)), re_encrypt = Some, re_decrypt = Some, re_compress = Some,
     re_decompress = Some, re_hmu_pack = (\<lambda>j b. replicate j 1 @ 0 # b),
     re_hmu_unpack = (\<lambda>x. Some (length (takeWhile (\<lambda>b. b = 1) x), drop (Suc (length (takeWhile (\<lambda>b. b = 1) x))) x)),
     re_link_active = True, re_send_ok = True, re_carried = True \<rparr>"

definition demo_link_context :: link_context where
  "demo_link_context = \<lparr> lc_mtu = 46, lc_rtt = None, lc_traffic_timeout_factor = 6, lc_establishment_cost = 0,
     lc_last_resource_window = None, lc_last_resource_eifr = None \<rparr>"

lemma demo_codecs: "link_codec demo_resource_env" "hmu_codec demo_resource_env" "re_send_ok demo_resource_env"
  by (auto simp: link_codec_def hmu_codec_def demo_resource_env_def takeWhile_tail)

definition demo_data :: bytes where
  "demo_data = [11, 12, 13, 14, 15, 16, 17, 18, 19, 20, 21, 22, 23, 24, 25, 26, 27]"

definition demo_sender :: resource where
  "demo_sender = (case new_outgoing demo_resource_env demo_link_context [9, 8, 7, 6] [[1, 2, 3, 4]] (RdBytes demo_data) (Some [5])
     None None (empty_resource CompressEnabled 1 None False 0 True False) of
       Inr (Some s) \<Rightarrow> s | _ \<Rightarrow> empty_resource CompressEnabled 1 None False 0 True False)"

lemma demo_sender_made:
  "new_outgoing demo_resource_env demo_link_context [9, 8, 7, 6] [[1, 2, 3, 4]] (RdBytes demo_data) (Some [5])
     None None (empty_resource CompressEnabled 1 None False 0 True False) = Inr (Some demo_sender)"
  "rs_hashmap demo_sender = [[9, 8, 7, 6], [13, 14, 15, 16], [23, 24, 25, 26]]" "rs_total_parts demo_sender = 3" "rs_size demo_sender = 25"
  by (simp_all add: demo_sender_def new_outgoing_def demo_resource_env_def demo_link_context_def demo_data_def empty_resource_def prepare_metadata_def
      u24_to_be_bytes_def prepare_data_def select_data_def compress_payload_def salt_def get_map_hash_def part_of_def byte_range_def sdu_of_mtu_def
      upt_conv_Cons Let_def)

theorem resource_transfer_completes_witness:
  "\<exists>r0 s' r1 r2. accept demo_link_context (adv_pack 0 (new_from_resource demo_sender)) None True False 0 = Some r0
    \<and> exchange demo_resource_env demo_link_context 500 (replicate 6 0) demo_sender r0 = (s', r1)
    \<and> rs_status r2 = RsComplete \<and> rs_data r2 = Some ([0, 0, 1, 5] @ demo_data)
    \<and> (\<exists>es. assemble demo_resource_env r1 [] = Assembled (StoreMetadata [5] # es) r2 [])"
proof -
  have "length (rd_bytes (RdBytes demo_data)) + length (framed_metadata (Some [5])) \<le> MAX_EFFICIENT_SIZE"
    "framed_metadata (Some [5]) = [0, 0, 1, 5]" "metadata_effects (Some [5]) = [StoreMetadata [5]]"
    by (simp_all add: demo_data_def framed_metadata_def u24_to_be_bytes_def metadata_effects_def)
  moreover have "lc_last_resource_window demo_link_context \<noteq> Some 0" "36 < lc_mtu demo_link_context" by (simp_all add: demo_link_context_def)
  ultimately show ?thesis
    using resource_transfer_completes [OF demo_sender_made(1), where ctx' = demo_link_context and ts = "replicate 6 0" and cb' = True
        and pcb' = False and now = 0 and n = 500 and made = False] demo_sender_made(2-4) demo_codecs
    by fastforce
qed

end
