(* ===== verification/Resource_Safety.thy ===== *)
theory Resource_Safety
  imports Resource_Transfer
begin

text \<open>
  What holds of a transfer whatever the link does: the receiver's invariant over every history, the search for a
  salt, the segments of a large Resource, and the watchdog that ends a transfer nothing comes in for.
\<close>

section \<open>Every history of a receiver\<close>

text \<open>What can happen to a receiver, whoever sends to it.\<close>

datatype rx_event =
    RxPart bytes nat real
  | RxHashmap bytes real
  | RxRequestNext nat real
  | RxWatchdog nat real
  | RxCancel

fun rx_step :: "resource_env \<Rightarrow> link_context \<Rightarrow> rx_event \<Rightarrow> resource \<Rightarrow> resource_effect list \<times> resource" where
  "rx_step env ctx (RxPart part n now) r = snd (receive_part env ctx part n now r)"
| "rx_step env ctx (RxHashmap d now) r = snd (hashmap_update_packet env d now r)"
| "rx_step env ctx (RxRequestNext n now) r = request_next env n now r"
| "rx_step env ctx (RxWatchdog n now) r = snd (watchdog_turn env ctx n now r)"
| "rx_step env ctx RxCancel r = cancel env r"

fun rx_run :: "(resource_env \<times> link_context \<times> rx_event) list \<Rightarrow> resource \<Rightarrow> resource_effect list \<times> resource" where
  "rx_run [] r = ([], r)"
| "rx_run ((env, ctx, ev) # evs) r =
     (case rx_step env ctx ev r of (es, r) \<Rightarrow> (case rx_run evs r of (es', r) \<Rightarrow> (es @ es', r)))"

definition came :: "resource \<Rightarrow> nat" where
  "came r = length (filter (\<lambda>p. p \<noteq> None) (rs_parts r))"

definition rx_inv :: "resource \<Rightarrow> bool" where
  "rx_inv r \<longleftrightarrow> length (rs_parts r) = rs_total_parts r \<and> length (rs_hashmap r) = rs_total_parts r
     \<and> rs_received_count r = came r
     \<and> rs_consecutive_completed_height r = int (length (takeWhile (\<lambda>p. p \<noteq> None) (rs_parts r))) - 1
     \<and> \<not> rs_initiator r"

text \<open>The part of the state the invariant reads.\<close>

definition rx_view :: "resource \<Rightarrow> (bytes option list \<times> nat \<times> nat \<times> nat) \<times> (int \<times> bool \<times> bool)" where
  "rx_view r = ((rs_parts r, rs_total_parts r, rs_received_count r, length (rs_hashmap r)),
     (rs_consecutive_completed_height r, rs_initiator r, rs_assembly_lock r))"

lemma rx_inv_view: "rx_view r' = rx_view r \<Longrightarrow> rx_inv r' = rx_inv r"
  by (auto simp: rx_inv_def rx_view_def came_def)

lemma filter_update_Some:
  "i < length ps \<Longrightarrow> ps ! i = None \<Longrightarrow> length (filter (\<lambda>p. p \<noteq> None) (ps[i := Some x])) = Suc (length (filter (\<lambda>p. p \<noteq> None) ps))"
  by (induction ps arbitrary: i) (auto simp: nth_Cons split: nat.splits)

lemma length_takeWhile_drop:
  "n \<le> length (takeWhile P xs) \<Longrightarrow> length (takeWhile P xs) = n + length (takeWhile P (drop n xs))"
proof (induction n arbitrary: xs)
  case (Suc n)
  then show ?case by (cases xs) (auto split: if_splits)
qed simp

lemma takeWhile_update_Some:
  assumes "i < length ps" and "ps ! i = None"
  defines "h \<equiv> length (takeWhile (\<lambda>p. p \<noteq> None) ps)"
  shows "length (takeWhile (\<lambda>p. p \<noteq> None) (ps[i := Some x])) =
    (if i = h then Suc h else h) + length (takeWhile (\<lambda>p. p \<noteq> None) (drop (if i = h then Suc h else h) (ps[i := Some x])))"
proof -
  have hl: "h \<le> length ps" unfolding h_def by (rule length_takeWhile_le)
  have came: "ps ! j \<noteq> None" if "j < h" for j
    using that set_takeWhileD [OF nth_mem, of j "\<lambda>p. p \<noteq> None" ps] takeWhile_nth [of j "\<lambda>p. p \<noteq> None" ps] by (simp add: h_def)
  then have hi: "h \<le> i" using assms(2) by (meson not_le)
  have "\<forall>j<h. (ps[i := Some x]) ! j \<noteq> None" using came hl assms(1) by (simp add: nth_list_update)
  then have "(if i = h then Suc h else h) \<le> length (takeWhile (\<lambda>p. p \<noteq> None) (ps[i := Some x]))"
    using assms(1) hl by (intro length_takeWhile_less_P_nth) (auto simp: less_Suc_eq nth_list_update split: if_splits)
  then show ?thesis by (rule length_takeWhile_drop)
qed

lemma store_part_inv:
  assumes "rx_inv r" and "i < length (rs_parts r)" and "rs_parts r ! i = None"
  shows "rx_inv (store_part i part r)" and "length (rs_hashmap (store_part i part r)) = length (rs_hashmap r)"
    and "rs_total_parts (store_part i part r) = rs_total_parts r" and "rs_assembly_lock (store_part i part r) = rs_assembly_lock r"
  using assms takeWhile_update_Some [OF assms(2,3), of part] filter_update_Some [OF assms(2,3), of part]
  by (auto simp: store_part_def rx_inv_def came_def Let_def nat_add_distrib)


text \<open>Parts that have come stay, and the lock stays.\<close>

definition rx_grows :: "resource \<Rightarrow> resource \<Rightarrow> bool" where
  "rx_grows r r' \<longleftrightarrow> length (rs_parts r') = length (rs_parts r) \<and> (\<forall>i<length (rs_parts r). rs_parts r ! i \<noteq> None \<longrightarrow> rs_parts r' ! i = rs_parts r ! i)
     \<and> (rs_assembly_lock r \<longrightarrow> rs_assembly_lock r')"

lemma rx_grows_view: "rx_view r' = rx_view r \<Longrightarrow> rx_grows r r'"
  by (auto simp: rx_grows_def rx_view_def)

lemma rx_grows_refl [simp]: "rx_grows r r"
  by (simp add: rx_grows_def)

lemma rx_grows_trans: "rx_grows r r' \<Longrightarrow> rx_grows r' r'' \<Longrightarrow> rx_grows r r''"
  by (auto simp: rx_grows_def)

lemma store_part_grows: "i < length (rs_parts r) \<Longrightarrow> rs_parts r ! i = None \<Longrightarrow> rx_grows r (store_part i part r)"
  by (auto simp: rx_grows_def store_part_def Let_def nth_list_update)

lemma match_part_inv:
  assumes "rx_inv r" and "i + length hs \<le> length (rs_parts r)" and "match_part part h hs i r = (es, r')"
  shows "rx_inv r' \<and> rx_grows r r' \<and> rs_assembly_lock r' = rs_assembly_lock r \<and> StartAssembly \<notin> set es"
  using assms
proof (induction part h hs i r arbitrary: es r' rule: match_part.induct)
  case (2 part h map_hash hs i r)
  show ?case
  proof (cases "map_hash = h \<and> rs_parts r ! i = None")
    case True
    have i: "i < length (rs_parts r)" using "2.prems"(2) by simp
    obtain es1 where m: "match_part part h hs (i + 1) (store_part i part r) = (es1, r')"
      "es = (if rs_has_progress_callback r' then [RunProgressCallback] else []) @ es1"
      using "2.prems"(3) True by (auto split: prod.splits)
    note st = store_part_inv [OF "2.prems"(1) i, of part] store_part_grows [OF i, of part]
    have "rx_inv r' \<and> rx_grows (store_part i part r) r' \<and> rs_assembly_lock r' = rs_assembly_lock (store_part i part r) \<and> StartAssembly \<notin> set es1"
      using "2.IH"(1) [OF True _ _ m(1)] st True "2.prems"(2) by (simp add: rx_grows_def)
    then show ?thesis using st True m(2) rx_grows_trans by auto
  next
    case False
    then have "match_part part h hs (i + 1) r = (es, r')" using "2.prems"(3) by (simp only: match_part.simps if_False)
    then show ?thesis using "2.IH"(2) [OF False "2.prems"(1)] "2.prems"(2) by simp
  qed
qed auto

lemma note_response_view: "note_response ctx n now r = (b, r') \<Longrightarrow> rx_view r' = rx_view r"
  by (auto simp: note_response_def rx_view_def Let_def split: if_splits)

lemma widen_window_view: "rx_view (widen_window r) = rx_view r"
  by (auto simp: widen_window_def rx_view_def Let_def)

lemma narrow_window_view: "rx_view (narrow_window r) = rx_view r"
  by (auto simp: narrow_window_def rx_view_def Let_def)

lemma note_rate_view: "note_rate now r = (b, r') \<Longrightarrow> rx_view r' = rx_view r"
  by (auto simp: note_rate_def rx_view_def Let_def split: if_splits)

lemma update_eifr_view: "update_eifr ctx r = (es, r') \<Longrightarrow> rx_view r' = rx_view r \<and> StartAssembly \<notin> set es"
  by (auto simp: update_eifr_def rx_view_def Let_def)

lemma cancel_view: "cancel env r = (es, r') \<Longrightarrow> rx_view r' = rx_view r \<and> StartAssembly \<notin> set es"
  by (auto simp: cancel_def rx_view_def Let_def split: if_splits)

lemma prepare_request_view:
  assumes "prepare_request_next_data r = (d, r')" shows "rx_view r' = rx_view r"
proof (cases "rs_status r = RsFailed \<or> rs_waiting_for_hmu r")
  case False
  obtain n hs ex where s: "search_missing (rs_parts r) (rs_hashmap r) (rs_window r) (rs_window r) (next_part r) 0 [] = (n, hs, ex)"
    by (metis prod_cases3)
  show ?thesis using assms False by (auto simp: prepare_request_next_data_def s rx_view_def Let_def split: if_splits)
qed (use assms in \<open>simp add: prepare_request_next_data_def\<close>)

lemmas view_helpers = note_response_view widen_window_view narrow_window_view note_rate_view update_eifr_view cancel_view prepare_request_view

lemma length_put_hashes_fst: "length (fst (put_hashes hs i s)) = length (fst s)"
  by (induction hs i s rule: put_hashes.induct) simp_all

lemma length_put_hashes: "put_hashes hs i s = (hm, n) \<Longrightarrow> length hm = length (fst s)"
  using length_put_hashes_fst [of hs i s] by simp

lemma send_pending_view:
  "send_pending env n now e r = (es, r') \<Longrightarrow> e \<noteq> StartAssembly \<Longrightarrow> rx_view r' = rx_view r \<and> StartAssembly \<notin> set es"
  by (auto simp: send_pending_def record_request_sent_def rx_view_def split: if_splits prod.splits dest!: cancel_view)

lemma request_next_view: "request_next env n now r = (es, r') \<Longrightarrow> rx_view r' = rx_view r \<and> StartAssembly \<notin> set es"
  by (auto simp: request_next_def record_request_sent_def split: if_splits prod.splits option.splits
      dest!: cancel_view prepare_request_view) (auto simp: rx_view_def)

lemma hashmap_update_view: "snd (hashmap_update_packet env d now r) = (es, r') \<Longrightarrow> rx_view r' = rx_view r \<and> StartAssembly \<notin> set es"
  by (auto simp: hashmap_update_packet_def hashmap_update_def Let_def split: if_splits prod.splits option.splits
      dest!: cancel_view length_put_hashes) (auto simp: rx_view_def)

definition starts :: "resource_effect list \<Rightarrow> nat" where
  "starts es = length (filter (\<lambda>e. e = StartAssembly) es)"

lemma starts_simps [simp]: "starts [] = 0" "starts (es @ es') = starts es + starts es'" "starts [StartAssembly] = 1"
  "StartAssembly \<notin> set es \<Longrightarrow> starts es = 0"
  by (auto simp: starts_def filter_empty_conv)

text \<open>What a step may do: it keeps the invariant, and it starts assembly only when every part is there, taking the lock.\<close>

definition rx_safe_step :: "resource \<Rightarrow> resource_effect list \<Rightarrow> resource \<Rightarrow> bool" where
  "rx_safe_step r es r' \<longleftrightarrow> rx_inv r' \<and> rx_grows r r'
     \<and> (starts es = 0 \<or> (starts es = 1 \<and> \<not> rs_assembly_lock r \<and> rs_assembly_lock r' \<and> rs_received_count r' = rs_total_parts r'))"

lemma rx_safe_step_view:
  "rx_inv r \<Longrightarrow> rx_view r' = rx_view r \<and> StartAssembly \<notin> set es \<Longrightarrow> rx_safe_step r es r'"
  using rx_inv_view [of r' r] rx_grows_view [of r' r] by (simp add: rx_safe_step_def)

lemma receive_part_safe:
  assumes inv: "rx_inv r" and rcv: "snd (receive_part env ctx part n now r) = (es, r')"
  shows "rx_safe_step r es r'"
proof -
  obtain w r1 where r1: "note_response ctx n now (r\<lparr>rs_last_activity := now, rs_retries_left := rs_max_retries r\<rparr>) = (w, r1)" by (metis surj_pair)
  have v1: "rx_view r1 = rx_view r" using note_response_view [OF r1] by (simp add: rx_view_def)
  let ?r2 = "r1\<lparr>rs_status := RsTransferring\<rparr>"
  have v2: "rx_view ?r2 = rx_view r" using v1 by (simp add: rx_view_def)
  then have i2: "rx_inv ?r2" "rx_grows r ?r2" "rs_assembly_lock ?r2 = rs_assembly_lock r"
    using inv rx_inv_view [OF v2] rx_grows_view [OF v2] by (simp_all add: rx_view_def)
  let ?hs = "hashmap_chunks (next_part ?r2) (rs_window ?r2) (rs_hashmap ?r2)"
  obtain es1 r3 where m: "match_part part (get_map_hash env (rs_random_hash ?r2) part) ?hs (next_part ?r2) ?r2 = (es1, r3)" by (metis surj_pair)
  have np: "next_part ?r2 \<le> length (rs_parts ?r2)" "length (rs_hashmap ?r2) = length (rs_parts ?r2)"
    using i2(1) length_takeWhile_le [of "\<lambda>p. p \<noteq> None" "rs_parts ?r2"] unfolding rx_inv_def next_part_def by simp_all
  then have "next_part ?r2 + length ?hs \<le> length (rs_parts ?r2)"
    unfolding hashmap_chunks_def by simp
  note r3 = match_part_inv [OF i2(1) this m]
  show ?thesis
  proof (cases "rs_status r1 = RsFailed")
    case True
    then have "es = []" "r' = r1" using rcv r1 by (auto simp: receive_part_def Let_def)
    then show ?thesis using rx_safe_step_view [OF inv, of r1 "[]"] v1 by simp
  next
    case False
    consider (assemble) "rs_received_count r3 = rs_total_parts r3 \<and> \<not> rs_assembly_lock r3"
        "es = es1 @ [StartAssembly]" "r' = r3\<lparr>rs_assembly_lock := True, rs_status := RsAssembling\<rparr>"
      | (rest) es2 where "rx_view r' = rx_view r3" "es = es1 @ es2" "StartAssembly \<notin> set es2"
    proof (cases "rs_received_count r3 = rs_total_parts r3 \<and> \<not> rs_assembly_lock r3")
      case True
      then show ?thesis using that(1) rcv r1 m False by (simp add: receive_part_def Let_def)
    next
      case not: False
      obtain rated r4 where r4: "note_rate now (widen_window r3) = (rated, r4)" by (metis surj_pair)
      obtain es2 r5 where r5: "(if rated then update_eifr ctx r4 else ([], r4)) = (es2, r5)" by (metis surj_pair)
      have v5: "rx_view r5 = rx_view r3 \<and> StartAssembly \<notin> set es2"
        using r5 note_rate_view [OF r4] widen_window_view [of r3] update_eifr_view [of ctx r4 es2 r5] by (simp split: if_splits)
      have "(es, r') = (if rs_outstanding_parts r3 = 0 then (es1 @ es2, r5) else (es1, r3))"
        using rcv r1 m False not r4 r5 by (simp add: receive_part_def Let_def split del: if_split cong: if_cong) (simp split: if_splits)
      then show ?thesis using that(2) [of "if rs_outstanding_parts r3 = 0 then es2 else []"] v5 by (simp split: if_splits)
    qed
    then show ?thesis
    proof cases
      case assemble
      then show ?thesis using r3 i2 by (auto simp: rx_safe_step_def rx_inv_def rx_grows_def came_def)
    next
      case rest
      have "rx_inv r'" "rx_grows r r'"
        using rx_inv_view [OF rest(1)] rx_grows_view [OF rest(1)] r3 i2(2) by (blast intro: rx_grows_trans)+
      then show ?thesis using rest r3 by (simp add: rx_safe_step_def)
    qed
  qed
qed

lemma watchdog_advertised_view:
  "snd (watchdog_advertised env n now r) = (es, r') \<Longrightarrow> rx_view r' = rx_view r \<and> StartAssembly \<notin> set es"
  by (auto simp: watchdog_advertised_def Let_def rx_view_def [of "rs_adv_sent_update _ _"] split: if_splits prod.splits
      dest!: send_pending_view cancel_view) (simp_all add: rx_view_def)

lemma watchdog_awaiting_view:
  "snd (watchdog_awaiting_proof env now r) = (es, r') \<Longrightarrow> rx_view r' = rx_view r \<and> StartAssembly \<notin> set es"
  by (auto simp: watchdog_awaiting_proof_def Let_def split: if_splits prod.splits dest!: cancel_view) (simp_all add: rx_view_def)

lemma watchdog_receiving_view:
  assumes "snd (watchdog_receiving env ctx n now r) = (es, r')" shows "rx_view r' = rx_view r \<and> StartAssembly \<notin> set es"
proof -
  obtain es1 r1 where r1: "update_eifr ctx r = (es1, r1)" by (metis surj_pair)
  note v1 = update_eifr_view [OF r1]
  let ?r2 = "(narrow_window r1)\<lparr>rs_retries_left := rs_retries_left (narrow_window r1) - 1, rs_waiting_for_hmu := False\<rparr>"
  obtain d r3 where r3: "prepare_request_next_data ?r2 = (d, r3)" by (metis surj_pair)
  have v3: "rx_view r3 = rx_view r" using prepare_request_view [OF r3] narrow_window_view [of r1] v1 by (simp add: rx_view_def)
  obtain es4 r4 where r4: "send_pending env n now (SendRequest (the d)) r3 = (es4, r4)" by (metis surj_pair)
  note v4 = send_pending_view [OF r4]
  obtain es5 r5 where r5: "cancel env r1 = (es5, r5)" by (metis surj_pair)
  note v5 = cancel_view [OF r5]
  have "(es, r') \<in> {(es1, r1), (es1, r3), (es1 @ es4, r4), (es1 @ es5, r5)}"
    using assms r1 r3 r4 r5 by (cases d) (simp_all add: watchdog_receiving_def Let_def split: if_splits)
  then show ?thesis using v1 v3 v4 v5 by auto
qed

lemma watchdog_view:
  "snd (watchdog_turn env ctx n now r) = (es, r') \<Longrightarrow> \<not> rs_initiator r \<Longrightarrow> rx_view r' = rx_view r \<and> StartAssembly \<notin> set es"
  using watchdog_advertised_view [of env n now r es r'] watchdog_awaiting_view [of env now r es r'] watchdog_receiving_view [of env ctx n now r es r']
  by (auto simp: watchdog_turn_def split: if_splits resource_status.splits)

lemma rx_step_safe:
  assumes "rx_inv r" and "rx_step env ctx ev r = (es, r')" shows "rx_safe_step r es r'"
proof (cases ev)
  case (RxPart part n now)
  then show ?thesis using assms receive_part_safe by simp
next
  case (RxHashmap d now)
  then show ?thesis using rx_safe_step_view [OF assms(1)] hashmap_update_view assms(2) by simp
next
  case (RxRequestNext n now)
  then show ?thesis using rx_safe_step_view [OF assms(1)] request_next_view assms(2) by simp
next
  case (RxWatchdog n now)
  then show ?thesis using rx_safe_step_view [OF assms(1)] watchdog_view assms by (simp add: rx_inv_def)
next
  case RxCancel
  then show ?thesis using rx_safe_step_view [OF assms(1)] cancel_view assms(2) by simp
qed

lemma length_filter_all: "length (filter P xs) = length xs \<longleftrightarrow> (\<forall>x\<in>set xs. P x)"
proof (induction xs)
  case (Cons x xs)
  then show ?case using length_filter_le [of P xs] by (auto simp del: length_filter_le)
qed simp

lemma all_came: "rx_inv r \<Longrightarrow> rs_received_count r = rs_total_parts r \<longleftrightarrow> None \<notin> set (rs_parts r)"
  using length_filter_all [of "\<lambda>p. p \<noteq> None" "rs_parts r"] by (metis came_def rx_inv_def)

lemma rx_run_safe:
  assumes "rx_inv r" and "rx_run evs r = (es, r')"
  shows "rx_inv r' \<and> rx_grows r r' \<and> (starts es = 0 \<or> (starts es = 1 \<and> \<not> rs_assembly_lock r \<and> rs_assembly_lock r' \<and> None \<notin> set (rs_parts r')))"
  using assms
proof (induction evs arbitrary: r es)
  case (Cons e evs)
  obtain env ctx ev where e: "e = (env, ctx, ev)" by (metis prod_cases3)
  obtain es1 r1 where st: "rx_step env ctx ev r = (es1, r1)" by (metis surj_pair)
  obtain es2 where run: "rx_run evs r1 = (es2, r')" "es = es1 @ es2" using Cons.prems(2) e st by (auto split: prod.splits)
  have s: "rx_safe_step r es1 r1" by (rule rx_step_safe [OF Cons.prems(1) st])
  then have s': "rx_inv r1" "rx_grows r r1" by (auto simp: rx_safe_step_def)
  note IH = Cons.IH [OF s'(1) run(1)]
  have "starts es1 = 1 \<Longrightarrow> None \<notin> set (rs_parts r')"
  proof -
    assume "starts es1 = 1"
    then have "None \<notin> set (rs_parts r1)" using s all_came [OF s'(1)] by (auto simp: rx_safe_step_def)
    then show ?thesis using IH by (force simp: rx_grows_def in_set_conv_nth)
  qed
  moreover have "rx_grows r r'" using IH s'(2) by (blast intro: rx_grows_trans)
  ultimately show ?case using IH s run(2) by (auto simp: rx_safe_step_def rx_grows_def)
qed simp

lemma accept_inv: "accept ctx adv q cb pcb now = Some r \<Longrightarrow> rx_inv r \<and> \<not> rs_assembly_lock r"
  by (auto simp: accept_def rx_inv_def came_def new_incoming_def empty_resource_def Let_def split: sum.splits prod.splits
      dest!: length_put_hashes)

text \<open>
  C16. The receiver's invariant, for every history of an accepted Resource: whatever parts,
  hash-map updates, timeouts and cancellations come, from whoever sends them and in any order, the
  parts, the hash map and the number of parts agree, the count of received parts is the number of parts that
  are there, the completed height is exactly the length of the run of parts from the start, no part that has
  come is lost or replaced, and assembly is started at most once, only when every part is there.
\<close>

theorem resource_receiver_invariant:
  assumes "accept ctx adv q cb pcb now = Some r" and "rx_run evs r = (es, r')"
  shows "rx_inv r' \<and> starts es \<le> 1 \<and> (starts es = 1 \<longrightarrow> None \<notin> set (rs_parts r'))
    \<and> (\<forall>evs2 es2 r2. rx_run evs2 r' = (es2, r2) \<longrightarrow> rx_grows r' r2)"
  using accept_inv [OF assms(1)] rx_run_safe [OF _ assms(2)] rx_run_safe [of r'] by fastforce

theorem resource_receiver_invariant_witness:
  "\<exists>r es r'. accept demo_link_context (adv_pack 0 (new_from_resource demo_sender)) None True False 0 = Some r
     \<and> rx_run [(demo_resource_env, demo_link_context, RxRequestNext 90 1), (demo_resource_env, demo_link_context, RxPart [9, 8, 7, 6] 30 2),
         (demo_resource_env, demo_link_context, RxWatchdog 90 50), (demo_resource_env, demo_link_context, RxCancel)] r = (es, r')
     \<and> rx_inv r' \<and> starts es \<le> 1"
proof -
  let ?a = "accept demo_link_context (adv_pack 0 (new_from_resource demo_sender)) None True False 0"
  have "ad_t (adv_pack 0 (new_from_resource demo_sender)) = 25"
    using demo_sender_made(4) by (simp add: adv_pack_def new_from_resource_def Let_def)
  then have "?a \<noteq> None" by (simp add: accept_def adv_unpack_def Let_def split_def)
  then obtain r where "?a = Some r" by blast
  then show ?thesis using resource_receiver_invariant [OF \<open>?a = Some r\<close>] by (metis surj_pair)
qed

section \<open>The search for a salt\<close>

text \<open>The hashes a part is compared with: the last \<open>COLLISION_GUARD_SIZE\<close> before it.\<close>

definition collision_free :: "bytes list \<Rightarrow> bool" where
  "collision_free hs \<longleftrightarrow> (\<forall>j<length hs. \<forall>i<j. j \<le> i + COLLISION_GUARD_SIZE \<longrightarrow> hs ! i \<noteq> hs ! j)"

definition guard_of :: "bytes list \<Rightarrow> bytes list" where
  "guard_of hs = drop (length hs - COLLISION_GUARD_SIZE) hs"

lemma guard_of_snoc:
  "guard_of (hs @ [h]) = (if length (guard_of hs @ [h]) > COLLISION_GUARD_SIZE then tl (guard_of hs @ [h]) else guard_of hs @ [h])"
proof (cases "length hs < 224")
  case False
  then have "drop (Suc (length hs) - 224) hs = tl (drop (length hs - 224) hs)" by (metis Suc_diff_le not_less tl_drop drop_Suc)
  moreover have "drop (length hs - 224) hs \<noteq> []" using False by simp
  ultimately show ?thesis using False by (simp add: guard_of_def Suc_diff_le)
qed (simp add: guard_of_def)

lemma set_guard_of: "h \<in> set (guard_of hs) \<longleftrightarrow> (\<exists>i<length hs. length hs \<le> i + COLLISION_GUARD_SIZE \<and> hs ! i = h)"
proof
  assume "h \<in> set (guard_of hs)"
  then obtain i where "i < length (guard_of hs)" "guard_of hs ! i = h" by (auto simp: in_set_conv_nth)
  then show "\<exists>i<length hs. length hs \<le> i + COLLISION_GUARD_SIZE \<and> hs ! i = h"
    by (intro exI [of _ "length hs - COLLISION_GUARD_SIZE + i"]) (auto simp: guard_of_def)
next
  assume "\<exists>i<length hs. length hs \<le> i + COLLISION_GUARD_SIZE \<and> hs ! i = h"
  then obtain i where "i < length hs" "length hs \<le> i + COLLISION_GUARD_SIZE" "hs ! i = h" by blast
  then have "i - (length hs - 224) < length (guard_of hs)" "guard_of hs ! (i - (length hs - 224)) = h" by (auto simp: guard_of_def)
  then show "h \<in> set (guard_of hs)" by (metis nth_mem)
qed

lemma collision_free_snoc: "collision_free (hs @ [h]) \<longleftrightarrow> collision_free hs \<and> h \<notin> set (guard_of hs)"
  by (auto simp: collision_free_def set_guard_of nth_append less_Suc_eq)

lemma collision_free_prefix: "collision_free (hs @ hs') \<Longrightarrow> collision_free hs"
  by (induction hs' rule: rev_induct) (auto simp: collision_free_snoc simp flip: append_assoc)

lemma map_pass_iff:
  "collision_free hs \<Longrightarrow> map_pass part hashf (guard_of hs) is \<noteq> None \<longleftrightarrow> collision_free (hs @ map (\<lambda>i. hashf (part i)) is)"
proof (induction "is" arbitrary: hs)
  case (Cons i "is")
  let ?h = "hashf (part i)"
  show ?case
  proof (cases "?h \<in> set (guard_of hs)")
    case True
    then have "\<not> collision_free (hs @ [?h])" by (simp add: collision_free_snoc)
    then have "\<not> collision_free (hs @ map (\<lambda>i. hashf (part i)) (i # is))" using collision_free_prefix [of "hs @ [?h]"] by auto
    then show ?thesis using True by simp
  next
    case False
    then have "collision_free (hs @ [?h])" using Cons.prems by (simp add: collision_free_snoc)
    from Cons.IH [OF this] show ?thesis using False guard_of_snoc [of hs ?h] by (simp add: Let_def cong: if_cong)
  qed
qed simp


definition part_hashes :: "resource_env \<Rightarrow> resource \<Rightarrow> bytes \<Rightarrow> bytes list" where
  "part_hashes env r random = map (\<lambda>i. get_map_hash env random (part_of (rs_sdu r) (the (rs_data r)) i)) [0..<rs_total_parts r]"

lemma part_hashes_salt: "part_hashes env (salt env random d orig r) = part_hashes env r"
  by (simp add: part_hashes_def unmapped_salt fun_eq_iff)

lemma pass_free:
  "map_pass (part_of (rs_sdu r) (the (rs_data r))) (get_map_hash env random) [] [0..<rs_total_parts r] \<noteq> None
     \<longleftrightarrow> collision_free (part_hashes env r random)"
  using map_pass_iff [of "[]" "part_of (rs_sdu r) (the (rs_data r))" "get_map_hash env random"]
  by (simp add: collision_free_def guard_of_def part_hashes_def)

lemma map_parts_Cons_free:
  assumes "collision_free (part_hashes env r random)"
  shows "\<exists>s. map_parts env d orig (random # salts) r = Some s \<and> rs_random_hash s = random \<and> rs_hashmap s = part_hashes env r random"
proof -
  let ?r = "salt env random d orig r"
  obtain ps where ps: "map_pass (part_of (rs_sdu ?r) (the (rs_data ?r))) (get_map_hash env random) [] [0..<rs_total_parts ?r] = Some ps"
    using assms pass_free [of ?r env random] part_hashes_salt [of env random d orig r] by auto
  then show ?thesis using map_pass_packets [OF ps] by (simp add: salt_def part_hashes_def comp_def Let_def)
qed

lemma map_parts_Cons_collides:
  "\<not> collision_free (part_hashes env r random) \<Longrightarrow>
     map_parts env d orig (random # salts) r = map_parts env d orig salts (salt env random d orig r)"
  using pass_free [of "salt env random d orig r" env random] part_hashes_salt [of env random d orig r] by (simp add: Let_def)

lemma map_parts_none: "map_parts env d orig salts r = None \<longleftrightarrow> (\<forall>random\<in>set salts. \<not> collision_free (part_hashes env r random))"
proof (induction salts arbitrary: r)
  case (Cons random salts)
  then show ?case
    using map_parts_Cons_free [of env r random d orig salts] map_parts_Cons_collides [of env r random d orig salts]
    by (cases "collision_free (part_hashes env r random)") (auto simp: part_hashes_salt simp del: map_parts.simps)
qed simp

lemma map_parts_first:
  "map_parts env d orig salts r = Some s \<Longrightarrow> \<exists>n<length salts. rs_random_hash s = salts ! n \<and> rs_hashmap s = part_hashes env r (salts ! n)
     \<and> collision_free (rs_hashmap s) \<and> (\<forall>i<n. \<not> collision_free (part_hashes env r (salts ! i)))"
proof (induction salts arbitrary: r)
  case (Cons random salts)
  show ?case
  proof (cases "collision_free (part_hashes env r random)")
    case True
    then show ?thesis using map_parts_Cons_free [of env r random d orig salts] Cons.prems by (intro exI [of _ 0]) (simp del: map_parts.simps)
  next
    case False
    then have "map_parts env d orig salts (salt env random d orig r) = Some s" using map_parts_Cons_collides Cons.prems by metis
    from Cons.IH [OF this] obtain n where "n < length salts" "rs_random_hash s = salts ! n" "rs_hashmap s = part_hashes env r (salts ! n)"
      "collision_free (rs_hashmap s)" "\<forall>i<n. \<not> collision_free (part_hashes env r (salts ! i))"
      using part_hashes_salt by auto
    then show ?thesis using False by (intro exI [of _ "Suc n"]) (auto simp: less_Suc_eq_0_disj)
  qed
qed simp

text \<open>
  C29. The search for a salt ends, at the first salt that works: \<^verbatim>\<open>map_parts\<close> returns exactly when one of the
  salts drawn gives part hashes of which no two within the collision guard's 224 places are equal; it
  then takes the first such salt, and the hash map it leaves is that salt's.
\<close>

theorem map_parts_terminates:
  "(map_parts env d orig salts r \<noteq> None \<longleftrightarrow> (\<exists>random\<in>set salts. collision_free (part_hashes env r random)))
   \<and> (\<forall>s. map_parts env d orig salts r = Some s \<longrightarrow> (\<exists>n<length salts. rs_random_hash s = salts ! n
        \<and> rs_hashmap s = part_hashes env r (salts ! n) \<and> collision_free (rs_hashmap s)
        \<and> (\<forall>i<n. \<not> collision_free (part_hashes env r (salts ! i)))))"
  using map_parts_none [of env d orig salts r] map_parts_first [of env d orig salts r] by (intro conjI allI impI) auto

theorem map_parts_terminates_witness:
  "\<exists>s. map_parts demo_resource_env [1] None [[1, 2, 3, 4]] ((empty_resource CompressEnabled 1 None False 0 True False)
       \<lparr>rs_sdu := 2, rs_data := Some [1, 2, 3, 4], rs_total_parts := 2\<rparr>) = Some s \<and> collision_free (rs_hashmap s) \<and> rs_random_hash s = [1, 2, 3, 4]"
proof -
  let ?r = "(empty_resource CompressEnabled 1 None False 0 True False)\<lparr>rs_sdu := 2, rs_data := Some [1, 2, 3, 4], rs_total_parts := 2\<rparr>"
  have "part_hashes demo_resource_env ?r [1, 2, 3, 4] = [[1, 2, 1, 2], [3, 4, 1, 2]]"
    by (simp add: part_hashes_def get_map_hash_def part_of_def byte_range_def demo_resource_env_def upt_conv_Cons)
  then have "collision_free (part_hashes demo_resource_env ?r [1, 2, 3, 4])" by (simp add: collision_free_def less_Suc_eq)
  then show ?thesis using map_parts_terminates [of demo_resource_env "[1]" None "[[1, 2, 3, 4]]" ?r] by auto
qed

section \<open>Segments\<close>

text \<open>The whole number of segments a Resource is sent in, and one of them.\<close>

definition segment_count :: "bytes \<Rightarrow> resource \<Rightarrow> nat" where
  "segment_count bs r = (length bs + rs_metadata_size r - 1) div MAX_EFFICIENT_SIZE + 1"

definition segment :: "bytes \<Rightarrow> resource \<Rightarrow> nat \<Rightarrow> bytes" where
  "segment bs r i = fst (take_segment bs (r\<lparr>rs_segment_index := i\<rparr>))"

lemma segment_slice:
  assumes "1 \<le> i"
  shows "segment bs r i = (if i = 1 then take (MAX_EFFICIENT_SIZE - rs_metadata_size r) bs
    else take MAX_EFFICIENT_SIZE (drop (MAX_EFFICIENT_SIZE - rs_metadata_size r + (i - 2) * MAX_EFFICIENT_SIZE) bs))"
  using assms by (auto simp: segment_def take_segment_def segment_range_def byte_range_def max_def min_def Let_def)

lemma segments_prefix:
  "concat (map (segment bs r) [1..<Suc (Suc k)]) = take (MAX_EFFICIENT_SIZE - rs_metadata_size r + k * MAX_EFFICIENT_SIZE) bs"
proof (induction k)
  case 0
  then show ?case by (simp add: segment_slice)
next
  case (Suc k)
  let ?f = "MAX_EFFICIENT_SIZE - rs_metadata_size r"
  have "concat (map (segment bs r) [1..<Suc (Suc (Suc k))]) = concat (map (segment bs r) [1..<Suc (Suc k)]) @ segment bs r (Suc (Suc k))" by simp
  also have "\<dots> = take (?f + k * MAX_EFFICIENT_SIZE) bs @ take MAX_EFFICIENT_SIZE (drop (?f + k * MAX_EFFICIENT_SIZE) bs)"
    using Suc.IH segment_slice [of "Suc (Suc k)" bs r] by (simp del: upt_Suc drop_drop)
  also have "\<dots> = take (?f + k * MAX_EFFICIENT_SIZE + MAX_EFFICIENT_SIZE) bs" by (rule take_add [symmetric])
  finally show ?case by (simp add: add.commute add.left_commute del: upt_Suc)
qed

lemma segments_enough:
  "0 < M \<Longrightarrow> L \<le> (M - ms) + (L + ms - 1) div M * M" for M L ms :: nat
proof -
  assume M: "0 < M"
  have "L + ms - 1 < (L + ms - 1) div M * M + M" using M by (metis add.commute dividend_less_div_times)
  then show ?thesis by linarith
qed

text \<open>
  Splitting loses nothing: the segments a Resource over the size limit is cut into, taken in order, are
  the data, whatever the size of the metadata; no segment is larger than the limit, and with the metadata
  the first one is not either.
\<close>

theorem segments_roundtrip:
  "concat (map (segment bs r) [1..<Suc (segment_count bs r)]) = bs
   \<and> (\<forall>i\<ge>1. length (segment bs r i) \<le> MAX_EFFICIENT_SIZE)
   \<and> length (segment bs r 1) + rs_metadata_size r \<le> max MAX_EFFICIENT_SIZE (rs_metadata_size r)"
  using segments_prefix [of bs r "(length bs + rs_metadata_size r - 1) div MAX_EFFICIENT_SIZE"]
    segments_enough [of MAX_EFFICIENT_SIZE "length bs" "rs_metadata_size r"]
  by (auto simp: segment_count_def segment_slice simp del: upt_Suc)

theorem segments_roundtrip_witness:
  "length (segment (replicate 3 7) ((empty_resource CompressEnabled 1 None False 0 True False)\<lparr>rs_metadata_size := 4\<rparr>) 1) \<le> MAX_EFFICIENT_SIZE
   \<and> concat (map (segment (replicate 3 7) ((empty_resource CompressEnabled 1 None False 0 True False)\<lparr>rs_metadata_size := 4\<rparr>)) [1..<2]) = [7, 7, 7]"
proof -
  let ?r = "(empty_resource CompressEnabled 1 None False 0 True False)\<lparr>rs_metadata_size := 4\<rparr>"
  have "segment_count (replicate 3 7) ?r = 1" by (simp add: segment_count_def)
  then show ?thesis using segments_roundtrip [of "replicate 3 7" ?r] by (simp add: numeral_2_eq_2 numeral_3_eq_3)
qed

section \<open>The watchdog\<close>

text \<open>The states the watchdog acts in, and the time after which it does.\<close>

definition watched :: "resource \<Rightarrow> bool" where
  "watched r \<longleftrightarrow> rs_status r \<in> {RsAdvertised, RsTransferring, RsAwaitingProof}"

definition receive_deadline :: "resource \<Rightarrow> f64" where
  "receive_deadline r =
     (let eifr = (case rs_eifr r of Some e \<Rightarrow> e | None \<Rightarrow> 1) in
      transferring_sleep_time (rs_last_activity r) (rs_part_timeout_factor r) (f64_div (real (rs_outstanding_parts r) * real (rs_sdu r) * 8) eifr)
        (expected_hmu_wait_remaining (rs_waiting_for_hmu r) (rs_outstanding_parts r) (rs_sdu r) eifr)
        (rs_req_resp_rtt_rate r) (rs_sdu r) eifr (real (rs_max_retries r - rs_retries_left r) * 0.5) 0)"

definition watchdog_deadline :: "link_context \<Rightarrow> resource \<Rightarrow> f64" where
  "watchdog_deadline ctx r =
     (let rtt = (case rs_rtt r of Some t \<Rightarrow> t | None \<Rightarrow> 0) in
      if rs_status r = RsAdvertised then Some (rs_adv_sent r + rs_timeout r + 1)
      else if rs_status r = RsAwaitingProof then Some (rs_last_part_sent r + (rtt * 3 + rs_sender_grace_time r))
      else if rs_initiator r then Some (rs_last_activity r + (rtt * rs_timeout_factor r * real (rs_max_retries r) + rs_sender_grace_time r
        + max_extra_wait (rs_max_retries r)))
      else receive_deadline (snd (update_eifr ctx r)))"

definition past :: "f64 \<Rightarrow> real \<Rightarrow> bool" where
  "past D now = f64_negative (map_option (\<lambda>t. t - now) D)"

lemma past_simps [simp]: "past None now = False" "past (Some t) now = (t < now)"
  by (simp_all add: past_def f64_negative_def)

definition gave_up :: "resource \<Rightarrow> resource \<Rightarrow> bool" where
  "gave_up r r' \<longleftrightarrow> rs_status r' = RsFailed \<or> (watched r' \<and> rs_retries_left r' < rs_retries_left r)"

lemma cancel_gave_up: "watched r \<Longrightarrow> gave_up r0 (snd (cancel env r))"
  by (auto simp: watched_def gave_up_def cancel_def Let_def)

lemma send_pending_gave_up:
  "watched r \<Longrightarrow> rs_retries_left r < rs_retries_left r0 \<Longrightarrow> gave_up r0 (snd (send_pending env n now e r))"
  using cancel_gave_up [of r r0 env]
  by (auto simp: send_pending_def record_request_sent_def split_def) (auto simp: gave_up_def watched_def)

text \<open>A turn that is overdue uses up a retry or fails the transfer; any other sleeps until the deadline.\<close>

definition turn_ok :: "link_context \<Rightarrow> real \<Rightarrow> resource \<Rightarrow> f64 \<times> resource_effect list \<times> resource \<Rightarrow> bool" where
  "turn_ok ctx now r t \<longleftrightarrow> (case t of (st, es, r') \<Rightarrow>
     if past (watchdog_deadline ctx r) now then gave_up r r'
     else st = map_option (\<lambda>t. t - now) (watchdog_deadline ctx r) \<and> watchdog_deadline ctx r' = watchdog_deadline ctx r \<and> watched r'
       \<and> rs_retries_left r' = rs_retries_left r)"

lemma watchdog_advertised_ok:
  assumes "rs_status r = RsAdvertised" shows "turn_ok ctx now r (watchdog_advertised env n now r)"
proof -
  have w: "watched r" "watched (r\<lparr>rs_retries_left := x, rs_last_activity := now, rs_adv_sent := now\<rparr>)" for x using assms by (simp_all add: watched_def)
  have "watchdog_deadline ctx r = Some (rs_adv_sent r + rs_timeout r + 1)" using assms by (simp add: watchdog_deadline_def)
  then show ?thesis
    using cancel_gave_up [OF w(1), of r env] send_pending_gave_up [OF w(2), of "rs_retries_left r - 1" r env n now SendAdvertisement] w(1)
    by (simp add: turn_ok_def watchdog_advertised_def split_def Let_def)
qed

lemma watchdog_sending_ok:
  assumes "rs_status r = RsTransferring" "rs_initiator r" shows "turn_ok ctx now r (watchdog_sending env now r)"
proof -
  have w: "watched r" using assms by (simp add: watched_def)
  have "watchdog_deadline ctx r = Some (rs_last_activity r + ((case rs_rtt r of Some t \<Rightarrow> t | None \<Rightarrow> 0) * rs_timeout_factor r * real (rs_max_retries r)
      + rs_sender_grace_time r + max_extra_wait (rs_max_retries r)))" using assms by (simp add: watchdog_deadline_def Let_def)
  then show ?thesis using cancel_gave_up [OF w, of r env] w by (simp add: turn_ok_def watchdog_sending_def split_def Let_def)
qed

lemma watchdog_awaiting_ok:
  assumes "rs_status r = RsAwaitingProof" shows "turn_ok ctx now r (watchdog_awaiting_proof env now r)"
proof -
  let ?r = "r\<lparr>rs_timeout_factor := 3\<rparr>"
  have w: "watched ?r" "watched (?r\<lparr>rs_retries_left := x, rs_last_part_sent := now\<rparr>)" for x using assms by (simp_all add: watched_def)
  have D: "watchdog_deadline ctx r = Some (rs_last_part_sent r + ((case rs_rtt r of Some t \<Rightarrow> t | None \<Rightarrow> 0) * 3 + rs_sender_grace_time r))"
    using assms by (simp add: watchdog_deadline_def Let_def)
  have D': "watchdog_deadline ctx ?r = watchdog_deadline ctx r" using assms by (simp add: watchdog_deadline_def Let_def)
  show ?thesis using cancel_gave_up [OF w(1), of r env] w D D'
    by (auto simp: turn_ok_def watchdog_awaiting_proof_def split_def Let_def) (simp add: gave_up_def)
qed

lemma update_eifr_again: "update_eifr ctx (snd (update_eifr ctx r)) = (fst (update_eifr ctx r), snd (update_eifr ctx r))"
  by (simp add: update_eifr_def Let_def)

lemma update_eifr_same:
  "rs_status (snd (update_eifr ctx r)) = rs_status r" "rs_initiator (snd (update_eifr ctx r)) = rs_initiator r"
  "rs_retries_left (snd (update_eifr ctx r)) = rs_retries_left r"
  by (simp_all add: update_eifr_def Let_def)

lemma narrow_window_same:
  "rs_status (narrow_window r) = rs_status r" "rs_retries_left (narrow_window r) = rs_retries_left r"
  by (simp_all add: narrow_window_def Let_def)

lemma prepare_request_some:
  assumes "rs_status r = RsTransferring" "\<not> rs_waiting_for_hmu r"
  shows "\<exists>d r'. prepare_request_next_data r = (Some d, r') \<and> rs_status r' = RsTransferring \<and> rs_retries_left r' = rs_retries_left r"
  using assms by (auto simp: prepare_request_next_data_def split_def Let_def)

lemma transferring_sleep_time_now:
  "transferring_sleep_time a p t h rt sdu e x now = map_option (\<lambda>s. s - now) (transferring_sleep_time a p t h rt sdu e x 0)"
  by (cases t; cases h) (auto simp: transferring_sleep_time_def option.map_comp comp_def)

lemma watchdog_receiving_ok:
  assumes "rs_status r = RsTransferring" "\<not> rs_initiator r" shows "turn_ok ctx now r (watchdog_receiving env ctx n now r)"
proof -
  let ?r1 = "snd (update_eifr ctx r)"
  let ?r2 = "(narrow_window ?r1)\<lparr>rs_retries_left := rs_retries_left (narrow_window ?r1) - 1, rs_waiting_for_hmu := False\<rparr>"
  have r1: "rs_status ?r1 = RsTransferring" "\<not> rs_initiator ?r1" using assms by (simp_all add: update_eifr_same)
  have w: "watched ?r1" using r1 by (simp add: watched_def)
  have D: "watchdog_deadline ctx r = receive_deadline ?r1" "watchdog_deadline ctx ?r1 = receive_deadline ?r1"
    using assms r1 update_eifr_again [of ctx r] by (simp_all add: watchdog_deadline_def)
  have r2: "rs_status ?r2 = RsTransferring" "\<not> rs_waiting_for_hmu ?r2" "rs_retries_left ?r2 = rs_retries_left r - 1"
    using r1 by (simp_all add: narrow_window_same update_eifr_same)
  obtain d r3 where r3: "prepare_request_next_data ?r2 = (Some d, r3)" "rs_status r3 = RsTransferring" "rs_retries_left r3 = rs_retries_left r - 1"
    using prepare_request_some [OF r2(1,2)] r2(3) by auto
  have w3: "watched r3" using r3 by (simp add: watched_def)
  let ?es1 = "fst (update_eifr ctx r)"
  show ?thesis
  proof (cases "past (receive_deadline ?r1) now")
    case True
    then have "watchdog_receiving env ctx n now r = (if rs_retries_left r > 0
        then (Some 0.001, ?es1 @ fst (send_pending env n now (SendRequest d) r3), snd (send_pending env n now (SendRequest d) r3))
        else (Some 0.001, ?es1 @ fst (cancel env ?r1), snd (cancel env ?r1)))"
      using r3(1) transferring_sleep_time_now [where now = now]
      by (simp add: watchdog_receiving_def receive_deadline_def past_def update_eifr_same split_def Let_def)
    then show ?thesis
      using True D cancel_gave_up [OF w, of r env] send_pending_gave_up [OF w3, of r env n now "SendRequest d"] r3(3)
      by (simp add: turn_ok_def)
  next
    case False
    then have "watchdog_receiving env ctx n now r = (map_option (\<lambda>t. t - now) (receive_deadline ?r1), ?es1, ?r1)"
      using transferring_sleep_time_now [where now = now] by (simp add: watchdog_receiving_def receive_deadline_def past_def split_def Let_def)
    then show ?thesis using False D w by (simp add: turn_ok_def update_eifr_same split_def)
  qed
qed

text \<open>The turn of a watched transfer sleeps as its state says.\<close>

lemma watchdog_turn_ok:
  assumes "watched r"
  obtains st es r' where "watchdog_turn env ctx n now r = (Some (watchdog_sleep st), es, r')" "turn_ok ctx now r (st, es, r')"
proof -
  let ?ends = "\<lambda>t. watchdog_turn env ctx n now r = apfst (\<lambda>st. Some (watchdog_sleep st)) t \<and> turn_ok ctx now r t"
  consider "rs_status r = RsAdvertised" | "rs_status r = RsTransferring" "rs_initiator r" | "rs_status r = RsTransferring" "\<not> rs_initiator r"
    | "rs_status r = RsAwaitingProof" using assms by (auto simp: watched_def)
  then have "\<exists>t. ?ends t"
  proof cases
    case 1
    then have "?ends (watchdog_advertised env n now r)" by (simp add: watchdog_turn_def watchdog_advertised_ok)
    then show ?thesis by (rule exI)
  next
    case 2
    then have "?ends (watchdog_sending env now r)" by (simp add: watchdog_turn_def watchdog_sending_ok)
    then show ?thesis by (rule exI)
  next
    case 3
    then have "?ends (watchdog_receiving env ctx n now r)" by (simp add: watchdog_turn_def watchdog_receiving_ok)
    then show ?thesis by (rule exI)
  next
    case 4
    then have "?ends (watchdog_awaiting_proof env now r)" by (simp add: watchdog_turn_def watchdog_awaiting_ok)
    then show ?thesis by (rule exI)
  qed
  then show ?thesis using that by (metis apfst_conv surj_pair)
qed

fun watchdog_run :: "resource_env \<Rightarrow> link_context \<Rightarrow> nat \<Rightarrow> real list \<Rightarrow> resource \<Rightarrow> resource" where
  "watchdog_run env ctx n [] r = r"
| "watchdog_run env ctx n (now # ts) r = watchdog_run env ctx n ts (snd (snd (watchdog_turn env ctx n now r)))"

text \<open>The turns that come after the deadline.\<close>

fun overdue_turns :: "resource_env \<Rightarrow> link_context \<Rightarrow> nat \<Rightarrow> real list \<Rightarrow> resource \<Rightarrow> nat" where
  "overdue_turns env ctx n [] r = 0"
| "overdue_turns env ctx n (now # ts) r =
     (if watched r \<and> past (watchdog_deadline ctx r) now then 1 else 0) + overdue_turns env ctx n ts (snd (snd (watchdog_turn env ctx n now r)))"

lemma watchdog_run_failed: "rs_status r = RsFailed \<Longrightarrow> watchdog_run env ctx n ts r = r \<and> overdue_turns env ctx n ts r = 0"
  by (induction ts) (simp_all add: watchdog_turn_def watched_def)

lemma watchdog_run_bounded:
  assumes "watched r"
  shows "(rs_status (watchdog_run env ctx n ts r) = RsFailed \<or> watched (watchdog_run env ctx n ts r))
    \<and> overdue_turns env ctx n ts r \<le> rs_retries_left r + 1
    \<and> (overdue_turns env ctx n ts r = rs_retries_left r + 1 \<longrightarrow> rs_status (watchdog_run env ctx n ts r) = RsFailed)"
  using assms
proof (induction ts arbitrary: r)
  case (Cons now ts)
  let ?r' = "snd (snd (watchdog_turn env ctx n now r))"
  obtain st es where ok: "turn_ok ctx now r (st, es, ?r')"
    using watchdog_turn_ok [OF Cons.prems, of env ctx n now] by (metis snd_conv)
  show ?case
  proof (cases "rs_status ?r' = RsFailed")
    case True
    then show ?thesis using watchdog_run_failed [OF True, of env ctx n ts] by simp
  next
    case False
    then have "watched ?r' \<and> rs_retries_left ?r' + (if past (watchdog_deadline ctx r) now then 1 else 0) \<le> rs_retries_left r"
      using ok by (auto simp: turn_ok_def gave_up_def split_def split: if_splits)
    then show ?thesis using Cons.IH [of ?r'] by (auto split: if_splits)
  qed
qed simp

text \<open>A deadline that is not finite is never past, and stays so.\<close>

lemma watchdog_run_endless:
  assumes "watched r" "watchdog_deadline ctx r = None"
  shows "watched (watchdog_run env ctx n ts r) \<and> rs_retries_left (watchdog_run env ctx n ts r) = rs_retries_left r"
  using assms
proof (induction ts arbitrary: r)
  case (Cons now ts)
  obtain st es where "turn_ok ctx now r (st, es, snd (snd (watchdog_turn env ctx n now r)))"
    using watchdog_turn_ok [OF Cons.prems(1), of env ctx n now] by (metis snd_conv)
  then show ?case using Cons.IH [of "snd (snd (watchdog_turn env ctx n now r))"] Cons.prems by (simp add: turn_ok_def)
qed simp

text \<open>The deadline of a receiver is not finite exactly if the expected rate is zero.\<close>

lemma receive_deadline_None: "receive_deadline r = None \<longleftrightarrow> rs_eifr r = Some 0"
  by (auto simp: receive_deadline_def transferring_sleep_time_def expected_hmu_wait_remaining_def f64_div_def Let_def split: option.splits)

lemma watchdog_deadline_None:
  assumes "watched r"
  shows "watchdog_deadline ctx r = None \<longleftrightarrow> rs_status r = RsTransferring \<and> \<not> rs_initiator r \<and> rs_eifr (snd (update_eifr ctx r)) = Some 0"
  using assms by (auto simp: watchdog_deadline_def receive_deadline_None watched_def Let_def)

text \<open>
  C28. A transfer nothing comes in for ends, unless the receiver expects a rate of zero. The watchdog of an advertised,
  transferring or proof-awaiting Resource has a deadline. Before it, a turn sleeps until the deadline but no longer than the
  limit, and changes nothing the deadline depends on. Every turn after it uses up a retry or fails the transfer, so there
  are at most one more of them than retries left, and the last of these fails the transfer. The deadline is finite in every case but
  one: for a receiver whose expected rate is zero the division by that rate leaves no finite deadline, and then no number of turns
  uses up a retry or fails the transfer.
\<close>

theorem watchdog_ends_transfer:
  assumes "watched r"
  shows "overdue_turns env ctx n ts r \<le> rs_retries_left r + 1
    \<and> (overdue_turns env ctx n ts r = rs_retries_left r + 1 \<longrightarrow> rs_status (watchdog_run env ctx n ts r) = RsFailed)
    \<and> (rs_status (watchdog_run env ctx n ts r) = RsFailed \<or> watched (watchdog_run env ctx n ts r))
    \<and> (\<not> past (watchdog_deadline ctx r) now \<longrightarrow>
         fst (watchdog_turn env ctx n now r) = Some (watchdog_sleep (map_option (\<lambda>t. t - now) (watchdog_deadline ctx r)))
         \<and> watchdog_deadline ctx (snd (snd (watchdog_turn env ctx n now r))) = watchdog_deadline ctx r)
    \<and> (watchdog_deadline ctx r = None \<longleftrightarrow>
         rs_status r = RsTransferring \<and> \<not> rs_initiator r \<and> rs_eifr (snd (update_eifr ctx r)) = Some 0)
    \<and> (watchdog_deadline ctx r = None \<longrightarrow>
         watched (watchdog_run env ctx n ts r) \<and> rs_retries_left (watchdog_run env ctx n ts r) = rs_retries_left r)"
proof -
  obtain st es r' where t: "watchdog_turn env ctx n now r = (Some (watchdog_sleep st), es, r')" "turn_ok ctx now r (st, es, r')"
    by (rule watchdog_turn_ok [OF assms])
  show ?thesis
    using watchdog_run_bounded [OF assms, of env ctx n ts] t watchdog_deadline_None [OF assms, of ctx]
      watchdog_run_endless [OF assms, of ctx env n ts]
    by (auto simp: turn_ok_def)
qed

definition demo_silent :: resource where
  "demo_silent = (empty_resource CompressEnabled 1 None False 0 True False)\<lparr>rs_status := RsAdvertised, rs_initiator := True, rs_retries_left := 1\<rparr>"

theorem watchdog_ends_transfer_witness:
  "overdue_turns demo_resource_env demo_link_context 100 [2, 4] demo_silent = 2
   \<and> rs_status (watchdog_run demo_resource_env demo_link_context 100 [2, 4] demo_silent) = RsFailed"
proof -
  have "overdue_turns demo_resource_env demo_link_context 100 [2, 4] demo_silent = 2"
    by (simp add: demo_silent_def empty_resource_def demo_resource_env_def watched_def watchdog_deadline_def watchdog_turn_def
        watchdog_advertised_def send_pending_def record_request_sent_def cancel_def)
  moreover have "watched demo_silent" "rs_retries_left demo_silent = 1" by (simp_all add: demo_silent_def watched_def)
  ultimately show ?thesis using watchdog_ends_transfer [of demo_silent demo_resource_env demo_link_context 100 "[2, 4]"] by simp
qed

end
