(* ===== verification/Link_Liveness.thy ===== *)
theory Link_Liveness
  imports Link_Correct
begin

text \<open>
  Links in trouble: a silent peer, a forged proof, an advertisement that is too large.
\<close>

section \<open>The watchdog closes a silent link\<close>

text \<open>Turns in which nothing is received.\<close>

definition idle_turn :: "link_env \<Rightarrow> link \<Rightarrow> link" where
  "idle_turn E l = snd (snd (snd (actor_turn E [] None l)))"

definition idle_turns :: "link_env list \<Rightarrow> link \<Rightarrow> link" where
  "idle_turns Es l = fold idle_turn Es l"

text \<open>The time a stale link is given.\<close>

definition grace_secs :: "link \<Rightarrow> nat" where
  "grace_secs l = max (as_u64 ((case ln_rtt l of Some rtt \<Rightarrow> rtt | None \<Rightarrow> 0) * ln_keepalive_timeout_factor l + STALE_GRACE)) 1"

definition timed_out :: "link \<Rightarrow> bool" where
  "timed_out l \<longleftrightarrow> ln_state l = STATE_CLOSED \<and> ln_teardown_reason l = REASON_TIMEOUT"

lemma idle_turn_closed [simp]: "ln_state l = STATE_CLOSED \<Longrightarrow> idle_turn E l = l"
  by (simp add: idle_turn_def actor_turn_def)

lemma timed_out_stays: "timed_out l \<Longrightarrow> timed_out (idle_turns Es l)"
  by (induction Es arbitrary: l) (simp_all add: idle_turns_def timed_out_def)

lemma idle_turn_open:
  "ln_state l \<noteq> STATE_CLOSED \<Longrightarrow> \<not> ln_watchdog_lock l
   \<Longrightarrow> idle_turn E l = snd (check_request_timeouts E (snd (actor_watchdog_tick E l)))"
  by (simp add: idle_turn_def actor_turn_def actor_housekeeping_def split_def)

lemma idle_turn_locked:
  "ln_state l \<noteq> STATE_CLOSED \<Longrightarrow> ln_watchdog_lock l \<Longrightarrow> idle_turn E l = snd (check_request_timeouts E l)"
  by (simp add: idle_turn_def actor_turn_def actor_housekeeping_def split_def)

lemma request_timeouts_fields [simp]:
  "ln_state (snd (check_request_timeouts E l)) = ln_state l" "ln_watchdog_lock (snd (check_request_timeouts E l)) = ln_watchdog_lock l"
  "ln_teardown_reason (snd (check_request_timeouts E l)) = ln_teardown_reason l" "heard_at (snd (check_request_timeouts E l)) = heard_at l"
  "ln_keepalive (snd (check_request_timeouts E l)) = ln_keepalive l" "ln_stale_time (snd (check_request_timeouts E l)) = ln_stale_time l"
  "ln_stale_since (snd (check_request_timeouts E l)) = ln_stale_since l" "ln_stale_grace (snd (check_request_timeouts E l)) = ln_stale_grace l"
  "grace_secs (snd (check_request_timeouts E l)) = grace_secs l" "ln_request_time (snd (check_request_timeouts E l)) = ln_request_time l"
  "ln_establishment_timeout (snd (check_request_timeouts E l)) = ln_establishment_timeout l"
  by (simp_all add: check_request_timeouts_def heard_at_def grace_secs_def Let_def)

lemma timed_out_teardown: "timed_out (snd (teardown E (l\<lparr>ln_teardown_reason := REASON_TIMEOUT\<rparr>)))"
  by (simp add: timed_out_def teardown_def link_closed_def had_outbound_def Let_def split_def)

text \<open>Establishing: the timeout, or nothing changes that it depends on.\<close>

lemma idle_establishing:
  assumes "ln_state l = STATE_PENDING \<or> ln_state l = STATE_HANDSHAKE" "\<not> ln_watchdog_lock l" "ln_request_time l = Some t"
  shows "if le_now E \<ge> t + ln_establishment_timeout l then timed_out (idle_turn E l)
    else ln_state (idle_turn E l) = ln_state l \<and> \<not> ln_watchdog_lock (idle_turn E l) \<and> ln_request_time (idle_turn E l) = Some t
      \<and> ln_establishment_timeout (idle_turn E l) = ln_establishment_timeout l"
  using assms timed_out_teardown [of E l]
  by (auto simp add: idle_turn_open actor_watchdog_tick_def tick_establishing_def timed_out_def)

lemma establishing_times_out:
  assumes "ln_state l = STATE_PENDING \<or> ln_state l = STATE_HANDSHAKE" "\<not> ln_watchdog_lock l" "ln_request_time l = Some t"
    and "E \<in> set Es" "le_now E \<ge> t + ln_establishment_timeout l"
  shows "timed_out (idle_turns Es l)"
  using assms
proof (induction Es arbitrary: l)
  case (Cons F Es)
  note step = idle_establishing [OF Cons.prems(1-3), of F]
  show ?case
  proof (cases "le_now F \<ge> t + ln_establishment_timeout l")
    case True
    then show ?thesis using step timed_out_stays [of "idle_turn F l" Es] by (simp add: idle_turns_def)
  next
    case False
    with Cons.prems(4,5) have "E \<in> set Es" by auto
    then show ?thesis using False step Cons.IH [of "idle_turn F l"] Cons.prems(1,5) by (simp add: idle_turns_def)
  qed
qed simp

text \<open>A link that heard nothing since \<open>h\<close>: active, stale or closed.\<close>

definition waits :: "nat \<Rightarrow> nat \<Rightarrow> nat \<Rightarrow> link \<Rightarrow> bool" where
  "waits h s g l \<longleftrightarrow> ln_state l = STATE_ACTIVE \<and> \<not> ln_watchdog_lock l \<and> heard_at l = h \<and> as_u64 (ln_stale_time l) = s
     \<and> as_u64 (ln_keepalive l) \<le> s \<and> grace_secs l = g"

definition expires :: "nat \<Rightarrow> nat \<Rightarrow> link \<Rightarrow> bool" where
  "expires t g l \<longleftrightarrow> ln_state l = STATE_STALE \<and> \<not> ln_watchdog_lock l
     \<and> (\<exists>s \<le> t. ln_stale_since l = Some s) \<and> max (as_u64 (ln_stale_grace l)) 1 = g"

lemma stale_time_had_outbound [simp]: "ln_stale_time (had_outbound E b l) = ln_stale_time l"
  by (simp add: had_outbound_def Let_def)

lemma tick_active_early:
  assumes "current_time E < heard_at l + as_u64 (ln_stale_time l)"
  shows "snd (tick_active E l) \<in> {l, had_outbound E True l}"
  using assms by (simp add: tick_active_def prepare_keepalive_def Let_def split_def)

lemma tick_active_late:
  assumes "current_time E \<ge> heard_at l + as_u64 (ln_stale_time l)" "as_u64 (ln_keepalive l) \<le> as_u64 (ln_stale_time l)"
  shows "\<exists>l1 \<in> {l, had_outbound E True l}. snd (tick_active E l) =
    l1\<lparr>ln_state := STATE_STALE, ln_status := STATE_STALE, ln_stale_since := Some (current_time E),
       ln_stale_grace := (case ln_rtt l1 of Some rtt \<Rightarrow> rtt | None \<Rightarrow> 0) * ln_keepalive_timeout_factor l1 + STALE_GRACE\<rparr>"
  using assms by (simp add: tick_active_def prepare_keepalive_def Let_def split_def)

lemma waits_had_outbound: "waits h s g (had_outbound E b l) = waits h s g l"
  by (simp add: waits_def heard_at_def grace_secs_def had_outbound_def Let_def)

lemma idle_waits:
  assumes "waits h s g l"
  shows "waits h s g (idle_turn E l) \<and> current_time E < h + s \<or> expires (current_time E) g (idle_turn E l)"
proof -
  have i: "idle_turn E l = snd (check_request_timeouts E (snd (tick_active E l)))"
    using assms by (simp add: waits_def idle_turn_open actor_watchdog_tick_def)
  have w: "waits h s g (snd (check_request_timeouts E l1)) = waits h s g l1" for l1
    by (simp add: waits_def)
  show ?thesis
  proof (cases "current_time E < h + s")
    case True
    then have "snd (tick_active E l) \<in> {l, had_outbound E True l}"
      using assms by (intro tick_active_early) (simp add: waits_def)
    then have "waits h s g (snd (tick_active E l))" using assms waits_had_outbound by auto
    then show ?thesis using True i w by simp
  next
    case False
    then obtain l1 where l1: "l1 \<in> {l, had_outbound E True l}" "snd (tick_active E l) =
        l1\<lparr>ln_state := STATE_STALE, ln_status := STATE_STALE, ln_stale_since := Some (current_time E),
         ln_stale_grace := (case ln_rtt l1 of Some rtt \<Rightarrow> rtt | None \<Rightarrow> 0) * ln_keepalive_timeout_factor l1 + STALE_GRACE\<rparr>"
      using tick_active_late [of l E] assms by (auto simp add: waits_def)
    have "waits h s g l1" using l1(1) assms waits_had_outbound by auto
    then have "expires (current_time E) g (idle_turn E l)"
      unfolding i l1(2) by (simp add: waits_def expires_def grace_secs_def)
    then show ?thesis by blast
  qed
qed

lemma idle_expires:
  assumes "expires t g l"
  shows "expires t g (idle_turn E l) \<or> timed_out (idle_turn E l)"
    and "current_time E \<ge> t + g \<Longrightarrow> timed_out (idle_turn E l)"
  using assms timed_out_teardown [of E l]
  by (auto simp add: expires_def idle_turn_open actor_watchdog_tick_def tick_stale_def timed_out_def)

lemma expires_mono: "expires t g l \<Longrightarrow> t \<le> t' \<Longrightarrow> expires t' g l"
  by (auto simp add: expires_def)

lemma idle_turns_expires:
  assumes "expires t g l \<or> timed_out l"
  shows "expires t g (idle_turns Es l) \<or> timed_out (idle_turns Es l)"
  using assms
proof (induction Es arbitrary: l)
  case (Cons E Es)
  have "expires t g (idle_turn E l) \<or> timed_out (idle_turn E l)"
    using Cons.prems idle_expires(1) [of t g l E] timed_out_stays [of l "[E]"] by (auto simp add: idle_turns_def)
  then show ?case using Cons.IH by (simp add: idle_turns_def)
qed (simp add: idle_turns_def)

lemma idle_turns_waits:
  assumes "waits h s g l" "\<forall>E \<in> set Es. current_time E \<le> t"
  shows "waits h s g (idle_turns Es l) \<or> expires t g (idle_turns Es l) \<or> timed_out (idle_turns Es l)"
  using assms
proof (induction Es arbitrary: l)
  case (Cons E Es)
  from idle_waits [OF Cons.prems(1), of E] show ?case
  proof
    assume "waits h s g (idle_turn E l) \<and> current_time E < h + s"
    then show ?thesis using Cons.IH [of "idle_turn E l"] Cons.prems(2) by (simp add: idle_turns_def)
  next
    assume "expires (current_time E) g (idle_turn E l)"
    then have "expires t g (idle_turn E l)" using Cons.prems(2) expires_mono by fastforce
    then show ?thesis using idle_turns_expires [of t g "idle_turn E l" Es] by (simp add: idle_turns_def)
  qed
qed (simp add: idle_turns_def)

lemma idle_turns_append: "idle_turns (Es @ Fs) l = idle_turns Fs (idle_turns Es l)"
  by (simp add: idle_turns_def)

lemma active_times_out:
  assumes w: "waits h s g l" and before: "\<forall>E \<in> set Es. current_time E \<le> current_time A"
    and A: "current_time A \<ge> h + s" and B: "current_time B \<ge> current_time A + g"
  shows "timed_out (idle_turns (Es @ [A] @ Fs @ [B] @ Gs) l)"
proof -
  let ?t = "current_time A"
  let ?l1 = "idle_turns Es l" and ?l2 = "idle_turns (Es @ [A]) l"
  have "waits h s g ?l1 \<or> expires ?t g ?l1 \<or> timed_out ?l1" by (rule idle_turns_waits [OF w before])
  then have "expires ?t g ?l2 \<or> timed_out ?l2"
    using idle_waits [of h s g ?l1 A] A idle_turns_expires [of ?t g ?l1 "[A]"] by (auto simp add: idle_turns_def)
  then have "expires ?t g (idle_turns Fs ?l2) \<or> timed_out (idle_turns Fs ?l2)"
    by (rule idle_turns_expires)
  then have "timed_out (idle_turns [B] (idle_turns Fs ?l2))"
    using idle_expires(2) [of ?t g "idle_turns Fs ?l2" B] B timed_out_stays [of "idle_turns Fs ?l2" "[B]"] by (auto simp add: idle_turns_def)
  from timed_out_stays [OF this, of Gs] show ?thesis by (simp add: idle_turns_def)
qed

lemma stale_times_out:
  assumes "ln_state l = STATE_STALE" "\<not> ln_watchdog_lock l" "ln_stale_since l = Some s" "E \<in> set Es"
    "current_time E \<ge> s + max (as_u64 (ln_stale_grace l)) 1"
  shows "timed_out (idle_turns Es l)"
proof -
  let ?g = "max (as_u64 (ln_stale_grace l)) 1"
  from assms(4) obtain Fs Gs where Es: "Es = Fs @ [E] @ Gs" by (auto simp add: in_set_conv_decomp)
  have "expires s ?g l" using assms(1-3) by (simp add: expires_def)
  then have "expires s ?g (idle_turns Fs l) \<or> timed_out (idle_turns Fs l)" using idle_turns_expires by blast
  then have "timed_out (idle_turns [E] (idle_turns Fs l))"
    using idle_expires(2) [of s ?g "idle_turns Fs l" E] assms(5) timed_out_stays [of "idle_turns Fs l" "[E]"] by (auto simp add: idle_turns_def)
  from timed_out_stays [OF this, of Gs] show ?thesis by (simp add: Es idle_turns_def)
qed

text \<open>
  The times at which an open link that hears nothing acts: the establishment timeout, the stale time followed by the grace
  period, or what is left of the grace period.
\<close>

definition overslept :: "link \<Rightarrow> link_env list \<Rightarrow> bool" where
  "overslept l Es \<longleftrightarrow>
     (if ln_state l = STATE_PENDING \<or> ln_state l = STATE_HANDSHAKE then
        \<exists>t. ln_request_time l = Some t \<and> (\<exists>E\<in>set Es. le_now E \<ge> t + ln_establishment_timeout l)
      else if ln_state l = STATE_ACTIVE then
        \<exists>Fs A Gs B Hs. Es = Fs @ [A] @ Gs @ [B] @ Hs \<and> (\<forall>F\<in>set Fs. current_time F \<le> current_time A)
          \<and> current_time A \<ge> heard_at l + as_u64 (ln_stale_time l) \<and> current_time B \<ge> current_time A + grace_secs l
      else
        \<exists>s. ln_stale_since l = Some s \<and> (\<exists>E\<in>set Es. current_time E \<ge> s + max (as_u64 (ln_stale_grace l)) 1))"

lemma overslept_active:
  assumes "ln_state l = STATE_ACTIVE" "\<forall>F\<in>set Fs. current_time F \<le> current_time A"
    "current_time A \<ge> heard_at l + as_u64 (ln_stale_time l)" "current_time B \<ge> current_time A + grace_secs l"
  shows "overslept l (Fs @ [A] @ Gs @ [B] @ Hs)"
proof -
  have "\<not> (ln_state l = STATE_PENDING \<or> ln_state l = STATE_HANDSHAKE)" using assms(1) by simp
  then show ?thesis unfolding overslept_def using assms by (simp only: if_False if_True refl) blast
qed

text \<open>
  C5. A link nothing comes in on is closed, with the reason that it timed out, whatever the times of the actor's turns, in every
  open state: while it is being established, at the first turn after the establishment timeout; once it is active, at a turn
  that is the grace period after one that is later than its stale time; when it is stale already, at the first turn after
  the grace period. Two conditions are needed. The watchdog must not be locked: a packet that fails to be handled leaves
  it locked, and then the link never times out. And the keepalive interval of an active link must not be longer than its
  stale time, which \<^verbatim>\<open>new\<close> and \<^verbatim>\<open>update_keepalive\<close> establish.
\<close>

theorem silent_link_closes:
  assumes open_state: "ln_state l \<in> {STATE_PENDING, STATE_HANDSHAKE, STATE_ACTIVE, STATE_STALE}" and unlocked: "\<not> ln_watchdog_lock l"
    and keepalive: "ln_state l = STATE_ACTIVE \<longrightarrow> as_u64 (ln_keepalive l) \<le> as_u64 (ln_stale_time l)"
    and late: "overslept l Es"
  shows "ln_state (idle_turns Es l) = STATE_CLOSED \<and> ln_teardown_reason (idle_turns Es l) = REASON_TIMEOUT"
proof -
  consider (establishing) "ln_state l = STATE_PENDING \<or> ln_state l = STATE_HANDSHAKE" | (active) "ln_state l = STATE_ACTIVE"
    | (stale) "ln_state l = STATE_STALE" using open_state by blast
  then have "timed_out (idle_turns Es l)"
  proof cases
    case establishing
    then show ?thesis using late unlocked establishing_times_out [of l] by (auto simp add: overslept_def)
  next
    case active
    then obtain Fs A Gs B Hs where "Es = Fs @ [A] @ Gs @ [B] @ Hs" "\<forall>F\<in>set Fs. current_time F \<le> current_time A"
      "current_time A \<ge> heard_at l + as_u64 (ln_stale_time l)" "current_time B \<ge> current_time A + grace_secs l"
      using late by (auto simp add: overslept_def)
    then show ?thesis
      using active unlocked keepalive active_times_out [of "heard_at l" "as_u64 (ln_stale_time l)" "grace_secs l" l Fs A B Gs Hs]
      by (simp add: waits_def)
  next
    case stale
    then obtain s E where "ln_stale_since l = Some s" "E \<in> set Es" "current_time E \<ge> s + max (as_u64 (ln_stale_grace l)) 1"
      using late by (auto simp add: overslept_def)
    then show ?thesis using stale unlocked stale_times_out by blast
  qed
  then show ?thesis by (simp add: timed_out_def)
qed

theorem silent_link_closes_witness:
  "ln_state (idle_turns [demo_link_env 3, demo_link_env 800, demo_link_env 900]
     ((new_outbound (demo_link_env 0) [] demo_destination MODE_AES256_CBC)\<lparr>ln_state := STATE_ACTIVE\<rparr>)) = STATE_CLOSED
   \<and> ln_state (idle_turns [demo_link_env 3, demo_link_env 20]
     ((new_outbound (demo_link_env 0) [] demo_destination MODE_AES256_CBC)\<lparr>ln_state := STATE_STALE, ln_stale_since := Some 4\<rparr>)) = STATE_CLOSED"
proof -
  let ?n = "new_outbound (demo_link_env 0) [] demo_destination MODE_AES256_CBC"
  let ?l = "?n\<lparr>ln_state := STATE_ACTIVE\<rparr>" and ?m = "?n\<lparr>ln_state := STATE_STALE, ln_stale_since := Some 4\<rparr>"
  have f: "grace_secs ?l = 5" "heard_at ?l = 0" "as_u64 (ln_stale_time ?l) = 720" "as_u64 (ln_keepalive ?l) = 360"
    "as_u64 (ln_stale_grace ?m) = 5" "current_time (demo_link_env x) = nat \<lfloor>x\<rfloor>" "\<not> ln_watchdog_lock ?l" "\<not> ln_watchdog_lock ?m" for x
    by (simp_all add: grace_secs_def heard_at_def new_outbound_def new_link_def as_u64_def current_time_def demo_link_env_def)
  have "overslept ?l [demo_link_env 3, demo_link_env 800, demo_link_env 900]"
    using overslept_active [of ?l "[demo_link_env 3]" "demo_link_env 800" "demo_link_env 900" "[]" "[]"] f(1-3,6) by simp
  moreover have "overslept ?m [demo_link_env 3, demo_link_env 20]"
    using f(5,6) by (simp add: overslept_def)
  ultimately show ?thesis
    using silent_link_closes [of ?l "[demo_link_env 3, demo_link_env 800, demo_link_env 900]"]
      silent_link_closes [of ?m "[demo_link_env 3, demo_link_env 20]"] f
    by simp
qed

section \<open>A forged proof\<close>

lemma idle_turns_locked:
  assumes "ln_watchdog_lock l" "ln_state l \<noteq> STATE_CLOSED"
  shows "ln_state (idle_turns Es l) = ln_state l"
  using assms
  by (induction Es arbitrary: l) (simp_all add: idle_turns_def idle_turn_locked)

lemma proof_ignored:
  assumes "ln_state l = STATE_HANDSHAKE" "p_packet_type p = PROOF" "p_context p \<noteq> RESOURCE_PRF"
  shows "\<exists>l'. link_receive E p l = (Inr (), [], l') \<and> ln_state l' = STATE_HANDSHAKE"
  using assms
  by (simp add: link_receive_open handle_packet_def handle_proof_packet_def handle_link_proof_def Let_def)

text \<open>
  C37. A proof that nobody signed stops the link. The initiator performs the handshake with the key of the proof before it
  checks the signature, so a proof of the right length and mode with a wrong signature leaves the link in the handshake state
  with a key agreed with the forger and the watchdog locked: it does not time out however long it waits, and when
  the destination's own proof comes it is ignored.
\<close>

theorem forged_proof_blocks_link:
  assumes c: "crypto_ok c" "le_crypto E = c"
    and l: "ln_state l = STATE_PENDING" "ln_initiator l" "ln_prv_bytes l = Some prv" "ln_mode l = MODE_AES256_CBC" "length prv = 32"
    and i: "d_identity (ln_destination l) = Some i" "knows i eP sP" "length eP = 32" "length sP = 32"
    and p: "p_packet_type p = PROOF" "p_context p = LRPROOF" "p_data p = sig @ peer @ mtu_signalling" "length peer = 32" "length sig = 64"
    and forged: "\<not> c_ed_verify c sP (ln_link_id l @ peer @ sP @ mtu_signalling) sig"
  shows "\<exists>l'. link_receive E p l = (Inl (Err ''Invalid link proof signature''), [], l')
    \<and> ln_derived_key l' = Some (derive_key_hkdf c (ln_link_id l) (c_dh c prv peer) 64)
    \<and> (\<forall>Es. ln_state (idle_turns Es l') = STATE_HANDSHAKE)
    \<and> (\<forall>E' q. p_packet_type q = PROOF \<and> p_context q = LRPROOF \<longrightarrow>
         (\<exists>l''. link_receive E' q l' = (Inr (), [], l'') \<and> ln_state l'' = STATE_HANDSHAKE))"
proof -
  let ?r = "received E p l"
  obtain t where h: "handle_link_proof E p ?r = (Inl (Err ''Invalid link proof signature''), [], shaken c prv peer sP t ?r)"
    using link_proof_eq [of c E ?r prv i eP sP p sig peer] assms by auto
  let ?l' = "shaken c prv peer sP t ?r"
  have 1: "link_receive E p l = (Inl (Err ''Invalid link proof signature''), [], ?l')"
    using h l(1) p(1,2) by (simp add: link_receive_open handle_packet_def handle_proof_packet_def)
  have 2: "ln_state ?l' = STATE_HANDSHAKE" "ln_watchdog_lock ?l'" by (simp_all add: shaken_def)
  have 3: "ln_derived_key ?l' = Some (derive_key_hkdf c (ln_link_id l) (c_dh c prv peer) 64)" by (simp add: shaken_def)
  have 4: "ln_state (idle_turns Es ?l') = STATE_HANDSHAKE" for Es using idle_turns_locked [of ?l' Es] 2 by simp
  have 5: "\<exists>l''. link_receive E' q ?l' = (Inr (), [], l'') \<and> ln_state l'' = STATE_HANDSHAKE"
    if "p_packet_type q = PROOF" "p_context q = LRPROOF" for E' q
    using proof_ignored [OF 2(1), of q E'] that by simp
  from 1 3 4 5 show ?thesis by blast
qed

text \<open>A signature scheme that refuses everything, for the witness.\<close>

definition forging_env :: link_env where
  "forging_env = (demo_link_env 2)\<lparr>le_crypto := toy_crypto\<lparr>c_ed_verify := (\<lambda>k m s. False)\<rparr>\<rparr>"

theorem forged_proof_blocks_link_witness:
  "\<exists>l'. link_receive forging_env
      ((new_packet None [] PROOF LRPROOF BROADCAST HEADER_1 None None False 0)\<lparr>p_data := replicate 96 9 @ mtu_signalling\<rparr>)
      ((new_outbound (demo_link_env 0) [] demo_destination MODE_AES256_CBC)\<lparr>ln_prv_bytes := Some (replicate 32 7)\<rparr>)
    = (Inl (Err ''Invalid link proof signature''), [], l') \<and> (\<forall>Es. ln_state (idle_turns Es l') = STATE_HANDSHAKE)"
proof -
  let ?c = "toy_crypto\<lparr>c_ed_verify := (\<lambda>k m s. False)\<rparr>"
  let ?l = "(new_outbound (demo_link_env 0) [] demo_destination MODE_AES256_CBC)\<lparr>ln_prv_bytes := Some (replicate 32 7)\<rparr>"
  let ?p = "(new_packet None [] PROOF LRPROOF BROADCAST HEADER_1 None None False 0)\<lparr>p_data := replicate 96 9 @ mtu_signalling\<rparr>"
  have c: "crypto_ok ?c" using toy_crypto_ok by (simp add: crypto_ok_def)
  have d: "replicate 96 9 @ mtu_signalling = replicate 64 9 @ replicate 32 9 @ mtu_signalling"
    by (simp add: replicate_add [symmetric] append_assoc [symmetric] del: append_assoc)
  have l: "ln_state ?l = STATE_PENDING" "ln_initiator ?l" "ln_prv_bytes ?l = Some (replicate 32 7)" "ln_mode ?l = MODE_AES256_CBC"
    "d_identity (ln_destination ?l) = Some demo_identity"
    by (simp_all add: new_outbound_def new_link_def demo_destination_def)
  have k: "knows demo_identity (replicate 32 2) (replicate 32 4)" by (simp add: knows_def demo_identity_def)
  have p: "p_packet_type ?p = PROOF" "p_context ?p = LRPROOF" "p_data ?p = replicate 64 9 @ replicate 32 9 @ mtu_signalling"
    by (simp_all add: new_packet_def d)
  show ?thesis
    using forged_proof_blocks_link [OF c, of forging_env ?l "replicate 32 7" demo_identity "replicate 32 2" "replicate 32 4" ?p "replicate 64 9" "replicate 32 9"] l k p
    by (auto simp add: forging_env_def)
qed

section \<open>Rejections\<close>

text \<open>
  C38. An advertised request that is larger than the destination takes is neither accepted nor answered. The rejection goes to the
  destination of the advertisement's packet, and a packet from the network has none: the link is left as it
  is, nothing is sent, and the sender is not told.
\<close>

theorem oversized_request_unanswered:
  assumes p: "unpack (c_sha (le_crypto E)) raw = (True, p)" "p_destination raw = None" "p_context p = RESOURCE_ADV"
    and l: "link_decrypt E l (p_data p) = Inr plaintext" "ln_request_handlers l \<noteq> []" "ln_max_request_size l = Some n"
    and adv: "unpack_adv E plaintext = Some adv" "is_request adv" "ad_d adv > n"
  shows "handle_data_packet E p l = (Inr (), [], l)"
proof -
  have "p_destination p = None"
    using p(1,2) by (auto simp add: unpack_def unpack_addresses_def unpack_flags_def update_hash_def Let_def split: if_splits)
  then show ?thesis
    using assms(3-) by (simp add: handle_data_packet_def handle_resource_adv_def handle_request_adv_def resource_reject_def size_ok_def ok_result_def)
qed

text \<open>An advertisement of a large request, as it comes from an interface.\<close>

definition large_adv :: advertisement where
  "large_adv = \<lparr> ad_t = 10, ad_d = 100, ad_n = 1, ad_h = [1], ad_r = [], ad_o = [1], ad_i = 1, ad_l = 1, ad_q = Some [7], ad_f = 8, ad_m = [] \<rparr>"

definition adv_env :: link_env where
  "adv_env = (demo_link_env 1)\<lparr>le_read_adv := (\<lambda>x. Some large_adv)\<rparr>"

definition adv_packet :: packet where
  "adv_packet = new_packet None ([0x0C, 0] @ replicate 16 6 @ [RESOURCE_ADV] @ replicate 16 3 @ [1] @ replicate 32 17) 0 0 0 0 None None False 0"

definition busy_link :: link where
  "busy_link = (new_inbound (demo_link_env 0) [] demo_destination [([], \<lparr> rh_path = [], rh_allow_policy = ALLOW_ALL, rh_allowed_list = None,
     rh_callback = True, rh_proven_callback = False, rh_auto_compress = True \<rparr>)] (Some 50))\<lparr>ln_derived_key := Some (replicate 64 1)\<rparr>"

theorem oversized_request_unanswered_witness:
  "\<exists>p. unpack (c_sha toy_crypto) adv_packet = (True, p) \<and> handle_data_packet adv_env p busy_link = (Inr (), [], busy_link)"
proof -
  have c: "le_crypto adv_env = toy_crypto" by (simp add: adv_env_def demo_link_env_def)
  let ?data = "replicate 16 3 @ [1] @ replicate 32 17"
  obtain p where u: "unpack (c_sha toy_crypto) adv_packet = (True, p)" "p_data p = ?data" "p_context p = RESOURCE_ADV"
    by (simp add: unpack_def adv_packet_def new_packet_def unpack_addresses_def unpack_flags_def update_hash_def Let_def nth_append)
  have d: "link_decrypt adv_env busy_link (p_data p) = Inr [1]"
    by (simp add: u(2) link_decrypt_def c busy_link_def Token_new_def Token_decrypt_def toy_crypto_def aes256_lengths_def byte_range_def)
  have a: "unpack_adv adv_env [1] = Some large_adv" "is_request large_adv" "ad_d large_adv > 50"
    by (simp_all add: unpack_adv_def adv_env_def large_adv_def adv_unpack_def is_request_def adv_flag_def bit_iff_odd)
  have r: "p_destination adv_packet = None" "ln_request_handlers busy_link \<noteq> []" "ln_max_request_size busy_link = Some 50"
    by (simp_all add: adv_packet_def new_packet_def busy_link_def new_inbound_def new_link_def)
  show ?thesis
    using oversized_request_unanswered [of adv_env, unfolded c, OF u(1) r(1) u(3) d r(2,3) a] u(1) by blast
qed

end
