(* ===== verification/Link_Requests.thy ===== *)
theory Link_Requests
  imports Link_Liveness "HOL-Library.Multiset"
begin

text \<open>
  The requests of a link: every one that it takes up is pending or has concluded, once.
\<close>

section \<open>Requests conclude once\<close>

text \<open>
  A request is followed by the number of its callbacks: the one for the response and the one for the failure have the same.
\<close>

fun conclusion :: "link_effect \<Rightarrow> nat list" where
  "conclusion (RunResponse n d) = [n]"
| "conclusion (RunFailed n i) = [n]"
| "conclusion _ = []"

definition conclusions :: "link_effect list \<Rightarrow> nat multiset" where
  "conclusions es = mset (concat (map conclusion es))"

definition paired :: "pending_request \<Rightarrow> bool" where
  "paired p \<longleftrightarrow> pr_response_callback p \<noteq> None \<and> pr_failed_callback p = pr_response_callback p"

definition tag :: "pending_request \<Rightarrow> nat" where
  "tag p = the (pr_failed_callback p)"

definition tags :: "link \<Rightarrow> nat multiset" where
  "tags l = image_mset tag (mset (ln_pending_requests l))"

text \<open>A step that takes up the requests \<open>new\<close> and concludes those in its effects.\<close>

definition settles :: "nat multiset \<Rightarrow> link \<Rightarrow> link_effect list \<times> link \<Rightarrow> bool" where
  "settles new l x \<longleftrightarrow>
     (list_all paired (ln_pending_requests l) \<longrightarrow>
        list_all paired (ln_pending_requests (snd x)) \<and> tags l + new = tags (snd x) + conclusions (fst x))"

lemma conclusions_simps [simp]:
  "conclusions [] = {#}" "conclusions (e # es) = mset (conclusion e) + conclusions es" "conclusions (es @ fs) = conclusions es + conclusions fs"
  by (simp_all add: conclusions_def)

lemma conclusions_inert: "(\<And>e. e \<in> set es \<Longrightarrow> conclusion e = []) \<Longrightarrow> conclusions es = {#}"
  by (induction es) simp_all

lemma settles_inert: "ln_pending_requests l' = ln_pending_requests l \<Longrightarrow> conclusions es = {#} \<Longrightarrow> settles {#} l (es, l')"
  by (simp add: settles_def tags_def)

lemma settles_trans:
  assumes "settles a l (es, l1)" and "settles b l1 (fs, l2)"
  shows "settles (a + b) l (es @ fs, l2)"
proof -
  have "t + (a + b) = t2 + (u + v)" if "t + a = t1 + u" "t1 + b = t2 + v" for t t1 t2 u v :: "nat multiset"
  proof -
    have "t + (a + b) = (t + a) + b" by (rule add.assoc [symmetric])
    also have "\<dots> = (t1 + b) + u" unfolding that(1) by (rule add.assoc [of t1 u b, unfolded add.commute [of u b], folded add.assoc])
    also have "\<dots> = t2 + (u + v)" unfolding that(2) by (simp add: ac_simps)
    finally show ?thesis .
  qed
  then show ?thesis using assms by (simp add: settles_def)
qed

lemma conclusions_fail [simp]: "paired p \<Longrightarrow> conclusions (fail_request p) = {#tag p#}"
  by (auto simp add: fail_request_def tag_def paired_def)

lemma conclusions_response [simp]: "paired p \<Longrightarrow> conclusions (response_received p d) = {#tag p#}"
  by (auto simp add: response_received_def tag_def paired_def split: option.split)

lemma conclusions_fail_all: "list_all paired ps \<Longrightarrow> conclusions (concat (map fail_request ps)) = image_mset tag (mset ps)"
  by (induction ps) simp_all

lemma take_request_Some:
  "take_request i ps = Some (p, qs) \<Longrightarrow> list_all paired ps \<Longrightarrow> paired p \<and> list_all paired qs \<and> image_mset tag (mset ps) = add_mset (tag p) (image_mset tag (mset qs))"
  by (induction ps arbitrary: qs) (auto split: if_splits)

lemma update_request_inert:
  assumes "\<And>p. pr_response_callback (f p) = pr_response_callback p" "\<And>p. pr_failed_callback (f p) = pr_failed_callback p"
  shows "list_all paired (update_request i f ps) = list_all paired ps" "image_mset tag (mset (update_request i f ps)) = image_mset tag (mset ps)"
  using assms by (induction ps) (simp_all add: paired_def tag_def)

lemma settles_link_closed: "settles {#} l (link_closed l)"
  by (simp add: settles_def link_closed_def tags_def Let_def conclusions_fail_all)

lemma settles_teardown: "settles {#} l (teardown E l)"
proof -
  have "conclusions (case (x, y) of (Inr ct, Some iface) \<Rightarrow> [Dispatch iface (f ct)] | _ \<Rightarrow> []) = {#}" for x y and f :: "bytes \<Rightarrow> bytes"
    by (auto split: sum.split option.split)
  then show ?thesis
    by (auto simp add: settles_def teardown_def link_closed_def tags_def had_outbound_def Let_def split_def conclusions_fail_all)
qed

lemma settles_teardown_packet: "settles {#} l (teardown_packet d l)"
  by (simp add: settles_def teardown_packet_def link_closed_def tags_def Let_def split_def conclusions_fail_all)

lemma settles_response_packet: "settles {#} l (handle_response_packet E d l)"
  by (auto simp add: settles_def handle_response_packet_def tags_def Let_def dest!: take_request_Some split: option.split)

lemma settles_request_resource: "settles {#} l (request_resource_concluded E i b l)"
  by (auto simp add: settles_def request_resource_concluded_def tags_def update_request_inert dest: take_request_Some split: option.split)

lemma settles_response_progress: "settles {#} l (response_resource_progress i x l)"
  by (auto simp add: settles_def response_resource_progress_def tags_def update_request_inert split: option.split)

lemma settles_response_resource: "settles {#} l (response_resource_concluded E i completed data_opt l)"
  by (auto simp add: settles_def response_resource_concluded_def tags_def bind_eq_Some_conv dest!: take_request_Some split: option.split)

lemma settles_timeouts: "settles {#} l (check_request_timeouts E l)"
proof -
  have "list_all paired (filter Q ps)" if "list_all paired ps" for Q ps using that by (induction ps) simp_all
  moreover have "image_mset tag (mset ps) = image_mset tag (mset (filter (\<lambda>p. \<not> Q p) ps)) + image_mset tag (mset (filter Q ps))" for Q ps
    by (induction ps) simp_all
  ultimately show ?thesis
    by (auto simp add: settles_def check_request_timeouts_def tags_def Let_def conclusions_fail_all)
qed

named_theorems settling

lemmas [settling] = settles_teardown settles_teardown_packet settles_response_packet settles_request_resource settles_response_progress
  settles_response_resource settles_timeouts

lemma settles_id [simp]: "settles {#} l ([], l)"
  by (rule settles_inert) simp_all

lemma settles_core: "settles {#} l (es, l') \<Longrightarrow> ln_pending_requests l'' = ln_pending_requests l' \<Longrightarrow> settles {#} l (es, l'')"
  by (simp add: settles_def tags_def)

lemma settles_start: "ln_pending_requests l' = ln_pending_requests l \<Longrightarrow> settles new l' x \<Longrightarrow> settles new l x"
  by (simp add: settles_def tags_def)

lemma settles_accept [settling]: "settles {#} l (snd (accept_advertised_resource E adv cb pcb i l))"
  by (auto simp add: accept_advertised_resource_def register_incoming_resource_def intro!: settles_inert split: option.split)

lemma on_resources_inert:
  assumes "\<And>r. conclusions (fst (f r)) = {#} \<and> conclusions (fst (snd (f r))) = {#}"
  shows "conclusions (fst (on_resources f rs)) = {#} \<and> conclusions (fst (snd (on_resources f rs))) = {#}"
proof (induction rs)
  case (Cons r rs)
  then show ?case using assms [of r] by (simp add: split_def)
qed simp

lemma conclusions_OnResource [simp]: "conclusions (map (OnResource h) es) = {#}"
  by (rule conclusions_inert) auto

lemma settles_resource_part [settling]: "settles {#} l (receive_resource_part E p l)"
proof -
  let ?f = "\<lambda>r. case receive_part (le_resource E) (resource_link_context l) (p_data p) (length (p_raw p)) (le_now E) r of
      ((next_due, watchdog_due), es, r') \<Rightarrow> (map (OnResource (rs_hash r)) es, (if watchdog_due then [ResourceStartWatchdog (rs_hash r)] else [])
         @ (if next_due then [ResourceRequestNext (rs_hash r)] else []), r')"
  have "conclusions (fst (?f r)) = {#} \<and> conclusions (fst (snd (?f r))) = {#}" for r by (simp add: split_def)
  from on_resources_inert [of ?f "ln_incoming l", OF this] show ?thesis
    unfolding receive_resource_part_def by (simp add: split_def settles_inert)
qed

lemma settles_hashmap_update [settling]: "settles {#} l (receive_hashmap_update E d l)"
proof -
  let ?f = "\<lambda>r. if rs_hash r = take HASH_BYTES d then
                    (case hashmap_update_packet (le_resource E) d (le_now E) r of
                       (next_due, es, r') \<Rightarrow>
                         (map (OnResource (rs_hash r)) es, if next_due then [ResourceRequestNext (rs_hash r)] else [], r'))
                  else ([], [], r)"
  have f: "conclusions (fst (?f r)) = {#} \<and> conclusions (fst (snd (?f r))) = {#}" for r by (simp add: split_def)
  have "conclusion (last ds) = []" if "ds \<noteq> []" "conclusions ds = {#}" for ds
    using that by (induction ds) (auto split: if_splits)
  with on_resources_inert [of ?f "ln_incoming l", OF f] show ?thesis
    unfolding receive_hashmap_update_def by (simp add: split_def settles_inert)
qed

lemma conclusions_reject [simp]: "conclusions (resource_reject p adv) = {#}"
  by (simp add: resource_reject_def split: option.split)

lemma settles_request_adv [settling]: "settles {#} l (handle_request_adv E p adv l)"
  by (auto simp add: handle_request_adv_def settling intro: settles_inert)

lemma settles_response_adv [settling]: "settles {#} l (handle_response_adv E p adv l)"
proof (cases "ad_q adv")
  case (Some i)
  show ?thesis
  proof (cases "take_request i (ln_pending_requests l)")
    case None
    then show ?thesis using Some by (simp add: handle_response_adv_def)
  next
    case (Some x)
    obtain r rs where x: "x = (r, rs)" by fastforce
    let ?f = "\<lambda>r. r\<lparr>pr_receiving_response := True, pr_status := ReqReceiving,
                  pr_response_size := (case pr_response_size r of None \<Rightarrow> Some (ad_d adv) | Some n \<Rightarrow> Some n),
                  pr_response_transfer_size := Some ((case pr_response_transfer_size r of None \<Rightarrow> 0 | Some n \<Rightarrow> n) + ad_t adv),
                  pr_started_at := (case pr_started_at r of None \<Rightarrow> Some (le_now E) | Some t \<Rightarrow> Some t)\<rparr>"
    let ?l = "l\<lparr>ln_pending_requests := update_request i ?f (ln_pending_requests l)\<rparr>"
    have u: "settles {#} l ([], ?l)" by (simp add: settles_def tags_def update_request_inert)
    have a: "settles {#} l (es @ es', l')" if "accept_advertised_resource E adv True True (Some i) ?l = (res, es, l')" "conclusions es' = {#}" for res es es' l'
      using settles_trans [OF settles_trans [OF u], of "{#}" es l' "{#}" es' l'] settles_accept [of ?l E adv True True "Some i"] that
        settles_inert [of l' l' es'] by simp
    show ?thesis
    proof (cases "size_ok (pr_max_response_size r) (ad_d adv)")
      case True
      then show ?thesis
        using \<open>ad_q adv = Some i\<close> Some x a [of _ _ _ "[]"] a
        by (auto simp add: handle_response_adv_def Let_def split: option.split prod.split)
    next
      case False
      then show ?thesis
        using \<open>ad_q adv = Some i\<close> Some x take_request_Some [of i "ln_pending_requests l" r rs]
        by (auto simp add: handle_response_adv_def settles_def tags_def)
    qed
  qed
qed (simp add: handle_response_adv_def)

lemma settles_resource_adv [settling]: "settles {#} l (handle_resource_adv E p l)"
  by (auto simp add: handle_resource_adv_def settling intro: settles_inert split: sum.split option.split)

lemma conclusions_prove_packet [simp]: "conclusions (prove_packet E p l) = {#}"
  by (simp add: prove_packet_def Let_def split: sum.split)

lemma conclusions_handle_request [simp]: "conclusions (handle_request_packet E i d l) = {#}"
  by (simp add: handle_request_packet_def split: option.split prod.split)

lemma settles_keepalive [settling]: "settles {#} l (handle_keepalive E p l)"
  by (auto simp add: handle_keepalive_def prepare_keepalive_def had_outbound_def Let_def intro: settles_inert)

lemma settles_linkidentify: "settles {#} l ([], snd (handle_linkidentify_packet E d l))"
  by (auto simp add: handle_linkidentify_packet_def Let_def intro: settles_inert split: sum.split)

lemma snd_ok [simp]: "snd (ok_result x) = x"
  by (simp add: ok_result_def)

lemma settles_plaintext [settling]: "settles {#} l (snd (handle_plaintext E p d l))"
  using settles_linkidentify [of l E d]
  by (auto simp add: handle_plaintext_def split_def settling intro: settles_inert split: option.split)

lemma settles_data_packet [settling]: "settles {#} l (snd (handle_data_packet E p l))"
proof -
  have "settles {#} l (snd (handle_lrrtt_packet E d l))" for d
    by (auto simp add: handle_lrrtt_packet_def update_keepalive_def Let_def intro: settles_inert split: option.split)
  then show ?thesis
    by (simp add: handle_data_packet_def settling split: sum.split)
qed

lemma pending_load_peer: "ln_pending_requests (snd (load_peer a b l)) = ln_pending_requests l"
  by (simp add: load_peer_def)

lemma pending_handshake: "ln_pending_requests (snd (handshake c l)) = ln_pending_requests l"
  by (auto simp add: handshake_def Let_def split: option.split sum.split)

lemma settles_activate: "settles {#} l (snd (activate E p l))"
  by (auto simp add: activate_def send_lrrtt_def update_keepalive_def update_mdu_def had_outbound_def Let_def
      intro!: settles_inert split: option.split sum.split)

lemma settles_link_proof [settling]: "settles {#} l (snd (handle_link_proof E p l))"
proof -
  have "settles {#} l (snd (activate E p l'))" if "ln_pending_requests l' = ln_pending_requests l" for l'
    using settles_start [OF that settles_activate] .
  then show ?thesis
    using pending_load_peer pending_handshake
    by (auto simp add: handle_link_proof_def Let_def intro: settles_inert split: option.split sum.split prod.split) (metis snd_conv settles_inert conclusions_simps(1))+
qed

lemma settles_proof_packet [settling]: "settles {#} l (snd (handle_proof_packet E p l))"
  by (auto simp add: handle_proof_packet_def settling intro: settles_inert)

lemma settles_receive [settling]: "settles {#} l (snd (link_receive E p l))"
proof (cases "ln_state l = STATE_CLOSED")
  case True
  then show ?thesis by (simp add: link_receive_closed settles_inert)
next
  case False
  obtain r es l1 where h: "handle_packet E p (received E p l) = (r, es, l1)" by (cases "handle_packet E p (received E p l)") auto
  have "settles {#} (received E p l) (snd (handle_packet E p (received E p l)))"
    by (simp add: handle_packet_def settling)
  then have *: "settles {#} l (es, l1)" using h settles_start [of "received E p l" l] by simp
  then show ?thesis
    using False h settles_core [OF *] by (cases r) (simp_all add: link_receive_open)
qed

lemma settles_tick [settling]: "settles {#} l (actor_watchdog_tick E l)"
proof -
  have "settles {#} l (tick_active E l)"
    by (auto simp add: tick_active_def prepare_keepalive_def had_outbound_def Let_def split_def intro!: settles_inert)
  moreover have t: "settles {#} l (teardown E (l\<lparr>ln_teardown_reason := x\<rparr>))" for x
    by (rule settles_start [OF _ settles_teardown]) simp
  then have "settles {#} l (tick_stale E l)" "settles {#} l (tick_establishing E l)"
    by (simp_all add: tick_stale_def tick_establishing_def split: option.split)
  ultimately show ?thesis by (simp add: actor_watchdog_tick_def)
qed

lemma settles_housekeeping [settling]: "settles {#} l (actor_housekeeping E l)"
proof -
  have "settles {#} l (es @ fst (check_request_timeouts E l1), snd (check_request_timeouts E l1))" if "settles {#} l (es, l1)" for es l1
    using settles_trans [OF that, of "{#}"] settles_timeouts [of l1 E] by simp
  from this [of "[]" l] this [of "fst (actor_watchdog_tick E l)" "snd (actor_watchdog_tick E l)"] show ?thesis
    using settles_tick [of l E] by (simp add: actor_housekeeping_def split_def)
qed

lemma conclusions_set_packet_callback: "conclusions (fst (set_packet_callback E b l)) = {#}"
proof -
  have "conclusions (concat (map (\<lambda>(_, p). prove_packet E p l') xs)) = {#}" "conclusions (map (\<lambda>(d, _). RunPacket d) xs) = {#}"
    for l' and xs :: "(bytes \<times> packet) list"
    by (induction xs) (simp_all add: split_def)
  then show ?thesis by (simp add: set_packet_callback_def Let_def)
qed

text \<open>The requests that a message starts: none where it is refused with nothing sent.\<close>

fun accepted :: "link_env \<Rightarrow> link_msg \<Rightarrow> link \<Rightarrow> nat multiset" where
  "accepted E (MRequest path d (Some n) fcb pcb timeout max_size) l =
     (if fst (snd (link_request E path d (Some n) fcb pcb timeout max_size l)) = [] then {#} else {#n#})"
| "accepted E m l = {#}"

fun tagged :: "link_msg \<Rightarrow> bool" where
  "tagged (MRequest path d rcb fcb pcb timeout max_size) \<longleftrightarrow> rcb \<noteq> None \<and> fcb = rcb"
| "tagged _ \<longleftrightarrow> True"

lemma settles_link_request:
  "settles (if fst (snd (link_request E path d (Some n) (Some n) pcb t mx l)) = [] then {#} else {#n#}) l
     (snd (link_request E path d (Some n) (Some n) pcb t mx l))"
  by (auto simp add: link_request_def request_as_resource_def new_pending_request_def fail_request_def settles_def tags_def paired_def tag_def Let_def
      split: sum.split option.split)

lemma settles_message: "tagged m \<Longrightarrow> settles (accepted E m l) l (handle_message E m l)"
proof (cases m)
  case (MRequest path d rcb fcb pcb t mx)
  moreover assume "tagged m"
  ultimately show ?thesis using settles_link_request [of E path d _ pcb t mx l] by (cases rcb) auto
next
  case (MSetPacketCallback b)
  then show ?thesis
    using conclusions_set_packet_callback [of E b l] settles_inert [of "snd (set_packet_callback E b l)" l "fst (set_packet_callback E b l)"]
    by (simp add: set_packet_callback_def Let_def split: if_splits)
next
  case (MInitiate prv sprv h t)
  then show ?thesis
    by (auto simp add: initiate_def initiate_prepare_def initiate_send_def had_outbound_def Let_def intro: settles_inert split: sum.split)
next
  case (MAdvertisedResourceDecision p adv b)
  then show ?thesis
    by (simp add: advertised_resource_decision_def settling settles_inert)
qed (auto simp add: settling send_packet_def link_identify_def send_response_def send_request_response_def send_proven_request_response_def
      had_outbound_def register_outgoing_resource_def register_incoming_resource_def resource_concluded_def cancel_outgoing_resource_def
      cancel_incoming_resource_def set_expected_rate_def Let_def intro!: settles_inert split: sum.split option.split)

lemma settles_actor_receive_alone:
  assumes "actor_receive E [] p l = (es, ds, l')"
  shows "settles {#} l (es, l')"
proof -
  obtain r es1 l1 where r: "link_receive E p l = (r, es1, l1)" by (cases "link_receive E p l") auto
  have 1: "settles {#} l (es1, l1)" using settles_receive [of l E p] r by simp
  from assms obtain es2 where "es = es1 @ es2" "conclusions es2 = {#}" "ln_pending_requests l' = ln_pending_requests l1"
    by (auto simp add: actor_receive_def r Let_def split: if_splits option.splits)
  then show ?thesis using settles_trans [OF 1 settles_inert [of l' l1 es2]] by simp
qed

text \<open>
  The operations on a link, in any order: messages, received packets, the housekeeping of a turn, and the threads. With
  them the requests taken up and all effects so far.
\<close>

inductive link_history :: "link \<Rightarrow> nat multiset \<Rightarrow> link_effect list \<Rightarrow> link \<Rightarrow> bool" for l0 :: link where
  start: "link_history l0 {#} [] l0"
| message: "link_history l0 acc es l \<Longrightarrow> tagged m \<Longrightarrow> handle_message E m l = (es', l') \<Longrightarrow> link_history l0 (acc + accepted E m l) (es @ es') l'"
| packet: "link_history l0 acc es l \<Longrightarrow> actor_receive E [] p l = (es', ds, l') \<Longrightarrow> link_history l0 acc (es @ es') l'"
| housekeeping: "link_history l0 acc es l \<Longrightarrow> actor_housekeeping E l = (es', l') \<Longrightarrow> link_history l0 acc (es @ es') l'"
| serve: "link_history l0 acc es l \<Longrightarrow> serve_resource E h d l = (es', l') \<Longrightarrow> link_history l0 acc (es @ es') l'"
| cancelled: "link_history l0 acc es l \<Longrightarrow> cancel_matching E h l = (es', l') \<Longrightarrow> link_history l0 acc (es @ es') l'"
| refused: "link_history l0 acc es l \<Longrightarrow> reject_matching h l = (es', l') \<Longrightarrow> link_history l0 acc (es @ es') l'"
| proved: "link_history l0 acc es l \<Longrightarrow> prove_matching made h d l = (es', l') \<Longrightarrow> link_history l0 acc (es @ es') l'"
| progress: "link_history l0 acc es l \<Longrightarrow> response_resource_progress i x l = (es', l') \<Longrightarrow> link_history l0 acc (es @ es') l'"
| concluded: "link_history l0 acc es l \<Longrightarrow> response_resource_concluded E j completed data_opt l = (es', l') \<Longrightarrow> link_history l0 acc (es @ es') l'"

lemma conclusions_on_matching: "conclusions (fst (on_matching h f rs)) = {#}"
proof -
  let ?g = "\<lambda>r. if rs_hash r = h then (case f r of (es, r') \<Rightarrow> (map (OnResource h) es, [], r')) else ([], [], r)"
  have "conclusions (fst (?g r)) = {#} \<and> conclusions (fst (snd (?g r))) = {#}" for r by (simp add: split_def)
  from on_resources_inert [of ?g rs, OF this] show ?thesis unfolding on_matching_def by (simp add: split_def)
qed

lemma conclusions_serve_first: "conclusions (fst (serve_first E h d rs)) = {#}"
  by (induction rs) (simp_all add: split_def)

lemma settles_threads [settling]:
  "settles {#} l (serve_resource E h d l)" "settles {#} l (cancel_matching E h l)" "settles {#} l (reject_matching h l)"
  "settles {#} l (prove_matching made h d l)"
  by (auto simp add: serve_resource_def cancel_matching_def reject_matching_def prove_matching_def split_def conclusions_on_matching
      conclusions_serve_first intro!: settles_inert)

lemma settles_history:
  assumes "link_history l0 acc es l"
  shows "settles acc l0 (es, l)"
  using assms
proof (induction rule: link_history.induct)
  case (message acc es l m E es' l')
  then show ?case using settles_trans settles_message [of m E l] by simp
next
  case (packet acc es l E p es' ds l')
  then show ?case using settles_trans [of acc l0 es l "{#}"] settles_actor_receive_alone by simp
next
  case (housekeeping acc es l E es' l')
  then show ?case using settles_trans [of acc l0 es l "{#}"] settles_housekeeping [of l E] by simp
next
  case (serve acc es l E h d es' l')
  then show ?case using settles_trans [of acc l0 es l "{#}"] settles_threads(1) [of l E h d] by simp
next
  case (cancelled acc es l E h es' l')
  then show ?case using settles_trans [of acc l0 es l "{#}"] settles_threads(2) [of l E h] by simp
next
  case (refused acc es l h es' l')
  then show ?case using settles_trans [of acc l0 es l "{#}"] settles_threads(3) [of l h] by simp
next
  case (proved acc es l made h d es' l')
  then show ?case using settles_trans [of acc l0 es l "{#}"] settles_threads(4) [of l made h d] by simp
next
  case (progress acc es l i x es' l')
  then show ?case using settles_trans [of acc l0 es l "{#}"] settles_response_progress [of l i x] by simp
next
  case (concluded acc es l E j completed data_opt es' l')
  then show ?case using settles_trans [of acc l0 es l "{#}"] settles_response_resource [of l E j completed data_opt] by simp
qed simp

text \<open>
  C4. Every request that a link takes up concludes once. At any point of any history of a link, the requests taken up
  are, with their multiplicities, those still pending and those whose response or failure callback has run; and when the link is
  then torn down none is pending: every request has had exactly one of its two callbacks.
\<close>

theorem requests_conclude_once:
  assumes "link_history l0 acc es l" and "ln_pending_requests l0 = []"
  shows "acc = tags l + conclusions es \<and> tags (snd (teardown E l)) = {#} \<and> acc = conclusions (es @ fst (teardown E l))"
proof -
  have 1: "list_all paired (ln_pending_requests l)" "acc = tags l + conclusions es"
    using settles_history [OF assms(1)] assms(2) by (simp_all add: settles_def tags_def)
  have 2: "tags (snd (teardown E l)) = {#}"
    by (simp add: teardown_def link_closed_def tags_def had_outbound_def Let_def split_def)
  have "settles {#} l (teardown E l)" by (rule settles_teardown)
  with 1 2 show ?thesis by (simp add: settles_def ac_simps)
qed

text \<open>
  A large request that the actor takes up in its last turn. A request too large for a packet is put among the pending
  requests without a look at the state of the link, and handed over to be sent as a Resource; this is the turn
  after which the actor of a closed link stops, and the request is still pending then.
\<close>

theorem late_request_pending:
  assumes "ln_state l = STATE_CLOSED" and "le_pack_request E (real (current_time E)) (truncated_hash (c_sha (le_crypto E)) path) d = Inr payload"
    and "length payload > ln_mdu l"
  shows "\<exists>l'. actor_turn E [] (Some (MRequest path d (Some n) (Some n) pcb t mx)) l
      = (False, [SendAsResource payload (truncated_hash (c_sha (le_crypto E)) payload) False], [], l')
    \<and> ln_state l' = STATE_CLOSED \<and> tags l' = tags l + {#n#}"
  using assms
  by (simp add: actor_turn_def actor_handle_message_def link_request_def request_as_resource_def new_pending_request_def tags_def tag_def Let_def)

theorem requests_conclude_once_witness:
  "\<exists>es l. link_history (new_outbound (demo_link_env 0) [] demo_destination MODE_AES256_CBC) {#7#} es l \<and> {#7#} = tags l + conclusions es"
proof -
  let ?l = "new_outbound (demo_link_env 0) [] demo_destination MODE_AES256_CBC"
  let ?m = "MRequest [] (replicate 500 1) (Some 7) (Some 7) None None None"
  obtain es l where h: "handle_message (demo_link_env 1) ?m ?l = (es, l)" by fastforce
  have a: "accepted (demo_link_env 1) ?m ?l = {#7#}"
    by (simp add: link_request_def request_as_resource_def demo_link_env_def new_outbound_def new_link_def Let_def toy_crypto_def truncated_hash_def full_hash_def)
  have "link_history ?l {#7#} es l"
    using link_history.message [OF link_history.start, of ?m "demo_link_env 1" ?l es l] h a by simp
  moreover have "{#7#} = tags l + conclusions es"
    using requests_conclude_once [OF calculation, of "demo_link_env 2"] by (simp add: new_outbound_def new_link_def)
  ultimately show ?thesis by blast
qed

theorem late_request_pending_witness:
  "\<exists>l'. actor_turn (demo_link_env 1) [] (Some (MRequest [] (replicate 500 1) (Some 7) (Some 7) None None None))
       ((new_outbound (demo_link_env 0) [] demo_destination MODE_AES256_CBC)\<lparr>ln_state := STATE_CLOSED\<rparr>)
     = (False, [SendAsResource (replicate 16 0 @ replicate 500 1) (replicate 16 0) False], [], l') \<and> tags l' = {#7#}"
proof -
  let ?l = "(new_outbound (demo_link_env 0) [] demo_destination MODE_AES256_CBC)\<lparr>ln_state := STATE_CLOSED\<rparr>"
  have "tags ?l = {#}" "ln_mdu ?l = LINK_MDU" "ln_state ?l = STATE_CLOSED" by (simp_all add: tags_def new_outbound_def new_link_def)
  moreover have "le_pack_request (demo_link_env 1) x (truncated_hash (c_sha (le_crypto (demo_link_env 1))) []) (replicate 500 1) = Inr (replicate 16 0 @ replicate 500 1)"
    "truncated_hash (c_sha (le_crypto (demo_link_env 1))) (replicate 16 0 @ replicate 500 1) = replicate 16 0" for x
    by (simp_all add: demo_link_env_def toy_crypto_def truncated_hash_def full_hash_def)
  ultimately show ?thesis
    using late_request_pending [of ?l "demo_link_env 1" "[]" "replicate 500 1" "replicate 16 0 @ replicate 500 1" 7 None None None] by auto
qed

end
