(* ===== verification/Framing.thy ===== *)
theory Framing
  imports Prelude
begin

text \<open>
  Framing of packets on byte streams, \<^verbatim>\<open>src/interfaces\<close>: HDLC as the TCP, backbone and local interfaces read it out of a
  buffer, HDLC as the pipe and serial interfaces read it byte by byte, KISS with the flow control of the serial
  KISS interface, and the bounds on frames. Reading from a socket or a port is a list of
  the chunks it yields; frames handed to the transport are the result.
\<close>

abbreviation (input) HDLC_FLAG :: u8 where "HDLC_FLAG \<equiv> 0x7E"
abbreviation (input) HDLC_ESC :: u8 where "HDLC_ESC \<equiv> 0x7D"
abbreviation (input) HDLC_ESC_MASK :: u8 where "HDLC_ESC_MASK \<equiv> 0x20"
abbreviation (input) FEND :: u8 where "FEND \<equiv> 0xC0"
abbreviation (input) FESC :: u8 where "FESC \<equiv> 0xDB"
abbreviation (input) TFEND :: u8 where "TFEND \<equiv> 0xDC"
abbreviation (input) TFESC :: u8 where "TFESC \<equiv> 0xDD"
abbreviation (input) CMD_DATA :: u8 where "CMD_DATA \<equiv> 0x00"
abbreviation (input) CMD_READY :: u8 where "CMD_READY \<equiv> 0x0F"
abbreviation (input) CMD_UNKNOWN :: u8 where "CMD_UNKNOWN \<equiv> 0xFE"
abbreviation (input) HEADER_MINSIZE :: nat where "HEADER_MINSIZE \<equiv> 19"

section \<open>HDLC in a buffer\<close>

fun hdlc_escape :: "bytes \<Rightarrow> bytes" where
  "hdlc_escape [] = []"
| "hdlc_escape (b # bs) =
     (if b = HDLC_ESC then [HDLC_ESC, HDLC_ESC XOR HDLC_ESC_MASK]
      else if b = HDLC_FLAG then [HDLC_ESC, HDLC_FLAG XOR HDLC_ESC_MASK]
      else [b]) @ hdlc_escape bs"

definition hdlc_frame :: "bytes \<Rightarrow> bytes" where
  "hdlc_frame data = [HDLC_FLAG] @ hdlc_escape data @ [HDLC_FLAG]"

text \<open>The TCP and local interfaces drop an escape that escapes nothing they know, with the byte after it.\<close>

fun hdlc_unescape :: "bool \<Rightarrow> bytes \<Rightarrow> bytes" where
  "hdlc_unescape esc [] = []"
| "hdlc_unescape esc (b # bs) =
     (if esc then
        (if b = HDLC_FLAG XOR HDLC_ESC_MASK then [HDLC_FLAG]
         else if b = HDLC_ESC XOR HDLC_ESC_MASK then [HDLC_ESC] else []) @ hdlc_unescape False bs
      else if b = HDLC_ESC then hdlc_unescape True bs
      else b # hdlc_unescape False bs)"

text \<open>The backbone interface keeps it.\<close>

fun hdlc_unescape_backbone :: "bytes \<Rightarrow> bytes" where
  "hdlc_unescape_backbone [] = []"
| "hdlc_unescape_backbone [b] = [b]"
| "hdlc_unescape_backbone (b # c # bs) =
     (if b = HDLC_ESC then
        (if c = HDLC_FLAG XOR HDLC_ESC_MASK then HDLC_FLAG # hdlc_unescape_backbone bs
         else if c = HDLC_ESC XOR HDLC_ESC_MASK then HDLC_ESC # hdlc_unescape_backbone bs
         else b # hdlc_unescape_backbone (c # bs))
      else b # hdlc_unescape_backbone (c # bs))"

definition check_frame_len :: "nat \<Rightarrow> nat \<Rightarrow> nat \<Rightarrow> bool" where
  "check_frame_len frame_len hw_mtu ifac_size = (if frame_len \<le> HEADER_MINSIZE then False else frame_len \<le> hw_mtu + ifac_size)"

definition frame_buffer_exceeded :: "nat \<Rightarrow> nat \<Rightarrow> bool" where
  "frame_buffer_exceeded buffer_len hw_mtu = (buffer_len > hw_mtu * 2)"

definition no_flag :: "u8 \<Rightarrow> bool" where
  "no_flag b = (b \<noteq> HDLC_FLAG)"

text \<open>
  The loops that take frames out of a buffer. They differ in how a frame is unescaped, in whether the closing flag stays as the
  opening flag of the next frame (\<open>keep\<close>), and in whether a buffer with no flag at all is cleared at once (\<open>clear\<close>)
  or only once it is too long.
\<close>

function drain_frames :: "(bytes \<Rightarrow> bytes) \<Rightarrow> bool \<Rightarrow> bool \<Rightarrow> nat \<Rightarrow> nat \<Rightarrow> bytes \<Rightarrow> bytes list \<times> bytes" where
  "drain_frames unescape keep clear hw_mtu ifac_size buffer =
     (case dropWhile no_flag buffer of
        [] \<Rightarrow> ([], if clear \<or> frame_buffer_exceeded (length buffer) hw_mtu then [] else buffer)
      | _ # rest \<Rightarrow>
        (case dropWhile no_flag rest of
           [] \<Rightarrow> ([], if frame_buffer_exceeded (length buffer) hw_mtu then [] else buffer)
         | flag # rest' \<Rightarrow>
           (let unescaped = unescape (takeWhile no_flag rest);
                (frames, left) = drain_frames unescape keep clear hw_mtu ifac_size (if keep then flag # rest' else rest')
            in (if check_frame_len (length unescaped) hw_mtu ifac_size then unescaped # frames else frames, left))))"
  by pat_completeness auto

lemma dropWhile_Cons_shorter: "dropWhile P xs = y # ys \<Longrightarrow> length (y # ys) \<le> length xs"
  by (metis length_dropWhile_le)

termination drain_frames
  by (relation "measure (\<lambda>(_, _, _, _, _, buffer). length buffer)") (auto dest!: dropWhile_Cons_shorter)

definition tcp_drain :: "nat \<Rightarrow> nat \<Rightarrow> bytes \<Rightarrow> bytes list \<times> bytes" where
  "tcp_drain = drain_frames (hdlc_unescape False) True True"

definition backbone_drain :: "nat \<Rightarrow> nat \<Rightarrow> bytes \<Rightarrow> bytes list \<times> bytes" where
  "backbone_drain = drain_frames hdlc_unescape_backbone True False"

definition local_drain :: "nat \<Rightarrow> nat \<Rightarrow> bytes \<Rightarrow> bytes list \<times> bytes" where
  "local_drain = drain_frames (hdlc_unescape False) False False"

text \<open>The reads of a connection, each added to the buffer that the one before left.\<close>

fun read_chunks :: "(bytes \<Rightarrow> bytes list \<times> bytes) \<Rightarrow> bytes \<Rightarrow> bytes list \<Rightarrow> bytes list \<times> bytes" where
  "read_chunks drain buffer [] = ([], buffer)"
| "read_chunks drain buffer (c # cs) =
     (case drain (buffer @ c) of (frames, buffer') \<Rightarrow>
        (case read_chunks drain buffer' cs of (frames', buffer'') \<Rightarrow> (frames @ frames', buffer'')))"

section \<open>HDLC byte by byte\<close>

text \<open>
  The pipe and the serial interface. The pipe drops an empty frame, the serial interface hands it on; the serial
  interface forgets a frame that stops for too long.
\<close>

record hdlc_reader =
  hr_in_frame :: bool
  hr_escape :: bool
  hr_data :: bytes

definition new_hdlc_reader :: hdlc_reader where
  "new_hdlc_reader = \<lparr> hr_in_frame = False, hr_escape = False, hr_data = [] \<rparr>"

definition hdlc_step :: "bool \<Rightarrow> nat \<Rightarrow> u8 \<Rightarrow> hdlc_reader \<Rightarrow> bytes list \<times> hdlc_reader" where
  "hdlc_step pass_empty hw_mtu b r =
     (if hr_in_frame r \<and> b = HDLC_FLAG then
        (if hr_data r \<noteq> [] \<or> pass_empty then [hr_data r] else [], r\<lparr>hr_in_frame := False, hr_data := []\<rparr>)
      else if b = HDLC_FLAG then ([], r\<lparr>hr_in_frame := True, hr_data := []\<rparr>)
      else if hr_in_frame r \<and> length (hr_data r) < hw_mtu then
        (if b = HDLC_ESC then ([], r\<lparr>hr_escape := True\<rparr>)
         else if hr_escape r then
           ([], r\<lparr>hr_escape := False, hr_data := hr_data r @
              [if b = HDLC_FLAG XOR HDLC_ESC_MASK then HDLC_FLAG else if b = HDLC_ESC XOR HDLC_ESC_MASK then HDLC_ESC else b]\<rparr>)
         else ([], r\<lparr>hr_data := hr_data r @ [b]\<rparr>))
      else ([], r))"

definition hdlc_quiet :: "nat \<Rightarrow> nat \<Rightarrow> hdlc_reader \<Rightarrow> hdlc_reader" where
  "hdlc_quiet time_since_last timeout_ms r = (if hr_data r \<noteq> [] \<and> time_since_last > timeout_ms then new_hdlc_reader else r)"

fun hdlc_read :: "bool \<Rightarrow> nat \<Rightarrow> bytes \<Rightarrow> hdlc_reader \<Rightarrow> bytes list \<times> hdlc_reader" where
  "hdlc_read pass_empty hw_mtu [] r = ([], r)"
| "hdlc_read pass_empty hw_mtu (b # bs) r =
     (case hdlc_step pass_empty hw_mtu b r of (fs, r) \<Rightarrow> (case hdlc_read pass_empty hw_mtu bs r of (fs', r) \<Rightarrow> (fs @ fs', r)))"

section \<open>KISS\<close>

fun kiss_escape :: "bytes \<Rightarrow> bytes" where
  "kiss_escape [] = []"
| "kiss_escape (b # bs) =
     (if b = FESC then [FESC, TFESC] else if b = FEND then [FESC, TFEND] else [b]) @ kiss_escape bs"

definition kiss_frame :: "bytes \<Rightarrow> bytes" where
  "kiss_frame data = [FEND, CMD_DATA] @ kiss_escape data @ [FEND]"

record kiss_reader =
  kr_in_frame :: bool
  kr_escape :: bool
  kr_command :: u8
  kr_data :: bytes

definition new_kiss_reader :: kiss_reader where
  "new_kiss_reader = \<lparr> kr_in_frame = False, kr_escape = False, kr_command = CMD_UNKNOWN, kr_data = [] \<rparr>"

datatype kiss_event = KissFrame bytes | KissReady

definition kiss_step :: "bool \<Rightarrow> nat \<Rightarrow> u8 \<Rightarrow> kiss_reader \<Rightarrow> kiss_event list \<times> kiss_reader" where
  "kiss_step pass_empty hw_mtu b r =
     (if kr_in_frame r \<and> b = FEND \<and> kr_command r = CMD_DATA then
        (if kr_data r \<noteq> [] \<or> pass_empty then [KissFrame (kr_data r)] else [], r\<lparr>kr_in_frame := False, kr_data := []\<rparr>)
      else if b = FEND then ([], r\<lparr>kr_in_frame := True, kr_command := CMD_UNKNOWN, kr_data := []\<rparr>)
      else if kr_in_frame r \<and> length (kr_data r) < hw_mtu then
        (if kr_data r = [] \<and> kr_command r = CMD_UNKNOWN then ([], r\<lparr>kr_command := b AND 0x0F\<rparr>)
         else if kr_command r = CMD_DATA then
           (if b = FESC then ([], r\<lparr>kr_escape := True\<rparr>)
            else if kr_escape r then
              ([], r\<lparr>kr_escape := False, kr_data := kr_data r @ [if b = TFEND then FEND else if b = TFESC then FESC else b]\<rparr>)
            else ([], r\<lparr>kr_data := kr_data r @ [b]\<rparr>))
         else if kr_command r = CMD_READY then ([KissReady], r)
         else ([], r))
      else ([], r))"

definition kiss_quiet :: "nat \<Rightarrow> nat \<Rightarrow> kiss_reader \<Rightarrow> kiss_reader" where
  "kiss_quiet time_since_last timeout_ms r = (if kr_data r \<noteq> [] \<and> time_since_last > timeout_ms then new_kiss_reader else r)"

fun kiss_read :: "bool \<Rightarrow> nat \<Rightarrow> bytes \<Rightarrow> kiss_reader \<Rightarrow> kiss_event list \<times> kiss_reader" where
  "kiss_read pass_empty hw_mtu [] r = ([], r)"
| "kiss_read pass_empty hw_mtu (b # bs) r =
     (case kiss_step pass_empty hw_mtu b r of (es, r) \<Rightarrow> (case kiss_read pass_empty hw_mtu bs r of (es', r) \<Rightarrow> (es @ es', r)))"

section \<open>Flow control of the KISS interface\<close>

record kiss_interface =
  ki_online :: bool
  ki_flow_control :: bool
  ki_interface_ready :: bool
  ki_flow_control_timeout :: real
  ki_flow_control_locked :: real
  ki_packet_queue :: "bytes list"
  ki_beacon_interval :: "real option"
  ki_beacon_data :: bytes
  ki_first_tx :: "real option"

text \<open>
  Sending one packet: the frames written, and whether all of it was. A packet is queued while the modem is not ready.
  \<open>ok\<close> says whether the port takes the whole frame.
\<close>

definition kiss_process_outgoing :: "bool \<Rightarrow> real \<Rightarrow> bytes \<Rightarrow> kiss_interface \<Rightarrow> bool \<times> bytes list \<times> kiss_interface" where
  "kiss_process_outgoing ok now data i =
     (if \<not> ki_online i then (True, [], i)
      else if \<not> ki_interface_ready i then (True, [], i\<lparr>ki_packet_queue := ki_packet_queue i @ [data]\<rparr>)
      else
        (let i = (if ki_flow_control i then i\<lparr>ki_interface_ready := False, ki_flow_control_locked := now\<rparr> else i);
             i = (if data = ki_beacon_data i then i\<lparr>ki_first_tx := None\<rparr>
                  else if ki_first_tx i = None then i\<lparr>ki_first_tx := Some now\<rparr> else i)
         in (ok, if ok then [kiss_frame data] else [], i)))"

definition kiss_process_queue :: "bool \<Rightarrow> real \<Rightarrow> kiss_interface \<Rightarrow> bytes list \<times> kiss_interface" where
  "kiss_process_queue ok now i =
     (case ki_packet_queue i of
        [] \<Rightarrow> ([], i\<lparr>ki_interface_ready := True\<rparr>)
      | d # ds \<Rightarrow> snd (kiss_process_outgoing ok now d (i\<lparr>ki_packet_queue := ds, ki_interface_ready := True\<rparr>)))"

definition pad_beacon :: "bytes \<Rightarrow> bytes" where
  "pad_beacon d = d @ replicate (15 - length d) 0"

text \<open>What the read loop does while nothing comes in: unlock after the time-out, and the beacon.\<close>

definition kiss_idle :: "bool \<Rightarrow> real \<Rightarrow> kiss_interface \<Rightarrow> bytes list \<times> kiss_interface" where
  "kiss_idle ok now i =
     (let (fs, i) = (if ki_flow_control i \<and> \<not> ki_interface_ready i \<and> now > ki_flow_control_locked i + ki_flow_control_timeout i
                     then kiss_process_queue ok now i else ([], i))
      in case (ki_beacon_interval i, ki_first_tx i) of
           (Some interval, Some first_tx) \<Rightarrow>
             if now > first_tx + interval then
               (case kiss_process_outgoing ok now (pad_beacon (ki_beacon_data i)) (i\<lparr>ki_first_tx := None\<rparr>) of (_, fs', i) \<Rightarrow> (fs @ fs', i))
             else (fs, i)
         | _ \<Rightarrow> (fs, i))"

end
