(* ===== verification/Framing_Correct.thy ===== *)
theory Framing_Correct
  imports Framing
begin

text \<open>
  Framing of packets on byte streams, proved: the readers deliver what was framed, however the stream is cut, keep to their
  bounds on any input, and the KISS queue loses and reorders nothing.
\<close>

section \<open>Frames in a buffer\<close>

declare drain_frames.simps [simp del]

lemma hdlc_escape_no_flag: "b \<in> set (hdlc_escape d) \<Longrightarrow> no_flag b"
  by (induction d) (auto simp add: no_flag_def split: if_splits)

lemma hdlc_unescape_escape: "hdlc_unescape False (hdlc_escape d) = d"
  by (induction d) auto

lemma hdlc_unescape_backbone_single: "b \<noteq> HDLC_ESC \<Longrightarrow> hdlc_unescape_backbone (b # bs) = b # hdlc_unescape_backbone bs"
  by (cases bs) auto

lemma hdlc_unescape_backbone_escape: "hdlc_unescape_backbone (hdlc_escape d) = d"
  by (induction d) (auto simp add: hdlc_unescape_backbone_single)

lemma length_hdlc_escape: "length d \<le> length (hdlc_escape d)" "length (hdlc_escape d) \<le> 2 * length d"
  by (induction d) auto

text \<open>The cases of a buffer: no flag, one, or a frame.\<close>

lemma drain_no_flag:
  assumes "\<forall>b \<in> set buf. no_flag b"
  shows "drain_frames u k c hw ifac buf = ([], if c \<or> frame_buffer_exceeded (length buf) hw then [] else buf)"
  using assms by (simp add: drain_frames.simps dropWhile_eq_Nil_conv [THEN iffD2])

lemma drain_open:
  assumes "\<forall>b \<in> set pre. no_flag b" "\<forall>b \<in> set rest. no_flag b"
  shows "drain_frames u k c hw ifac (pre @ HDLC_FLAG # rest)
    = ([], if frame_buffer_exceeded (length (pre @ HDLC_FLAG # rest)) hw then [] else pre @ HDLC_FLAG # rest)"
proof -
  have "dropWhile no_flag (pre @ HDLC_FLAG # rest) = HDLC_FLAG # rest" "dropWhile no_flag rest = []"
    using assms by (simp_all add: no_flag_def dropWhile_append2)
  then show ?thesis by (subst drain_frames.simps) (simp del: dropWhile_eq_Nil_conv)
qed

lemma drain_frame:
  assumes "\<forall>b \<in> set pre. no_flag b" "\<forall>b \<in> set body. no_flag b"
  shows "drain_frames u k c hw ifac (pre @ HDLC_FLAG # body @ HDLC_FLAG # rest) =
    (let (fs, left) = drain_frames u k c hw ifac (if k then HDLC_FLAG # rest else rest)
     in (if check_frame_len (length (u body)) hw ifac then u body # fs else fs, left))"
proof -
  have "dropWhile no_flag (pre @ HDLC_FLAG # body @ HDLC_FLAG # rest) = HDLC_FLAG # body @ HDLC_FLAG # rest"
    "dropWhile no_flag (body @ HDLC_FLAG # rest) = HDLC_FLAG # rest" "takeWhile no_flag (body @ HDLC_FLAG # rest) = body"
    using assms by (simp_all add: no_flag_def dropWhile_append2 takeWhile_append2)
  then show ?thesis by (subst drain_frames.simps) (simp add: Let_def)
qed

lemma split_at_flag:
  obtains "\<forall>b \<in> set xs. no_flag b" | pre rest where "xs = pre @ HDLC_FLAG # rest" "\<forall>b \<in> set pre. no_flag b"
proof (cases "\<forall>b \<in> set xs. no_flag b")
  case False
  then obtain pre y rest where "xs = pre @ y # rest" "\<not> no_flag y" "\<forall>b \<in> set pre. no_flag b"
    using split_list_first_prop [of xs "\<lambda>b. \<not> no_flag b"] by auto
  then show ?thesis using that(2) by (simp add: no_flag_def)
qed (use that in blast)

text \<open>Induction along the frames of a buffer.\<close>

lemma buffer_cases [case_names none open_frame frame]:
  fixes xs :: bytes
  obtains "\<forall>b \<in> set xs. no_flag b"
  | pre rest where "xs = pre @ HDLC_FLAG # rest" "\<forall>b \<in> set pre. no_flag b" "\<forall>b \<in> set rest. no_flag b"
  | pre body rest where "xs = pre @ HDLC_FLAG # body @ HDLC_FLAG # rest" "\<forall>b \<in> set pre. no_flag b" "\<forall>b \<in> set body. no_flag b"
  by (rule split_at_flag [of xs]) (use split_at_flag in metis)+

text \<open>What is delivered stays within the bounds, and so does what is kept.\<close>

lemma drain_bounds:
  "(\<forall>f \<in> set (fst (drain_frames u k c hw ifac buf)). HEADER_MINSIZE < length f \<and> length f \<le> hw + ifac)
   \<and> length (snd (drain_frames u k c hw ifac buf)) \<le> hw * 2"
proof (induction "length buf" arbitrary: buf rule: less_induct)
  case less
  show ?case
  proof (cases rule: buffer_cases [of buf])
    case none
    then show ?thesis by (simp add: drain_no_flag frame_buffer_exceeded_def)
  next
    case (open_frame pre rest)
    then show ?thesis by (simp add: drain_open frame_buffer_exceeded_def)
  next
    case (frame pre body rest)
    let ?next = "if k then HDLC_FLAG # rest else rest"
    have "length ?next < length buf" using frame(1) by simp
    from less [OF this] show ?thesis
      using frame by (auto simp add: drain_frame Let_def split_def check_frame_len_def)
  qed
qed

text \<open>A stream in which no stretch with at most one flag outgrows the buffer.\<close>

definition flags :: "bytes \<Rightarrow> nat" where
  "flags xs = length (filter (\<lambda>b. \<not> no_flag b) xs)"

definition fits :: "nat \<Rightarrow> bytes \<Rightarrow> bool" where
  "fits n xs \<longleftrightarrow> (\<forall>u w v. xs = u @ w @ v \<and> flags w \<le> 1 \<longrightarrow> length w \<le> n)"

lemma flags_simps [simp]: "flags [] = 0" "flags (x # xs) = (if no_flag x then 0 else 1) + flags xs" "flags (xs @ ys) = flags xs + flags ys"
  by (simp_all add: flags_def)

lemma flags_0: "\<forall>b \<in> set xs. no_flag b \<Longrightarrow> flags xs = 0"
  by (induction xs) auto

lemma fits_suffix: "fits n (xs @ ys) \<Longrightarrow> fits n ys"
  unfolding fits_def by (metis append.assoc)

lemma fits_prefix: "fits n (xs @ ys) \<Longrightarrow> fits n xs"
  unfolding fits_def by (metis append.assoc)

lemma fits_self: "fits n xs \<Longrightarrow> flags xs \<le> 1 \<Longrightarrow> length xs \<le> n"
  unfolding fits_def by (metis append_Nil append_Nil2)

lemma fits_Cons: "fits n (x # xs) \<Longrightarrow> fits n xs"
  using fits_suffix [of n "[x]" xs] by simp

lemma fits_next:
  assumes "fits n (pre @ HDLC_FLAG # body @ HDLC_FLAG # rest)"
  shows "fits n (if k then HDLC_FLAG # rest else rest)"
  using fits_suffix [of n "pre @ HDLC_FLAG # body" "HDLC_FLAG # rest"] fits_Cons assms by auto

lemma drain_skip_prefix:
  assumes "\<forall>b \<in> set buf. no_flag b"
  shows "fst (drain_frames u k c hw ifac (buf @ xs)) = fst (drain_frames u k c hw ifac xs)"
proof (cases rule: buffer_cases [of xs])
  case none
  then show ?thesis using assms drain_no_flag [of "buf @ xs"] by (simp add: drain_no_flag ball_Un)
next
  case (open_frame pre rest)
  then show ?thesis using assms drain_open [of "buf @ pre" rest] drain_open [of pre rest] by (simp add: ball_Un)
next
  case (frame pre body rest)
  then show ?thesis using assms drain_frame [of "buf @ pre" body] drain_frame [of pre body] by (simp add: ball_Un)
qed

text \<open>Reading on from what is left.\<close>

lemma drain_read_on:
  assumes "fits (hw * 2) buf"
  shows "fst (drain_frames u k c hw ifac (buf @ xs)) =
    fst (drain_frames u k c hw ifac buf) @ fst (drain_frames u k c hw ifac (snd (drain_frames u k c hw ifac buf) @ xs))"
  using assms
proof (induction "length buf" arbitrary: buf rule: less_induct)
  case less
  show ?case
  proof (cases rule: buffer_cases [of buf])
    case none
    then have "\<not> frame_buffer_exceeded (length buf) hw"
      using fits_self [OF less.prems] flags_0 [OF none] by (simp add: frame_buffer_exceeded_def)
    then show ?thesis using none drain_skip_prefix [OF none] by (simp add: drain_no_flag)
  next
    case (open_frame pre rest)
    then have "flags buf = 1" using open_frame(1) by (simp add: flags_0 no_flag_def [of HDLC_FLAG])
    then have "\<not> frame_buffer_exceeded (length buf) hw"
      using fits_self [OF less.prems] by (simp add: frame_buffer_exceeded_def)
    then show ?thesis using open_frame by (simp add: drain_open)
  next
    case (frame pre body rest)
    let ?next = "if k then HDLC_FLAG # rest else rest"
    have "length ?next < length buf" "fits (hw * 2) ?next"
      using frame(1) fits_next less.prems by auto
    from less.hyps [OF this] show ?thesis
      using frame by (simp add: drain_frame Let_def split_def split: if_splits)
  qed
qed

lemma snd_drain_frame:
  assumes "\<forall>b \<in> set pre. no_flag b" "\<forall>b \<in> set body. no_flag b"
  shows "snd (drain_frames u k c hw ifac (pre @ HDLC_FLAG # body @ HDLC_FLAG # rest)) =
    snd (drain_frames u k c hw ifac (if k then HDLC_FLAG # rest else rest))"
  unfolding drain_frame [OF assms] Let_def by (simp add: split_def)

lemma drain_rest:
  "\<exists>pre. buf = pre @ snd (drain_frames u k c hw ifac buf)"
proof (induction "length buf" arbitrary: buf rule: less_induct)
  case less
  show ?case
  proof (cases rule: buffer_cases [of buf])
    case (frame pre body rest)
    let ?next = "if k then HDLC_FLAG # rest else rest"
    have "length ?next < length buf" using frame(1) by simp
    from less [OF this] obtain p where p: "?next = p @ snd (drain_frames u k c hw ifac ?next)" by blast
    have "buf = (pre @ HDLC_FLAG # body @ (if k then [] else [HDLC_FLAG])) @ ?next" using frame(1) by simp
    also have "\<dots> = ((pre @ HDLC_FLAG # body @ (if k then [] else [HDLC_FLAG])) @ p) @ snd (drain_frames u k c hw ifac buf)"
      unfolding frame(1) snd_drain_frame [OF frame(2,3)] by (subst p) simp
    finally show ?thesis by blast
  qed (auto simp add: drain_no_flag drain_open)
qed

lemma drain_rest_empty:
  "fst (drain_frames u k c hw ifac (snd (drain_frames u k c hw ifac buf))) = []"
proof (induction "length buf" arbitrary: buf rule: less_induct)
  case less
  show ?case
  proof (cases rule: buffer_cases [of buf])
    case (frame pre body rest)
    let ?next = "if k then HDLC_FLAG # rest else rest"
    have "length ?next < length buf" using frame(1) by simp
    from less [OF this] show ?thesis unfolding frame(1) snd_drain_frame [OF frame(2,3)] .
  qed (auto simp add: drain_no_flag drain_open)
qed

lemma read_chunks_once:
  assumes "fits (hw * 2) (buf @ concat cs)" "fst (drain_frames u k c hw ifac buf) = []"
  shows "fst (read_chunks (drain_frames u k c hw ifac) buf cs) = fst (drain_frames u k c hw ifac (buf @ concat cs))"
  using assms
proof (induction cs arbitrary: buf)
  case (Cons d cs)
  let ?drain = "drain_frames u k c hw ifac"
  have f: "fits (hw * 2) (buf @ d)" using Cons.prems(1) fits_prefix [of _ "buf @ d"] by simp
  obtain pre where pre: "buf @ d = pre @ snd (?drain (buf @ d))" using drain_rest [of "buf @ d"] by blast
  have "fits (hw * 2) (snd (?drain (buf @ d)) @ concat cs)"
    using Cons.prems(1) fits_suffix [of _ pre] pre by (metis append.assoc concat.simps(2))
  from Cons.IH [OF this drain_rest_empty] show ?case
    using drain_read_on [OF f, of u k c ifac "concat cs"] by (simp add: split_def)
qed simp

section \<open>A stream of frames\<close>

definition hdlc_stream :: "bytes list \<Rightarrow> bytes" where
  "hdlc_stream ps = concat (map hdlc_frame ps)"

lemma hdlc_stream_simps [simp]: "hdlc_stream [] = []"
  "hdlc_stream (p # ps) = HDLC_FLAG # hdlc_escape p @ HDLC_FLAG # hdlc_stream ps"
  by (simp_all add: hdlc_stream_def hdlc_frame_def)

lemma hdlc_escape_flags: "flags (hdlc_escape p) = 0"
  by (intro flags_0 ballI) (rule hdlc_escape_no_flag)

lemma flags_FLAG [simp]: "no_flag HDLC_FLAG = False"
  by (simp add: no_flag_def)

text \<open>Two flags side by side part the windows of a stream.\<close>

lemma window_cases:
  assumes "xs @ ys = u @ w @ v"
  obtains z where "xs = u @ w @ z" | z where "ys = z @ w @ v"
    | a b where "w = a @ b" "xs = u @ a" "ys = b @ v" "a \<noteq> []" "b \<noteq> []"
proof -
  from assms consider z where "xs @ z = u" "ys = z @ w @ v" | z where "xs = u @ z" "z @ ys = w @ v"
    by (auto simp add: append_eq_append_conv2)
  then show ?thesis
  proof cases
    case (2 z)
    then consider t where "z = w @ t" | t where "w = z @ t" "ys = t @ v" by (auto simp add: append_eq_append_conv2)
    then show ?thesis
    proof cases
      case 2
      then show ?thesis using that \<open>xs = u @ z\<close> by (cases "z = []"; cases "t = []") auto
    qed (use that(1) 2 in simp)
  qed (use that(2) in blast)
qed

lemma fits_append:
  assumes "fits n (xs @ [HDLC_FLAG])" "fits n (HDLC_FLAG # ys)"
  shows "fits n ((xs @ [HDLC_FLAG]) @ (HDLC_FLAG # ys))"
  unfolding fits_def
proof (intro allI impI, elim conjE)
  fix u w v
  assume eq: "(xs @ [HDLC_FLAG]) @ HDLC_FLAG # ys = u @ w @ v" and le: "flags w \<le> 1"
  from eq consider z where "xs @ [HDLC_FLAG] = u @ w @ z" | z where "HDLC_FLAG # ys = z @ w @ v"
    | a b where "w = a @ b" "xs @ [HDLC_FLAG] = u @ a" "HDLC_FLAG # ys = b @ v" "a \<noteq> []" "b \<noteq> []"
    by (rule window_cases)
  then show "length w \<le> n"
  proof cases
    case 1
    then show ?thesis using assms(1) le unfolding fits_def by blast
  next
    case 2
    then show ?thesis using assms(2) le unfolding fits_def by blast
  next
    case 3
    from 3(2,4) obtain a' where "a = a' @ [HDLC_FLAG]" by (metis append_butlast_last_id last_appendR last_snoc)
    moreover from 3(3,5) obtain b' where "b = HDLC_FLAG # b'" by (cases b) auto
    ultimately show ?thesis using le 3(1) by simp
  qed
qed

lemma fits_mono_length: "length xs \<le> n \<Longrightarrow> fits n xs"
  unfolding fits_def by auto

lemma fits_frame:
  assumes "1 + length (hdlc_escape p) \<le> n"
  shows "fits n (HDLC_FLAG # hdlc_escape p @ [HDLC_FLAG])"
  unfolding fits_def
proof (intro allI impI, elim conjE)
  fix u w v
  assume eq: "HDLC_FLAG # hdlc_escape p @ [HDLC_FLAG] = u @ w @ v" and le: "flags w \<le> 1"
  have "u \<noteq> [] \<or> v \<noteq> []"
  proof (rule ccontr)
    assume "\<not> ?thesis"
    then have "flags w = flags (HDLC_FLAG # hdlc_escape p @ [HDLC_FLAG])" using eq by simp
    then show False using le hdlc_escape_flags by simp
  qed
  then have "length w < length (u @ w @ v)" by auto
  then show "length w \<le> n" using assms eq [symmetric] by simp
qed

lemma fits_stream:
  assumes "\<forall>p \<in> set ps. 1 + length (hdlc_escape p) \<le> n"
  shows "fits n (hdlc_stream ps)"
  using assms
proof (induction ps)
  case Nil
  then show ?case by (simp add: fits_mono_length)
next
  case (Cons p ps)
  have p: "fits n (HDLC_FLAG # hdlc_escape p @ [HDLC_FLAG])" using Cons.prems by (intro fits_frame) simp
  show ?case
  proof (cases ps)
    case (Cons q qs)
    then show ?thesis using fits_append [of n "HDLC_FLAG # hdlc_escape p"] p Cons.IH Cons.prems by simp
  qed (use p in simp)
qed

text \<open>What the readers rely on: unescaping undoes escaping.\<close>

locale hdlc_codec =
  fixes unescape :: "bytes \<Rightarrow> bytes"
  assumes unescape_escape: "unescape (hdlc_escape d) = d"
begin

lemma drain_hdlc_frame:
  assumes "check_frame_len (length p) hw ifac"
  shows "fst (drain_frames unescape k c hw ifac (HDLC_FLAG # hdlc_escape p @ HDLC_FLAG # rest))
    = p # fst (drain_frames unescape k c hw ifac (if k then HDLC_FLAG # rest else rest))"
  using assms drain_frame [of "[]" "hdlc_escape p"] hdlc_escape_no_flag by (simp add: unescape_escape split_def Let_def)

lemma drain_empty_frame:
  "fst (drain_frames unescape k c hw ifac (HDLC_FLAG # HDLC_FLAG # rest))
    = fst (drain_frames unescape k c hw ifac (if k then HDLC_FLAG # rest else rest))"
  using drain_frame [of "[]" "[]"] unescape_escape [of "[]"] by (simp add: check_frame_len_def split_def Let_def)

lemma drain_Nil: "fst (drain_frames unescape k c hw ifac []) = []" "fst (drain_frames unescape k c hw ifac [HDLC_FLAG]) = []"
  using drain_no_flag [of "[]"] drain_open [of "[]" "[]"] by simp_all

lemma drain_stream:
  assumes "\<forall>p \<in> set ps. check_frame_len (length p) hw ifac"
  shows "fst (drain_frames unescape k c hw ifac (hdlc_stream ps)) = ps"
    and "k \<Longrightarrow> fst (drain_frames unescape k c hw ifac (HDLC_FLAG # hdlc_stream ps)) = ps"
  using assms
proof (induction ps)
  case (Cons p ps)
  {
    case 1
    then show ?case using Cons by (cases k) (simp_all add: drain_hdlc_frame)
  next
    case 2
    then show ?case using Cons by (simp add: drain_empty_frame drain_hdlc_frame)
  }
qed (simp_all add: drain_Nil)

lemma drain_desync:
  "fst (drain_frames unescape False c hw ifac (HDLC_FLAG # hdlc_stream ps)) = []"
proof (induction ps)
  case (Cons p ps)
  then show ?case using drain_skip_prefix [of "hdlc_escape p"] hdlc_escape_no_flag by (simp add: drain_empty_frame)
qed (simp add: drain_Nil)

lemma read_stream:
  assumes "concat cs = hdlc_stream ps"
    and "\<forall>p \<in> set ps. check_frame_len (length p) hw ifac \<and> 1 + length (hdlc_escape p) \<le> hw * 2"
  shows "fst (read_chunks (drain_frames unescape k c hw ifac) [] cs) = ps"
  using assms read_chunks_once [of hw "[]" cs] drain_stream(1) [of ps] by (simp add: fits_stream drain_Nil)

end

interpretation hc_local: hdlc_codec "hdlc_unescape False"
  by unfold_locales (rule hdlc_unescape_escape)

interpretation hc_backbone: hdlc_codec hdlc_unescape_backbone
  by unfold_locales (rule hdlc_unescape_backbone_escape)

text \<open>C3. Over TCP, on the backbone and between a program and its shared instance, the packets framed by one side are the packets
  the reader at the other side delivers, in order and each once, however the stream is cut into reads: for
  payloads within the frame bounds, whose escaped form fits the reader's buffer.\<close>

theorem hdlc_stream_delivered:
  assumes "concat cs = concat (map hdlc_frame ps)"
    and "\<forall>p \<in> set ps. check_frame_len (length p) hw ifac \<and> 1 + length (hdlc_escape p) \<le> hw * 2"
  shows "fst (read_chunks (tcp_drain hw ifac) [] cs) = ps \<and> fst (read_chunks (backbone_drain hw ifac) [] cs) = ps
    \<and> fst (read_chunks (local_drain hw ifac) [] cs) = ps"
  using assms hc_local.read_stream hc_backbone.read_stream
  by (simp add: tcp_drain_def backbone_drain_def local_drain_def hdlc_stream_def)

theorem hdlc_stream_delivered_witness:
  "fst (read_chunks (tcp_drain 500 8) [] [take 30 (hdlc_frame (replicate 25 0x7E)), drop 30 (hdlc_frame (replicate 25 0x7E))])
    = [replicate 25 0x7E]"
proof -
  have l: "length (hdlc_escape (replicate n 0x7E)) = 2 * n" for n by (induction n) auto
  show ?thesis
    using hdlc_stream_delivered [of "[take 30 (hdlc_frame (replicate 25 0x7E)), drop 30 (hdlc_frame (replicate 25 0x7E))]"
        "[replicate 25 0x7E]" 500 8] l [of 25] by (simp add: check_frame_len_def)
qed

text \<open>C21. Whatever bytes a peer sends and however they are cut, a reader hands on only frames longer than a packet header and not
  longer than the link allows, and never keeps more than twice the MTU between reads.\<close>

theorem hdlc_reader_bounded:
  assumes "drain \<in> {tcp_drain hw ifac, backbone_drain hw ifac, local_drain hw ifac}" and "length buf \<le> hw * 2"
  shows "(\<forall>f \<in> set (fst (read_chunks drain buf cs)). HEADER_MINSIZE < length f \<and> length f \<le> hw + ifac)
    \<and> length (snd (read_chunks drain buf cs)) \<le> hw * 2"
  using assms(2)
proof (induction cs arbitrary: buf)
  case (Cons d cs)
  have "\<exists>u k c. drain = drain_frames u k c hw ifac"
    using assms(1) by (auto simp add: tcp_drain_def backbone_drain_def local_drain_def)
  then have "(\<forall>f \<in> set (fst (drain (buf @ d))). HEADER_MINSIZE < length f \<and> length f \<le> hw + ifac)
    \<and> length (snd (drain (buf @ d))) \<le> hw * 2" using drain_bounds by blast
  with Cons.IH show ?case by (auto simp add: split_def)
qed simp

theorem hdlc_reader_bounded_witness:
  "length (snd (read_chunks (local_drain 4 0) [] [[0x7E, 1, 2], replicate 50 3])) \<le> 8"
  using hdlc_reader_bounded [of "local_drain 4 0" 4 0 "[]" "[[0x7E, 1, 2], replicate 50 3]"] by simp

section \<open>Reading byte by byte\<close>

lemma hdlc_read_append:
  "hdlc_read pe hw (xs @ ys) r = (let (fs, r) = hdlc_read pe hw xs r; (fs', r) = hdlc_read pe hw ys r in (fs @ fs', r))"
  by (induction xs arbitrary: r) (simp_all add: split_def Let_def)

lemma kiss_read_append:
  "kiss_read pe hw (xs @ ys) r = (let (es, r) = kiss_read pe hw xs r; (es', r) = kiss_read pe hw ys r in (es @ es', r))"
  by (induction xs arbitrary: r) (simp_all add: split_def Let_def)

lemma hdlc_read_escaped:
  assumes "length acc + length p \<le> hw"
  shows "hdlc_read pe hw (hdlc_escape p) \<lparr> hr_in_frame = True, hr_escape = False, hr_data = acc \<rparr>
    = ([], \<lparr> hr_in_frame = True, hr_escape = False, hr_data = acc @ p \<rparr>)"
  using assms
proof (induction p arbitrary: acc)
  case (Cons b p)
  then show ?case using Cons.IH [of "acc @ [b]"] by (auto simp add: hdlc_step_def)
qed simp

lemma kiss_read_escaped:
  assumes "length acc + length p \<le> hw"
  shows "kiss_read pe hw (kiss_escape p) \<lparr> kr_in_frame = True, kr_escape = False, kr_command = CMD_DATA, kr_data = acc \<rparr>
    = ([], \<lparr> kr_in_frame = True, kr_escape = False, kr_command = CMD_DATA, kr_data = acc @ p \<rparr>)"
  using assms
proof (induction p arbitrary: acc)
  case (Cons b p)
  then show ?case using Cons.IH [of "acc @ [b]"] by (auto simp add: kiss_step_def)
qed simp

lemma hdlc_read_frame:
  assumes "length p \<le> hw" "p \<noteq> [] \<or> pe"
  shows "hdlc_read pe hw (hdlc_frame p @ rest) new_hdlc_reader
    = (let (fs, r) = hdlc_read pe hw rest new_hdlc_reader in (p # fs, r))"
  using assms hdlc_read_escaped [of "[]" p hw pe]
  by (simp add: hdlc_frame_def hdlc_read_append hdlc_step_def new_hdlc_reader_def split_def Let_def)

text \<open>Between frames the KISS reader keeps the command of the last frame; it plays no part until the next one begins.\<close>

lemma kiss_read_frame:
  assumes "length p \<le> hw" "p \<noteq> [] \<or> pe" "0 < hw" "\<not> kr_in_frame r" "\<not> kr_escape r"
  shows "kiss_read pe hw (kiss_frame p @ rest) r =
    (let (es, r) = kiss_read pe hw rest \<lparr> kr_in_frame = False, kr_escape = False, kr_command = CMD_DATA, kr_data = [] \<rparr> in (KissFrame p # es, r))"
  using assms kiss_read_escaped [of "[]" p hw pe]
  by (cases r) (simp add: kiss_frame_def kiss_read_append kiss_step_def split_def Let_def)

text \<open>Over a pipe, a serial line and KISS the packets framed at one side are those the byte-by-byte reader at the other
  delivers, in order and each once, for payloads within the MTU that are not empty (only a pipe drops an
  empty one); the KISS reader reports no flow-control message for them.\<close>

theorem byte_readers_deliver:
  assumes "0 < hw" and "\<forall>p \<in> set ps. length p \<le> hw \<and> (p \<noteq> [] \<or> pass_empty)"
  shows "fst (hdlc_read pass_empty hw (concat (map hdlc_frame ps)) new_hdlc_reader) = ps
    \<and> fst (kiss_read pass_empty hw (concat (map kiss_frame ps)) new_kiss_reader) = map KissFrame ps"
proof
  show "fst (hdlc_read pass_empty hw (concat (map hdlc_frame ps)) new_hdlc_reader) = ps"
    using assms by (induction ps) (simp_all add: hdlc_read_frame split_def Let_def)
  have "\<not> kr_in_frame r \<Longrightarrow> \<not> kr_escape r \<Longrightarrow>
      fst (kiss_read pass_empty hw (concat (map kiss_frame ps)) r) = map KissFrame ps" for r
    using assms by (induction ps arbitrary: r) (simp_all add: kiss_read_frame split_def Let_def)
  then show "fst (kiss_read pass_empty hw (concat (map kiss_frame ps)) new_kiss_reader) = map KissFrame ps"
    by (simp add: new_kiss_reader_def)
qed

theorem byte_readers_deliver_witness:
  "fst (kiss_read False 564 (concat (map kiss_frame [[0xC0, 0xDB], [7]])) new_kiss_reader)
    = [KissFrame [0xC0, 0xDB], KissFrame [7]]"
  using byte_readers_deliver [of 564 "[[0xC0, 0xDB], [7]]" False] by simp

lemma hdlc_read_outside:
  assumes "\<forall>b \<in> set xs. no_flag b" "\<not> hr_in_frame r"
  shows "hdlc_read pe hw xs r = ([], r)"
  using assms by (induction xs) (simp_all add: hdlc_step_def no_flag_def)

lemma hdlc_read_desync:
  "fst (hdlc_read False hw (hdlc_stream ps) \<lparr> hr_in_frame = True, hr_escape = e, hr_data = [] \<rparr>) = []"
proof (induction ps)
  case (Cons p ps)
  have "hdlc_read False hw (hdlc_escape p) \<lparr> hr_in_frame = False, hr_escape = e, hr_data = [] \<rparr>
      = ([], \<lparr> hr_in_frame = False, hr_escape = e, hr_data = [] \<rparr>)"
    using hdlc_escape_no_flag by (intro hdlc_read_outside) auto
  then show ?case using Cons by (simp add: hdlc_step_def hdlc_read_append split_def Let_def)
qed simp

text \<open>C39. A single flag too many on the line: the reader of the shared instance and the byte-by-byte reader take the ends of
  frames for their beginnings from then on and deliver nothing of what follows, however many frames there are,
  where the TCP and backbone readers deliver them all.\<close>

theorem stray_flag:
  "fst (local_drain hw ifac (HDLC_FLAG # concat (map hdlc_frame ps))) = []
   \<and> fst (hdlc_read False hw (HDLC_FLAG # concat (map hdlc_frame ps)) new_hdlc_reader) = []
   \<and> ((\<forall>p \<in> set ps. check_frame_len (length p) hw ifac) \<longrightarrow>
        fst (tcp_drain hw ifac (HDLC_FLAG # concat (map hdlc_frame ps))) = ps
      \<and> fst (backbone_drain hw ifac (HDLC_FLAG # concat (map hdlc_frame ps))) = ps)"
  using hc_local.drain_desync hdlc_read_desync hc_local.drain_stream(2) hc_backbone.drain_stream(2)
  by (simp add: local_drain_def tcp_drain_def backbone_drain_def hdlc_step_def new_hdlc_reader_def split_def flip: hdlc_stream_def)

theorem stray_flag_witness:
  "fst (local_drain 500 0 (0x7E # concat (map hdlc_frame [replicate 20 1, replicate 30 2]))) = []
   \<and> fst (tcp_drain 500 0 (0x7E # concat (map hdlc_frame [replicate 20 1, replicate 30 2]))) = [replicate 20 1, replicate 30 2]"
  using stray_flag [of 500 0 "[replicate 20 1, replicate 30 2]"] by (simp add: check_frame_len_def)

section \<open>Flow control\<close>

text \<open>What happens to a KISS interface, in the order it happens.\<close>

datatype kiss_op = KissSend real bytes | KissCts real | KissIdle real

fun kiss_op_step :: "kiss_op \<Rightarrow> kiss_interface \<Rightarrow> bytes list \<times> kiss_interface" where
  "kiss_op_step (KissSend now data) i = snd (kiss_process_outgoing True now data i)"
| "kiss_op_step (KissCts now) i = kiss_process_queue True now i"
| "kiss_op_step (KissIdle now) i = kiss_idle True now i"

fun kiss_run :: "kiss_op list \<Rightarrow> kiss_interface \<Rightarrow> bytes list \<times> kiss_interface" where
  "kiss_run [] i = ([], i)"
| "kiss_run (op # ops) i = (case kiss_op_step op i of (fs, i) \<Rightarrow> (case kiss_run ops i of (fs', i) \<Rightarrow> (fs @ fs', i)))"

fun kiss_sent :: "kiss_op list \<Rightarrow> bytes list" where
  "kiss_sent [] = []"
| "kiss_sent (KissSend now data # ops) = data # kiss_sent ops"
| "kiss_sent (_ # ops) = kiss_sent ops"

definition kiss_inv :: "kiss_interface \<Rightarrow> bool" where
  "kiss_inv i \<longleftrightarrow> ki_online i \<and> ki_beacon_interval i = None
    \<and> (ki_packet_queue i \<noteq> [] \<longrightarrow> \<not> ki_interface_ready i) \<and> (\<not> ki_interface_ready i \<longrightarrow> ki_flow_control i)"

lemma kiss_op_step_fifo:
  assumes "kiss_inv i" "kiss_op_step op i = (fs, i')"
  shows "kiss_inv i' \<and> fs @ map kiss_frame (ki_packet_queue i') = map kiss_frame (ki_packet_queue i @ kiss_sent [op])"
  using assms
  by (cases op)
    (auto simp add: kiss_inv_def kiss_process_outgoing_def kiss_process_queue_def kiss_idle_def Let_def
      split: list.splits if_splits)

text \<open>With or without flow control, nothing sent through a KISS interface is lost or reordered: at any moment the frames on
  the wire followed by the packets still in the queue are the packets sent, in order.\<close>

theorem kiss_fifo:
  assumes "kiss_inv i"
  shows "kiss_inv (snd (kiss_run ops i)) \<and>
    fst (kiss_run ops i) @ map kiss_frame (ki_packet_queue (snd (kiss_run ops i)))
      = map kiss_frame (ki_packet_queue i @ kiss_sent ops)"
  using assms
proof (induction ops arbitrary: i)
  case (Cons op ops)
  obtain fs i' where s: "kiss_op_step op i = (fs, i')" by fastforce
  have "kiss_sent (op # ops) = kiss_sent [op] @ kiss_sent ops" by (cases op) simp_all
  then show ?case using kiss_op_step_fifo [OF Cons.prems s] Cons.IH [of i'] s
    by (auto simp add: split_def)
qed simp

theorem kiss_fifo_witness:
  "fst (kiss_run [KissSend 0 [1], KissSend 1 [2], KissCts 2]
      \<lparr> ki_online = True, ki_flow_control = True, ki_interface_ready = True, ki_flow_control_timeout = 5,
        ki_flow_control_locked = 0, ki_packet_queue = [], ki_beacon_interval = None, ki_beacon_data = [], ki_first_tx = None \<rparr>)
    = [kiss_frame [1], kiss_frame [2]]"
  using kiss_fifo [of "\<lparr> ki_online = True, ki_flow_control = True, ki_interface_ready = True, ki_flow_control_timeout = 5,
      ki_flow_control_locked = 0, ki_packet_queue = [], ki_beacon_interval = None, ki_beacon_data = [], ki_first_tx = None \<rparr>"
      "[KissSend 0 [1], KissSend 1 [2], KissCts 2]"]
  by (simp add: kiss_inv_def kiss_process_outgoing_def kiss_process_queue_def Let_def)

text \<open>A beacon shorter than fifteen bytes is padded before it is sent and so is not recognised as the beacon: sending it
  starts the timer of the next one, with no traffic in between.\<close>

lemma short_beacon_repeats:
  assumes "ki_online i" "ki_interface_ready i" "ki_beacon_interval i = Some t" "ki_first_tx i = Some t0"
    and "now > t0 + t" "length (ki_beacon_data i) < 15"
  shows "fst (kiss_idle True now i) = [kiss_frame (pad_beacon (ki_beacon_data i))]
    \<and> ki_first_tx (snd (kiss_idle True now i)) = Some now"
proof -
  have "pad_beacon (ki_beacon_data i) \<noteq> ki_beacon_data i"
    using assms(6) by (simp add: pad_beacon_def)
  then show ?thesis using assms(1-5) by (auto simp add: kiss_idle_def kiss_process_outgoing_def Let_def)
qed

end
