(* ===== verification/Spec2Isabelle.thy ===== *)
theory Spec2Isabelle
  imports Receipt Jobs_Correct Destination_Correct Ble_Engine_Correct Stream_Buffer Resource_Safety Link_Requests Framing_Correct
begin

text \<open>
  A verification development of Reticulum-rust, an implementation of the Reticulum network stack.

  \<^bold>\<open>The program.\<close> An application owns destinations, each with an identity (two key pairs). It makes them
  known by signed announces, sends packets to them, and opens links, over which it exchanges requests and responses, channels
  of messages, byte streams and Resources (transfers of any size). The transport keeps the tables by which packets find their
  way: paths learnt from announces, reverse paths, links in transit, path requests, receipts. Interfaces carry packets as
  frames on byte streams or over Bluetooth LE. \<^verbatim>\<open>Transport::inbound\<close> is where they meet: an interface hands
  it a frame, and it validates announces, forwards packets, and hands packets to destinations and links.

  \<^bold>\<open>Theories and sources\<close> (paths below \<^verbatim>\<open>src/\<close>). Operations keep the source's names; a record has the
  fields of the struct it stands for, with a prefix.
  \<^item> \<^verbatim>\<open>Prelude\<close>: machine integers, slices, big-endian codecs, generic lemmas.
  \<^item> \<^verbatim>\<open>Identity\<close> (\<^verbatim>\<open>src/identity.rs\<close>, \<^verbatim>\<open>src/known_destinations.rs\<close>): tokens, keys, encryption with ratchets, known
    ratchets and destinations. \<^verbatim>\<open>Announce\<close> (\<^verbatim>\<open>src/destination.rs\<close>, \<^verbatim>\<open>src/identity.rs\<close>, parts of \<^verbatim>\<open>src/transport.rs\<close>):
    names, announce data, validation, link proofs and their signalling bytes.
  \<^item> \<^verbatim>\<open>Destination\<close> (\<^verbatim>\<open>src/destination.rs\<close>): the destinations of this node, with their settings and request handlers, their
    ratchets and the file of these, the state all clones of a destination share, announces, encryption for every type
    of destination, and reception. \<^verbatim>\<open>Destination_Correct\<close>: its theorems.
  \<^item> \<^verbatim>\<open>Packet\<close>, \<^verbatim>\<open>Receipt\<close> (\<^verbatim>\<open>src/packet.rs\<close>): pack, unpack and hashes of packets; receipts, their callbacks and
    timeouts.
  \<^item> \<^verbatim>\<open>Announce_Queue\<close>, \<^verbatim>\<open>Path_Table\<close>, \<^verbatim>\<open>Transport_State\<close>, \<^verbatim>\<open>Path_Request\<close>, \<^verbatim>\<open>Inbound\<close> (\<^verbatim>\<open>src/transport.rs\<close>): what an
    interface keeps for announces, the routes to a destination, the state of the transport, path requests and tunnels, and
    \<^verbatim>\<open>inbound\<close> block by block. \<^verbatim>\<open>Inbound_Correct\<close> holds the theorems that span these. \<^verbatim>\<open>Outbound\<close>, \<^verbatim>\<open>Outbound_Correct\<close>: \<^verbatim>\<open>outbound\<close>,
    with the choice of a path, the rules of broadcasting and the receipts. \<^verbatim>\<open>Jobs\<close>, \<^verbatim>\<open>Jobs_Correct\<close>: the periodic
    \<^verbatim>\<open>jobs\<close> and the registration of interfaces, with the invariant of the node.
  \<^item> \<^verbatim>\<open>Link\<close>, \<^verbatim>\<open>Link_Actor\<close> (\<^verbatim>\<open>src/link.rs\<close>): the handshake, requests, identification; the actor with its mailbox, its
    packets by context, its Resources and its watchdog. \<^verbatim>\<open>Link_Correct\<close>, \<^verbatim>\<open>Link_Liveness\<close>, \<^verbatim>\<open>Link_Requests\<close>: its theorems.
  \<^item> \<^verbatim>\<open>Channel\<close>, \<^verbatim>\<open>Channel_Correct\<close> (\<^verbatim>\<open>src/channel.rs\<close>), \<^verbatim>\<open>Stream_Buffer\<close> (\<^verbatim>\<open>src/buffer.rs\<close>): messages with sequence
    numbers, and byte streams over them.
  \<^item> \<^verbatim>\<open>Resource\<close> (\<^verbatim>\<open>src/resource.rs\<close>) with \<^verbatim>\<open>Resource_Correct\<close>, \<^verbatim>\<open>Resource_Transfer\<close>, \<^verbatim>\<open>Resource_Safety\<close>: sender and
    receiver of a transfer, its hash map, requests, assembly, proof and watchdog.
  \<^item> \<^verbatim>\<open>Framing\<close>, \<^verbatim>\<open>Framing_Correct\<close> (\<^verbatim>\<open>src/interfaces\<close>): HDLC and KISS on byte streams, the frame bounds, the flow control
    of the KISS interface.
  \<^item> \<^verbatim>\<open>Ble_Wire\<close>, \<^verbatim>\<open>Ble_Engine\<close>, \<^verbatim>\<open>Ble_Engine_Correct\<close> (\<^verbatim>\<open>prns-ble/src\<close>): control messages, fragments and reassembly,
    the dialer's state machine.

  \<^bold>\<open>Modelling.\<close> An operation takes its state as a record and returns it updated, with the effects it asks for (packets
  sent, callbacks run, threads started) as a list in the order of the code. An error the code returns is \<open>Inl (Err _)\<close>, a
  panic \<open>Inl Panic\<close>. Integers have their width where the code relies on it. Cryptography, MessagePack and bzip2 are records
  of functions that the operations take as an argument; what a theorem needs of them (decryption undoes encryption, a
  signature made with a key validates, a codec loses nothing) is among its hypotheses, and its witness has a concrete
  instance. The clock and random bytes are arguments; seconds are reals. A critical section under a lock is one step;
  interleaving is a sequence of steps, over which the invariants are proved.

  \<^bold>\<open>What is shown.\<close>
  \<^item> Links: request, proof and round-trip time leave both ends with one session; in every history of an actor a closed link
    has no key and stays closed and an active initiator holds a key that the destination signed; every request concludes once;
    a silent link whose watchdog is not locked closes, from every open state. A forged proof stops a link from being
    established, and a request over the size limit is never answered.
  \<^item> Destinations: all clones act as one object with one list of ratchets, whoever rotates, and every clone reads what a peer
    encrypts to an announced ratchet; a destination is well formed under all its operations. Group destinations all have one
    key, enforced ratchets are not enforced, and an unreadable ratchet file loses the ratchets.
  \<^item> Transport: the invariant of the routing tables over every interleaving of frames, sent packets, passes of the jobs and
    changes of interfaces. Received: a forged announce changes nothing but the record of its hash, a repeated frame is dropped,
    a link in transit is validated only by a signed proof, forwarding keeps what it does not have to rewrite; bounds of
    announce rates; path requests answered once; an announce too short to be validated installs a route. Sent: a packet with a path
    leaves once, on the best one, and is read back by the next hop; others only on interfaces the rules allow; an own announce
    is not lost. Jobs: no receipt is dropped silently, announces are repeated twice at most, and a request that is to avoid an
    interface goes out on that interface only.
  \<^item> Transfers: a Resource over a loss-free link is delivered and proved within twice as many rounds as parts; the
    receiver's invariant under any input; termination of the search for a salt; the watchdog ends a silent transfer, except that of
    a receiver whose expected rate is zero. Channels and streams deliver in order, once, as refinements of a queue; a channel hangs
    once it has sent a message.
  \<^item> Framing: the readers deliver what was framed however the stream is cut, stay within their bounds on any input, and two of
    them never recover from a stray flag. Bluetooth LE: in-order delivery and the invariant of the engine.
  \<^item> Formats: packets, tokens and identity encryption round trips; announce validation characterised.

  \<^bold>\<open>Bounds and fuel.\<close> No function runs on fuel that hides a failure to return. The search for a salt runs over a list of
  drawn salts, and returns exactly if one of them is free of collisions. A transfer is followed for twice as many rounds
  as it has parts, which is shown to be enough; a watchdog for as many overdue turns as retries are left and one more (a
  floating-point number that is infinite or undefined is \<open>None\<close>, and the deadline is that only for an expected rate of zero); a silent
  link for turns whose clock passes its timeouts. The loops over buffers terminate by the length of the buffer.

  \<^bold>\<open>Not modelled.\<close> Sockets, serial ports, threads and locks, the foreign-function interfaces, configuration and process
  start-up, and logging: input and output around the core. Of the files only those of ratchets are modelled; the saved paths,
  tunnels, cached packets and known destinations are parameters or effects. The statistics of the transport; interface
  discovery and its stamps; the RNode, Post and I2P interfaces' own protocols.
\<close>

end
